(* ===== verification/Js_Prelude.thy ===== *)
theory Js_Prelude imports Main begin

text \<open>
  The statement language shared by every component. A JavaScript statement is a
  state transformer that ends with a completion: it falls through (\<open>Next\<close>), it
  returns (\<open>Ret\<close>) or it throws. The state reached before a throw is kept, as in
  the language. Expressions with effects return a value or an exception.

  The combinators are first order, so a method body is the list of its statements
  in the order of the source. Three predicates carry the proofs: \<open>keeps P s\<close> (the
  statement preserves \<open>P\<close> however it completes), \<open>agree P s t\<close> (so does \<open>s\<close>, and \<open>t\<close> does
  the same) and \<open>leads P s Q\<close> (from \<open>P\<close> the statement completes without a throw in \<open>Q\<close>).
\<close>

named_theorems agree_intro "rules that decompose goals on preservation and agreement"
named_theorems js_run "equations that execute statements"

section \<open>Completions\<close>

datatype js_error = TypeError | RangeError | URIError | PlainError string

datatype outcome = Next | Ret | Throw js_error

datatype 'a result = Val 'a | Exn js_error

type_synonym 's stmt = "'s \<Rightarrow> outcome \<times> 's"

type_synonym ('s, 'a) expr = "'s \<Rightarrow> 'a result \<times> 's"

section \<open>Statements\<close>

definition skip :: "'s stmt" where
  "skip w = (Next, w)"

definition ret :: "'s stmt" where
  "ret w = (Ret, w)"

definition throw :: "js_error \<Rightarrow> 's stmt" where
  "throw e w = (Throw e, w)"

definition upd :: "('s \<Rightarrow> 's) \<Rightarrow> 's stmt" where
  "upd f w = (Next, f w)"

fun block :: "'s stmt list \<Rightarrow> 's stmt" where
  "block [] w = (Next, w)"
| "block (s # ss) w =
     (case s w of
        (Next, w') \<Rightarrow> block ss w'
      | (Ret, w') \<Rightarrow> (Ret, w')
      | (Throw e, w') \<Rightarrow> (Throw e, w'))"

definition ifS :: "('s \<Rightarrow> bool) \<Rightarrow> 's stmt \<Rightarrow> 's stmt \<Rightarrow> 's stmt" where
  "ifS c s t w = (if c w then s w else t w)"

definition whenS :: "('s \<Rightarrow> bool) \<Rightarrow> 's stmt list \<Rightarrow> 's stmt" where
  "whenS c ss w = (if c w then block ss w else (Next, w))"

text \<open>\<open>getS f k\<close> reads a value of the state into a local variable.\<close>

definition getS :: "('s \<Rightarrow> 'a) \<Rightarrow> ('a \<Rightarrow> 's stmt) \<Rightarrow> 's stmt" where
  "getS f k w = k (f w) w"

text \<open>\<open>bindS e k\<close> evaluates an expression that may have effects or throw.\<close>

definition bindS :: "('s, 'a) expr \<Rightarrow> ('a \<Rightarrow> 's stmt) \<Rightarrow> 's stmt" where
  "bindS e k w = (case e w of (Val v, w') \<Rightarrow> k v w' | (Exn x, w') \<Rightarrow> (Throw x, w'))"

text \<open>A call of a method whose value is not used: its \<open>return\<close> ends the callee only.\<close>

definition callS :: "'s stmt \<Rightarrow> 's stmt" where
  "callS s w =
     (case s w of
        (Throw e, w') \<Rightarrow> (Throw e, w')
      | (Next, w') \<Rightarrow> (Next, w')
      | (Ret, w') \<Rightarrow> (Next, w'))"

text \<open>The callback loop over an array whose callback never returns \<open>false\<close>.\<close>

fun eachS :: "('a \<Rightarrow> nat \<Rightarrow> 's stmt) \<Rightarrow> nat \<Rightarrow> 'a list \<Rightarrow> 's stmt" where
  "eachS f i [] w = (Next, w)"
| "eachS f i (x # xs) w =
     (case callS (f x i) w of
        (Throw e, w') \<Rightarrow> (Throw e, w')
      | (Next, w') \<Rightarrow> eachS f (Suc i) xs w'
      | (Ret, w') \<Rightarrow> (Ret, w'))"

definition exprS :: "('s, 'a) expr \<Rightarrow> 's stmt" where
  "exprS e w = (case e w of (Val v, w') \<Rightarrow> (Next, w') | (Exn x, w') \<Rightarrow> (Throw x, w'))"

definition pureE :: "('s \<Rightarrow> 'a) \<Rightarrow> ('s, 'a) expr" where
  "pureE f w = (Val (f w), w)"

lemmas [js_run] = skip_def ret_def throw_def upd_def block.simps ifS_def whenS_def getS_def
  bindS_def callS_def eachS.simps exprS_def pureE_def

lemma block_append:
  "block (xs @ ys) w =
     (case block xs w of
        (Next, w') \<Rightarrow> block ys w'
      | (Ret, w') \<Rightarrow> (Ret, w')
      | (Throw e, w') \<Rightarrow> (Throw e, w'))"
  by (induction xs arbitrary: w) (auto split: prod.splits outcome.splits)

lemma block_single: "block [s] w = s w"
  by (simp split: prod.split outcome.split)

lemma callS_not_Ret: "fst (callS s w) \<noteq> Ret"
  by (auto simp: callS_def split: prod.splits outcome.splits)

section \<open>Preservation and agreement\<close>

definition keeps :: "('s \<Rightarrow> bool) \<Rightarrow> 's stmt \<Rightarrow> bool" where
  "keeps P s \<longleftrightarrow> (\<forall>w. P w \<longrightarrow> P (snd (s w)))"

definition keepsE :: "('s \<Rightarrow> bool) \<Rightarrow> ('s, 'a) expr \<Rightarrow> bool" where
  "keepsE P e \<longleftrightarrow> (\<forall>w. P w \<longrightarrow> P (snd (e w)))"

text \<open>Two statements agree under \<open>P\<close> when they do the same from every state of \<open>P\<close> and keep \<open>P\<close>.\<close>

definition agree :: "('s \<Rightarrow> bool) \<Rightarrow> 's stmt \<Rightarrow> 's stmt \<Rightarrow> bool" where
  "agree P s t \<longleftrightarrow> (\<forall>w. P w \<longrightarrow> s w = t w \<and> P (snd (t w)))"

definition agreeE :: "('s \<Rightarrow> bool) \<Rightarrow> ('s, 'a) expr \<Rightarrow> ('s, 'a) expr \<Rightarrow> bool" where
  "agreeE P d e \<longleftrightarrow> (\<forall>w. P w \<longrightarrow> d w = e w \<and> P (snd (e w)))"

lemma keepsD: "keeps P s \<Longrightarrow> P w \<Longrightarrow> P (snd (s w))"
  by (simp add: keeps_def)

lemma keepsD_eq: "keeps P s \<Longrightarrow> s w = (r, w') \<Longrightarrow> P w \<Longrightarrow> P w'"
  unfolding keeps_def by (metis snd_conv)

lemma keepsEI: "(\<And>w. P w \<Longrightarrow> P (snd (e w))) \<Longrightarrow> keepsE P e"
  by (simp add: keepsE_def)

lemma agreeI: "(\<And>w. P w \<Longrightarrow> s w = t w) \<Longrightarrow> (\<And>w. P w \<Longrightarrow> P (snd (s w))) \<Longrightarrow> agree P s t"
  by (simp add: agree_def)

lemma agreeD: "agree P s t \<Longrightarrow> P w \<Longrightarrow> s w = t w" "agree P s t \<Longrightarrow> P w \<Longrightarrow> P (snd (s w))"
  by (simp_all add: agree_def)

lemma agreeED: "agreeE P d e \<Longrightarrow> P w \<Longrightarrow> d w = e w" "agreeE P d e \<Longrightarrow> P w \<Longrightarrow> P (snd (d w))"
  by (simp_all add: agreeE_def)

lemma agreeD_cases:
  assumes "agree P s t" "P w"
  obtains r w' where "s w = (r, w')" "t w = (r, w')" "P w'"
  using assms unfolding agree_def by (metis prod.collapse)

lemma agree_keeps: "agree P s s = keeps P s" "agreeE P e e = keepsE P e"
  by (simp_all add: agree_def keeps_def agreeE_def keepsE_def)

lemma keeps_agree: "agree P s t \<Longrightarrow> keeps P s"
  by (simp add: agree_def keeps_def)

lemma agree_skip [agree_intro]: "agree P skip skip"
  by (simp add: agree_def skip_def)

lemma agree_ret [agree_intro]: "agree P ret ret"
  by (simp add: agree_def ret_def)

lemma agree_throw [agree_intro]: "agree P (throw e) (throw e)"
  by (simp add: agree_def throw_def)

lemma agree_upd [agree_intro]: "(\<And>w. P w \<Longrightarrow> P (f w)) \<Longrightarrow> agree P (upd f) (upd f)"
  by (simp add: agree_def upd_def)

lemma agree_block_Nil [agree_intro]: "agree P (block []) (block [])"
  by (simp add: agree_def)

lemma agree_block_Cons [agree_intro]:
  assumes "agree P s t" "agree P (block ss) (block ts)"
  shows "agree P (block (s # ss)) (block (t # ts))"
proof (rule agreeI)
  fix w assume "P w"
  with assms(1) obtain r w' where r: "s w = (r, w')" "t w = (r, w')" "P w'" by (rule agreeD_cases)
  show "block (s # ss) w = block (t # ts) w" using r agreeD(1) [OF assms(2) r(3)] by (cases r) simp_all
  show "P (snd (block (s # ss) w))" using r agreeD(2) [OF assms(2) r(3)] by (cases r) simp_all
qed

lemma agree_ifS [agree_intro]: "agree P s s' \<Longrightarrow> agree P t t' \<Longrightarrow> agree P (ifS c s t) (ifS c s' t')"
  by (simp add: agree_def ifS_def)

lemma agree_whenS [agree_intro]: "agree P (block ss) (block ts) \<Longrightarrow> agree P (whenS c ss) (whenS c ts)"
  by (simp add: agree_def whenS_def)

lemma agree_getS [agree_intro]: "(\<And>x. agree P (k x) (l x)) \<Longrightarrow> agree P (getS f k) (getS f l)"
  by (simp add: agree_def getS_def)

lemma agree_bindS [agree_intro]:
  assumes "agreeE P d e" "\<And>v. agree P (k v) (l v)"
  shows "agree P (bindS d k) (bindS e l)"
proof (rule agreeI)
  fix w assume w: "P w"
  obtain v w' where v: "d w = (v, w')" by force
  note e = agreeED [OF assms(1) w] agreeD [OF assms(2), of w']
  show "bindS d k w = bindS e l w" "P (snd (bindS d k w))"
    using v e by (cases v; simp add: bindS_def)+
qed

lemma agree_callS [agree_intro]: "agree P s t \<Longrightarrow> agree P (callS s) (callS t)"
  unfolding agree_def callS_def by (auto split: prod.splits outcome.splits)

lemma agree_eachS [agree_intro]:
  assumes "\<And>x i. agree P (f x i) (g x i)"
  shows "agree P (eachS f i xs) (eachS g i xs)"
proof (induction xs arbitrary: i)
  case Nil
  show ?case by (simp add: agree_def)
next
  case (Cons x xs)
  show ?case
  proof (rule agreeI)
    fix w assume "P w"
    with agree_callS [OF assms] obtain r w' where
      r: "callS (f x i) w = (r, w')" "callS (g x i) w = (r, w')" "P w'" by (rule agreeD_cases)
    show "eachS f i (x # xs) w = eachS g i (x # xs) w"
      using r agreeD(1) [OF Cons.IH r(3)] by (cases r) simp_all
    show "P (snd (eachS f i (x # xs) w))" using r agreeD(2) [OF Cons.IH r(3)] by (cases r) simp_all
  qed
qed

lemma agree_exprS [agree_intro]: "agreeE P d e \<Longrightarrow> agree P (exprS d) (exprS e)"
  unfolding agree_def agreeE_def exprS_def by (auto split: prod.splits result.splits)

lemma agreeE_pureE [agree_intro]: "agreeE P (pureE f) (pureE f)"
  by (simp add: agreeE_def pureE_def)

lemma agree_if [agree_intro]:
  "agree P s s' \<Longrightarrow> agree P t t' \<Longrightarrow> agree P (if c then s else t) (if c then s' else t')"
  by simp

lemma agree_option_case [agree_intro]:
  "(x = None \<Longrightarrow> agree P s s') \<Longrightarrow> (\<And>y. x = Some y \<Longrightarrow> agree P (t y) (t' y)) \<Longrightarrow>
   agree P (case x of None \<Rightarrow> s | Some y \<Rightarrow> t y) (case x of None \<Rightarrow> s' | Some y \<Rightarrow> t' y)"
  by (cases x) auto

lemma agree_prod_case [agree_intro]:
  "(\<And>a b. x = (a, b) \<Longrightarrow> agree P (f a b) (g a b)) \<Longrightarrow>
   agree P (case x of (a, b) \<Rightarrow> f a b) (case x of (a, b) \<Rightarrow> g a b)"
  by (cases x) simp

section \<open>Normal completion\<close>

definition leads :: "('s \<Rightarrow> bool) \<Rightarrow> 's stmt \<Rightarrow> ('s \<Rightarrow> bool) \<Rightarrow> bool" where
  "leads P s Q \<longleftrightarrow> (\<forall>w. P w \<longrightarrow> (\<exists>r w'. s w = (r, w') \<and> r \<in> {Next, Ret} \<and> Q w'))"

lemma leadsD: "leads P s Q \<Longrightarrow> P w \<Longrightarrow> Q (snd (s w)) \<and> fst (s w) \<in> {Next, Ret}"
  unfolding leads_def by force

lemma leads_callS: "leads P s Q \<Longrightarrow> leads P (callS s) Q"
  unfolding leads_def callS_def by fastforce

end
