(* ===== verification/Js_Value.thy ===== *)
theory Js_Value imports Complex_Main Js_Prelude begin

text \<open>
  JavaScript values as far as the program uses them: numbers (exact reals with NaN and the
  infinities; rounding and the sign of zero are not modelled), strings as lists of bytes,
  and the dynamic values an options object can hold. The conversions \<open>Number\<close>,
  \<open>String\<close>, \<open>parseInt\<close> and \<open>parseFloat\<close> read decimal literals; hexadecimal and
  exponent notation are left out.
\<close>

section \<open>Numbers\<close>

datatype jsnum = NaN | PInf | NInf | Fin real

fun nneg :: "jsnum \<Rightarrow> jsnum" where
  "nneg NaN = NaN"
| "nneg PInf = NInf"
| "nneg NInf = PInf"
| "nneg (Fin a) = Fin (- a)"

fun nadd :: "jsnum \<Rightarrow> jsnum \<Rightarrow> jsnum" where
  "nadd (Fin a) (Fin b) = Fin (a + b)"
| "nadd NaN y = NaN"
| "nadd x NaN = NaN"
| "nadd PInf NInf = NaN"
| "nadd NInf PInf = NaN"
| "nadd PInf y = PInf"
| "nadd NInf y = NInf"
| "nadd (Fin a) PInf = PInf"
| "nadd (Fin a) NInf = NInf"

definition nsub :: "jsnum \<Rightarrow> jsnum \<Rightarrow> jsnum" where
  "nsub x y = nadd x (nneg y)"

fun nsgn :: "jsnum \<Rightarrow> real" where
  "nsgn NaN = 0"
| "nsgn PInf = 1"
| "nsgn NInf = -1"
| "nsgn (Fin a) = sgn a"

definition ninf_of :: "real \<Rightarrow> jsnum" where
  "ninf_of s = (if s > 0 then PInf else if s < 0 then NInf else NaN)"

fun nmul :: "jsnum \<Rightarrow> jsnum \<Rightarrow> jsnum" where
  "nmul (Fin a) (Fin b) = Fin (a * b)"
| "nmul NaN y = NaN"
| "nmul x NaN = NaN"
| "nmul x y = ninf_of (nsgn x * nsgn y)"

fun ndiv :: "jsnum \<Rightarrow> jsnum \<Rightarrow> jsnum" where
  "ndiv (Fin a) (Fin b) = (if b = 0 then ninf_of (sgn a) else Fin (a / b))"
| "ndiv NaN y = NaN"
| "ndiv x NaN = NaN"
| "ndiv (Fin a) PInf = Fin 0"
| "ndiv (Fin a) NInf = Fin 0"
| "ndiv PInf (Fin b) = (if b < 0 then NInf else PInf)"
| "ndiv NInf (Fin b) = (if b < 0 then PInf else NInf)"
| "ndiv x y = NaN"

text \<open>Comparisons with NaN are false.\<close>

fun nlt :: "jsnum \<Rightarrow> jsnum \<Rightarrow> bool" where
  "nlt (Fin a) (Fin b) = (a < b)"
| "nlt NaN y = False"
| "nlt x NaN = False"
| "nlt NInf NInf = False"
| "nlt NInf y = True"
| "nlt x PInf = (x \<noteq> PInf)"
| "nlt x y = False"

definition neq :: "jsnum \<Rightarrow> jsnum \<Rightarrow> bool" where
  "neq x y \<longleftrightarrow> x \<noteq> NaN \<and> x = y"

definition nle :: "jsnum \<Rightarrow> jsnum \<Rightarrow> bool" where
  "nle x y \<longleftrightarrow> nlt x y \<or> neq x y"

definition nmax :: "jsnum \<Rightarrow> jsnum \<Rightarrow> jsnum" where
  "nmax x y = (if x = NaN \<or> y = NaN then NaN else if nlt x y then y else x)"

definition nmin :: "jsnum \<Rightarrow> jsnum \<Rightarrow> jsnum" where
  "nmin x y = (if x = NaN \<or> y = NaN then NaN else if nlt y x then y else x)"

fun nabs :: "jsnum \<Rightarrow> jsnum" where
  "nabs NaN = NaN"
| "nabs PInf = PInf"
| "nabs NInf = PInf"
| "nabs (Fin a) = Fin \<bar>a\<bar>"

fun nsqrt :: "jsnum \<Rightarrow> jsnum" where
  "nsqrt NaN = NaN"
| "nsqrt PInf = PInf"
| "nsqrt NInf = NaN"
| "nsqrt (Fin a) = (if a < 0 then NaN else Fin (sqrt a))"

fun nround :: "jsnum \<Rightarrow> jsnum" where
  "nround (Fin a) = Fin (of_int \<lfloor>a + 1 / 2\<rfloor>)"
| "nround x = x"

text \<open>\<open>x || y\<close> on numbers: zero and NaN are falsy.\<close>

definition nor :: "jsnum \<Rightarrow> jsnum \<Rightarrow> jsnum" where
  "nor x y = (if x = NaN \<or> x = Fin 0 then y else x)"

abbreviation nnat :: "nat \<Rightarrow> jsnum" where
  "nnat n \<equiv> Fin (real n)"

lemma nsub_Fin [simp]: "nsub (Fin a) (Fin b) = Fin (a - b)"
  by (simp add: nsub_def)

lemma nmax_Fin [simp]: "nmax (Fin a) (Fin b) = Fin (max a b)"
  by (simp add: nmax_def max_def)

lemma nmin_Fin [simp]: "nmin (Fin a) (Fin b) = Fin (min a b)"
  by (simp add: nmin_def min_def)

lemma nle_Fin [simp]: "nle (Fin a) (Fin b) \<longleftrightarrow> a \<le> b"
  by (auto simp: nle_def neq_def)

lemma neq_Fin [simp]: "neq (Fin a) (Fin b) \<longleftrightarrow> a = b"
  by (simp add: neq_def)

lemma ndiv_Fin [simp]: "b \<noteq> 0 \<Longrightarrow> ndiv (Fin a) (Fin b) = Fin (a / b)"
  by simp

lemma nor_Fin: "nor (Fin a) y = (if a = 0 then y else Fin a)"
  by (simp add: nor_def)

lemma nlt_asym: "nlt x y \<Longrightarrow> \<not> nlt y x"
  by (cases "(x, y)" rule: nlt.cases) auto

section \<open>Dynamic values\<close>

text \<open>
  \<open>Fun k\<close> is a function the page supplies, named by a number; \<open>Elem n\<close> a DOM element;
  \<open>SymObj\<close> a symbol of a polyfill, an object whose constructor is \<open>Symbol\<close>.
\<close>

datatype jsval =
    Undefined
  | Null
  | Bool bool
  | Num jsnum
  | Str string
  | Fun nat
  | Arr "jsval list"
  | Obj "(string \<times> jsval) list"
  | Elem nat
  | SymObj

fun js_typeof :: "jsval \<Rightarrow> string" where
  "js_typeof Undefined = ''undefined''"
| "js_typeof (Bool b) = ''boolean''"
| "js_typeof (Num x) = ''number''"
| "js_typeof (Str s) = ''string''"
| "js_typeof (Fun k) = ''function''"
| "js_typeof v = ''object''"

fun truthy :: "jsval \<Rightarrow> bool" where
  "truthy Undefined = False"
| "truthy Null = False"
| "truthy (Bool b) = b"
| "truthy (Num x) = (x \<noteq> NaN \<and> x \<noteq> Fin 0)"
| "truthy (Str s) = (s \<noteq> [])"
| "truthy v = True"

section \<open>Objects as association lists in insertion order\<close>

fun oget :: "(string \<times> jsval) list \<Rightarrow> string \<Rightarrow> jsval" where
  "oget [] k = Undefined"
| "oget ((k', v) # ps) k = (if k' = k then v else oget ps k)"

fun ohas :: "(string \<times> 'v) list \<Rightarrow> string \<Rightarrow> bool" where
  "ohas [] k = False"
| "ohas ((k', v) # ps) k = (k' = k \<or> ohas ps k)"

text \<open>An assignment keeps the place of a key that is present and appends a new one.\<close>

fun oset :: "(string \<times> 'v) list \<Rightarrow> string \<Rightarrow> 'v \<Rightarrow> (string \<times> 'v) list" where
  "oset [] k v = [(k, v)]"
| "oset ((k', v') # ps) k v = (if k' = k then (k', v) # ps else (k', v') # oset ps k v)"

definition odel :: "(string \<times> 'v) list \<Rightarrow> string \<Rightarrow> (string \<times> 'v) list" where
  "odel ps k = filter (\<lambda>p. fst p \<noteq> k) ps"

lemma oget_oset [simp]: "oget (oset ps k v) k' = (if k' = k then v else oget ps k')"
  by (induction ps k v rule: oset.induct) auto

lemma ohas_oset [simp]: "ohas (oset ps k v) k' \<longleftrightarrow> k' = k \<or> ohas ps k'"
  by (induction ps k v rule: oset.induct) auto

lemma map_of_oset: "map_of (oset ps k v) = (map_of ps)(k \<mapsto> v)"
  by (induction ps k v rule: oset.induct) auto

lemma set_keys_oset: "set (map fst (oset ps k v)) = insert k (set (map fst ps))"
  by (induction ps k v rule: oset.induct) auto

lemma distinct_oset: "distinct (map fst ps) \<Longrightarrow> distinct (map fst (oset ps k v))"
  by (induction ps k v rule: oset.induct) (auto simp: set_keys_oset [simplified])

lemma oget_map_of: "oget ps k = (case map_of ps k of None \<Rightarrow> Undefined | Some v \<Rightarrow> v)"
  by (induction ps k rule: oget.induct) auto

section \<open>Decimal text\<close>

definition is_space :: "char \<Rightarrow> bool" where
  "is_space c \<longleftrightarrow> c \<in> {CHR '' '', CHR 0x09, CHR 0x0A, CHR 0x0B, CHR 0x0C, CHR 0x0D}"

definition code :: "char \<Rightarrow> nat" where
  "code c = of_char c"

definition is_digit :: "char \<Rightarrow> bool" where
  "is_digit c \<longleftrightarrow> 48 \<le> code c \<and> code c \<le> 57"

definition digit_val :: "char \<Rightarrow> nat" where
  "digit_val c = code c - 48"

definition digit_char :: "nat \<Rightarrow> char" where
  "digit_char d = char_of (48 + d)"

fun trim :: "string \<Rightarrow> string" where
  "trim s = rev (dropWhile is_space (rev (dropWhile is_space s)))"

fun nat_to_str :: "nat \<Rightarrow> string" where
  "nat_to_str n =
     (if n < 10 then [digit_char n] else nat_to_str (n div 10) @ [digit_char (n mod 10)])"

declare nat_to_str.simps [simp del]

definition digits_val :: "string \<Rightarrow> nat" where
  "digits_val s = foldl (\<lambda>a c. 10 * a + digit_val c) 0 s"

definition int_to_str :: "int \<Rightarrow> string" where
  "int_to_str i = (if i < 0 then ''-'' @ nat_to_str (nat (- i)) else nat_to_str (nat i))"

text \<open>
  The fraction of a number that is not an integer, at most \<open>n\<close> digits, trailing zeros
  dropped because the expansion stops at remainder zero.
\<close>

fun frac_digits :: "nat \<Rightarrow> real \<Rightarrow> string" where
  "frac_digits 0 x = []"
| "frac_digits (Suc n) x =
     (if x = 0 then []
      else digit_char (nat \<lfloor>10 * x\<rfloor>) # frac_digits n (10 * x - of_int \<lfloor>10 * x\<rfloor>))"

fun num_to_str :: "jsnum \<Rightarrow> string" where
  "num_to_str NaN = ''NaN''"
| "num_to_str PInf = ''Infinity''"
| "num_to_str NInf = ''-Infinity''"
| "num_to_str (Fin a) =
     (if a = of_int \<lfloor>a\<rfloor> then int_to_str \<lfloor>a\<rfloor>
      else (if a < 0 then ''-'' else []) @ int_to_str \<lfloor>\<bar>a\<bar>\<rfloor> @ ''.'' @
        frac_digits 17 (\<bar>a\<bar> - of_int \<lfloor>\<bar>a\<bar>\<rfloor>))"

text \<open>An unsigned decimal literal \<open>ddd[.ddd]\<close> at the head of a string, and what follows it.\<close>

definition read_decimal :: "string \<Rightarrow> (real \<times> string) option" where
  "read_decimal s =
     (let ip = takeWhile is_digit s; r = dropWhile is_digit s;
          fp = (case r of [] \<Rightarrow> [] | c # cs \<Rightarrow> if c = CHR ''.'' then takeWhile is_digit cs else []);
          r' = (case r of [] \<Rightarrow> [] | c # cs \<Rightarrow>
                  if c = CHR ''.'' \<and> (ip \<noteq> [] \<or> fp \<noteq> []) then dropWhile is_digit cs else r)
      in if ip = [] \<and> fp = [] then None
         else Some (real (digits_val ip) + real (digits_val fp) / 10 ^ length fp, r'))"

definition read_signed :: "string \<Rightarrow> (real \<times> string) option" where
  "read_signed s =
     (case s of
        [] \<Rightarrow> None
      | c # cs \<Rightarrow>
          if c = CHR ''-'' then map_option (\<lambda>(x, r). (- x, r)) (read_decimal cs)
          else if c = CHR ''+'' then read_decimal cs
          else read_decimal s)"

definition str_to_num :: "string \<Rightarrow> jsnum" where
  "str_to_num s =
     (let t = trim s
      in if t = [] then Fin 0
         else if t = ''Infinity'' \<or> t = ''+Infinity'' then PInf
         else if t = ''-Infinity'' then NInf
         else (case read_signed t of
                 Some (x, r) \<Rightarrow> (if r = [] then Fin x else NaN)
               | None \<Rightarrow> NaN))"

definition parseFloat :: "string \<Rightarrow> jsnum" where
  "parseFloat s =
     (case read_signed (dropWhile is_space s) of Some (x, r) \<Rightarrow> Fin x | None \<Rightarrow> NaN)"

definition parseInt :: "string \<Rightarrow> jsnum" where
  "parseInt s =
     (let t = dropWhile is_space s;
          neg = (t \<noteq> [] \<and> hd t = CHR ''-'');
          u = (if t \<noteq> [] \<and> (hd t = CHR ''-'' \<or> hd t = CHR ''+'') then tl t else t);
          ds = takeWhile is_digit u
      in if ds = [] then NaN
         else Fin (if neg then - real (digits_val ds) else real (digits_val ds)))"

text \<open>\<open>Number(v)\<close>; an array converts through its text, any other object gives NaN.\<close>

fun to_str :: "jsval \<Rightarrow> string" and to_str_list :: "jsval list \<Rightarrow> string" where
  "to_str Undefined = ''undefined''"
| "to_str Null = ''null''"
| "to_str (Bool b) = (if b then ''true'' else ''false'')"
| "to_str (Num x) = num_to_str x"
| "to_str (Str s) = s"
| "to_str (Fun k) = ''function'' @ nat_to_str k"
| "to_str (Arr vs) = to_str_list vs"
| "to_str (Obj ps) = ''[object Object]''"
| "to_str (Elem n) = ''[object HTMLElement]''"
| "to_str SymObj = ''Symbol()''"
| "to_str_list [] = []"
| "to_str_list [v] = (if v \<in> {Undefined, Null} then [] else to_str v)"
| "to_str_list (v # vs) = (if v \<in> {Undefined, Null} then [] else to_str v) @ '','' @ to_str_list vs"

definition to_num :: "jsval \<Rightarrow> jsnum" where
  "to_num v =
     (case v of
        Undefined \<Rightarrow> NaN
      | Null \<Rightarrow> Fin 0
      | Bool b \<Rightarrow> (if b then Fin 1 else Fin 0)
      | Num x \<Rightarrow> x
      | Str s \<Rightarrow> str_to_num s
      | Arr vs \<Rightarrow> str_to_num (to_str_list vs)
      | _ \<Rightarrow> NaN)"

end
