(* ===== verification/Js_Facts.thy ===== *)
theory Js_Facts imports Js_Value begin

text \<open>
  Facts about numbers and decimal text: the printed form of a natural number reads back as
  that number, by \<open>Number\<close> and by \<open>parseInt\<close>.
\<close>

section \<open>Digits\<close>

lemma code_digit_char [simp]: "d < 10 \<Longrightarrow> code (digit_char d) = 48 + d"
  by (simp add: code_def digit_char_def)

lemma digit_char_facts [simp]:
  "d < 10 \<Longrightarrow> is_digit (digit_char d)" "d < 10 \<Longrightarrow> digit_val (digit_char d) = d"
  by (simp_all add: is_digit_def digit_val_def)

lemma is_digit_not:
  "is_digit c \<Longrightarrow> \<not> is_space c" "is_digit c \<Longrightarrow> c \<noteq> CHR ''-''" "is_digit c \<Longrightarrow> c \<noteq> CHR ''+''"
  "is_digit c \<Longrightarrow> c \<noteq> CHR ''.''" "is_digit c \<Longrightarrow> c \<noteq> CHR ''I''"
  by (auto simp: is_digit_def is_space_def code_def)

lemma digits_val_snoc [simp]: "digits_val (s @ [c]) = 10 * digits_val s + digit_val c"
  by (simp add: digits_val_def)

lemma nat_to_str_digits: "list_all is_digit (nat_to_str n)"
proof (induction n rule: nat_to_str.induct)
  case (1 n)
  then show ?case by (simp add: nat_to_str.simps [of n])
qed

lemma nat_to_str_not_Nil: "nat_to_str n \<noteq> []"
  by (simp add: nat_to_str.simps [of n])

lemma digits_val_nat_to_str [simp]: "digits_val (nat_to_str n) = n"
proof (induction n rule: nat_to_str.induct)
  case (1 n)
  show ?case
  proof (cases "n < 10")
    case True
    then show ?thesis by (simp add: nat_to_str.simps [of n] digits_val_def)
  next
    case False
    with 1 show ?thesis by (simp add: nat_to_str.simps [of n])
  qed
qed

section \<open>Reading back\<close>

lemma takeWhile_digits: "list_all is_digit s \<Longrightarrow> takeWhile is_digit s = s"
  by (induction s) auto

lemma dropWhile_digits: "list_all is_digit s \<Longrightarrow> dropWhile is_digit s = []"
  by (induction s) auto

lemma read_decimal_nat_to_str: "read_decimal (nat_to_str n) = Some (real n, [])"
  using nat_to_str_digits [of n] nat_to_str_not_Nil [of n]
  by (simp add: read_decimal_def takeWhile_digits dropWhile_digits digits_val_def [of "[]"])

lemma nat_to_str_Cons: "\<exists>c cs. nat_to_str n = c # cs \<and> is_digit c"
  using nat_to_str_digits [of n] nat_to_str_not_Nil [of n] by (cases "nat_to_str n") auto

lemma read_signed_nat_to_str: "read_signed (nat_to_str n) = Some (real n, [])"
proof -
  obtain c cs where c: "nat_to_str n = c # cs" "is_digit c" using nat_to_str_Cons by blast
  then show ?thesis using read_decimal_nat_to_str [of n] by (simp add: read_signed_def is_digit_not)
qed

lemma dropWhile_space_digits: "list_all is_digit s \<Longrightarrow> dropWhile is_space s = s"
  by (cases s) (auto simp: is_digit_not)

lemma trim_nat_to_str: "trim (nat_to_str n) = nat_to_str n"
  using nat_to_str_digits [of n] by (simp add: dropWhile_space_digits list_all_rev)

lemma str_to_num_nat_to_str [simp]: "str_to_num (nat_to_str n) = nnat n"
proof -
  obtain c cs where c: "nat_to_str n = c # cs" "is_digit c" using nat_to_str_Cons by blast
  then have "c \<noteq> CHR ''I''" "c \<noteq> CHR ''+''" "c \<noteq> CHR ''-''" by (simp_all add: is_digit_not)
  with c have "nat_to_str n \<noteq> ''Infinity''" "nat_to_str n \<noteq> ''+Infinity''"
    "nat_to_str n \<noteq> ''-Infinity''" by auto
  then show ?thesis
    by (simp add: str_to_num_def trim_nat_to_str read_signed_nat_to_str nat_to_str_not_Nil del: trim.simps)
qed

lemma parseInt_nat_to_str [simp]: "parseInt (nat_to_str n) = nnat n"
proof -
  obtain c cs where c: "nat_to_str n = c # cs" "is_digit c" using nat_to_str_Cons by blast
  then have "\<not> is_space c" "c \<noteq> CHR ''+''" "c \<noteq> CHR ''-''" by (simp_all add: is_digit_not)
  then show ?thesis
    using c nat_to_str_digits [of n] digits_val_nat_to_str [of n]
    by (simp add: parseInt_def dropWhile_space_digits takeWhile_digits)
qed

lemma num_to_str_nat [simp]: "num_to_str (nnat n) = nat_to_str n"
  by (simp add: int_to_str_def)

section \<open>Numbers\<close>

lemma nor_pos [simp]: "0 < a \<Longrightarrow> nor (Fin a) y = Fin a"
  by (simp add: nor_def)

lemma parseInt_whole: "parseInt s = Fin x \<Longrightarrow> \<exists>i. x = real_of_int i"
  by (auto simp: parseInt_def Let_def split: if_splits)
     (metis of_int_minus of_int_of_nat_eq)+

lemma parseInt_cases: "parseInt s = NaN \<or> (\<exists>i. parseInt s = Fin (real_of_int i))"
  by (auto simp: parseInt_def Let_def) (metis of_int_minus of_int_of_nat_eq)+

end
