(* ===== verification/Machines.thy ===== *)
theory Machines imports Main begin

text \<open>
  The contract between a script of a page and what a visitor is promised: a machine of fewer
  variables that the page follows event by event.
\<close>

text \<open>
  \<open>displays a s\<close> says that the page \<open>s\<close> shows what the abstract state \<open>a\<close> says, \<open>may\<close> holds of the
  events the page can have.
\<close>

locale simulation =
  fixes step :: "'e \<Rightarrow> 's \<Rightarrow> 's" and spec :: "'e \<Rightarrow> 'a \<Rightarrow> 'a"
    and displays :: "'a \<Rightarrow> 's \<Rightarrow> bool" and may :: "'e \<Rightarrow> bool"
  assumes step_displays: "displays a s \<Longrightarrow> may e \<Longrightarrow> displays (spec e a) (step e s)"
begin

abbreviation run :: "'e list \<Rightarrow> 's \<Rightarrow> 's" where
  "run es s \<equiv> foldl (\<lambda>s e. step e s) s es"

abbreviation spec_run :: "'e list \<Rightarrow> 'a \<Rightarrow> 'a" where
  "spec_run es a \<equiv> foldl (\<lambda>a e. spec e a) a es"

lemma run_displays: "displays a s \<Longrightarrow> list_all may es \<Longrightarrow> displays (spec_run es a) (run es s)"
  by (induction es arbitrary: a s) (auto intro: step_displays)

end

lemma last_event: "foldl (\<lambda>a e. e) a es = last (a # es)"
  by (induction es arbitrary: a) simp_all

end
