(* ===== verification/Babel.thy ===== *)
theory Babel imports Js_Value begin

text \<open>
  The compiler's helper functions at the head of the bundle, and the module wrapper around
  it. Objects are modelled here at the level of property descriptors, because that is what
  the helpers manipulate.
\<close>

section \<open>The module wrapper\<close>

text \<open>
  What the loader of the page offers decides where the class is published. The flags stand
  for \<open>exports\<close> and \<open>module\<close>, \<open>define.amd\<close>, and \<open>globalThis\<close>.
\<close>

record loader =
  has_exports :: bool
  has_module :: bool
  has_amd :: bool
  has_globalThis :: bool

datatype publication = CommonJs | Amd | GlobalThis string | GlobalOrSelf string

definition publish :: "loader \<Rightarrow> publication" where
  "publish l =
     (if has_exports l \<and> has_module l then CommonJs
      else if has_amd l then Amd
      else if has_globalThis l then GlobalThis ''Viewer''
      else GlobalOrSelf ''Viewer'')"

section \<open>Type names\<close>

text \<open>
  Without native symbols a polyfilled symbol is an object that \<open>typeof\<close> would call
  \<open>object\<close>; the helper then reports \<open>symbol\<close>.
\<close>

definition babel_typeof :: "bool \<Rightarrow> jsval \<Rightarrow> string" where
  "babel_typeof native v =
     (if native then js_typeof v
      else if v = SymObj then ''symbol'' else js_typeof v)"

section \<open>Property descriptors\<close>

datatype pkey = PStr string | PSym nat

record descriptor =
  d_value :: "jsval option"
  d_enumerable :: bool
  d_configurable :: bool
  d_writable :: bool

type_synonym pobj = "(pkey \<times> descriptor) list"

fun pget :: "pobj \<Rightarrow> pkey \<Rightarrow> descriptor option" where
  "pget [] k = None"
| "pget ((k', d) # ps) k = (if k' = k then Some d else pget ps k)"

fun pset :: "pobj \<Rightarrow> pkey \<Rightarrow> descriptor \<Rightarrow> pobj" where
  "pset [] k d = [(k, d)]"
| "pset ((k', d') # ps) k d = (if k' = k then (k', d) # ps else (k', d') # pset ps k d)"

lemma pget_pset [simp]: "pget (pset ps k d) k' = (if k' = k then Some d else pget ps k')"
  by (induction ps k d rule: pset.induct) auto

text \<open>\<open>Object.defineProperty\<close> refuses to redefine a property that is not configurable.\<close>

definition define_own :: "pobj \<Rightarrow> pkey \<Rightarrow> descriptor \<Rightarrow> pobj result" where
  "define_own ob k d =
     (case pget ob k of
        Some d0 \<Rightarrow> if d_configurable d0 then Val (pset ob k d) else Exn TypeError
      | None \<Rightarrow> Val (pset ob k d))"

definition classCallCheck :: "bool \<Rightarrow> unit result" where
  "classCallCheck is_instance = (if is_instance then Val () else Exn TypeError)"

fun defineProperties :: "pobj \<Rightarrow> (pkey \<times> descriptor) list \<Rightarrow> pobj result" where
  "defineProperties target [] = Val target"
| "defineProperties target ((k, d) # props) =
     (let d1 = d\<lparr>d_configurable := True\<rparr>;
          d2 = (if d_value d1 \<noteq> None then d1\<lparr>d_writable := True\<rparr> else d1)
      in case define_own target k d2 of
           Val target' \<Rightarrow> defineProperties target' props
         | Exn e \<Rightarrow> Exn e)"

definition createClass ::
  "pobj \<Rightarrow> pobj \<Rightarrow> (pkey \<times> descriptor) list option \<Rightarrow> (pkey \<times> descriptor) list option \<Rightarrow>
   (pobj \<times> pobj) result" where
  "createClass proto constr protoProps staticProps =
     (case (case protoProps of Some ps \<Rightarrow> defineProperties proto ps | None \<Rightarrow> Val proto) of
        Exn e \<Rightarrow> Exn e
      | Val proto' \<Rightarrow>
          (case (case staticProps of Some ps \<Rightarrow> defineProperties constr ps | None \<Rightarrow> Val constr) of
             Exn e \<Rightarrow> Exn e
           | Val constr' \<Rightarrow> Val (proto', constr')))"

definition plain_desc :: "jsval \<Rightarrow> descriptor" where
  "plain_desc v = \<lparr>d_value = Some v, d_enumerable = True, d_configurable = True, d_writable = True\<rparr>"

text \<open>A plain assignment keeps the flags of a property that is present.\<close>

definition assign_prop :: "pobj \<Rightarrow> pkey \<Rightarrow> jsval \<Rightarrow> pobj" where
  "assign_prop ob k v =
     (case pget ob k of
        Some d \<Rightarrow> if d_writable d then pset ob k (d\<lparr>d_value := Some v\<rparr>) else ob
      | None \<Rightarrow> pset ob k (plain_desc v))"

definition defineProperty :: "pobj \<Rightarrow> pkey \<Rightarrow> jsval \<Rightarrow> pobj result" where
  "defineProperty ob k v =
     (if pget ob k \<noteq> None then define_own ob k (plain_desc v) else Val (assign_prop ob k v))"

definition is_sym :: "pkey \<Rightarrow> bool" where
  "is_sym k = (case k of PSym n \<Rightarrow> True | PStr s \<Rightarrow> False)"

definition ownKeys :: "bool \<Rightarrow> pobj \<Rightarrow> bool \<Rightarrow> pkey list" where
  "ownKeys has_symbols ob enumerableOnly =
     map fst (filter (\<lambda>p. \<not> is_sym (fst p) \<and> d_enumerable (snd p)) ob) @
     (if has_symbols
      then map fst (filter (\<lambda>p. is_sym (fst p) \<and> (enumerableOnly \<longrightarrow> d_enumerable (snd p))) ob)
      else [])"

definition pvalue :: "pobj \<Rightarrow> pkey \<Rightarrow> jsval" where
  "pvalue ob k = (case pget ob k of Some d \<Rightarrow> (case d_value d of Some v \<Rightarrow> v | None \<Rightarrow> Undefined)
                                  | None \<Rightarrow> Undefined)"

fun copy_values :: "pobj \<Rightarrow> pobj \<Rightarrow> pkey list \<Rightarrow> pobj result" where
  "copy_values target source [] = Val target"
| "copy_values target source (k # ks) =
     (case defineProperty target k (pvalue source k) of
        Val target' \<Rightarrow> copy_values target' source ks
      | Exn e \<Rightarrow> Exn e)"

fun copy_descriptors :: "pobj \<Rightarrow> (pkey \<times> descriptor) list \<Rightarrow> pobj result" where
  "copy_descriptors target [] = Val target"
| "copy_descriptors target ((k, d) # ps) =
     (case define_own target k d of
        Val target' \<Rightarrow> copy_descriptors target' ps
      | Exn e \<Rightarrow> Exn e)"

text \<open>
  Sources at odd positions are copied by value, sources at even positions with their
  descriptors (all own properties where the engine has \<open>getOwnPropertyDescriptors\<close>, else the
  keys of \<open>ownKeys\<close>). A null source counts as an empty object.
\<close>

fun objectSpread2 :: "bool \<Rightarrow> bool \<Rightarrow> pobj \<Rightarrow> nat \<Rightarrow> pobj option list \<Rightarrow> pobj result" where
  "objectSpread2 has_symbols has_gopd target i [] = Val target"
| "objectSpread2 has_symbols has_gopd target i (s # ss) =
     (let source = (case s of Some ob \<Rightarrow> ob | None \<Rightarrow> [])
      in case (if odd i then copy_values target source (ownKeys has_symbols source True)
               else if has_gopd then copy_descriptors target source
               else copy_descriptors target
                      (map (\<lambda>k. (k, the (pget source k))) (ownKeys has_symbols source False))) of
           Val target' \<Rightarrow> objectSpread2 has_symbols has_gopd target' (Suc i) ss
         | Exn e \<Rightarrow> Exn e)"

section \<open>Facts\<close>

text \<open>Every property the helpers define with a value ends up configurable.\<close>

lemma defineProperty_value:
  "defineProperty ob k v = Val ob' \<Longrightarrow> \<forall>d. pget ob k = Some d \<longrightarrow> d_configurable d \<Longrightarrow>
   pvalue ob' k = v"
  by (auto simp: defineProperty_def define_own_def assign_prop_def pvalue_def plain_desc_def
      split: option.splits if_splits)

lemma defineProperty_other:
  "defineProperty ob k v = Val ob' \<Longrightarrow> k' \<noteq> k \<Longrightarrow> pget ob' k' = pget ob k'"
  by (auto simp: defineProperty_def define_own_def assign_prop_def plain_desc_def
      split: option.splits if_splits)

lemma copy_values_other:
  "copy_values t s ks = Val t' \<Longrightarrow> k \<notin> set ks \<Longrightarrow> pget t' k = pget t k"
  by (induction t s ks rule: copy_values.induct)
    (auto split: result.splits dest: defineProperty_other)

end
