(* ===== verification/Viewer_Config.thy ===== *)
theory Viewer_Config imports Js_Value begin

text \<open>
  The constants of the viewer: the default options, the markup template, what the bundle
  finds out about the browser, the class and event names and the list of toolbar buttons.
\<close>

section \<open>Default options\<close>

definition DEFAULTS_look :: "(string \<times> jsval) list" where
  "DEFAULTS_look =
     [(''backdrop'', Bool True),
      (''button'', Bool True),
      (''navbar'', Bool True),
      (''title'', Bool True),
      (''toolbar'', Bool True),
      (''className'', Str []),
      (''container'', Str ''body''),
      (''filter'', Null),
      (''fullscreen'', Bool True),
      (''inheritedAttributes'',
        Arr [Str ''crossOrigin'', Str ''decoding'', Str ''isMap'', Str ''loading'',
             Str ''referrerPolicy'', Str ''sizes'', Str ''srcset'', Str ''useMap'']),
      (''initialViewIndex'', Num (Fin 0)),
      (''inline'', Bool False),
      (''interval'', Num (Fin 5000)),
      (''keyboard'', Bool True),
      (''loading'', Bool True),
      (''loop'', Bool True),
      (''minWidth'', Num (Fin 200)),
      (''minHeight'', Num (Fin 100))]"

definition DEFAULTS_behaviour :: "(string \<times> jsval) list" where
  "DEFAULTS_behaviour =
     [(''movable'', Bool True),
      (''rotatable'', Bool True),
      (''scalable'', Bool True),
      (''zoomable'', Bool True),
      (''zoomOnTouch'', Bool True),
      (''zoomOnWheel'', Bool True),
      (''slideOnTouch'', Bool True),
      (''toggleOnDblclick'', Bool True),
      (''tooltip'', Bool True),
      (''transition'', Bool True),
      (''zIndex'', Num (Fin 2015)),
      (''zIndexInline'', Num (Fin 0)),
      (''zoomRatio'', Num (Fin (1 / 10))),
      (''minZoomRatio'', Num (Fin (1 / 100))),
      (''maxZoomRatio'', Num (Fin 100)),
      (''url'', Str ''src'')]"

definition DEFAULTS_events :: "(string \<times> jsval) list" where
  "DEFAULTS_events =
     [(''ready'', Null), (''show'', Null), (''shown'', Null), (''hide'', Null),
      (''hidden'', Null), (''view'', Null), (''viewed'', Null), (''zoom'', Null),
      (''zoomed'', Null), (''play'', Null), (''stop'', Null)]"

definition DEFAULTS :: "(string \<times> jsval) list" where
  "DEFAULTS = DEFAULTS_look @ DEFAULTS_behaviour @ DEFAULTS_events"

section \<open>Markup\<close>

definition TEMPLATE :: string where
  "TEMPLATE =
     ''<div class=\"viewer-container\" touch-action=\"none\">'' @
     ''<div class=\"viewer-canvas\"></div>'' @
     ''<div class=\"viewer-footer\">'' @
     ''<div class=\"viewer-title\"></div>'' @
     ''<div class=\"viewer-toolbar\"></div>'' @
     ''<div class=\"viewer-navbar\">'' @
     ''<ul class=\"viewer-list\"></ul>'' @
     ''</div>'' @
     ''</div>'' @
     ''<div class=\"viewer-tooltip\"></div>'' @
     ''<div role=\"button\" class=\"viewer-button\" data-viewer-action=\"mix\"></div>'' @
     ''<div class=\"viewer-player\"></div>'' @
     ''</div>''"

section \<open>The browser\<close>

text \<open>What the bundle can observe of the page it is loaded in.\<close>

record platform =
  p_has_window :: bool
  p_has_documentElement :: bool
  p_ontouchstart :: bool
  p_PointerEvent :: bool
  p_safari_agent :: bool
  p_reads_once :: bool
  p_classList :: bool
  p_dataset :: bool
  p_style_transition :: bool
  p_CustomEvent :: bool

definition IS_BROWSER :: "platform \<Rightarrow> bool" where
  "IS_BROWSER p = p_has_window p"

definition IS_TOUCH_DEVICE :: "platform \<Rightarrow> bool" where
  "IS_TOUCH_DEVICE p =
     (if IS_BROWSER p \<and> p_has_documentElement p then p_ontouchstart p else False)"

definition HAS_POINTER_EVENT :: "platform \<Rightarrow> bool" where
  "HAS_POINTER_EVENT p = (if IS_BROWSER p then p_PointerEvent p else False)"

definition NAMESPACE :: string where "NAMESPACE = ''viewer''"

section \<open>Actions and classes\<close>

datatype action = ActNone | ActMove | ActSwitch | ActZoom | ActSwitched

definition CLASS_ACTIVE :: string where "CLASS_ACTIVE = ''viewer-active''"
definition CLASS_CLOSE :: string where "CLASS_CLOSE = ''viewer-close''"
definition CLASS_FADE :: string where "CLASS_FADE = ''viewer-fade''"
definition CLASS_FIXED :: string where "CLASS_FIXED = ''viewer-fixed''"
definition CLASS_FULLSCREEN :: string where "CLASS_FULLSCREEN = ''viewer-fullscreen''"
definition CLASS_FULLSCREEN_EXIT :: string where
  "CLASS_FULLSCREEN_EXIT = ''viewer-fullscreen-exit''"
definition CLASS_HIDE :: string where "CLASS_HIDE = ''viewer-hide''"
definition CLASS_HIDE_MD_DOWN :: string where "CLASS_HIDE_MD_DOWN = ''viewer-hide-md-down''"
definition CLASS_HIDE_SM_DOWN :: string where "CLASS_HIDE_SM_DOWN = ''viewer-hide-sm-down''"
definition CLASS_HIDE_XS_DOWN :: string where "CLASS_HIDE_XS_DOWN = ''viewer-hide-xs-down''"
definition CLASS_IN :: string where "CLASS_IN = ''viewer-in''"
definition CLASS_INVISIBLE :: string where "CLASS_INVISIBLE = ''viewer-invisible''"
definition CLASS_LOADING :: string where "CLASS_LOADING = ''viewer-loading''"
definition CLASS_MOVE :: string where "CLASS_MOVE = ''viewer-move''"
definition CLASS_OPEN :: string where "CLASS_OPEN = ''viewer-open''"
definition CLASS_SHOW :: string where "CLASS_SHOW = ''viewer-show''"
definition CLASS_TRANSITION :: string where "CLASS_TRANSITION = ''viewer-transition''"

lemmas class_names =
  CLASS_ACTIVE_def CLASS_CLOSE_def CLASS_FADE_def CLASS_FIXED_def CLASS_FULLSCREEN_def
  CLASS_FULLSCREEN_EXIT_def CLASS_HIDE_def CLASS_HIDE_MD_DOWN_def CLASS_HIDE_SM_DOWN_def
  CLASS_HIDE_XS_DOWN_def CLASS_IN_def CLASS_INVISIBLE_def CLASS_LOADING_def CLASS_MOVE_def
  CLASS_OPEN_def CLASS_SHOW_def CLASS_TRANSITION_def

section \<open>Events\<close>

definition EVENT_CLICK :: string where "EVENT_CLICK = ''click''"
definition EVENT_DBLCLICK :: string where "EVENT_DBLCLICK = ''dblclick''"
definition EVENT_DRAG_START :: string where "EVENT_DRAG_START = ''dragstart''"
definition EVENT_HIDDEN :: string where "EVENT_HIDDEN = ''hidden''"
definition EVENT_HIDE :: string where "EVENT_HIDE = ''hide''"
definition EVENT_KEY_DOWN :: string where "EVENT_KEY_DOWN = ''keydown''"
definition EVENT_LOAD :: string where "EVENT_LOAD = ''load''"

definition EVENT_TOUCH_START :: "platform \<Rightarrow> string" where
  "EVENT_TOUCH_START p = (if IS_TOUCH_DEVICE p then ''touchstart'' else ''mousedown'')"

definition EVENT_TOUCH_MOVE :: "platform \<Rightarrow> string" where
  "EVENT_TOUCH_MOVE p = (if IS_TOUCH_DEVICE p then ''touchmove'' else ''mousemove'')"

definition EVENT_TOUCH_END :: "platform \<Rightarrow> string" where
  "EVENT_TOUCH_END p = (if IS_TOUCH_DEVICE p then ''touchend touchcancel'' else ''mouseup'')"

definition EVENT_POINTER_DOWN :: "platform \<Rightarrow> string" where
  "EVENT_POINTER_DOWN p = (if HAS_POINTER_EVENT p then ''pointerdown'' else EVENT_TOUCH_START p)"

definition EVENT_POINTER_MOVE :: "platform \<Rightarrow> string" where
  "EVENT_POINTER_MOVE p = (if HAS_POINTER_EVENT p then ''pointermove'' else EVENT_TOUCH_MOVE p)"

definition EVENT_POINTER_UP :: "platform \<Rightarrow> string" where
  "EVENT_POINTER_UP p =
     (if HAS_POINTER_EVENT p then ''pointerup pointercancel'' else EVENT_TOUCH_END p)"

definition EVENT_READY :: string where "EVENT_READY = ''ready''"
definition EVENT_RESIZE :: string where "EVENT_RESIZE = ''resize''"
definition EVENT_SHOW :: string where "EVENT_SHOW = ''show''"
definition EVENT_SHOWN :: string where "EVENT_SHOWN = ''shown''"
definition EVENT_TRANSITION_END :: string where "EVENT_TRANSITION_END = ''transitionend''"
definition EVENT_VIEW :: string where "EVENT_VIEW = ''view''"
definition EVENT_VIEWED :: string where "EVENT_VIEWED = ''viewed''"
definition EVENT_WHEEL :: string where "EVENT_WHEEL = ''wheel''"
definition EVENT_ZOOM :: string where "EVENT_ZOOM = ''zoom''"
definition EVENT_ZOOMED :: string where "EVENT_ZOOMED = ''zoomed''"
definition EVENT_PLAY :: string where "EVENT_PLAY = ''play''"
definition EVENT_STOP :: string where "EVENT_STOP = ''stop''"

lemmas event_names =
  EVENT_CLICK_def EVENT_DBLCLICK_def EVENT_DRAG_START_def EVENT_HIDDEN_def EVENT_HIDE_def
  EVENT_KEY_DOWN_def EVENT_LOAD_def EVENT_READY_def EVENT_RESIZE_def EVENT_SHOW_def
  EVENT_SHOWN_def EVENT_TRANSITION_END_def EVENT_VIEW_def EVENT_VIEWED_def EVENT_WHEEL_def
  EVENT_ZOOM_def EVENT_ZOOMED_def EVENT_PLAY_def EVENT_STOP_def

definition DATA_ACTION :: string where "DATA_ACTION = ''viewerAction''"

definition BUTTONS :: "string list" where
  "BUTTONS =
     [''zoom-in'', ''zoom-out'', ''one-to-one'', ''reset'', ''prev'', ''play'', ''next'',
      ''rotate-left'', ''rotate-right'', ''flip-horizontal'', ''flip-vertical'']"

text \<open>\<open>Viewer\<close> is browser code on Safari when the agent string says so.\<close>

definition IS_SAFARI :: "platform \<Rightarrow> bool" where
  "IS_SAFARI p = (IS_BROWSER p \<and> p_safari_agent p)"

text \<open>
  The probe registers a listener with an options object whose \<open>once\<close> is a getter: the flag
  is set exactly when the browser reads it.
\<close>

definition onceSupported :: "platform \<Rightarrow> bool" where
  "onceSupported p =
     (let supported = False in if IS_BROWSER p then supported \<or> p_reads_once p else supported)"

end
