(* ===== verification/Viewer_Util.thy ===== *)
theory Viewer_Util imports Viewer_Config begin

text \<open>
  The helper functions of the viewer that do not touch the document: type tests, iteration,
  merging of objects, escaping of text, name conversions, the text of CSS transforms and the
  arithmetic on pointers.
\<close>

section \<open>Type tests\<close>

definition isString :: "jsval \<Rightarrow> bool" where
  "isString v = (js_typeof v = ''string'')"

definition isNaN :: "jsval \<Rightarrow> bool" where
  "isNaN v = (v = Num NaN)"

definition isNumber :: "jsval \<Rightarrow> bool" where
  "isNumber v = (js_typeof v = ''number'' \<and> \<not> isNaN v)"

definition isUndefined :: "jsval \<Rightarrow> bool" where
  "isUndefined v = (js_typeof v = ''undefined'')"

definition isObject :: "jsval \<Rightarrow> bool" where
  "isObject v = (js_typeof v = ''object'' \<and> v \<noteq> Null)"

text \<open>
  Only an object literal whose \<open>constructor\<close> is the built-in one has a prototype that owns
  \<open>isPrototypeOf\<close>; an own \<open>constructor\<close> entry hides it, and reading \<open>prototype\<close> of
  undefined or null throws, which the function catches.
\<close>

definition isPlainObject :: "jsval \<Rightarrow> bool" where
  "isPlainObject v =
     (if \<not> isObject v then False
      else (case v of Obj ps \<Rightarrow> \<not> ohas ps ''constructor'' | _ \<Rightarrow> False))"

definition isFunction :: "jsval \<Rightarrow> bool" where
  "isFunction v = (js_typeof v = ''function'')"

lemma isString_simps [simp]:
  "isString (Str s)" "\<not> isString Undefined" "\<not> isString Null" "\<not> isString (Bool b)"
  "\<not> isString (Num x)" "\<not> isString (Fun k)" "\<not> isString (Obj ps)" "\<not> isString (Arr vs)"
  "\<not> isString (Elem n)"
  by (simp_all add: isString_def)

lemma isFunction_simps [simp]:
  "isFunction (Fun k)" "\<not> isFunction Undefined" "\<not> isFunction Null" "\<not> isFunction (Bool b)"
  "\<not> isFunction (Num x)" "\<not> isFunction (Str s)" "\<not> isFunction (Obj ps)" "\<not> isFunction (Arr vs)"
  by (simp_all add: isFunction_def)

lemma isFunction_iff: "isFunction v \<longleftrightarrow> (\<exists>k. v = Fun k)"
  by (cases v) (simp_all add: isFunction_def)

lemma isNumber_simps [simp]:
  "isNumber (Num x) \<longleftrightarrow> x \<noteq> NaN" "\<not> isNumber Undefined" "\<not> isNumber Null"
  "\<not> isNumber (Bool b)" "\<not> isNumber (Str s)" "\<not> isNumber (Fun k)"
  by (simp_all add: isNumber_def isNaN_def)

section \<open>Iteration and merging\<close>

text \<open>
  The data of \<open>forEach\<close>: nothing iterable, an array-like value, or an object by its keys.
  Only the loop over an array stops when the callback returns \<open>false\<close>.
\<close>

datatype 'a iterable = NoData | ArrayLike "'a list" | Keyed "(string \<times> 'a) list"

fun loop_array :: "('a \<Rightarrow> jsval \<Rightarrow> ('s, jsval) expr) \<Rightarrow> nat \<Rightarrow> 'a list \<Rightarrow> 's stmt" where
  "loop_array cb i [] w = (Next, w)"
| "loop_array cb i (x # xs) w =
     (case cb x (Num (nnat i)) w of
        (Exn e, w') \<Rightarrow> (Throw e, w')
      | (Val v, w') \<Rightarrow> if v = Bool False then (Next, w') else loop_array cb (Suc i) xs w')"

fun loop_keys :: "('a \<Rightarrow> jsval \<Rightarrow> ('s, jsval) expr) \<Rightarrow> (string \<times> 'a) list \<Rightarrow> 's stmt" where
  "loop_keys cb [] w = (Next, w)"
| "loop_keys cb ((k, x) # xs) w =
     (case cb x (Str k) w of
        (Exn e, w') \<Rightarrow> (Throw e, w')
      | (Val v, w') \<Rightarrow> loop_keys cb xs w')"

definition forEach ::
  "'a iterable \<Rightarrow> ('a \<Rightarrow> jsval \<Rightarrow> ('s, jsval) expr) option \<Rightarrow> 's stmt" where
  "forEach data callback w =
     (case callback of
        None \<Rightarrow> (Next, w)
      | Some cb \<Rightarrow>
          (case data of
             NoData \<Rightarrow> (Next, w)
           | ArrayLike xs \<Rightarrow> loop_array cb 0 xs w
           | Keyed xs \<Rightarrow> loop_keys cb xs w))"

text \<open>A callback without a \<open>return\<close> value, as the viewer's loops have them.\<close>

definition fnE :: "'s stmt \<Rightarrow> ('s, jsval) expr" where
  "fnE s w =
     (case s w of
        (Throw e, w') \<Rightarrow> (Exn e, w')
      | (Next, w') \<Rightarrow> (Val Undefined, w')
      | (Ret, w') \<Rightarrow> (Val Undefined, w'))"

lemma loop_array_fnE:
  "loop_array (\<lambda>x i. fnE (f x)) j xs w = eachS (\<lambda>x i. f x) k xs w"
  by (induction xs arbitrary: j k w)
    (auto simp: fnE_def callS_def split: prod.splits outcome.splits)

lemma forEach_eachS:
  "forEach (ArrayLike xs) (Some (\<lambda>x i. fnE (f x))) = eachS (\<lambda>x i. f x) 0 xs"
  by (rule ext) (simp add: forEach_def loop_array_fnE [of f 0 xs _ 0])

text \<open>The fallback of \<open>Object.assign\<close>: every key of every source object, in order.\<close>

fun assign_one :: "(string \<times> jsval) list \<Rightarrow> (string \<times> jsval) list \<Rightarrow> (string \<times> jsval) list" where
  "assign_one ob [] = ob"
| "assign_one ob ((k, v) # ps) = assign_one (oset ob k v) ps"

fun assign :: "(string \<times> jsval) list \<Rightarrow> jsval list \<Rightarrow> (string \<times> jsval) list" where
  "assign ob [] = ob"
| "assign ob (a # as) = (case a of Obj ps \<Rightarrow> assign (assign_one ob ps) as | _ \<Rightarrow> assign ob as)"

lemma oget_assign_one:
  "distinct (map fst ps) \<Longrightarrow>
   oget (assign_one ob ps) k = (if ohas ps k then oget ps k else oget ob k)"
proof (induction ob ps rule: assign_one.induct)
  case (2 ob k' v ps)
  have "ohas ps k' = False"
    using 2(2) by (induction ps k' rule: ohas.induct) auto
  with 2 show ?case by auto
qed simp

section \<open>Text\<close>

definition starts_with :: "string \<Rightarrow> string \<Rightarrow> bool" where
  "starts_with p s = (take (length p) s = p)"

definition entity_follows :: "string \<Rightarrow> bool" where
  "entity_follows s =
     (starts_with ''amp;'' s \<or> starts_with ''quot;'' s \<or> starts_with ''#39;'' s \<or>
      starts_with ''lt;'' s \<or> starts_with ''gt;'' s)"

fun escape_amp :: "string \<Rightarrow> string" where
  "escape_amp [] = []"
| "escape_amp (c # cs) =
     (if c = CHR ''&'' \<and> \<not> entity_follows cs then ''&amp;'' @ escape_amp cs
      else c # escape_amp cs)"

fun replace_char :: "char \<Rightarrow> string \<Rightarrow> string \<Rightarrow> string" where
  "replace_char c r [] = []"
| "replace_char c r (d # ds) = (if d = c then r @ replace_char c r ds else d # replace_char c r ds)"

definition escape_text :: "string \<Rightarrow> string" where
  "escape_text s =
     replace_char (CHR ''>'') ''&gt;''
       (replace_char (CHR ''<'') ''&lt;''
         (replace_char (CHR 0x27) ''&#39;''
           (replace_char (CHR 0x22) ''&quot;'' (escape_amp s))))"

definition escapeHTMLEntities :: "jsval \<Rightarrow> jsval" where
  "escapeHTMLEntities v = (case v of Str s \<Rightarrow> Str (escape_text s) | _ \<Rightarrow> v)"

definition is_lower :: "char \<Rightarrow> bool" where
  "is_lower c = (97 \<le> code c \<and> code c \<le> 122)"

definition is_upper :: "char \<Rightarrow> bool" where
  "is_upper c = (65 \<le> code c \<and> code c \<le> 90)"

definition to_lower :: "char \<Rightarrow> char" where
  "to_lower c = (if is_upper c then char_of (code c + 32) else c)"

text \<open>
  A global replacement: after a match of two characters the search goes on behind them.
\<close>

fun hyphen_marks :: "string \<Rightarrow> string" where
  "hyphen_marks (c # d # cs) =
     (if (is_lower c \<or> is_digit c) \<and> is_upper d then c # CHR ''-'' # d # hyphen_marks cs
      else c # hyphen_marks (d # cs))"
| "hyphen_marks cs = cs"

definition hyphenate :: "string \<Rightarrow> string" where
  "hyphenate s = map to_lower (hyphen_marks s)"

text \<open>Splitting at the pattern of one or more white-space characters.\<close>

lemma dropWhile_shorter [termination_simp]: "length (dropWhile P cs) < Suc (length cs)"
  by (simp add: length_dropWhile_le le_imp_less_Suc)

fun split_spaces_acc :: "string \<Rightarrow> string \<Rightarrow> string list" where
  "split_spaces_acc acc [] = [rev acc]"
| "split_spaces_acc acc (c # cs) =
     (if is_space c then rev acc # split_spaces_acc [] (dropWhile is_space cs)
      else split_spaces_acc (c # acc) cs)"

definition split_spaces :: "string \<Rightarrow> string list" where
  "split_spaces s = split_spaces_acc [] s"

section \<open>Image names\<close>

definition is_newline :: "char \<Rightarrow> bool" where
  "is_newline c = (c = CHR 0x0A \<or> c = CHR 0x0D)"

text \<open>\<open>/^.*\//\<close>: everything up to the last slash of the first line.\<close>

definition drop_path :: "string \<Rightarrow> string" where
  "drop_path s =
     (let line = takeWhile (\<lambda>c. \<not> is_newline c) s
      in if CHR ''/'' \<in> set line
         then drop (length line - length (takeWhile (\<lambda>c. c \<noteq> CHR ''/'') (rev line))) s
         else s)"

text \<open>\<open>/[?&#].*$/\<close>: the first of these characters with no line break behind it.\<close>

fun strip_query :: "string \<Rightarrow> string" where
  "strip_query [] = []"
| "strip_query (c # cs) =
     (if (c = CHR ''?'' \<or> c = CHR ''&'' \<or> c = CHR ''#'') \<and> list_all (\<lambda>d. \<not> is_newline d) cs
      then [] else c # strip_query cs)"

definition hex_val :: "char \<Rightarrow> nat option" where
  "hex_val c =
     (if is_digit c then Some (code c - 48)
      else if 97 \<le> code c \<and> code c \<le> 102 then Some (code c - 87)
      else if 65 \<le> code c \<and> code c \<le> 70 then Some (code c - 55)
      else None)"

datatype pct = Raw char | Enc nat

fun pct_tokens :: "string \<Rightarrow> pct list option" where
  "pct_tokens [] = Some []"
| "pct_tokens (c # cs) =
     (if c = CHR ''%'' then
        (case cs of
           h1 # h2 # rest \<Rightarrow>
             (case (hex_val h1, hex_val h2) of
                (Some a, Some b) \<Rightarrow> map_option ((#) (Enc (16 * a + b))) (pct_tokens rest)
              | _ \<Rightarrow> None)
         | _ \<Rightarrow> None)
      else map_option ((#) (Raw c)) (pct_tokens cs))"

text \<open>
  The escaped bytes must be well-formed UTF-8. \<open>need\<close> counts the continuation bytes still
  due, \<open>lo\<close> and \<open>hi\<close> bound the next one.
\<close>

fun utf8_ok :: "nat \<Rightarrow> nat \<Rightarrow> nat \<Rightarrow> pct list \<Rightarrow> bool" where
  "utf8_ok need lo hi [] = (need = 0)"
| "utf8_ok need lo hi (Raw c # ts) = (need = 0 \<and> utf8_ok 0 0 0 ts)"
| "utf8_ok need lo hi (Enc b # ts) =
     (if need > 0 then lo \<le> b \<and> b \<le> hi \<and> utf8_ok (need - 1) 128 191 ts
      else if b < 128 then utf8_ok 0 0 0 ts
      else if 194 \<le> b \<and> b \<le> 223 then utf8_ok 1 128 191 ts
      else if b = 224 then utf8_ok 2 160 191 ts
      else if b = 237 then utf8_ok 2 128 159 ts
      else if 225 \<le> b \<and> b \<le> 239 then utf8_ok 2 128 191 ts
      else if b = 240 then utf8_ok 3 144 191 ts
      else if 241 \<le> b \<and> b \<le> 243 then utf8_ok 3 128 191 ts
      else if b = 244 then utf8_ok 3 128 143 ts
      else False)"

definition pct_byte :: "pct \<Rightarrow> char" where
  "pct_byte t = (case t of Raw c \<Rightarrow> c | Enc b \<Rightarrow> char_of b)"

definition decodeURIComponent :: "string \<Rightarrow> string result" where
  "decodeURIComponent s =
     (case pct_tokens s of
        Some ts \<Rightarrow> if utf8_ok 0 0 0 ts then Val (map pct_byte ts) else Exn URIError
      | None \<Rightarrow> Exn URIError)"

definition getImageNameFromURL :: "jsval \<Rightarrow> string result" where
  "getImageNameFromURL url =
     (case url of
        Str s \<Rightarrow> decodeURIComponent (strip_query (drop_path s))
      | _ \<Rightarrow> Val [])"

section \<open>CSS text\<close>

text \<open>
  A piece of CSS text is a literal or a number; how a number prints is left to the language.
  \<open>None\<close> stands for an undefined member.
\<close>

datatype piece = Lit string | NumP jsnum

type_synonym css = "piece list"

record transforms =
  t_rotate :: "jsnum option"
  t_scaleX :: "jsnum option"
  t_scaleY :: "jsnum option"
  t_translateX :: "jsnum option"
  t_translateY :: "jsnum option"

definition no_transforms :: transforms where
  "no_transforms =
     \<lparr>t_rotate = None, t_scaleX = None, t_scaleY = None, t_translateX = None, t_translateY = None\<rparr>"

definition num_given :: "jsnum option \<Rightarrow> bool" where
  "num_given x = (x \<noteq> None \<and> x \<noteq> Some NaN)"

definition num_of :: "jsnum option \<Rightarrow> jsnum" where
  "num_of x = (case x of None \<Rightarrow> NaN | Some n \<Rightarrow> n)"

definition transform_fn :: "string \<Rightarrow> jsnum option \<Rightarrow> string \<Rightarrow> jsnum \<Rightarrow> css list" where
  "transform_fn name x sfx neutral =
     (if num_given x \<and> num_of x \<noteq> neutral
      then [[Lit (name @ ''(''), NumP (num_of x), Lit (sfx @ '')'')]] else [])"

fun join_css :: "css list \<Rightarrow> css" where
  "join_css [] = []"
| "join_css [v] = v"
| "join_css (v # vs) = v @ [Lit '' ''] @ join_css vs"

definition transform_values :: "transforms \<Rightarrow> css list" where
  "transform_values r =
     transform_fn ''translateX'' (t_translateX r) ''px'' (Fin 0) @
     transform_fn ''translateY'' (t_translateY r) ''px'' (Fin 0) @
     transform_fn ''rotate'' (t_rotate r) ''deg'' (Fin 0) @
     transform_fn ''scaleX'' (t_scaleX r) [] (Fin 1) @
     transform_fn ''scaleY'' (t_scaleY r) [] (Fin 1)"

text \<open>The value of a style property: a number, or text.\<close>

datatype cssval = CNum jsnum | CText css

definition getTransforms :: "transforms \<Rightarrow> (string \<times> cssval) list" where
  "getTransforms r =
     (let values = transform_values r;
          transform = (if values \<noteq> [] then join_css values else [Lit ''none''])
      in [(''WebkitTransform'', CText transform), (''msTransform'', CText transform),
          (''transform'', CText transform)])"

definition REGEXP_SUFFIX :: "string \<Rightarrow> bool" where
  "REGEXP_SUFFIX p =
     (p \<in> {''width'', ''height'', ''left'', ''top'', ''marginLeft'', ''marginTop''})"

section \<open>Responsive classes\<close>

definition getResponsiveClass :: "jsval \<Rightarrow> string" where
  "getResponsiveClass t =
     (if t = Num (Fin 2) then CLASS_HIDE_XS_DOWN
      else if t = Num (Fin 3) then CLASS_HIDE_SM_DOWN
      else if t = Num (Fin 4) then CLASS_HIDE_MD_DOWN
      else [])"

section \<open>Pointers\<close>

text \<open>
  The pointers object is keyed by the integer identifiers of the pointers; its keys enumerate
  in ascending order, which the association list keeps.
\<close>

record pointer =
  pt_time :: jsnum
  pt_startX :: jsnum
  pt_startY :: jsnum
  pt_endX :: jsnum
  pt_endY :: jsnum

type_synonym pointers = "(nat \<times> pointer) list"

definition getPointer :: "jsnum \<Rightarrow> jsnum \<Rightarrow> jsnum \<Rightarrow> pointer" where
  "getPointer now pageX pageY =
     \<lparr>pt_time = now, pt_startX = pageX, pt_startY = pageY, pt_endX = pageX, pt_endY = pageY\<rparr>"

text \<open>\<open>assign(pointer, getPointer(event, true))\<close>: the end point only.\<close>

definition movePointer :: "jsnum \<Rightarrow> jsnum \<Rightarrow> pointer \<Rightarrow> pointer" where
  "movePointer pageX pageY p = p\<lparr>pt_endX := pageX, pt_endY := pageY\<rparr>"

fun pointer_get :: "pointers \<Rightarrow> nat \<Rightarrow> pointer option" where
  "pointer_get [] k = None"
| "pointer_get ((k', p) # ps) k = (if k' = k then Some p else pointer_get ps k)"

fun pointer_set :: "pointers \<Rightarrow> nat \<Rightarrow> pointer \<Rightarrow> pointers" where
  "pointer_set [] k p = [(k, p)]"
| "pointer_set ((k', p') # ps) k p =
     (if k < k' then (k, p) # (k', p') # ps
      else if k' = k then (k, p) # ps
      else (k', p') # pointer_set ps k p)"

definition pointer_del :: "pointers \<Rightarrow> nat \<Rightarrow> pointers" where
  "pointer_del ps k = filter (\<lambda>kp. fst kp \<noteq> k) ps"

definition pair_ratio :: "pointer \<Rightarrow> pointer \<Rightarrow> jsnum" where
  "pair_ratio p q =
     (let x1 = nabs (nsub (pt_startX p) (pt_startX q));
          y1 = nabs (nsub (pt_startY p) (pt_startY q));
          x2 = nabs (nsub (pt_endX p) (pt_endX q));
          y2 = nabs (nsub (pt_endY p) (pt_endY q));
          z1 = nsqrt (nadd (nmul x1 x1) (nmul y1 y1));
          z2 = nsqrt (nadd (nmul x2 x2) (nmul y2 y2))
      in ndiv (nsub z2 z1) z1)"

text \<open>Every pointer is compared with the ones that have not had their turn.\<close>

fun pair_ratios :: "pointer list \<Rightarrow> jsnum list" where
  "pair_ratios [] = []"
| "pair_ratios (p # ps) = map (pair_ratio p) ps @ pair_ratios ps"

text \<open>
  The comparator returns a boolean, which the engine reads as 1 or 0. The sort itself is the
  engine's: the language leaves its order open for such a comparator, so it is an argument.
\<close>

definition ratio_order :: "jsnum \<Rightarrow> jsnum \<Rightarrow> int" where
  "ratio_order a b = (if nlt (nabs a) (nabs b) then 1 else 0)"

definition getMaxZoomRatio ::
  "((jsnum \<Rightarrow> jsnum \<Rightarrow> int) \<Rightarrow> jsnum list \<Rightarrow> jsnum list) \<Rightarrow> pointers \<Rightarrow> jsval" where
  "getMaxZoomRatio sort_by ps =
     (case sort_by ratio_order (pair_ratios (map snd ps)) of
        [] \<Rightarrow> Undefined
      | r # rs \<Rightarrow> Num r)"

definition sum_nums :: "jsnum list \<Rightarrow> jsnum" where
  "sum_nums xs = foldl nadd (Fin 0) xs"

definition getPointersCenter :: "pointers \<Rightarrow> jsnum \<times> jsnum" where
  "getPointersCenter ps =
     (let count = nnat (length ps)
      in (ndiv (sum_nums (map (\<lambda>p. pt_startX (snd p)) ps)) count,
          ndiv (sum_nums (map (\<lambda>p. pt_startY (snd p)) ps)) count))"

end
