(* ===== verification/Dom.thy ===== *)
theory Dom imports Viewer_Util begin

text \<open>
  The part of the browser the viewer works with: a store of elements addressed by numbers
  (0 is \<open>null\<close>), the table of event listeners, the pending timers, and the synchronous
  dispatch of events. The record is open: the viewer's own state extends it. The type of
  callbacks and of timer tasks is a parameter, because a callback of the program is a value
  that names one of its closures; the function that runs a callback is an argument of the
  dispatch.
\<close>

section \<open>Elements\<close>

record node =
  n_tag :: string
  n_attrs :: "(string \<times> string) list"
  n_classes :: "string list"
  n_style :: "(string \<times> css) list"
  n_kids :: "nat list"
  n_parent :: nat
  n_html :: string
  n_complete :: bool
  n_natW :: jsnum
  n_natH :: jsnum
  n_expando :: "(string \<times> jsval) list"

definition null :: nat where "null = 0"

definition blank :: "string \<Rightarrow> node" where
  "blank t =
     \<lparr>n_tag = t, n_attrs = [], n_classes = [], n_style = [], n_kids = [], n_parent = 0,
      n_html = [], n_complete = False, n_natW = Fin 0, n_natH = Fin 0, n_expando = []\<rparr>"

datatype target = Node nat | Document | Window

record 'h listener =
  l_target :: target
  l_type :: string
  l_fun :: "'h \<times> nat"
  l_capture :: bool
  l_once :: bool

record 'h legacy_entry =
  g_target :: target
  g_type :: string
  g_key :: string
  g_fun :: "'h \<times> nat"

record 't timer =
  tm_id :: nat
  tm_delay :: jsnum
  tm_task :: 't

record ('h, 't) browser =
  nodes :: "nat \<Rightarrow> node"
  next_node :: nat
  listeners :: "'h listener list"
  legacy :: "'h legacy_entry list"
  onloads :: "(nat \<times> 'h) list"
  timers :: "'t timer list"
  next_timer :: nat
  next_fun :: nat
  prevented :: bool
  reported :: "js_error list"

definition node_upd ::
  "nat \<Rightarrow> (node \<Rightarrow> node) \<Rightarrow> ('h, 't, 'z) browser_scheme \<Rightarrow> ('h, 't, 'z) browser_scheme" where
  "node_upd n f w = w\<lparr>nodes := (nodes w)(n := f (nodes w n))\<rparr>"

text \<open>An operation on null throws a TypeError.\<close>

definition need :: "nat \<Rightarrow> ('h, 't, 'z) browser_scheme stmt" where
  "need n w = (if n = null then (Throw TypeError, w) else (Next, w))"

section \<open>Attributes\<close>

fun alookup :: "(string \<times> 'v) list \<Rightarrow> string \<Rightarrow> 'v option" where
  "alookup [] k = None"
| "alookup ((k', v) # ps) k = (if k' = k then Some v else alookup ps k)"

lemma alookup_oset [simp]: "alookup (oset ps k v) k' = (if k' = k then Some v else alookup ps k')"
  by (induction ps k v rule: oset.induct) auto

definition getAttribute :: "node \<Rightarrow> string \<Rightarrow> string option" where
  "getAttribute e k = alookup (n_attrs e) k"

definition setAttribute ::
  "nat \<Rightarrow> string \<Rightarrow> string \<Rightarrow> ('h, 't, 'z) browser_scheme \<Rightarrow> ('h, 't, 'z) browser_scheme" where
  "setAttribute n k v = node_upd n (\<lambda>e. e\<lparr>n_attrs := oset (n_attrs e) k v\<rparr>)"

text \<open>A reflected property such as \<open>src\<close> or \<open>alt\<close> reads as the empty string when it is absent.\<close>

definition attr_prop :: "node \<Rightarrow> string \<Rightarrow> string" where
  "attr_prop e k = (case getAttribute e k of Some v \<Rightarrow> v | None \<Rightarrow> [])"

text \<open>The attribute that \<open>dataset\<close> uses for a property name.\<close>

fun dataset_attr :: "string \<Rightarrow> string" where
  "dataset_attr [] = []"
| "dataset_attr (c # cs) =
     (if is_upper c then CHR ''-'' # to_lower c # dataset_attr cs else c # dataset_attr cs)"

section \<open>The tree\<close>

definition removeChild ::
  "nat \<Rightarrow> nat \<Rightarrow> ('h, 't, 'z) browser_scheme \<Rightarrow> ('h, 't, 'z) browser_scheme" where
  "removeChild p c w =
     node_upd c (\<lambda>e. e\<lparr>n_parent := null\<rparr>)
       (node_upd p (\<lambda>e. e\<lparr>n_kids := removeAll c (n_kids e)\<rparr>) w)"

definition detach :: "nat \<Rightarrow> ('h, 't, 'z) browser_scheme \<Rightarrow> ('h, 't, 'z) browser_scheme" where
  "detach c w = (if n_parent (nodes w c) = null then w else removeChild (n_parent (nodes w c)) c w)"

definition appendChild ::
  "nat \<Rightarrow> nat \<Rightarrow> ('h, 't, 'z) browser_scheme \<Rightarrow> ('h, 't, 'z) browser_scheme" where
  "appendChild p c w =
     node_upd c (\<lambda>e. e\<lparr>n_parent := p\<rparr>)
       (node_upd p (\<lambda>e. e\<lparr>n_kids := n_kids e @ [c]\<rparr>) (detach c w))"

text \<open>\<open>p.insertBefore(c, ref)\<close>; a null reference appends.\<close>

fun insert_before :: "nat \<Rightarrow> nat \<Rightarrow> nat list \<Rightarrow> nat list" where
  "insert_before c r [] = [c]"
| "insert_before c r (x # xs) = (if x = r then c # x # xs else x # insert_before c r xs)"

definition insertBefore ::
  "nat \<Rightarrow> nat \<Rightarrow> nat \<Rightarrow> ('h, 't, 'z) browser_scheme \<Rightarrow> ('h, 't, 'z) browser_scheme" where
  "insertBefore p c r w =
     node_upd c (\<lambda>e. e\<lparr>n_parent := p\<rparr>)
       (node_upd p (\<lambda>e. e\<lparr>n_kids := insert_before c r (n_kids e)\<rparr>) (detach c w))"

fun next_of :: "nat \<Rightarrow> nat list \<Rightarrow> nat" where
  "next_of n (x # y # xs) = (if x = n then y else next_of n (y # xs))"
| "next_of n xs = null"

definition nextSibling :: "('h, 't, 'z) browser_scheme \<Rightarrow> nat \<Rightarrow> nat" where
  "nextSibling w n = next_of n (n_kids (nodes w (n_parent (nodes w n))))"

definition orphan_all :: "nat list \<Rightarrow> (nat \<Rightarrow> node) \<Rightarrow> (nat \<Rightarrow> node)" where
  "orphan_all ks ns = (\<lambda>i. if i \<in> set ks then (ns i)\<lparr>n_parent := null\<rparr> else ns i)"

text \<open>\<open>innerHTML = s\<close> for a text without markup: the children leave, the text is set.\<close>

definition set_text ::
  "nat \<Rightarrow> string \<Rightarrow> ('h, 't, 'z) browser_scheme \<Rightarrow> ('h, 't, 'z) browser_scheme" where
  "set_text n s w =
     node_upd n (\<lambda>e. e\<lparr>n_kids := [], n_html := s\<rparr>)
       (w\<lparr>nodes := orphan_all (n_kids (nodes w n)) (nodes w)\<rparr>)"

definition createElement ::
  "string \<Rightarrow> (nat \<Rightarrow> ('h, 't, 'z) browser_scheme stmt) \<Rightarrow> ('h, 't, 'z) browser_scheme stmt" where
  "createElement t k w =
     (let n = next_node w
      in k n (w\<lparr>nodes := (nodes w)(n := blank t), next_node := Suc n\<rparr>))"

text \<open>The descendants of a node in document order; the depth is bounded by the store.\<close>

fun descendants :: "nat \<Rightarrow> (nat \<Rightarrow> node) \<Rightarrow> nat \<Rightarrow> nat list" where
  "descendants 0 ns n = []"
| "descendants (Suc d) ns n = concat (map (\<lambda>k. k # descendants d ns k) (n_kids (ns n)))"

definition query_all :: "(node \<Rightarrow> bool) \<Rightarrow> ('h, 't, 'z) browser_scheme \<Rightarrow> nat \<Rightarrow> nat list" where
  "query_all p w n = filter (\<lambda>k. p (nodes w k)) (descendants (next_node w) (nodes w) n)"

definition query :: "(node \<Rightarrow> bool) \<Rightarrow> ('h, 't, 'z) browser_scheme \<Rightarrow> nat \<Rightarrow> nat" where
  "query p w n = (case query_all p w n of [] \<Rightarrow> null | k # ks \<Rightarrow> k)"

definition by_tag :: "string \<Rightarrow> node \<Rightarrow> bool" where
  "by_tag t e = (n_tag e = t)"

definition by_class :: "string \<Rightarrow> node \<Rightarrow> bool" where
  "by_class c e = (c \<in> set (n_classes e))"

definition firstElementChild :: "('h, 't, 'z) browser_scheme \<Rightarrow> nat \<Rightarrow> nat" where
  "firstElementChild w n = (case n_kids (nodes w n) of [] \<Rightarrow> null | k # ks \<Rightarrow> k)"

section \<open>Listeners, timers, functions\<close>

definition fresh_fun ::
  "'h \<Rightarrow> ('h \<times> nat \<Rightarrow> ('h, 't, 'z) browser_scheme stmt) \<Rightarrow> ('h, 't, 'z) browser_scheme stmt" where
  "fresh_fun h k w = k (h, next_fun w) (w\<lparr>next_fun := Suc (next_fun w)\<rparr>)"

definition same_listener :: "target \<Rightarrow> string \<Rightarrow> 'h \<times> nat \<Rightarrow> bool \<Rightarrow> 'h listener \<Rightarrow> bool" where
  "same_listener t ty f c l =
     (l_target l = t \<and> l_type l = ty \<and> l_fun l = f \<and> l_capture l = c)"

definition addEventListener ::
  "target \<Rightarrow> string \<Rightarrow> 'h \<times> nat \<Rightarrow> bool \<Rightarrow> bool \<Rightarrow>
   ('h, 't, 'z) browser_scheme \<Rightarrow> ('h, 't, 'z) browser_scheme" where
  "addEventListener t ty f capture once w =
     (if list_ex (same_listener t ty f capture) (listeners w) then w
      else w\<lparr>listeners := listeners w @
        [\<lparr>l_target = t, l_type = ty, l_fun = f, l_capture = capture, l_once = once\<rparr>]\<rparr>)"

definition removeEventListener ::
  "target \<Rightarrow> string \<Rightarrow> 'h \<times> nat \<Rightarrow> bool \<Rightarrow>
   ('h, 't, 'z) browser_scheme \<Rightarrow> ('h, 't, 'z) browser_scheme" where
  "removeEventListener t ty f capture w =
     w\<lparr>listeners := filter (\<lambda>l. \<not> same_listener t ty f capture l) (listeners w)\<rparr>"

definition setTimeout ::
  "'t \<Rightarrow> jsnum \<Rightarrow> (nat \<Rightarrow> ('h, 't, 'z) browser_scheme stmt) \<Rightarrow> ('h, 't, 'z) browser_scheme stmt" where
  "setTimeout task delay k w =
     (let i = next_timer w
      in k i (w\<lparr>timers := timers w @ [\<lparr>tm_id = i, tm_delay = delay, tm_task = task\<rparr>],
               next_timer := Suc i\<rparr>))"

definition clearTimeout ::
  "nat option \<Rightarrow> ('h, 't, 'z) browser_scheme \<Rightarrow> ('h, 't, 'z) browser_scheme" where
  "clearTimeout i w =
     (case i of
        None \<Rightarrow> w
      | Some k \<Rightarrow> w\<lparr>timers := filter (\<lambda>t. tm_id t \<noteq> k) (timers w)\<rparr>)"

section \<open>Events\<close>

record touch =
  tc_identifier :: nat
  tc_pageX :: jsnum
  tc_pageY :: jsnum

record event =
  e_type :: string
  e_target :: nat
  e_trusted :: bool
  e_cancelable :: bool
  e_keyCode :: nat
  e_which :: nat
  e_charCode :: nat
  e_ctrlKey :: bool
  e_buttons :: jsval
  e_button :: jsval
  e_pointerType :: string
  e_pointerId :: nat
  e_touches :: "touch list option"
  e_pageX :: jsnum
  e_pageY :: jsnum
  e_deltaY :: jsnum
  e_wheelDelta :: jsnum
  e_detail :: jsnum
  e_data :: "(string \<times> jsval) list"

definition plain_event :: "string \<Rightarrow> nat \<Rightarrow> event" where
  "plain_event ty n =
     \<lparr>e_type = ty, e_target = n, e_trusted = False, e_cancelable = True, e_keyCode = 0,
      e_which = 0, e_charCode = 0, e_ctrlKey = False, e_buttons = Undefined,
      e_button = Undefined, e_pointerType = [], e_pointerId = 0, e_touches = None,
      e_pageX = NaN, e_pageY = NaN, e_deltaY = NaN, e_wheelDelta = NaN, e_detail = NaN,
      e_data = []\<rparr>"

definition preventDefault :: "event \<Rightarrow> ('h, 't, 'z) browser_scheme stmt" where
  "preventDefault ev = upd (\<lambda>w. if e_cancelable ev then w\<lparr>prevented := True\<rparr> else w)"

fun ancestors :: "nat \<Rightarrow> (nat \<Rightarrow> node) \<Rightarrow> nat \<Rightarrow> nat list" where
  "ancestors 0 ns n = []"
| "ancestors (Suc d) ns n = (if n = null then [] else n # ancestors d ns (n_parent (ns n)))"

text \<open>
  The path of an event: the target, the elements around it and, when the outermost is the
  root element \<open>rt\<close>, the document and the window.
\<close>

definition event_path :: "nat \<Rightarrow> ('h, 't, 'z) browser_scheme \<Rightarrow> target \<Rightarrow> target list" where
  "event_path rt w t =
     (case t of
        Node n \<Rightarrow>
          (let as = ancestors (Suc (next_node w)) (nodes w) n
           in map Node as @ (if as \<noteq> [] \<and> last as = rt then [Document, Window] else []))
      | Document \<Rightarrow> [Document, Window]
      | Window \<Rightarrow> [Window])"

text \<open>
  The listeners of one object of the path: a listener that an earlier one has removed is
  passed over, a \<open>once\<close> listener is removed before it runs, an exception is reported and
  does not stop the dispatch.
\<close>

fun run_listeners ::
  "('h \<Rightarrow> event \<Rightarrow> ('h, 't, 'z) browser_scheme stmt) \<Rightarrow> event \<Rightarrow> 'h listener list \<Rightarrow>
   ('h, 't, 'z) browser_scheme \<Rightarrow> ('h, 't, 'z) browser_scheme" where
  "run_listeners invk ev [] w = w"
| "run_listeners invk ev (l # ls) w =
     (if l \<notin> set (listeners w) then run_listeners invk ev ls w
      else
        let w1 = (if l_once l then w\<lparr>listeners := removeAll l (listeners w)\<rparr> else w)
        in (case invk (fst (l_fun l)) ev w1 of
              (Throw e, w2) \<Rightarrow> run_listeners invk ev ls (w2\<lparr>reported := reported w2 @ [e]\<rparr>)
            | (Next, w2) \<Rightarrow> run_listeners invk ev ls w2
            | (Ret, w2) \<Rightarrow> run_listeners invk ev ls w2))"

definition listeners_at ::
  "target \<Rightarrow> string \<Rightarrow> (bool \<Rightarrow> bool) \<Rightarrow> ('h, 't, 'z) browser_scheme \<Rightarrow> 'h listener list" where
  "listeners_at t ty p w =
     filter (\<lambda>l. l_target l = t \<and> l_type l = ty \<and> p (l_capture l)) (listeners w)"

fun walk_path ::
  "('h \<Rightarrow> event \<Rightarrow> ('h, 't, 'z) browser_scheme stmt) \<Rightarrow> event \<Rightarrow> (bool \<Rightarrow> bool) \<Rightarrow> target list \<Rightarrow>
   ('h, 't, 'z) browser_scheme \<Rightarrow> ('h, 't, 'z) browser_scheme" where
  "walk_path invk ev p [] w = w"
| "walk_path invk ev p (t # ts) w =
     walk_path invk ev p ts (run_listeners invk ev (listeners_at t (e_type ev) p w) w)"

text \<open>
  The dispatch: outside in through the capturing listeners, then inside out through the
  others. The value is \<open>false\<close> when a listener has prevented the default action of a
  cancelable event.
\<close>

definition dispatch ::
  "('h \<Rightarrow> event \<Rightarrow> ('h, 't, 'z) browser_scheme stmt) \<Rightarrow> nat \<Rightarrow> bool \<Rightarrow> target \<Rightarrow> event \<Rightarrow>
   (('h, 't, 'z) browser_scheme, bool) expr" where
  "dispatch invk rt bubbles t ev w =
     (let path = event_path rt w t;
          w1 = walk_path invk ev (\<lambda>c. c) (rev path) (w\<lparr>prevented := False\<rparr>);
          w2 = walk_path invk ev (\<lambda>c. \<not> c) (if bubbles then path else take 1 path) w1
      in (Val (\<not> prevented w2), w2\<lparr>prevented := prevented w\<rparr>))"

section \<open>Preservation and agreement through a dispatch\<close>

text \<open>
  The listeners may be run in two ways, \<open>invk\<close> and \<open>jnvk\<close>, that need to agree only on those
  registered for the type of the event.
\<close>

lemma run_listeners_agree:
  assumes run: "\<And>w l. P w \<Longrightarrow> l \<in> set (listeners w) \<Longrightarrow> l_type l = e_type ev \<Longrightarrow>
      agree P (invk (fst (l_fun l)) ev) (jnvk (fst (l_fun l)) ev)"
    and drop: "\<And>w l. P w \<Longrightarrow> P (w\<lparr>listeners := removeAll l (listeners w)\<rparr>)"
    and report: "\<And>w es. P w \<Longrightarrow> P (w\<lparr>reported := es\<rparr>)"
  shows "P w \<Longrightarrow> \<forall>l \<in> set ls. l_type l = e_type ev \<Longrightarrow>
    run_listeners invk ev ls w = run_listeners jnvk ev ls w \<and> P (run_listeners jnvk ev ls w)"
proof (induction ls arbitrary: w)
  case Nil
  then show ?case by simp
next
  case (Cons l ls)
  show ?case
  proof (cases "l \<in> set (listeners w)")
    case False
    then show ?thesis using Cons by simp
  next
    case True
    define w1 where "w1 = (if l_once l then w\<lparr>listeners := removeAll l (listeners w)\<rparr> else w)"
    have P1: "P w1" using Cons.prems(1) drop by (simp add: w1_def)
    have "agree P (invk (fst (l_fun l)) ev) (jnvk (fst (l_fun l)) ev)"
      using run [OF Cons.prems(1) True] Cons.prems(2) by simp
    then obtain r w2 where r: "invk (fst (l_fun l)) ev w1 = (r, w2)" "jnvk (fst (l_fun l)) ev w1 = (r, w2)" "P w2"
      using P1 by (rule agreeD_cases)
    then show ?thesis
      using Cons.IH [of w2] Cons.IH [OF report [OF r(3)]] Cons.prems(2) True
      by (cases r) (simp_all add: w1_def [symmetric] Let_def)
  qed
qed

lemma walk_path_agree:
  assumes run: "\<And>w l. P w \<Longrightarrow> l \<in> set (listeners w) \<Longrightarrow> l_type l = e_type ev \<Longrightarrow>
      agree P (invk (fst (l_fun l)) ev) (jnvk (fst (l_fun l)) ev)"
    and drop: "\<And>w l. P w \<Longrightarrow> P (w\<lparr>listeners := removeAll l (listeners w)\<rparr>)"
    and report: "\<And>w es. P w \<Longrightarrow> P (w\<lparr>reported := es\<rparr>)"
  shows "P w \<Longrightarrow> walk_path invk ev p ts w = walk_path jnvk ev p ts w \<and> P (walk_path jnvk ev p ts w)"
proof (induction ts arbitrary: w)
  case (Cons t ts)
  have "\<forall>l \<in> set (listeners_at t (e_type ev) p w). l_type l = e_type ev" by (simp add: listeners_at_def)
  with Cons.prems have now: "run_listeners invk ev (listeners_at t (e_type ev) p w) w =
      run_listeners jnvk ev (listeners_at t (e_type ev) p w) w \<and>
      P (run_listeners jnvk ev (listeners_at t (e_type ev) p w) w)"
    by (intro run_listeners_agree) (erule run drop report | assumption)+
  from now Cons.IH [of "run_listeners jnvk ev (listeners_at t (e_type ev) p w) w"] show ?case by simp
qed simp

lemma dispatch_agree:
  assumes "\<And>w l. P w \<Longrightarrow> l \<in> set (listeners w) \<Longrightarrow> l_type l = e_type ev \<Longrightarrow>
      agree P (invk (fst (l_fun l)) ev) (jnvk (fst (l_fun l)) ev)"
    and "\<And>w l. P w \<Longrightarrow> P (w\<lparr>listeners := removeAll l (listeners w)\<rparr>)"
    and "\<And>w es. P w \<Longrightarrow> P (w\<lparr>reported := es\<rparr>)"
    and prevent: "\<And>w b. P w \<Longrightarrow> P (w\<lparr>prevented := b\<rparr>)"
  shows "agreeE P (dispatch invk rt b t ev) (dispatch jnvk rt b t ev)"
proof -
  have walk: "walk_path invk ev p ts u = walk_path jnvk ev p ts u \<and> P (walk_path jnvk ev p ts u)" if "P u" for p ts u
    using that by (intro walk_path_agree) (erule assms(1-3) | assumption)+
  have "dispatch invk rt b t ev w = dispatch jnvk rt b t ev w \<and> P (snd (dispatch jnvk rt b t ev w))"
    if "P w" for w
  proof -
    let ?path = "event_path rt w t"
    let ?q = "if b then ?path else take 1 ?path"
    let ?u = "walk_path jnvk ev (\<lambda>c. c) (rev ?path) (w\<lparr>prevented := False\<rparr>)"
    have 1: "walk_path invk ev (\<lambda>c. c) (rev ?path) (w\<lparr>prevented := False\<rparr>) = ?u" and P: "P ?u"
      using walk [OF prevent [OF that]] by blast+
    have 2: "walk_path invk ev Not ?q ?u = walk_path jnvk ev Not ?q ?u" and out: "P (walk_path jnvk ev Not ?q ?u)"
      using walk [OF P] by blast+
    have "dispatch invk rt b t ev w = dispatch jnvk rt b t ev w"
      unfolding dispatch_def Let_def 1 2 by (rule refl)
    moreover have "P (snd (dispatch jnvk rt b t ev w))"
      unfolding dispatch_def Let_def snd_conv by (rule prevent [OF out])
    ultimately show ?thesis ..
  qed
  then show ?thesis by (simp add: agreeE_def)
qed

text \<open>An event nobody listens to changes nothing and is not prevented.\<close>

lemma run_no_listeners [simp]: "run_listeners invk ev [] w = w"
  by simp

lemma walk_path_silent:
  "(\<And>l. l \<in> set (listeners w) \<Longrightarrow> l_type l \<noteq> e_type ev) \<Longrightarrow> walk_path invk ev p ts w = w"
proof (induction ts)
  case (Cons t ts)
  have "listeners_at t (e_type ev) p w = []"
    using Cons.prems by (auto simp: listeners_at_def filter_empty_conv)
  with Cons show ?case by simp
qed simp

lemma dispatch_silent:
  assumes "\<And>l. l \<in> set (listeners w) \<Longrightarrow> l_type l \<noteq> e_type ev"
  shows "dispatch invk rt b t ev w = (Val True, w)"
proof -
  have "walk_path invk ev p ts (w\<lparr>prevented := False\<rparr>) = w\<lparr>prevented := False\<rparr>" for p ts
    by (rule walk_path_silent) (use assms in simp)
  then show ?thesis by (simp add: dispatch_def Let_def)
qed

section \<open>Facts about the store\<close>

lemma node_upd_same [simp]: "nodes (node_upd n f w) n = f (nodes w n)"
  by (simp add: node_upd_def)

lemma node_upd_other [simp]: "m \<noteq> n \<Longrightarrow> nodes (node_upd n f w) m = nodes w m"
  by (simp add: node_upd_def)

lemma nodes_node_upd: "nodes (node_upd n f w) = (nodes w)(n := f (nodes w n))"
  by (simp add: node_upd_def)

lemma node_upd_fields [simp]:
  "next_node (node_upd n f w) = next_node w"
  "listeners (node_upd n f w) = listeners w"
  "legacy (node_upd n f w) = legacy w"
  "onloads (node_upd n f w) = onloads w"
  "timers (node_upd n f w) = timers w"
  "next_timer (node_upd n f w) = next_timer w"
  "next_fun (node_upd n f w) = next_fun w"
  "prevented (node_upd n f w) = prevented w"
  "reported (node_upd n f w) = reported w"
  "browser.more (node_upd n f w) = browser.more w"
  by (simp_all add: node_upd_def)

end
