(* ===== verification/Viewer_State.thy ===== *)
theory Viewer_State imports Dom begin

text \<open>
  The state of one viewer in its page, and the environment it runs in.

  The closures of the source are the values of \<open>handler\<close> (event listeners), \<open>task\<close> (timer
  callbacks), \<open>rdone\<close> and \<open>idone\<close> (continuations of \<open>renderImage\<close> and \<open>initImage\<close>) and
  \<open>szcb\<close> (the callback of \<open>getImageNaturalSizes\<close>); a constructor carries what the closure
  captures. Function values are pairs of a handler and a number, so that two closures made by
  the same code stay distinct.

  What lies outside the program is the record \<open>env\<close>: the platform, layout and geometry, the
  image cache, the clock, the engine's sort, the functions the page passes in the options,
  and \<open>invoke\<close>, which runs a listener. Methods take the environment as an argument;
  the theory \<open>Event_Loop\<close> ties \<open>invoke\<close> to the listeners of the program.
\<close>

section \<open>Data\<close>

record dims =
  dm_width :: jsnum
  dm_height :: jsnum

definition no_dims :: dims where "no_dims = \<lparr>dm_width = NaN, dm_height = NaN\<rparr>"

record imagedata =
  id_naturalWidth :: "jsnum option"
  id_naturalHeight :: "jsnum option"
  id_aspectRatio :: "jsnum option"
  id_ratio :: "jsnum option"
  id_width :: "jsnum option"
  id_height :: "jsnum option"
  id_left :: "jsnum option"
  id_top :: "jsnum option"
  id_rotate :: "jsnum option"
  id_scaleX :: "jsnum option"
  id_scaleY :: "jsnum option"

definition empty_data :: imagedata where
  "empty_data =
     \<lparr>id_naturalWidth = None, id_naturalHeight = None, id_aspectRatio = None, id_ratio = None,
      id_width = None, id_height = None, id_left = None, id_top = None, id_rotate = None,
      id_scaleX = None, id_scaleY = None\<rparr>"

section \<open>Closures\<close>

datatype rdone =
    RNone
  | RViewed nat jsnum
  | RZoomed jsnum jsnum bool
  | RSettle nat nat

datatype idone =
    ILoad nat jsnum
  | IRender
  | ISettle nat nat

datatype szcb =
    SInit jsnum jsnum nat idone
  | SThumb nat jsnum jsnum bool

datatype handler =
    HClick
  | HDragstart
  | HPointerdown
  | HPointermove
  | HPointerup
  | HKeydown
  | HResize
  | HWheel
  | HDblclick
  | HStart
  | HProgress
  | HItemLoad nat
  | HListTransition nat
  | HRenderDone rdone
  | HShown
  | HViewerTransitionEnd nat nat
  | HImageTransitionEnd nat nat
  | HViewed nat string nat
  | HLoad
  | HLoadImage
  | HTooltipFaded nat
  | HSized nat szcb
  | HUser nat
  | HOnce target string string bool nat handler

type_synonym callback = "handler \<times> nat"

datatype task =
    TDispatchDblclick
  | TUnclick
  | TDispatchClickCanvas
  | TWheelReset
  | TLoadTimeout nat
  | TPlay "nat list" nat
  | TAddTransition nat nat
  | TTooltipHide nat
  | TBuild

text \<open>The objects with an \<open>abort\<close> method: what each \<open>abort\<close> captures.\<close>

record viewing_abort =
  va_image :: nat
  va_onViewed :: callback
  va_onLoad :: "callback option"

datatype transition_abort =
    AbortShow nat callback
  | AbortHide nat nat callback callback

datatype fullscreen_call =
    RequestStd | RequestWebkit | RequestMoz | RequestMs
  | ExitStd | ExitWebkit | ExitMoz | ExitMs

section \<open>The viewer in its page\<close>

record world = "(handler, task) browser" +
  element :: nat
  options :: "(string \<times> jsval) list"
  action :: action
  fading :: bool
  fulled :: bool
  hiding :: bool
  imageClicked :: bool
  imageData :: nat
  idatas :: "nat \<Rightarrow> imagedata"
  next_idata :: nat
  initialImageData :: imagedata
  index :: jsnum
  isImg :: bool
  isShown :: bool
  len :: nat
  played :: bool
  playing :: "nat option"
  pointers :: pointers
  ready :: bool
  showing :: bool
  timeout :: "nat option"
  tooltipping :: "nat option"
  viewed :: bool
  viewing :: "viewing_abort option"
  wheeling :: bool
  zooming :: bool
  destroyed :: bool
  images :: "nat list"
  items :: "nat list"
  body :: nat
  scrollbarWidth :: jsnum
  initialBodyPaddingRight :: css
  initialBodyComputedPaddingRight :: string
  containerData :: dims
  parentData :: dims
  viewerData :: dims
  image :: nat
  v_parent :: nat
  v_viewer :: nat
  v_title :: nat
  v_toolbar :: nat
  v_navbar :: nat
  v_button :: nat
  v_canvas :: nat
  v_footer :: nat
  v_tooltipBox :: nat
  v_player :: nat
  v_list :: nat
  imageInitializing :: "nat option"
  imageRendering :: "(nat \<times> callback) option"
  transitioning :: "transition_abort option"
  clickCanvasTimeout :: "nat option"
  doubleClickImageTimeout :: "nat option"
  onClick :: "callback option"
  onDragStart :: "callback option"
  onPointerDown :: "callback option"
  onPointerMove :: "callback option"
  onPointerUp :: "callback option"
  onKeyDown :: "callback option"
  onResize :: "callback option"
  onWheel :: "callback option"
  onDblclick :: "callback option"
  onStart :: "callback option"
  onLoadWhenPlay :: "callback option"
  delaying :: "nat option"
  initializing :: "callback option"
  progress_count :: nat
  fs_calls :: "fullscreen_call list"

record env =
  e_platform :: platform
  e_root :: nat
  e_body :: nat
  e_innerWidth :: "world \<Rightarrow> jsnum"
  e_innerHeight :: "world \<Rightarrow> jsnum"
  e_clientWidth :: "world \<Rightarrow> jsnum"
  e_scrollX :: "world \<Rightarrow> jsnum"
  e_scrollY :: "world \<Rightarrow> jsnum"
  e_offsetWidth :: "world \<Rightarrow> nat \<Rightarrow> jsnum"
  e_offsetHeight :: "world \<Rightarrow> nat \<Rightarrow> jsnum"
  e_boxLeft :: "world \<Rightarrow> nat \<Rightarrow> jsnum"
  e_boxTop :: "world \<Rightarrow> nat \<Rightarrow> jsnum"
  e_paddingRight :: "world \<Rightarrow> nat \<Rightarrow> string"
  e_position :: "world \<Rightarrow> nat \<Rightarrow> string"
  e_cache :: "string \<Rightarrow> (jsnum \<times> jsnum) option"
  e_now :: "world \<Rightarrow> jsnum"
  e_sort :: "(jsnum \<Rightarrow> jsnum \<Rightarrow> int) \<Rightarrow> jsnum list \<Rightarrow> jsnum list"
  e_fn_text :: "handler \<Rightarrow> string"
  e_fs_element :: "world \<Rightarrow> bool"
  e_fs_request :: "fullscreen_call option"
  e_fs_exit :: "fullscreen_call option"
  e_select :: "string \<Rightarrow> world \<Rightarrow> nat"
  e_user :: "nat \<Rightarrow> jsval list \<Rightarrow> (world, jsval) expr"
  invoke :: "handler \<Rightarrow> event \<Rightarrow> world stmt"

text \<open>\<open>this.options.k\<close>, and its truth value.\<close>

definition opt :: "string \<Rightarrow> world \<Rightarrow> jsval" where
  "opt k w = oget (options w) k"

definition opt_on :: "string \<Rightarrow> world \<Rightarrow> bool" where
  "opt_on k w = truthy (opt k w)"

text \<open>The object \<open>this.imageData\<close> refers to, and an assignment through a reference.\<close>

definition idata :: "world \<Rightarrow> imagedata" where
  "idata w = idatas w (imageData w)"

definition set_idata :: "nat \<Rightarrow> (imagedata \<Rightarrow> imagedata) \<Rightarrow> world \<Rightarrow> world" where
  "set_idata r f w = w\<lparr>idatas := (idatas w)(r := f (idatas w r))\<rparr>"

definition new_imageData :: "imagedata \<Rightarrow> world \<Rightarrow> world" where
  "new_imageData d w =
     w\<lparr>idatas := (idatas w)(next_idata w := d), imageData := next_idata w,
       next_idata := Suc (next_idata w)\<rparr>"

text \<open>\<open>xs[i]\<close> for a number \<open>i\<close>: null when it is not the position of an element.\<close>

definition node_at :: "nat list \<Rightarrow> jsnum \<Rightarrow> nat" where
  "node_at xs i =
     (case i of
        Fin x \<Rightarrow> if 0 \<le> x \<and> x = of_int \<lfloor>x\<rfloor> \<and> nat \<lfloor>x\<rfloor> < length xs then xs ! nat \<lfloor>x\<rfloor> else null
      | _ \<Rightarrow> null)"

lemma node_at_nat [simp]: "i < length xs \<Longrightarrow> node_at xs (nnat i) = xs ! i"
  by (simp add: node_at_def)

lemma idata_set_idata: "idata (set_idata r f w) = (if r = imageData w then f (idata w) else idata w)"
  by (simp add: idata_def set_idata_def)

lemma idata_new [simp]: "idata (new_imageData d w) = d"
  by (simp add: idata_def new_imageData_def)

end
