(* ===== verification/Dom_Util.thy ===== *)
theory Dom_Util imports Viewer_State begin

text \<open>
  The helper functions of the viewer that work on the document: styles, class names, data
  attributes, listeners, events and the natural size of an image. Each of them has two paths,
  one for current browsers and one for old ones; the platform decides.
\<close>

section \<open>Styles\<close>

text \<open>
  The value that is assigned to a style property. The browser ignores a value that is not
  valid CSS; a number that is not finite makes the text invalid.
\<close>

definition style_text :: "string \<Rightarrow> cssval \<Rightarrow> css" where
  "style_text prop v =
     (case v of
        CNum x \<Rightarrow> if REGEXP_SUFFIX prop \<and> x \<noteq> NaN then [NumP x, Lit ''px''] else [NumP x]
      | CText t \<Rightarrow> t)"

definition finite_num :: "jsnum \<Rightarrow> bool" where
  "finite_num x = (case x of Fin a \<Rightarrow> True | _ \<Rightarrow> False)"

definition css_valid :: "css \<Rightarrow> bool" where
  "css_valid t = list_all (\<lambda>p. case p of NumP x \<Rightarrow> finite_num x | Lit s \<Rightarrow> True) t"

definition style_put :: "string \<Rightarrow> css \<Rightarrow> node \<Rightarrow> node" where
  "style_put prop t e = (if css_valid t then e\<lparr>n_style := oset (n_style e) prop t\<rparr> else e)"

fun style_all :: "(string \<times> cssval) list \<Rightarrow> node \<Rightarrow> node" where
  "style_all [] e = e"
| "style_all ((prop, v) # ps) e = style_all ps (style_put prop (style_text prop v) e)"

definition setStyle :: "nat \<Rightarrow> (string \<times> cssval) list \<Rightarrow> world stmt" where
  "setStyle n styles = block [need n, upd (node_upd n (style_all styles))]"

section \<open>Class names\<close>

fun has_substring :: "string \<Rightarrow> string \<Rightarrow> bool" where
  "has_substring p [] = (p = [])"
| "has_substring p (c # cs) = (starts_with p (c # cs) \<or> has_substring p cs)"

fun replace_first :: "string \<Rightarrow> string \<Rightarrow> string" where
  "replace_first p [] = []"
| "replace_first p (c # cs) =
     (if starts_with p (c # cs) then drop (length p) (c # cs) else c # replace_first p cs)"

fun join_names :: "string list \<Rightarrow> string" where
  "join_names [] = []"
| "join_names [c] = c"
| "join_names (c # cs) = c @ '' '' @ join_names cs"

definition className :: "node \<Rightarrow> string" where
  "className e = join_names (n_classes e)"

definition set_className :: "string \<Rightarrow> node \<Rightarrow> node" where
  "set_className s e = e\<lparr>n_classes := remdups (filter (\<lambda>c. c \<noteq> []) (split_spaces s))\<rparr>"

definition node_hasClass :: "platform \<Rightarrow> string \<Rightarrow> node \<Rightarrow> bool" where
  "node_hasClass p v e =
     (if p_classList p then v \<in> set (n_classes e) else has_substring v (className e))"

definition hasClass :: "env \<Rightarrow> world \<Rightarrow> nat \<Rightarrow> string \<Rightarrow> bool" where
  "hasClass E w n v =
     (if n = null \<or> v = [] then False else node_hasClass (e_platform E) v (nodes w n))"

definition node_addClass :: "platform \<Rightarrow> string \<Rightarrow> node \<Rightarrow> node" where
  "node_addClass p v e =
     (if p_classList p then
        (if v \<in> set (n_classes e) then e else e\<lparr>n_classes := n_classes e @ [v]\<rparr>)
      else
        let s = trim (className e)
        in if s = [] then set_className v e
           else if \<not> has_substring v s then set_className (s @ '' '' @ v) e
           else e)"

definition addClass :: "env \<Rightarrow> nat \<Rightarrow> string \<Rightarrow> world \<Rightarrow> world" where
  "addClass E n v w =
     (if n = null \<or> v = [] then w else node_upd n (node_addClass (e_platform E) v) w)"

definition addClass_all :: "env \<Rightarrow> nat list \<Rightarrow> string \<Rightarrow> world \<Rightarrow> world" where
  "addClass_all E ns v w = foldl (\<lambda>w n. addClass E n v w) w ns"

definition node_removeClass :: "platform \<Rightarrow> string \<Rightarrow> node \<Rightarrow> node" where
  "node_removeClass p v e =
     (if p_classList p then e\<lparr>n_classes := removeAll v (n_classes e)\<rparr>
      else if has_substring v (className e) then set_className (replace_first v (className e)) e
      else e)"

definition removeClass :: "env \<Rightarrow> nat \<Rightarrow> string \<Rightarrow> world \<Rightarrow> world" where
  "removeClass E n v w =
     (if n = null \<or> v = [] then w else node_upd n (node_removeClass (e_platform E) v) w)"

definition toggleClass :: "env \<Rightarrow> nat \<Rightarrow> string \<Rightarrow> bool \<Rightarrow> world stmt" where
  "toggleClass E n v added w =
     (if v = [] then (Next, w)
      else block
        [need n,
         upd (\<lambda>w. if added then addClass E n v w else removeClass E n v w)] w)"

section \<open>Data attributes\<close>

definition data_attr :: "platform \<Rightarrow> string \<Rightarrow> string" where
  "data_attr p name = ''data-'' @ (if p_dataset p then dataset_attr name else hyphenate name)"

definition getData :: "env \<Rightarrow> node \<Rightarrow> string \<Rightarrow> jsval" where
  "getData E e name =
     (let x = oget (n_expando e) name
      in if isObject x then x
         else (case getAttribute e (data_attr (e_platform E) name) of
                 Some s \<Rightarrow> Str s
               | None \<Rightarrow> if p_dataset (e_platform E) then Undefined else Null))"

definition setData :: "env \<Rightarrow> nat \<Rightarrow> string \<Rightarrow> jsval \<Rightarrow> world \<Rightarrow> world" where
  "setData E n name v =
     (if isObject v then node_upd n (\<lambda>e. e\<lparr>n_expando := oset (n_expando e) name v\<rparr>)
      else setAttribute n (data_attr (e_platform E) name) (to_str v))"

section \<open>Listeners\<close>

definition legacy_get :: "world \<Rightarrow> target \<Rightarrow> string \<Rightarrow> string \<Rightarrow> callback option" where
  "legacy_get w t ty key =
     map_option g_fun
       (List.find (\<lambda>g. g_target g = t \<and> g_type g = ty \<and> g_key g = key) (legacy w))"

definition legacy_del :: "target \<Rightarrow> string \<Rightarrow> string \<Rightarrow> world \<Rightarrow> world" where
  "legacy_del t ty key w =
     w\<lparr>legacy := filter (\<lambda>g. \<not> (g_target g = t \<and> g_type g = ty \<and> g_key g = key)) (legacy w)\<rparr>"

definition legacy_put :: "target \<Rightarrow> string \<Rightarrow> string \<Rightarrow> callback \<Rightarrow> world \<Rightarrow> world" where
  "legacy_put t ty key f w =
     (legacy_del t ty key w)\<lparr>legacy := legacy (legacy_del t ty key w) @
        [\<lparr>g_target = t, g_type = ty, g_key = key, g_fun = f\<rparr>]\<rparr>"

text \<open>
  Where the browser cannot remove a listener after its first call, the wrapper that does so
  is stored under the text of the listener, and a later registration of a listener with the
  same text replaces it.
\<close>

definition add_one :: "env \<Rightarrow> target \<Rightarrow> callback \<Rightarrow> bool \<Rightarrow> bool \<Rightarrow> string \<Rightarrow> world \<Rightarrow> world" where
  "add_one E t f once capture ty w =
     (if once \<and> \<not> onceSupported (e_platform E) then
        let key = e_fn_text E (fst f);
            k = next_fun w;
            wrapped = (HOnce t ty key capture k (fst f), k);
            w1 = w\<lparr>next_fun := Suc k\<rparr>;
            w2 = (case legacy_get w1 t ty key of
                    Some old \<Rightarrow> removeEventListener t ty old capture w1
                  | None \<Rightarrow> w1)
        in addEventListener t ty wrapped capture False (legacy_put t ty key wrapped w2)
      else addEventListener t ty f capture once w)"

definition addListener_with ::
  "env \<Rightarrow> target \<Rightarrow> string \<Rightarrow> callback \<Rightarrow> bool \<Rightarrow> bool \<Rightarrow> world \<Rightarrow> world" where
  "addListener_with E t types f once capture w =
     foldl (\<lambda>w ty. add_one E t f once capture ty w) w (split_spaces (trim types))"

definition addListener :: "env \<Rightarrow> target \<Rightarrow> string \<Rightarrow> callback \<Rightarrow> world \<Rightarrow> world" where
  "addListener E t types f = addListener_with E t types f False False"

definition addListener_once :: "env \<Rightarrow> target \<Rightarrow> string \<Rightarrow> callback \<Rightarrow> world \<Rightarrow> world" where
  "addListener_once E t types f = addListener_with E t types f True False"

text \<open>
  The variable \<open>handler\<close> of the source outlives an iteration: a wrapper found for one event
  type is also the one removed for the types after it.
\<close>

fun remove_each ::
  "env \<Rightarrow> target \<Rightarrow> callback \<Rightarrow> bool \<Rightarrow> callback \<Rightarrow> string list \<Rightarrow> world \<Rightarrow> world" where
  "remove_each E t f capture h [] w = w"
| "remove_each E t f capture h (ty # tys) w =
     (let key = e_fn_text E (fst f);
          found = (if onceSupported (e_platform E) then None else legacy_get w t ty key);
          h' = (case found of Some g \<Rightarrow> g | None \<Rightarrow> h);
          w1 = (if found = None then w else legacy_del t ty key w)
      in remove_each E t f capture h' tys (removeEventListener t ty h' capture w1))"

definition removeListener_with ::
  "env \<Rightarrow> target \<Rightarrow> string \<Rightarrow> callback option \<Rightarrow> bool \<Rightarrow> world \<Rightarrow> world" where
  "removeListener_with E t types f capture w =
     (case f of
        None \<Rightarrow> w
      | Some cb \<Rightarrow> remove_each E t cb capture cb (split_spaces (trim types)) w)"

definition removeListener :: "env \<Rightarrow> target \<Rightarrow> string \<Rightarrow> callback option \<Rightarrow> world \<Rightarrow> world" where
  "removeListener E t types f = removeListener_with E t types f False"

text \<open>\<open>if (isFunction(options.k)) addListener(element, k, options.k, {once: true})\<close>\<close>

definition add_user_once :: "env \<Rightarrow> string \<Rightarrow> string \<Rightarrow> world \<Rightarrow> world" where
  "add_user_once E name ty w =
     (case opt name w of
        Fun k \<Rightarrow> addListener_once E (Node (element w)) ty (HUser k, k) w
      | _ \<Rightarrow> w)"

section \<open>Events\<close>

text \<open>
  The old way to make an event has no room for options: such an event is always cancelable.
\<close>

definition dispatchEvent ::
  "env \<Rightarrow> nat \<Rightarrow> string \<Rightarrow> (string \<times> jsval) list \<Rightarrow> bool \<Rightarrow> (world, bool) expr" where
  "dispatchEvent E n ty dat cancelable =
     (let ev = (plain_event ty n)
            \<lparr>e_cancelable := cancelable \<or> \<not> p_CustomEvent (e_platform E), e_data := dat\<rparr>
      in dispatch (invoke E) (e_root E) True (Node n) ev)"

definition getOffset :: "env \<Rightarrow> world \<Rightarrow> nat \<Rightarrow> jsnum \<times> jsnum" where
  "getOffset E w n = (nadd (e_boxLeft E w n) (e_scrollX E w), nadd (e_boxTop E w n) (e_scrollY E w))"

section \<open>Natural sizes\<close>

text \<open>An assignment to \<open>src\<close>: an image of the cache is complete at once.\<close>

definition set_src :: "env \<Rightarrow> nat \<Rightarrow> string \<Rightarrow> world \<Rightarrow> world" where
  "set_src E n s w =
     node_upd n
       (\<lambda>e. let e1 = e\<lparr>n_attrs := oset (n_attrs e) ''src'' s\<rparr>
            in case e_cache E s of
                 Some (a, b) \<Rightarrow> e1\<lparr>n_complete := True, n_natW := a, n_natH := b\<rparr>
               | None \<Rightarrow> e1\<lparr>n_complete := (s = []), n_natW := Fin 0, n_natH := Fin 0\<rparr>) w"

definition inherited_names :: "world \<Rightarrow> string list" where
  "inherited_names w = (case opt ''inheritedAttributes'' w of Arr vs \<Rightarrow> map to_str vs | _ \<Rightarrow> [])"

text \<open>Attribute names of an HTML element are matched in lower case.\<close>

definition inherit_one :: "nat \<Rightarrow> nat \<Rightarrow> string \<Rightarrow> world \<Rightarrow> world" where
  "inherit_one src dst name w =
     (case getAttribute (nodes w src) (map to_lower name) of
        Some v \<Rightarrow> setAttribute dst (map to_lower name) v w
      | None \<Rightarrow> w)"

definition inherit_attributes :: "nat \<Rightarrow> nat \<Rightarrow> world \<Rightarrow> world" where
  "inherit_attributes src dst w = foldl (\<lambda>w nm. inherit_one src dst nm w) w (inherited_names w)"

definition sizing_style :: "(string \<times> css) list" where
  "sizing_style =
     [(''left'', [Lit ''0'']), (''maxHeight'', [Lit ''none!important'']),
      (''maxWidth'', [Lit ''none!important'']), (''minHeight'', [Lit ''0!important'']),
      (''minWidth'', [Lit ''0!important'']), (''opacity'', [Lit ''0'']),
      (''position'', [Lit ''absolute'']), (''top'', [Lit ''0'']), (''zIndex'', [Lit ''-1''])]"

definition page_body :: "env \<Rightarrow> nat" where
  "page_body E = (if e_body E \<noteq> null then e_body E else e_root E)"

text \<open>
  \<open>run\<close> calls the callback; \<open>k\<close> receives the new image. The callback runs at once when the
  size is known, else it becomes the \<open>onload\<close> of the new image.
\<close>

definition getImageNaturalSizes ::
  "env \<Rightarrow> (szcb \<Rightarrow> jsnum \<Rightarrow> jsnum \<Rightarrow> world stmt) \<Rightarrow> nat \<Rightarrow> szcb \<Rightarrow> (nat \<Rightarrow> world stmt) \<Rightarrow> world stmt"
where
  "getImageNaturalSizes E run img cb k =
     createElement ''img'' (\<lambda>newImage.
       ifS (\<lambda>w. n_natW (nodes w img) \<noteq> Fin 0 \<and> n_natW (nodes w img) \<noteq> NaN \<and>
                \<not> IS_SAFARI (e_platform E))
         (block
            [getS (\<lambda>w. (n_natW (nodes w img), n_natH (nodes w img))) (\<lambda>(a, b). callS (run cb a b)),
             k newImage])
         (block
            [upd (\<lambda>w. w\<lparr>onloads := (newImage, HSized newImage cb) # onloads w\<rparr>),
             upd (inherit_attributes img newImage),
             upd (\<lambda>w. set_src E newImage (attr_prop (nodes w img) ''src'') w),
             (if \<not> IS_SAFARI (e_platform E)
              then upd (\<lambda>w. appendChild (page_body E) newImage
                             (node_upd newImage (\<lambda>e. e\<lparr>n_style := sizing_style\<rparr>) w))
              else skip),
             k newImage]))"

text \<open>\<open>newImage.onload\<close> of that function; its size is then its natural size.\<close>

definition sizing_onload ::
  "env \<Rightarrow> (szcb \<Rightarrow> jsnum \<Rightarrow> jsnum \<Rightarrow> world stmt) \<Rightarrow> nat \<Rightarrow> szcb \<Rightarrow> world stmt" where
  "sizing_onload E run newImage cb =
     block
       [getS (\<lambda>w. (n_natW (nodes w newImage), n_natH (nodes w newImage)))
          (\<lambda>(a, b). callS (run cb a b)),
        (if \<not> IS_SAFARI (e_platform E) then upd (removeChild (page_body E) newImage) else skip)]"

end
