(* ===== verification/Render.thy ===== *)
theory Render imports Dom_Util begin

text \<open>
  The rendering part of the viewer: measuring the page, the list of thumbnails, the size and
  place of the current image and its transforms. Continuations run through
  \<open>run_rdone\<close>, \<open>run_idone\<close> and \<open>run_sz\<close>, each defined after what it calls.
\<close>

section \<open>Measuring\<close>

definition initBody :: "env \<Rightarrow> world \<Rightarrow> world" where
  "initBody E w =
     (let b = page_body E
      in w\<lparr>body := b,
           scrollbarWidth := nsub (e_innerWidth E w) (e_clientWidth E w),
           initialBodyPaddingRight :=
             (case alookup (n_style (nodes w b)) ''paddingRight'' of Some t \<Rightarrow> t | None \<Rightarrow> []),
           initialBodyComputedPaddingRight := e_paddingRight E w b\<rparr>)"

definition initContainer :: "env \<Rightarrow> world \<Rightarrow> world" where
  "initContainer E w =
     w\<lparr>containerData := \<lparr>dm_width = e_innerWidth E w, dm_height = e_innerHeight E w\<rparr>\<rparr>"

definition initViewer :: "env \<Rightarrow> world stmt" where
  "initViewer E =
     block
       [whenS (opt_on ''inline'')
          [getS v_parent need,
           upd (\<lambda>w. w\<lparr>parentData :=
             \<lparr>dm_width = nmax (e_offsetWidth E w (v_parent w)) (to_num (opt ''minWidth'' w)),
              dm_height = nmax (e_offsetHeight E w (v_parent w)) (to_num (opt ''minHeight'' w))\<rparr>\<rparr>)],
        upd (\<lambda>w. w\<lparr>viewerData :=
          (if fulled w \<or> \<not> opt_on ''inline'' w then containerData w else parentData w)\<rparr>)]"

definition renderViewer :: "world stmt" where
  "renderViewer =
     whenS (\<lambda>w. opt_on ''inline'' w \<and> \<not> fulled w)
       [getS id (\<lambda>w. setStyle (v_viewer w)
          [(''width'', CNum (dm_width (viewerData w))), (''height'', CNum (dm_height (viewerData w)))])]"

section \<open>Thumbnails\<close>

definition getImageURL :: "env \<Rightarrow> nat \<Rightarrow> (world, jsval) expr" where
  "getImageURL E img w =
     (case opt ''url'' w of
        Str s \<Rightarrow> (Val (case getAttribute (nodes w img) (map to_lower s) of
                         Some v \<Rightarrow> Str v | None \<Rightarrow> Null), w)
      | Fun k \<Rightarrow> e_user E k [Elem img] w
      | _ \<Rightarrow> (Val (Str []), w))"

definition image_alt :: "nat \<Rightarrow> (world, string) expr" where
  "image_alt img w =
     (let alt = attr_prop (nodes w img) ''alt''
      in if alt \<noteq> [] then (Val alt, w)
         else (getImageNameFromURL (Str (attr_prop (nodes w img) ''src'')), w))"

text \<open>The list item of one image, with its thumbnail.\<close>

definition make_item ::
  "env \<Rightarrow> nat \<Rightarrow> nat \<Rightarrow> string \<Rightarrow> string \<Rightarrow> jsval \<Rightarrow> (nat \<Rightarrow> world stmt) \<Rightarrow> world stmt" where
  "make_item E img idx src alt url k =
     createElement ''li'' (\<lambda>item. createElement ''img'' (\<lambda>th. block
       [upd (inherit_attributes img th),
        upd (set_src E th (if src \<noteq> [] then src else to_str url)),
        upd (setAttribute th ''alt'' alt),
        upd (setAttribute th ''data-index'' (nat_to_str idx)),
        upd (setAttribute th ''data-original-url'' (if truthy url then to_str url else src)),
        upd (setAttribute th ''data-viewer-action'' ''view''),
        upd (setAttribute th ''role'' ''button''),
        upd (appendChild item th),
        upd (\<lambda>w. appendChild (v_list w) item w),
        k item]))"

text \<open>The loop over the images; the variable \<open>items\<close> of the source is the accumulator.\<close>

fun list_images :: "env \<Rightarrow> nat \<Rightarrow> nat list \<Rightarrow> nat list \<Rightarrow> (nat list \<Rightarrow> world stmt) \<Rightarrow> world stmt" where
  "list_images E idx acc [] k = k acc"
| "list_images E idx acc (img # imgs) k =
     bindS (image_alt img) (\<lambda>alt. bindS (getImageURL E img) (\<lambda>url.
       getS (\<lambda>w. attr_prop (nodes w img) ''src'') (\<lambda>src.
         if src \<noteq> [] \<or> truthy url
         then make_item E img idx src alt url (\<lambda>item. list_images E (Suc idx) (acc @ [item]) imgs k)
         else list_images E (Suc idx) acc imgs k)))"

definition prepare_item :: "env \<Rightarrow> nat \<Rightarrow> world stmt" where
  "prepare_item E item =
     block
       [upd (\<lambda>w. setData E (firstElementChild w item) ''filled'' (Bool True) w),
        whenS (opt_on ''loading'') [upd (addClass E item CLASS_LOADING)],
        fresh_fun (HItemLoad item) (\<lambda>f. upd (\<lambda>w.
          addListener_once E (Node (firstElementChild w item)) EVENT_LOAD f w))]"

definition initList :: "env \<Rightarrow> world stmt" where
  "initList E =
     block
       [upd (\<lambda>w. set_text (v_list w) [] w),
        getS images (\<lambda>imgs. list_images E 0 [] imgs (\<lambda>its. block
          [upd (\<lambda>w. w\<lparr>items := its\<rparr>),
           eachS (\<lambda>item i. prepare_item E item) 0 its,
           whenS (opt_on ''transition'')
             [getS v_list (\<lambda>l. fresh_fun (HListTransition l) (\<lambda>f. upd (\<lambda>w.
                addListener_once E (Node (element w)) EVENT_VIEWED f w)))]]))]"

text \<open>Where the list goes so that item \<open>i\<close> is in the middle of the viewer.\<close>

definition list_shift :: "jsnum \<Rightarrow> jsnum \<Rightarrow> jsnum \<Rightarrow> jsnum" where
  "list_shift viewerWidth width i =
     nsub (ndiv (nsub viewerWidth width) (Fin 2)) (nmul (nadd width (Fin 1)) i)"

definition renderList :: "env \<Rightarrow> jsnum option \<Rightarrow> world stmt" where
  "renderList E idx =
     getS (\<lambda>w. case idx of Some x \<Rightarrow> nor x (index w) | None \<Rightarrow> index w) (\<lambda>i.
     getS (\<lambda>w. node_at (items w) i) (\<lambda>item. block
       [need item,
        getS (\<lambda>w. nor (e_offsetWidth E w item) (Fin 30)) (\<lambda>width.
        getS id (\<lambda>w. setStyle (v_list w)
          ((''width'', CNum (nmul (nadd width (Fin 1)) (nnat (len w)))) #
           getTransforms (no_transforms
             \<lparr>t_translateX := Some (list_shift (dm_width (viewerData w)) width i)\<rparr>))))]))"

definition resetList :: "env \<Rightarrow> world stmt" where
  "resetList E =
     block
       [upd (\<lambda>w. set_text (v_list w) [] w),
        upd (\<lambda>w. removeClass E (v_list w) CLASS_TRANSITION w),
        getS v_list (\<lambda>l. setStyle l (getTransforms (no_transforms\<lparr>t_translateX := Some (Fin 0)\<rparr>)))]"

definition render :: "env \<Rightarrow> world stmt" where
  "render E =
     block
       [upd (initContainer E),
        callS (initViewer E),
        callS (initList E),
        callS renderViewer]"

section \<open>The current image\<close>

text \<open>The continuation of \<open>renderImage\<close>.\<close>

definition run_rdone :: "env \<Rightarrow> rdone \<Rightarrow> world stmt" where
  "run_rdone E d =
     (case d of
        RNone \<Rightarrow> skip
      | RViewed img idx \<Rightarrow> block
          [upd (\<lambda>w. w\<lparr>viewed := True, viewing := None\<rparr>),
           upd (add_user_once E ''viewed'' EVENT_VIEWED),
           getS id (\<lambda>w. exprS (dispatchEvent E (element w) EVENT_VIEWED
             [(''originalImage'', Elem (node_at (images w) idx)), (''index'', Num idx),
              (''image'', Elem img)] False))]
      | RZoomed ratio oldRatio orig \<Rightarrow> block
          [upd (\<lambda>w. w\<lparr>zooming := False\<rparr>),
           upd (add_user_once E ''zoomed'' EVENT_ZOOMED),
           getS element (\<lambda>el. exprS (dispatchEvent E el EVENT_ZOOMED
             [(''ratio'', Num ratio), (''oldRatio'', Num oldRatio), (''originalEvent'', Bool orig)]
             False))]
      | RSettle img lst \<Rightarrow>
          whenS (opt_on ''transition'') [setTimeout (TAddTransition img lst) (Fin 0) (\<lambda>i. skip)])"

definition image_transforms :: "imagedata \<Rightarrow> transforms" where
  "image_transforms d =
     \<lparr>t_rotate = id_rotate d, t_scaleX = id_scaleX d, t_scaleY = id_scaleY d,
      t_translateX = None, t_translateY = None\<rparr>"

definition image_styles :: "imagedata \<Rightarrow> (string \<times> cssval) list" where
  "image_styles d =
     [(''width'', CNum (num_of (id_width d))), (''height'', CNum (num_of (id_height d))),
      (''marginLeft'', CNum (num_of (id_left d))), (''marginTop'', CNum (num_of (id_top d)))] @
     getTransforms (image_transforms d)"

definition renderImage :: "env \<Rightarrow> rdone \<Rightarrow> world stmt" where
  "renderImage E dn =
     getS image (\<lambda>img. block
       [getS (\<lambda>w. image_styles (idata w)) (setStyle img),
        (if dn = RNone then skip
         else ifS (\<lambda>w. (viewing w \<noteq> None \<or> zooming w) \<and> opt_on ''transition'' w)
           (fresh_fun (HRenderDone dn) (\<lambda>f. block
              [upd (\<lambda>w. w\<lparr>imageRendering := Some (img, f)\<rparr>),
               upd (addListener_once E (Node img) EVENT_TRANSITION_END f)]))
           (callS (run_rdone E dn)))])"

text \<open>The continuation of \<open>initImage\<close>.\<close>

definition run_idone :: "env \<Rightarrow> idone \<Rightarrow> world stmt" where
  "run_idone E d =
     (case d of
        ILoad img idx \<Rightarrow> block
          [getS (opt_on ''movable'') (toggleClass E img CLASS_MOVE),
           getS (opt_on ''transition'') (toggleClass E img CLASS_TRANSITION),
           callS (renderImage E (RViewed img idx))]
      | IRender \<Rightarrow> callS (renderImage E RNone)
      | ISettle img lst \<Rightarrow> callS (renderImage E (RSettle img lst)))"

text \<open>The largest size with the aspect ratio that fits, nine tenths of it, never enlarged.\<close>

definition fit_size :: "jsnum \<Rightarrow> jsnum \<Rightarrow> jsnum \<Rightarrow> jsnum \<Rightarrow> jsnum \<times> jsnum" where
  "fit_size viewerWidth viewerHeight naturalWidth naturalHeight =
     (let aspectRatio = ndiv naturalWidth naturalHeight;
          wide = nlt viewerWidth (nmul viewerHeight aspectRatio);
          width = (if wide then viewerWidth else nmul viewerHeight aspectRatio);
          height = (if wide then ndiv viewerWidth aspectRatio else viewerHeight)
      in (nmin (nmul width (Fin (9 / 10))) naturalWidth,
          nmin (nmul height (Fin (9 / 10))) naturalHeight))"

definition fit_data :: "jsnum \<Rightarrow> jsnum \<Rightarrow> jsnum \<Rightarrow> jsnum \<Rightarrow> imagedata" where
  "fit_data viewerWidth viewerHeight naturalWidth naturalHeight =
     (let (width, height) = fit_size viewerWidth viewerHeight naturalWidth naturalHeight
      in empty_data
           \<lparr>id_naturalWidth := Some naturalWidth,
            id_naturalHeight := Some naturalHeight,
            id_aspectRatio := Some (ndiv naturalWidth naturalHeight),
            id_ratio := Some (ndiv width naturalWidth),
            id_width := Some width,
            id_height := Some height,
            id_left := Some (ndiv (nsub viewerWidth width) (Fin 2)),
            id_top := Some (ndiv (nsub viewerHeight height) (Fin 2))\<rparr>)"

text \<open>\<open>x || n\<close> for a member that may be undefined.\<close>

definition orelse :: "jsnum option \<Rightarrow> jsnum \<Rightarrow> jsnum" where
  "orelse x n = nor (num_of x) n"

definition carry_transforms :: "world \<Rightarrow> imagedata \<Rightarrow> imagedata \<Rightarrow> imagedata" where
  "carry_transforms w old d =
     (let d1 = (if opt_on ''rotatable'' w then d\<lparr>id_rotate := Some (orelse (id_rotate old) (Fin 0))\<rparr> else d)
      in if opt_on ''scalable'' w
         then d1\<lparr>id_scaleX := Some (orelse (id_scaleX old) (Fin 1)),
                 id_scaleY := Some (orelse (id_scaleY old) (Fin 1))\<rparr>
         else d1)"

definition initial_transforms :: "world \<Rightarrow> imagedata \<Rightarrow> imagedata" where
  "initial_transforms w d = carry_transforms w empty_data d"

definition initImage_sized :: "env \<Rightarrow> jsnum \<Rightarrow> jsnum \<Rightarrow> nat \<Rightarrow> idone \<Rightarrow> jsnum \<Rightarrow> jsnum \<Rightarrow> world stmt" where
  "initImage_sized E viewerWidth viewerHeight old dn naturalWidth naturalHeight =
     block
       [upd (\<lambda>w. w\<lparr>imageInitializing := None\<rparr>),
        getS id (\<lambda>w.
          let d = fit_data viewerWidth viewerHeight naturalWidth naturalHeight
          in upd (\<lambda>w'. (new_imageData (carry_transforms w (idatas w old) d) w')
               \<lparr>initialImageData := initial_transforms w d\<rparr>)),
        callS (run_idone E dn)]"

text \<open>The size of a thumbnail: it covers its box when \<open>filled\<close>, else it fits into it.\<close>

definition thumb_size :: "bool \<Rightarrow> jsnum \<Rightarrow> jsnum \<Rightarrow> jsnum \<Rightarrow> jsnum \<Rightarrow> jsnum \<times> jsnum" where
  "thumb_size filled parentWidth parentHeight naturalWidth naturalHeight =
     (let aspectRatio = ndiv naturalWidth naturalHeight
      in if nlt parentWidth (nmul parentHeight aspectRatio)
         then (if filled then (nmul parentHeight aspectRatio, parentHeight)
               else (parentWidth, ndiv parentWidth aspectRatio))
         else (if filled then (parentWidth, ndiv parentWidth aspectRatio)
               else (nmul parentHeight aspectRatio, parentHeight)))"

definition thumb_sized ::
  "nat \<Rightarrow> jsnum \<Rightarrow> jsnum \<Rightarrow> bool \<Rightarrow> jsnum \<Rightarrow> jsnum \<Rightarrow> world stmt" where
  "thumb_sized img parentWidth parentHeight filled naturalWidth naturalHeight =
     (let (width, height) = thumb_size filled parentWidth parentHeight naturalWidth naturalHeight
      in setStyle img
           ([(''width'', CNum width), (''height'', CNum height)] @
            getTransforms (no_transforms
              \<lparr>t_translateX := Some (ndiv (nsub parentWidth width) (Fin 2)),
               t_translateY := Some (ndiv (nsub parentHeight height) (Fin 2))\<rparr>)))"

text \<open>The callbacks that wait for a natural size.\<close>

definition run_sz :: "env \<Rightarrow> szcb \<Rightarrow> jsnum \<Rightarrow> jsnum \<Rightarrow> world stmt" where
  "run_sz E cb a b =
     (case cb of
        SInit vw vh old dn \<Rightarrow> initImage_sized E vw vh old dn a b
      | SThumb img pw ph filled \<Rightarrow> thumb_sized img pw ph filled a b)"

text \<open>
  While the callback has not run, \<open>imageInitializing\<close> holds the image whose \<open>onload\<close> its
  \<open>abort\<close> would clear; null stands for the variable before its assignment.
\<close>

definition initImage :: "env \<Rightarrow> idone \<Rightarrow> world stmt" where
  "initImage E dn =
     getS (\<lambda>w. e_offsetHeight E w (v_footer w)) (\<lambda>footerHeight.
     getS (\<lambda>w. (image w, dm_width (viewerData w),
                nmax (nsub (dm_height (viewerData w)) footerHeight) footerHeight, imageData w))
       (\<lambda>(img, viewerWidth, viewerHeight, old). block
          [upd (\<lambda>w. w\<lparr>imageInitializing := Some null\<rparr>),
           need img,
           getImageNaturalSizes E (run_sz E) img (SInit viewerWidth viewerHeight old dn)
             (\<lambda>sizingImage. upd (\<lambda>w.
                if imageInitializing w = Some null then w\<lparr>imageInitializing := Some sizingImage\<rparr>
                else w))]))"

definition abort_initializing :: "world stmt" where
  "abort_initializing =
     getS imageInitializing (\<lambda>s.
       case s of
         Some n \<Rightarrow> block [need n, upd (\<lambda>w. w\<lparr>onloads := filter (\<lambda>p. fst p \<noteq> n) (onloads w)\<rparr>)]
       | None \<Rightarrow> throw TypeError)"

definition abort_rendering :: "env \<Rightarrow> world stmt" where
  "abort_rendering E =
     getS imageRendering (\<lambda>r.
       case r of
         Some (img, f) \<Rightarrow> upd (removeListener E (Node img) EVENT_TRANSITION_END (Some f))
       | None \<Rightarrow> throw TypeError)"

definition abort_image :: "env \<Rightarrow> world stmt" where
  "abort_image E =
     ifS (\<lambda>w. imageRendering w \<noteq> None) (abort_rendering E)
       (whenS (\<lambda>w. imageInitializing w \<noteq> None) [abort_initializing])"

text \<open>\<open>this.viewing.abort()\<close>\<close>

definition abort_viewing :: "env \<Rightarrow> world stmt" where
  "abort_viewing E =
     getS viewing (\<lambda>v.
       case v of
         None \<Rightarrow> throw TypeError
       | Some a \<Rightarrow> block
           [upd (\<lambda>w. removeListener E (Node (element w)) EVENT_VIEWED (Some (va_onViewed a)) w),
            ifS (\<lambda>w. n_complete (nodes w (va_image a)))
              (abort_image E)
              (block
                 [upd (set_src E (va_image a) []),
                  upd (removeListener E (Node (va_image a)) EVENT_LOAD (va_onLoad a)),
                  upd (\<lambda>w. clearTimeout (timeout w) w)])])"

definition resetImage :: "env \<Rightarrow> world stmt" where
  "resetImage E =
     whenS (\<lambda>w. viewing w \<noteq> None \<or> viewed w)
       [getS image (\<lambda>img. block
          [whenS (\<lambda>w. viewing w \<noteq> None) [callS (abort_viewing E)],
           need img,
           getS (\<lambda>w. n_parent (nodes w img)) (\<lambda>p. block [need p, upd (removeChild p img)]),
           upd (\<lambda>w. w\<lparr>image := null\<rparr>)])]"

section \<open>Loading\<close>

definition loading_style :: "dims \<Rightarrow> (string \<times> css) list" where
  "loading_style d =
     [(''height'', [Lit ''0'']),
      (''marginLeft'', [NumP (ndiv (dm_width d) (Fin 2)), Lit ''px'']),
      (''marginTop'', [NumP (ndiv (dm_height d) (Fin 2)), Lit ''px'']),
      (''maxWidth'', [Lit ''none!important'']),
      (''position'', [Lit ''absolute'']),
      (''width'', [Lit ''0''])]"

definition load :: "env \<Rightarrow> world stmt" where
  "load E =
     block
       [whenS (\<lambda>w. timeout w \<noteq> None)
          [upd (\<lambda>w. clearTimeout (timeout w) w), upd (\<lambda>w. w\<lparr>timeout := None\<rparr>)],
        getS (\<lambda>w. (image w, index w)) (\<lambda>(img, idx). block
          [upd (removeClass E img CLASS_INVISIBLE),
           whenS (opt_on ''loading'') [upd (\<lambda>w. removeClass E (v_canvas w) CLASS_LOADING w)],
           need img,
           upd (\<lambda>w. node_upd img (\<lambda>e. e\<lparr>n_style := loading_style (viewerData w)\<rparr>) w),
           callS (initImage E (ILoad img idx))])]"

definition loadImage :: "env \<Rightarrow> event \<Rightarrow> world stmt" where
  "loadImage E ev =
     getS (\<lambda>w. (e_target ev, n_parent (nodes w (e_target ev)))) (\<lambda>(img, par). block
       [need img,
        need par,
        getS (\<lambda>w. (nor (e_offsetWidth E w par) (Fin 30), nor (e_offsetHeight E w par) (Fin 50),
                   truthy (getData E (nodes w img) ''filled'')))
          (\<lambda>(pw, ph, filled).
             getImageNaturalSizes E (run_sz E) img (SThumb img pw ph filled) (\<lambda>n. skip))])"

end
