(* ===== verification/Viewer_Methods.thy ===== *)
theory Viewer_Methods imports Render begin

text \<open>
  The methods that change the current image and the slide show: the listeners of the page
  (\<open>bind\<close>, \<open>unbind\<close>), the body of the page, full screen, moving, zooming, rotating, scaling,
  the tooltip, playing, full mode. A number argument that the caller may leave out is a value
  of \<open>jsval\<close>, \<open>Undefined\<close> when it is left out.
\<close>

section \<open>Listeners of the viewer\<close>

definition bind_one ::
  "env \<Rightarrow> (world \<Rightarrow> target) \<Rightarrow> string \<Rightarrow> handler \<Rightarrow> (callback \<Rightarrow> world \<Rightarrow> world) \<Rightarrow> bool \<Rightarrow> world stmt" where
  "bind_one E tgt ty h store capture =
     fresh_fun h (\<lambda>f. upd (\<lambda>w. addListener_with E (tgt w) ty f False capture (store f w)))"

definition bind :: "env \<Rightarrow> world stmt" where
  "bind E =
     (let p = e_platform E in block
       [bind_one E (\<lambda>w. Node (v_viewer w)) EVENT_CLICK HClick (\<lambda>f w. w\<lparr>onClick := Some f\<rparr>) False,
        bind_one E (\<lambda>w. Node (v_viewer w)) EVENT_DRAG_START HDragstart (\<lambda>f w. w\<lparr>onDragStart := Some f\<rparr>) False,
        bind_one E (\<lambda>w. Node (v_canvas w)) (EVENT_POINTER_DOWN p) HPointerdown (\<lambda>f w. w\<lparr>onPointerDown := Some f\<rparr>) False,
        bind_one E (\<lambda>w. Document) (EVENT_POINTER_MOVE p) HPointermove (\<lambda>f w. w\<lparr>onPointerMove := Some f\<rparr>) False,
        bind_one E (\<lambda>w. Document) (EVENT_POINTER_UP p) HPointerup (\<lambda>f w. w\<lparr>onPointerUp := Some f\<rparr>) False,
        bind_one E (\<lambda>w. Document) EVENT_KEY_DOWN HKeydown (\<lambda>f w. w\<lparr>onKeyDown := Some f\<rparr>) False,
        bind_one E (\<lambda>w. Window) EVENT_RESIZE HResize (\<lambda>f w. w\<lparr>onResize := Some f\<rparr>) False,
        whenS (\<lambda>w. opt_on ''zoomable'' w \<and> opt_on ''zoomOnWheel'' w)
          [bind_one E (\<lambda>w. Node (v_viewer w)) EVENT_WHEEL HWheel (\<lambda>f w. w\<lparr>onWheel := Some f\<rparr>) True],
        whenS (opt_on ''toggleOnDblclick'')
          [bind_one E (\<lambda>w. Node (v_canvas w)) EVENT_DBLCLICK HDblclick (\<lambda>f w. w\<lparr>onDblclick := Some f\<rparr>) False]])"

definition unbind :: "env \<Rightarrow> world \<Rightarrow> world" where
  "unbind E w =
     (let p = e_platform E;
          vw = Node (v_viewer w);
          cv = Node (v_canvas w);
          w1 = removeListener E vw EVENT_CLICK (onClick w) w;
          w2 = removeListener E vw EVENT_DRAG_START (onDragStart w) w1;
          w3 = removeListener E cv (EVENT_POINTER_DOWN p) (onPointerDown w) w2;
          w4 = removeListener E Document (EVENT_POINTER_MOVE p) (onPointerMove w) w3;
          w5 = removeListener E Document (EVENT_POINTER_UP p) (onPointerUp w) w4;
          w6 = removeListener E Document EVENT_KEY_DOWN (onKeyDown w) w5;
          w7 = removeListener E Window EVENT_RESIZE (onResize w) w6;
          w8 = (if opt_on ''zoomable'' w \<and> opt_on ''zoomOnWheel'' w
                then removeListener_with E vw EVENT_WHEEL (onWheel w) True w7 else w7)
      in if opt_on ''toggleOnDblclick'' w
         then removeListener E cv EVENT_DBLCLICK (onDblclick w) w8 else w8)"

section \<open>The body of the page, full screen\<close>

definition open_body :: "env \<Rightarrow> world \<Rightarrow> world" where
  "open_body E w =
     (let b = body w;
          pad = nadd (scrollbarWidth w) (nor (parseFloat (initialBodyComputedPaddingRight w)) (Fin 0))
      in node_upd b (style_put ''paddingRight'' [NumP pad, Lit ''px'']) (addClass E b CLASS_OPEN w))"

definition close_body :: "env \<Rightarrow> world \<Rightarrow> world" where
  "close_body E w =
     node_upd (body w) (style_put ''paddingRight'' (initialBodyPaddingRight w))
       (removeClass E (body w) CLASS_OPEN w)"

definition requestFullscreen :: "env \<Rightarrow> world \<Rightarrow> world" where
  "requestFullscreen E w =
     (if fulled w \<and> \<not> e_fs_element E w
      then (case e_fs_request E of
              Some c \<Rightarrow> w\<lparr>fs_calls := fs_calls w @ [c]\<rparr>
            | None \<Rightarrow> w)
      else w)"

definition exitFullscreen :: "env \<Rightarrow> world \<Rightarrow> world" where
  "exitFullscreen E w =
     (if fulled w \<and> e_fs_element E w
      then (case e_fs_exit E of
              Some c \<Rightarrow> w\<lparr>fs_calls := fs_calls w @ [c]\<rparr>
            | None \<Rightarrow> w)
      else w)"

section \<open>Moving, rotating, scaling\<close>

definition movable_now :: "string \<Rightarrow> world \<Rightarrow> bool" where
  "movable_now name w = (viewed w \<and> \<not> played w \<and> opt_on name w)"

definition moveTo :: "env \<Rightarrow> jsval \<Rightarrow> jsval \<Rightarrow> world stmt" where
  "moveTo E x0 y0 =
     (let x = to_num x0; y = to_num (if isUndefined y0 then x0 else y0)
      in getS imageData (\<lambda>d.
           whenS (movable_now ''movable'')
             [(if x \<noteq> NaN then upd (set_idata d (\<lambda>r. r\<lparr>id_left := Some x\<rparr>)) else skip),
              (if y \<noteq> NaN then upd (set_idata d (\<lambda>r. r\<lparr>id_top := Some y\<rparr>)) else skip),
              (if x \<noteq> NaN \<or> y \<noteq> NaN then callS (renderImage E RNone) else skip)]))"

definition shift_by :: "jsnum option \<Rightarrow> jsval \<Rightarrow> jsval" where
  "shift_by a v = (if isUndefined v then v else Num (nadd (num_of a) (to_num v)))"

definition move :: "env \<Rightarrow> jsval \<Rightarrow> jsval \<Rightarrow> world stmt" where
  "move E offsetX offsetY =
     getS idata (\<lambda>d. callS (moveTo E (shift_by (id_left d) offsetX) (shift_by (id_top d) offsetY)))"

definition rotateTo :: "env \<Rightarrow> jsval \<Rightarrow> world stmt" where
  "rotateTo E degree0 =
     (let degree = to_num degree0
      in getS imageData (\<lambda>d.
           whenS (\<lambda>w. degree \<noteq> NaN \<and> movable_now ''rotatable'' w)
             [upd (set_idata d (\<lambda>r. r\<lparr>id_rotate := Some degree\<rparr>)), callS (renderImage E RNone)]))"

definition rotate_by :: "env \<Rightarrow> jsval \<Rightarrow> world stmt" where
  "rotate_by E degree =
     getS idata (\<lambda>d. callS (rotateTo E (Num (nadd (orelse (id_rotate d) (Fin 0)) (to_num degree)))))"

definition scale :: "env \<Rightarrow> jsval \<Rightarrow> jsval \<Rightarrow> world stmt" where
  "scale E x0 y0 =
     (let x = to_num x0; y = to_num (if isUndefined y0 then x0 else y0)
      in getS imageData (\<lambda>d.
           whenS (movable_now ''scalable'')
             [(if x \<noteq> NaN then upd (set_idata d (\<lambda>r. r\<lparr>id_scaleX := Some x\<rparr>)) else skip),
              (if y \<noteq> NaN then upd (set_idata d (\<lambda>r. r\<lparr>id_scaleY := Some y\<rparr>)) else skip),
              (if x \<noteq> NaN \<or> y \<noteq> NaN then callS (renderImage E RNone) else skip)]))"

definition member_val :: "jsnum option \<Rightarrow> jsval" where
  "member_val a = (case a of None \<Rightarrow> Undefined | Some n \<Rightarrow> Num n)"

definition scaleX :: "env \<Rightarrow> jsval \<Rightarrow> world stmt" where
  "scaleX E x = getS idata (\<lambda>d. callS (scale E x (member_val (id_scaleY d))))"

definition scaleY :: "env \<Rightarrow> jsval \<Rightarrow> world stmt" where
  "scaleY E y = getS idata (\<lambda>d. callS (scale E (member_val (id_scaleX d)) y))"

section \<open>The tooltip\<close>

definition note_width :: "env \<Rightarrow> nat \<Rightarrow> world \<Rightarrow> world" where
  "note_width E n w =
     node_upd n (\<lambda>e. e\<lparr>n_expando := oset (n_expando e) ''initialOffsetWidth'' (Num (e_offsetWidth E w n))\<rparr>) w"

definition tooltip_text :: "jsnum \<Rightarrow> string" where
  "tooltip_text ratio = num_to_str (nround (nmul ratio (Fin 100))) @ ''%''"

definition tooltip :: "env \<Rightarrow> world stmt" where
  "tooltip E =
     getS v_tooltipBox (\<lambda>box.
     getS idata (\<lambda>d.
       whenS (\<lambda>w. viewed w \<and> \<not> played w \<and> opt_on ''tooltip'' w)
         [upd (set_text box (tooltip_text (num_of (id_ratio d)))),
          ifS (\<lambda>w. tooltipping w = None)
            (ifS (opt_on ''transition'')
               (block
                  [whenS fading [exprS (dispatchEvent E box EVENT_TRANSITION_END [] True)],
                   upd (addClass E box CLASS_SHOW),
                   upd (addClass E box CLASS_FADE),
                   upd (addClass E box CLASS_TRANSITION),
                   upd (note_width E box),
                   upd (addClass E box CLASS_IN)])
               (upd (addClass E box CLASS_SHOW)))
            (upd (\<lambda>w. clearTimeout (tooltipping w) w)),
          setTimeout (TTooltipHide box) (Fin 1000) (\<lambda>i. upd (\<lambda>w. w\<lparr>tooltipping := Some i\<rparr>))]))"

text \<open>The timer of the tooltip, and the end of its fading.\<close>

definition tooltip_hide :: "env \<Rightarrow> nat \<Rightarrow> world stmt" where
  "tooltip_hide E box =
     block
       [ifS (opt_on ''transition'')
          (fresh_fun (HTooltipFaded box) (\<lambda>f. block
             [upd (addListener_once E (Node box) EVENT_TRANSITION_END f),
              upd (removeClass E box CLASS_IN),
              upd (\<lambda>w. w\<lparr>fading := True\<rparr>)]))
          (upd (removeClass E box CLASS_SHOW)),
        upd (\<lambda>w. w\<lparr>tooltipping := None\<rparr>)]"

definition tooltip_faded :: "env \<Rightarrow> nat \<Rightarrow> world \<Rightarrow> world" where
  "tooltip_faded E box w =
     (removeClass E box CLASS_TRANSITION
       (removeClass E box CLASS_FADE
         (removeClass E box CLASS_SHOW w)))\<lparr>fading := False\<rparr>"

section \<open>Zooming\<close>

text \<open>The clamping of the ratio, and the snap to the natural size near one.\<close>

definition clamp_ratio :: "world \<Rightarrow> bool \<Rightarrow> jsnum \<Rightarrow> jsnum" where
  "clamp_ratio w forced ratio =
     (if forced then ratio
      else nmin (nmax ratio (nmax (Fin (1 / 100)) (to_num (opt ''minZoomRatio'' w))))
             (nmin (Fin 100) (to_num (opt ''maxZoomRatio'' w))))"

definition snap_ratio :: "world \<Rightarrow> bool \<Rightarrow> jsnum \<Rightarrow> jsnum" where
  "snap_ratio w has_event ratio =
     (if has_event \<and> nle (Fin (55 / 1000)) (to_num (opt ''zoomRatio'' w)) \<and>
         nlt (Fin (95 / 100)) ratio \<and> nlt ratio (Fin (105 / 100))
      then Fin 1 else ratio)"

text \<open>
  The point that stays in place: the centre of the pointers, or the place of the event, or
  the centre of the image when there is no event.
\<close>

definition zoom_center :: "world \<Rightarrow> event \<Rightarrow> jsnum \<times> jsnum" where
  "zoom_center w ev =
     (if pointers w \<noteq> [] then getPointersCenter (pointers w) else (e_pageX ev, e_pageY ev))"

definition zoom_place ::
  "(jsnum \<times> jsnum) option \<Rightarrow> jsnum \<times> jsnum \<Rightarrow> imagedata \<Rightarrow> jsnum \<Rightarrow> jsnum \<Rightarrow> imagedata \<Rightarrow> imagedata"
where
  "zoom_place center off old offsetWidth offsetHeight r =
     (case center of
        Some (cx, cy) \<Rightarrow> r
          \<lparr>id_left := Some (nsub (num_of (id_left r))
              (nmul offsetWidth (ndiv (nsub (nsub cx (fst off)) (num_of (id_left old)))
                 (num_of (id_width old))))),
           id_top := Some (nsub (num_of (id_top r))
              (nmul offsetHeight (ndiv (nsub (nsub cy (snd off)) (num_of (id_top old)))
                 (num_of (id_height old)))))\<rparr>
      | None \<Rightarrow> r
          \<lparr>id_left := Some (nsub (num_of (id_left r)) (ndiv offsetWidth (Fin 2))),
           id_top := Some (nsub (num_of (id_top r)) (ndiv offsetHeight (Fin 2)))\<rparr>)"

definition zoom_resize :: "jsnum \<Rightarrow> jsnum \<Rightarrow> jsnum \<Rightarrow> imagedata \<Rightarrow> imagedata" where
  "zoom_resize newWidth newHeight ratio r =
     r\<lparr>id_width := Some newWidth, id_height := Some newHeight, id_ratio := Some ratio\<rparr>"

definition zoom_apply ::
  "env \<Rightarrow> nat \<Rightarrow> imagedata \<Rightarrow> jsnum \<Rightarrow> bool \<Rightarrow> event option \<Rightarrow> world stmt" where
  "zoom_apply E d old ratio hasTooltip orig =
     (let newWidth = nmul (num_of (id_naturalWidth old)) ratio;
          newHeight = nmul (num_of (id_naturalHeight old)) ratio;
          offsetWidth = nsub newWidth (num_of (id_width old));
          offsetHeight = nsub newHeight (num_of (id_height old));
          oldRatio = ndiv (num_of (id_width old)) (num_of (id_naturalWidth old))
      in block
        [upd (add_user_once E ''zoom'' EVENT_ZOOM),
         getS element (\<lambda>el. bindS
           (dispatchEvent E el EVENT_ZOOM
              [(''ratio'', Num ratio), (''oldRatio'', Num oldRatio),
               (''originalEvent'', Bool (orig \<noteq> None))] True)
           (\<lambda>go. if \<not> go then ret else skip)),
         upd (\<lambda>w. w\<lparr>zooming := True\<rparr>),
         upd (\<lambda>w. set_idata d
           (zoom_place (map_option (zoom_center w) orig) (getOffset E w (v_viewer w)) old
              offsetWidth offsetHeight) w),
         upd (set_idata d (zoom_resize newWidth newHeight ratio)),
         callS (renderImage E (RZoomed ratio oldRatio (orig \<noteq> None))),
         (if hasTooltip then callS (tooltip E) else skip)])"

definition zoomTo :: "env \<Rightarrow> jsnum \<Rightarrow> bool \<Rightarrow> event option \<Rightarrow> bool \<Rightarrow> world stmt" where
  "zoomTo E ratio0 hasTooltip orig forced =
     getS imageData (\<lambda>d.
     getS (\<lambda>w. idatas w d) (\<lambda>old.
       whenS (\<lambda>w. nmax (Fin 0) ratio0 \<noteq> NaN \<and> viewed w \<and> \<not> played w \<and>
                  (forced \<or> opt_on ''zoomable'' w))
         [getS (\<lambda>w. snap_ratio w (orig \<noteq> None) (clamp_ratio w forced (nmax (Fin 0) ratio0)))
            (\<lambda>ratio. zoom_apply E d old ratio hasTooltip orig)]))"

text \<open>A relative ratio: enlarging by \<open>r\<close> multiplies by \<open>1 + r\<close>, reducing divides.\<close>

definition zoom_factor :: "jsnum \<Rightarrow> jsnum" where
  "zoom_factor r = (if nlt r (Fin 0) then ndiv (Fin 1) (nsub (Fin 1) r) else nadd (Fin 1) r)"

definition zoom :: "env \<Rightarrow> jsval \<Rightarrow> bool \<Rightarrow> event option \<Rightarrow> world stmt" where
  "zoom E ratio hasTooltip orig =
     getS idata (\<lambda>d. callS (zoomTo E
       (ndiv (nmul (num_of (id_width d)) (zoom_factor (to_num ratio))) (num_of (id_naturalWidth d)))
       hasTooltip orig False))"

definition toggle :: "env \<Rightarrow> world stmt" where
  "toggle E =
     ifS (\<lambda>w. neq (num_of (id_ratio (idata w))) (Fin 1))
       (getS (\<lambda>w. num_of (id_ratio (initialImageData w))) (\<lambda>r. callS (zoomTo E r True None False)))
       (callS (zoomTo E (Fin 1) True None False))"

definition reset :: "env \<Rightarrow> world stmt" where
  "reset E =
     whenS (\<lambda>w. viewed w \<and> \<not> played w)
       [upd (\<lambda>w. new_imageData (initialImageData w) w), callS (renderImage E RNone)]"

section \<open>The slide show\<close>

definition make_slide :: "env \<Rightarrow> nat \<Rightarrow> callback \<Rightarrow> (nat \<Rightarrow> world stmt) \<Rightarrow> world stmt" where
  "make_slide E item onLoad k =
     getS (\<lambda>w. query (by_tag ''img'') w item) (\<lambda>th. createElement ''img'' (\<lambda>img. block
       [need th,
        upd (\<lambda>w. set_src E img (to_str (getData E (nodes w th) ''originalUrl'')) w),
        upd (\<lambda>w. setAttribute img ''alt'' (attr_prop (nodes w th) ''alt'') w),
        upd (\<lambda>w. setAttribute img ''referrerpolicy'' (attr_prop (nodes w th) ''referrerpolicy'') w),
        upd (addClass E img CLASS_FADE),
        getS (opt_on ''transition'') (toggleClass E img CLASS_TRANSITION),
        whenS (\<lambda>w. hasClass E w item CLASS_ACTIVE) [upd (addClass E img CLASS_IN)],
        upd (addListener_once E (Node img) EVENT_LOAD onLoad),
        upd (\<lambda>w. appendChild (v_player w) img w),
        k img]))"

text \<open>
  The loop over the items; \<open>list\<close> and \<open>index\<close> of the source are the accumulators, \<open>total\<close> is
  the length of the list.
\<close>

fun play_items ::
  "env \<Rightarrow> callback \<Rightarrow> nat \<Rightarrow> nat list \<Rightarrow> nat list \<Rightarrow> nat \<Rightarrow> (nat list \<Rightarrow> nat \<Rightarrow> world stmt) \<Rightarrow> world stmt"
where
  "play_items E onLoad i [] acc idx k = k acc idx"
| "play_items E onLoad i (item # its) acc idx k =
     getS (\<lambda>w. hasClass E w item CLASS_ACTIVE) (\<lambda>active.
       make_slide E item onLoad (\<lambda>img.
         play_items E onLoad (Suc i) its (acc @ [img]) (if active then i else idx) k))"

definition play_schedule :: "nat list \<Rightarrow> nat \<Rightarrow> world stmt" where
  "play_schedule slides idx =
     getS (\<lambda>w. to_num (opt ''interval'' w)) (\<lambda>delay.
       setTimeout (TPlay slides idx) delay (\<lambda>i. upd (\<lambda>w. w\<lparr>playing := Some i\<rparr>)))"

definition next_slide :: "nat list \<Rightarrow> nat \<Rightarrow> nat" where
  "next_slide slides idx = (if Suc idx < length slides then Suc idx else 0)"

definition slide_at :: "nat list \<Rightarrow> nat \<Rightarrow> nat" where
  "slide_at slides i = (if i < length slides then slides ! i else null)"

definition play_tick :: "env \<Rightarrow> nat list \<Rightarrow> nat \<Rightarrow> world stmt" where
  "play_tick E slides idx =
     (let idx' = next_slide slides idx in block
       [upd (removeClass E (slide_at slides idx) CLASS_IN),
        upd (addClass E (slide_at slides idx') CLASS_IN),
        play_schedule slides idx'])"

definition play :: "env \<Rightarrow> bool \<Rightarrow> world stmt" where
  "play E fullscreen =
     ifS (\<lambda>w. \<not> isShown w \<or> played w) ret
       (block
         [upd (add_user_once E ''play'' EVENT_PLAY),
          getS element (\<lambda>el. bindS (dispatchEvent E el EVENT_PLAY [] True)
            (\<lambda>go. if \<not> go then ret else skip)),
          fresh_fun HLoadImage (\<lambda>onLoad. block
            [upd (\<lambda>w. w\<lparr>played := True, onLoadWhenPlay := Some onLoad\<rparr>),
             (if fullscreen then upd (requestFullscreen E) else skip),
             upd (\<lambda>w. addClass E (v_player w) CLASS_SHOW w),
             getS items (\<lambda>its. play_items E onLoad 0 its [] 0 (\<lambda>slides idx.
               whenS (\<lambda>w. isNumber (opt ''interval'' w) \<and> nlt (Fin 0) (to_num (opt ''interval'' w)))
                 [if length slides > 1 then play_schedule slides idx else skip]))])])"

definition stop :: "env \<Rightarrow> world stmt" where
  "stop E =
     ifS (\<lambda>w. \<not> played w) ret
       (block
         [upd (add_user_once E ''stop'' EVENT_STOP),
          getS element (\<lambda>el. bindS (dispatchEvent E el EVENT_STOP [] True)
            (\<lambda>go. if \<not> go then ret else skip)),
          upd (\<lambda>w. w\<lparr>played := False\<rparr>),
          upd (\<lambda>w. clearTimeout (playing w) w),
          getS (\<lambda>w. query_all (by_tag ''img'') w (v_player w)) (eachS (\<lambda>img i.
            upd (\<lambda>w. removeListener E (Node img) EVENT_LOAD (onLoadWhenPlay w) w)) 0),
          upd (\<lambda>w. removeClass E (v_player w) CLASS_SHOW w),
          upd (\<lambda>w. set_text (v_player w) [] w),
          upd (exitFullscreen E)])"

section \<open>Full mode of an inline viewer\<close>

definition drop_transitions :: "env \<Rightarrow> nat \<Rightarrow> nat \<Rightarrow> world stmt" where
  "drop_transitions E img lst =
     whenS (opt_on ''transition'')
       [upd (removeClass E lst CLASS_TRANSITION),
        whenS viewed [upd (removeClass E img CLASS_TRANSITION)]]"

definition full :: "env \<Rightarrow> world stmt" where
  "full E =
     getS (\<lambda>w. (v_viewer w, image w, v_list w)) (\<lambda>(vw, img, lst).
     ifS (\<lambda>w. \<not> isShown w \<or> played w \<or> fulled w \<or> \<not> opt_on ''inline'' w) ret
       (block
         [upd (\<lambda>w. w\<lparr>fulled := True\<rparr>),
          upd (open_body E),
          upd (\<lambda>w. addClass E (v_button w) CLASS_FULLSCREEN_EXIT w),
          drop_transitions E img lst,
          upd (addClass E vw CLASS_FIXED),
          upd (node_upd vw (\<lambda>e. e\<lparr>n_attrs := oset (n_attrs e) ''style'' [], n_style := []\<rparr>)),
          getS (\<lambda>w. to_num (opt ''zIndex'' w)) (\<lambda>z. setStyle vw [(''zIndex'', CNum z)]),
          upd (initContainer E),
          upd (\<lambda>w. w\<lparr>viewerData := containerData w\<rparr>),
          callS (renderList E None),
          whenS viewed [callS (initImage E (ISettle img lst))]]))"

definition exit :: "env \<Rightarrow> world stmt" where
  "exit E =
     getS (\<lambda>w. (v_viewer w, image w, v_list w)) (\<lambda>(vw, img, lst).
     ifS (\<lambda>w. \<not> isShown w \<or> played w \<or> \<not> fulled w \<or> \<not> opt_on ''inline'' w) ret
       (block
         [upd (\<lambda>w. w\<lparr>fulled := False\<rparr>),
          upd (close_body E),
          upd (\<lambda>w. removeClass E (v_button w) CLASS_FULLSCREEN_EXIT w),
          drop_transitions E img lst,
          upd (removeClass E vw CLASS_FIXED),
          getS (\<lambda>w. to_num (opt ''zIndexInline'' w)) (\<lambda>z. setStyle vw [(''zIndex'', CNum z)]),
          upd (\<lambda>w. w\<lparr>viewerData := parentData w\<rparr>),
          callS renderViewer,
          callS (renderList E None),
          whenS viewed [callS (initImage E (ISettle img lst))]]))"

text \<open>The timer that gives the transitions back.\<close>

definition add_transitions :: "env \<Rightarrow> nat \<Rightarrow> nat \<Rightarrow> world \<Rightarrow> world" where
  "add_transitions E img lst w = addClass E lst CLASS_TRANSITION (addClass E img CLASS_TRANSITION w)"

end
