(* ===== verification/Lifecycle.thy ===== *)
theory Lifecycle imports Viewer_Methods begin

text \<open>
  The life of a viewer: building its elements, showing, viewing an image, hiding, updating
  and destroying. \<open>view\<close> calls \<open>show\<close> when the viewer is not shown, and \<open>show\<close> ends in
  \<open>view\<close> through \<open>shown\<close>. The inner call happens with \<open>isShown\<close> set, where the branch that
  would call \<open>show\<close> is dead; \<open>view_with\<close> takes that branch as an argument, and the lemma
  \<open>view_when_shown\<close> says that the argument does not matter there.
\<close>

section \<open>Markup\<close>

datatype html = Elt string "(string \<times> string) list" "html list"

text \<open>Attributes \<open>name="value"\<close> up to the end of a tag.\<close>

fun parse_attrs :: "nat \<Rightarrow> string \<Rightarrow> (string \<times> string) list \<times> string" where
  "parse_attrs 0 s = ([], s)"
| "parse_attrs (Suc f) s =
     (case dropWhile is_space s of
        [] \<Rightarrow> ([], [])
      | c # cs \<Rightarrow>
          if c = CHR ''>'' then ([], cs)
          else
            let nm = takeWhile (\<lambda>d. d \<noteq> CHR ''='') (c # cs);
                r = drop (length nm + 2) (c # cs);
                v = takeWhile (\<lambda>d. d \<noteq> CHR 0x22) r;
                (ps, rest) = parse_attrs f (drop (Suc (length v)) r)
            in ((nm, v) # ps, rest))"

definition tag_char :: "char \<Rightarrow> bool" where
  "tag_char c = (is_lower c \<or> is_upper c \<or> is_digit c)"

text \<open>A sequence of elements without text, up to a closing tag or the end.\<close>

fun parse_html :: "nat \<Rightarrow> string \<Rightarrow> html list \<times> string" where
  "parse_html 0 s = ([], s)"
| "parse_html (Suc f) s =
     (if starts_with ''</'' s \<or> \<not> starts_with ''<'' s then ([], s)
      else
        let nm = takeWhile tag_char (tl s);
            (ps, r) = parse_attrs f (drop (Suc (length nm)) s);
            (kids, r') = parse_html f r;
            (sibs, r'') = parse_html f (drop (length nm + 3) r')
        in (Elt nm ps kids # sibs, r''))"

definition html_node :: "string \<Rightarrow> (string \<times> string) list \<Rightarrow> nat \<Rightarrow> node" where
  "html_node t ps par =
     (blank t)\<lparr>n_attrs := filter (\<lambda>p. fst p \<noteq> ''class'') ps,
       n_classes := (case alookup ps ''class'' of
          Some s \<Rightarrow> remdups (filter (\<lambda>c. c \<noteq> []) (split_spaces s)) | None \<Rightarrow> []),
       n_parent := par\<rparr>"

fun mount :: "nat \<Rightarrow> html \<Rightarrow> world \<Rightarrow> world" and mount_all :: "nat \<Rightarrow> html list \<Rightarrow> world \<Rightarrow> world" where
  "mount par (Elt t ps hs) w =
     (let n = next_node w;
          w1 = w\<lparr>nodes := (nodes w)(n := html_node t ps par), next_node := Suc n\<rparr>;
          w2 = node_upd par (\<lambda>e. e\<lparr>n_kids := n_kids e @ [n]\<rparr>) w1
      in mount_all n hs w2)"
| "mount_all par [] w = w"
| "mount_all par (h # hs) w = mount_all par hs (mount par h w)"

section \<open>Viewing\<close>

definition imagedata_obj :: "imagedata \<Rightarrow> jsval" where
  "imagedata_obj d =
     Obj [(''naturalWidth'', member_val (id_naturalWidth d)),
          (''naturalHeight'', member_val (id_naturalHeight d)),
          (''aspectRatio'', member_val (id_aspectRatio d)), (''ratio'', member_val (id_ratio d)),
          (''width'', member_val (id_width d)), (''height'', member_val (id_height d)),
          (''left'', member_val (id_left d)), (''top'', member_val (id_top d)),
          (''rotate'', member_val (id_rotate d)), (''scaleX'', member_val (id_scaleX d)),
          (''scaleY'', member_val (id_scaleY d))]"

definition default_title :: "string \<Rightarrow> imagedata \<Rightarrow> string" where
  "default_title alt d =
     alt @ '' ('' @ to_str (member_val (id_naturalWidth d)) @ [CHR '' '', CHR 0xC3, CHR 0x97, CHR '' ''] @
     to_str (member_val (id_naturalHeight d)) @ '')''"

definition title_option :: "world \<Rightarrow> jsval" where
  "title_option w =
     (case opt ''title'' w of Arr vs \<Rightarrow> (if length vs > 1 then vs ! 1 else Undefined) | v \<Rightarrow> v)"

definition on_viewed :: "env \<Rightarrow> nat \<Rightarrow> string \<Rightarrow> nat \<Rightarrow> world stmt" where
  "on_viewed E img alt title =
     getS idata (\<lambda>d. getS title_option (\<lambda>r. bindS
       (case r of Fun k \<Rightarrow> e_user E k [Elem img, imagedata_obj d]
                | _ \<Rightarrow> pureE (\<lambda>w. Str (default_title alt d)))
       (\<lambda>v. upd (set_text title (to_str (escapeHTMLEntities v))))))"

definition view_index :: "world \<Rightarrow> jsval \<Rightarrow> jsnum" where
  "view_index w v = nor (to_num (if isUndefined v then opt ''initialViewIndex'' w else v)) (Fin 0)"

definition view_refused :: "jsnum \<Rightarrow> world \<Rightarrow> bool" where
  "view_refused idx w =
     (hiding w \<or> played w \<or> nlt idx (Fin 0) \<or> nle (nnat (len w)) idx \<or>
      (viewed w \<and> neq idx (index w)))"

definition view_wait :: "env \<Rightarrow> nat \<Rightarrow> world stmt" where
  "view_wait E img =
     fresh_fun HLoad (\<lambda>f. block
       [upd (\<lambda>w. w\<lparr>viewing := map_option (\<lambda>a. a\<lparr>va_onLoad := Some f\<rparr>) (viewing w)\<rparr>),
        upd (addListener_once E (Node img) EVENT_LOAD f),
        upd (\<lambda>w. clearTimeout (timeout w) w),
        setTimeout (TLoadTimeout img) (Fin 1000) (\<lambda>i. upd (\<lambda>w. w\<lparr>timeout := Some i\<rparr>))])"

definition view_install :: "env \<Rightarrow> jsnum \<Rightarrow> nat \<Rightarrow> nat \<Rightarrow> string \<Rightarrow> world stmt" where
  "view_install E idx item img alt =
     getS (\<lambda>w. (v_title w, v_canvas w)) (\<lambda>(title, canvas). block
       [upd (\<lambda>w. w\<lparr>image := img\<rparr>),
        upd (\<lambda>w. removeClass E (node_at (items w) (index w)) CLASS_ACTIVE w),
        upd (addClass E item CLASS_ACTIVE),
        upd (\<lambda>w. w\<lparr>viewed := False, index := idx\<rparr>),
        upd (new_imageData empty_data),
        upd (addClass E img CLASS_INVISIBLE),
        whenS (opt_on ''loading'') [upd (addClass E canvas CLASS_LOADING)],
        upd (set_text canvas []),
        upd (appendChild canvas img),
        callS (renderList E None),
        upd (set_text title []),
        fresh_fun (HViewed img alt title) (\<lambda>f. block
          [upd (\<lambda>w. addListener_once E (Node (element w)) EVENT_VIEWED f w),
           upd (\<lambda>w. w\<lparr>viewing := Some \<lparr>va_image = img, va_onViewed = f, va_onLoad = None\<rparr>\<rparr>)]),
        ifS (\<lambda>w. n_complete (nodes w img)) (callS (load E)) (view_wait E img)])"

definition view_body :: "env \<Rightarrow> jsnum \<Rightarrow> world stmt" where
  "view_body E idx =
     block
       [whenS (\<lambda>w. viewing w \<noteq> None) [callS (abort_viewing E)],
        getS (\<lambda>w. node_at (items w) idx) (\<lambda>item. block
          [need item,
           getS (\<lambda>w. query (by_tag ''img'') w item) (\<lambda>th. block
             [need th,
              getS (\<lambda>w. (to_str (getData E (nodes w th) ''originalUrl''), attr_prop (nodes w th) ''alt''))
                (\<lambda>(url, alt). createElement ''img'' (\<lambda>img. block
                  [upd (inherit_attributes th img),
                   upd (set_src E img url),
                   upd (setAttribute img ''alt'' alt),
                   upd (add_user_once E ''view'' EVENT_VIEW),
                   getS id (\<lambda>w. bindS
                     (dispatchEvent E (element w) EVENT_VIEW
                        [(''originalImage'', Elem (node_at (images w) idx)), (''index'', Num idx),
                         (''image'', Elem img)] True)
                     (\<lambda>go. ifS (\<lambda>w. \<not> go \<or> \<not> isShown w \<or> hiding w \<or> played w) ret skip)),
                   view_install E idx item img alt]))])])]"

definition view_with :: "env \<Rightarrow> world stmt \<Rightarrow> jsval \<Rightarrow> world stmt" where
  "view_with E show_it v =
     getS (\<lambda>w. view_index w v) (\<lambda>idx.
     ifS (view_refused idx) ret
       (ifS (\<lambda>w. \<not> isShown w)
          (block [upd (\<lambda>w. w\<lparr>index := idx\<rparr>), callS show_it, ret])
          (view_body E idx)))"

lemma view_when_shown: "isShown w \<Longrightarrow> view_with E s v w = view_with E s' v w"
  by (simp add: view_with_def getS_def ifS_def)

section \<open>Shown and hidden\<close>

definition shown :: "env \<Rightarrow> world stmt" where
  "shown E =
     block
       [upd (\<lambda>w. w\<lparr>fulled := True, isShown := True\<rparr>),
        callS (render E),
        callS (bind E),
        upd (\<lambda>w. w\<lparr>showing := False\<rparr>),
        upd (add_user_once E ''shown'' EVENT_SHOWN),
        getS element (\<lambda>el. bindS (dispatchEvent E el EVENT_SHOWN [] True)
          (\<lambda>go. if \<not> go then ret else skip)),
        whenS (\<lambda>w. ready w \<and> isShown w \<and> \<not> hiding w)
          [getS index (\<lambda>i. callS (view_with E skip (Num i)))]]"

definition hidden :: "env \<Rightarrow> world stmt" where
  "hidden E =
     block
       [upd (\<lambda>w. w\<lparr>fulled := False, viewed := False, isShown := False\<rparr>),
        upd (close_body E),
        upd (unbind E),
        upd (\<lambda>w. addClass E (v_viewer w) CLASS_HIDE w),
        callS (resetList E),
        callS (resetImage E),
        upd (\<lambda>w. w\<lparr>hiding := False\<rparr>),
        whenS (\<lambda>w. \<not> destroyed w)
          [upd (add_user_once E ''hidden'' EVENT_HIDDEN),
           getS element (\<lambda>el. exprS (dispatchEvent E el EVENT_HIDDEN [] False))]]"

text \<open>\<open>this.transitioning.abort()\<close>\<close>

definition abort_transition :: "env \<Rightarrow> world stmt" where
  "abort_transition E =
     getS transitioning (\<lambda>t.
       case t of
         None \<Rightarrow> throw TypeError
       | Some (AbortShow vw f) \<Rightarrow> block
           [upd (removeListener E (Node vw) EVENT_TRANSITION_END (Some f)),
            upd (removeClass E vw CLASS_IN)]
       | Some (AbortHide vw img fv fi) \<Rightarrow>
           ifS (\<lambda>w. viewed w \<and> hasClass E w img CLASS_TRANSITION)
             (upd (removeListener E (Node img) EVENT_TRANSITION_END (Some fi)))
             (whenS (\<lambda>w. hasClass E w vw CLASS_TRANSITION)
                [upd (removeListener E (Node vw) EVENT_TRANSITION_END (Some fv))]))"

section \<open>Building\<close>

definition toolbar_entries :: "jsval \<Rightarrow> (string \<times> jsval) list" where
  "toolbar_entries t =
     (case t of
        Obj ps \<Rightarrow> if isPlainObject t then map (\<lambda>(k, v). (hyphenate k, v)) ps
                  else map (\<lambda>b. (b, Str b)) BUTTONS
      | _ \<Rightarrow> map (\<lambda>b. (b, Str b)) BUTTONS)"

text \<open>\<open>deep && !isUndefined(value.k) ? value.k : value\<close>\<close>

definition entry_part :: "bool \<Rightarrow> string \<Rightarrow> jsval \<Rightarrow> jsval" where
  "entry_part custom k v =
     (case v of
        Obj ps \<Rightarrow> if custom \<and> isPlainObject v \<and> \<not> isUndefined (oget ps k) then oget ps k else v
      | _ \<Rightarrow> v)"

definition button_dropped :: "world \<Rightarrow> string \<Rightarrow> jsval \<Rightarrow> bool" where
  "button_dropped w nm show_it =
     (\<not> truthy show_it \<or>
      (\<not> opt_on ''zoomable'' w \<and> nm \<in> set (take 3 BUTTONS)) \<or>
      (\<not> opt_on ''rotatable'' w \<and> nm \<in> set (take 2 (drop 7 BUTTONS))) \<or>
      (\<not> opt_on ''scalable'' w \<and> nm \<in> set (drop 9 BUTTONS)))"

definition toolbar_item :: "env \<Rightarrow> nat \<Rightarrow> bool \<Rightarrow> string \<Rightarrow> jsval \<Rightarrow> world stmt" where
  "toolbar_item E lst custom nm v =
     (let show_it = entry_part custom ''show'' v;
          sz = entry_part custom ''size'' v;
          clk = entry_part custom ''click'' v
      in ifS (\<lambda>w. button_dropped w nm show_it) ret
        (createElement ''li'' (\<lambda>item. block
          [upd (setAttribute item ''role'' ''button''),
           upd (addClass E item (''viewer-'' @ nm)),
           (if \<not> isFunction clk then upd (setData E item DATA_ACTION (Str nm)) else skip),
           (if isNumber show_it then upd (addClass E item (getResponsiveClass show_it)) else skip),
           (if sz \<in> {Str ''small'', Str ''large''}
            then upd (addClass E item (''viewer-'' @ to_str sz))
            else if nm = ''play'' then upd (addClass E item ''viewer-large'') else skip),
           (case clk of
              Fun k \<Rightarrow> upd (addListener E (Node item) EVENT_CLICK (HUser k, k))
            | _ \<Rightarrow> skip),
           upd (appendChild lst item)])))"

definition build_toolbar :: "env \<Rightarrow> world stmt" where
  "build_toolbar E =
     getS (\<lambda>w. (opt ''toolbar'' w, v_toolbar w)) (\<lambda>(t, tb).
       if truthy t then
         createElement ''ul'' (\<lambda>lst. block
           [(if isPlainObject t then skip else upd (addClass E tb (getResponsiveClass t))),
            eachS (\<lambda>(nm, v) i. toolbar_item E lst (isPlainObject t) nm v) 0 (toolbar_entries t),
            upd (appendChild tb lst)])
       else upd (addClass E tb CLASS_HIDE))"

definition is_rotate_item :: "node \<Rightarrow> bool" where
  "is_rotate_item e = (n_tag e = ''li'' \<and> has_substring ''rotate'' (className e))"

definition build_rotates :: "env \<Rightarrow> world stmt" where
  "build_rotates E =
     whenS (\<lambda>w. \<not> opt_on ''rotatable'' w)
       [getS (\<lambda>w. (query_all is_rotate_item w (v_toolbar w), v_toolbar w)) (\<lambda>(rs, tb). block
          [upd (addClass_all E rs CLASS_INVISIBLE),
           eachS (\<lambda>r i. upd (appendChild tb r)) 0 rs])]"

definition build_elements :: "world \<Rightarrow> world" where
  "build_elements w =
     (let tm = next_node w;
          w1 = w\<lparr>nodes := (nodes w)(tm := blank ''div''), next_node := Suc tm\<rparr>;
          w2 = mount_all tm (fst (parse_html (length TEMPLATE) TEMPLATE)) w1;
          vw = query (by_class ''viewer-container'') w2 tm
      in w2\<lparr>v_parent := n_parent (nodes w (element w)),
            v_viewer := vw,
            v_title := query (by_class ''viewer-title'') w2 vw,
            v_toolbar := query (by_class ''viewer-toolbar'') w2 vw,
            v_navbar := query (by_class ''viewer-navbar'') w2 vw,
            v_button := query (by_class ''viewer-button'') w2 vw,
            v_canvas := query (by_class ''viewer-canvas'') w2 vw,
            v_footer := query (by_class ''viewer-footer'') w2 vw,
            v_tooltipBox := query (by_class ''viewer-tooltip'') w2 vw,
            v_player := query (by_class ''viewer-player'') w2 vw,
            v_list := query (by_class ''viewer-list'') w2 vw\<rparr>)"

definition build_classes :: "env \<Rightarrow> world stmt" where
  "build_classes E =
     block
       [upd (\<lambda>w. addClass E (v_title w)
          (if \<not> opt_on ''title'' w then CLASS_HIDE
           else getResponsiveClass
             (case opt ''title'' w of Arr vs \<Rightarrow> (if vs \<noteq> [] then hd vs else Undefined) | v \<Rightarrow> v)) w),
        upd (\<lambda>w. addClass E (v_navbar w)
          (if \<not> opt_on ''navbar'' w then CLASS_HIDE else getResponsiveClass (opt ''navbar'' w)) w),
        getS id (\<lambda>w. toggleClass E (v_button w) CLASS_HIDE (\<not> opt_on ''button'' w)),
        whenS (opt_on ''backdrop'')
          [upd (\<lambda>w. addClass E (v_viewer w) ''viewer-backdrop'' w),
           whenS (\<lambda>w. \<not> opt_on ''inline'' w \<and> opt ''backdrop'' w \<noteq> Str ''static'')
             [upd (\<lambda>w. setData E (v_canvas w) DATA_ACTION (Str ''hide'') w)]],
        getS (opt ''className'') (\<lambda>c.
          case c of
            Str s \<Rightarrow> if s \<noteq> [] then eachS (\<lambda>nm i. upd (\<lambda>w. addClass E (v_viewer w) nm w)) 0 (split_spaces s)
                     else skip
          | _ \<Rightarrow> skip)]"

definition build_inline :: "env \<Rightarrow> world stmt" where
  "build_inline E =
     getS v_parent (\<lambda>par. block
       [upd (\<lambda>w. addClass E (v_button w) CLASS_FULLSCREEN w),
        getS id (\<lambda>w. setStyle (v_viewer w) [(''zIndex'', CNum (to_num (opt ''zIndexInline'' w)))]),
        need par,
        whenS (\<lambda>w. e_position E w par = ''static'')
          [setStyle par [(''position'', CText [Lit ''relative''])]],
        upd (\<lambda>w. insertBefore par (v_viewer w) (nextSibling w (element w)) w)])"

definition container_of :: "env \<Rightarrow> world \<Rightarrow> nat option" where
  "container_of E w =
     (case opt ''container'' w of
        Str s \<Rightarrow> Some (if e_select E s w \<noteq> null then e_select E s w else body w)
      | Elem n \<Rightarrow> Some (if n \<noteq> null then n else body w)
      | v \<Rightarrow> if truthy v then None else Some (body w))"

definition build_modal :: "env \<Rightarrow> world stmt" where
  "build_modal E =
     block
       [upd (\<lambda>w. addClass E (v_button w) CLASS_CLOSE w),
        upd (\<lambda>w. addClass E (v_viewer w) CLASS_FIXED w),
        upd (\<lambda>w. addClass E (v_viewer w) CLASS_FADE w),
        upd (\<lambda>w. addClass E (v_viewer w) CLASS_HIDE w),
        getS id (\<lambda>w. setStyle (v_viewer w) [(''zIndex'', CNum (to_num (opt ''zIndex'' w)))]),
        getS (container_of E) (\<lambda>c.
          case c of
            Some n \<Rightarrow> block [need n, upd (\<lambda>w. appendChild n (v_viewer w) w)]
          | None \<Rightarrow> throw TypeError)]"

definition build :: "env \<Rightarrow> world stmt" where
  "build E =
     ifS ready ret
       (block
         [upd build_elements,
          callS (build_classes E),
          callS (build_toolbar E),
          callS (build_rotates E),
          ifS (opt_on ''inline'') (callS (build_inline E)) (callS (build_modal E)),
          whenS (opt_on ''inline'')
            [callS (render E), callS (bind E), upd (\<lambda>w. w\<lparr>isShown := True\<rparr>)],
          upd (\<lambda>w. w\<lparr>ready := True\<rparr>),
          upd (add_user_once E ''ready'' EVENT_READY),
          getS element (\<lambda>el. bindS (dispatchEvent E el EVENT_READY [] True)
            (\<lambda>go. if \<not> go then block [upd (\<lambda>w. w\<lparr>ready := False\<rparr>), ret] else skip)),
          whenS (\<lambda>w. ready w \<and> opt_on ''inline'' w)
            [getS index (\<lambda>i. callS (view_with E skip (Num i)))]])"

section \<open>Showing\<close>

definition show_refused :: "world \<Rightarrow> bool" where
  "show_refused w = (opt_on ''inline'' w \<or> showing w \<or> isShown w)"

definition show_built :: "env \<Rightarrow> bool \<Rightarrow> world stmt" where
  "show_built E immediate =
     block
       [upd (add_user_once E ''show'' EVENT_SHOW),
        getS element (\<lambda>el. bindS (dispatchEvent E el EVENT_SHOW [] True)
          (\<lambda>go. ifS (\<lambda>w. \<not> go \<or> \<not> ready w) ret skip)),
        whenS hiding [callS (abort_transition E)],
        upd (\<lambda>w. w\<lparr>showing := True\<rparr>),
        upd (open_body E),
        getS v_viewer (\<lambda>vw. block
          [upd (removeClass E vw CLASS_HIDE),
           ifS (\<lambda>w. opt_on ''transition'' w \<and> \<not> immediate)
             (fresh_fun HShown (\<lambda>f. block
                [upd (\<lambda>w. w\<lparr>transitioning := Some (AbortShow vw f)\<rparr>),
                 upd (addClass E vw CLASS_TRANSITION),
                 upd (note_width E vw),
                 upd (addListener_once E (Node vw) EVENT_TRANSITION_END f),
                 upd (addClass E vw CLASS_IN)]))
             (block [upd (addClass E vw CLASS_IN), callS (shown E)])])]"

text \<open>
  The recursive call after \<open>build\<close> finds \<open>ready\<close> set, so it does not build again.
\<close>

definition show_viewer :: "env \<Rightarrow> bool \<Rightarrow> world stmt" where
  "show_viewer E immediate =
     ifS show_refused ret
       (ifS (\<lambda>w. \<not> ready w)
          (block
             [callS (build E),
              whenS ready [ifS show_refused skip (callS (show_built E immediate))],
              ret])
          (show_built E immediate))"

definition view :: "env \<Rightarrow> jsval \<Rightarrow> world stmt" where
  "view E v = view_with E (show_viewer E False) v"

definition prev_index :: "jsnum \<Rightarrow> nat \<Rightarrow> bool \<Rightarrow> jsnum" where
  "prev_index i n loop =
     (let j = nsub i (Fin 1)
      in if nlt j (Fin 0) then (if loop then nsub (nnat n) (Fin 1) else Fin 0) else j)"

definition next_index :: "jsnum \<Rightarrow> nat \<Rightarrow> bool \<Rightarrow> jsnum" where
  "next_index i n loop =
     (let maxIndex = nsub (nnat n) (Fin 1); j = nadd i (Fin 1)
      in if nlt maxIndex j then (if loop then Fin 0 else maxIndex) else j)"

definition prev :: "env \<Rightarrow> bool \<Rightarrow> world stmt" where
  "prev E loop = getS (\<lambda>w. prev_index (index w) (len w) loop) (\<lambda>i. callS (view E (Num i)))"

definition next_image :: "env \<Rightarrow> bool \<Rightarrow> world stmt" where
  "next_image E loop = getS (\<lambda>w. next_index (index w) (len w) loop) (\<lambda>i. callS (view E (Num i)))"

section \<open>Hiding\<close>

definition hide_immediately :: "env \<Rightarrow> nat \<Rightarrow> world stmt" where
  "hide_immediately E vw = block [upd (removeClass E vw CLASS_IN), callS (hidden E)]"

definition viewer_transition_end :: "env \<Rightarrow> nat \<Rightarrow> nat \<Rightarrow> event \<Rightarrow> world stmt" where
  "viewer_transition_end E vw k ev =
     (if e_target ev = vw
      then block
        [upd (removeListener E (Node vw) EVENT_TRANSITION_END (Some (HViewerTransitionEnd vw k, k))),
         callS (hidden E)]
      else skip)"

definition image_transition_end :: "env \<Rightarrow> nat \<Rightarrow> nat \<Rightarrow> world stmt" where
  "image_transition_end E vw k =
     ifS (\<lambda>w. hasClass E w vw CLASS_TRANSITION)
       (block
          [upd (addListener E (Node vw) EVENT_TRANSITION_END (HViewerTransitionEnd vw k, k)),
           upd (removeClass E vw CLASS_IN)])
       (hide_immediately E vw)"

definition hide_slowly :: "env \<Rightarrow> nat \<Rightarrow> nat \<Rightarrow> world stmt" where
  "hide_slowly E vw img =
     getS next_fun (\<lambda>k.
     fresh_fun (HViewerTransitionEnd vw k) (\<lambda>fv.
     fresh_fun (HImageTransitionEnd vw k) (\<lambda>fi. block
       [upd (\<lambda>w. w\<lparr>transitioning := Some (AbortHide vw img fv fi)\<rparr>),
        ifS (\<lambda>w. viewed w \<and> hasClass E w img CLASS_TRANSITION)
          (block
             [upd (addListener_once E (Node img) EVENT_TRANSITION_END fi),
              callS (zoomTo E (Fin 0) False None True)])
          (image_transition_end E vw k)])))"

definition hide :: "env \<Rightarrow> bool \<Rightarrow> world stmt" where
  "hide E immediate =
     ifS (\<lambda>w. opt_on ''inline'' w \<or> hiding w \<or> \<not> (isShown w \<or> showing w)) ret
       (block
         [upd (add_user_once E ''hide'' EVENT_HIDE),
          getS element (\<lambda>el. bindS (dispatchEvent E el EVENT_HIDE [] True)
            (\<lambda>go. if \<not> go then ret else skip)),
          whenS showing [callS (abort_transition E)],
          upd (\<lambda>w. w\<lparr>hiding := True\<rparr>),
          ifS played (callS (stop E))
            (whenS (\<lambda>w. viewing w \<noteq> None) [callS (abort_viewing E)]),
          getS (\<lambda>w. (v_viewer w, image w)) (\<lambda>(vw, img).
            ifS (\<lambda>w. opt_on ''transition'' w \<and> \<not> immediate)
              (hide_slowly E vw img)
              (hide_immediately E vw))])"

section \<open>Updating and destroying\<close>

text \<open>The images of the element: those the filter accepts, or else those with a URL.\<close>

fun collect_images :: "env \<Rightarrow> nat list \<Rightarrow> nat list \<Rightarrow> (nat list \<Rightarrow> world stmt) \<Rightarrow> world stmt" where
  "collect_images E acc [] k = k acc"
| "collect_images E acc (c # cs) k =
     getS (opt ''filter'') (\<lambda>flt. bindS
       (case flt of Fun u \<Rightarrow> e_user E u [Elem c] | _ \<Rightarrow> getImageURL E c)
       (\<lambda>v. collect_images E (if truthy v then acc @ [c] else acc) cs k))"

definition candidates :: "world \<Rightarrow> nat list" where
  "candidates w = (if isImg w then [element w] else query_all (by_tag ''img'') w (element w))"

definition item_changed :: "world \<Rightarrow> nat list \<Rightarrow> nat \<Rightarrow> bool" where
  "item_changed w imgs i =
     (let th = query (by_tag ''img'') w (items w ! i)
      in if i < length imgs \<and> th \<noteq> null
         then attr_prop (nodes w (imgs ! i)) ''src'' \<noteq> attr_prop (nodes w th) ''src'' \<or>
              attr_prop (nodes w (imgs ! i)) ''alt'' \<noteq> attr_prop (nodes w th) ''alt''
         else True)"

definition changed_indexes :: "world \<Rightarrow> nat list \<Rightarrow> nat list" where
  "changed_indexes w imgs = filter (item_changed w imgs) [0..<length (items w)]"

fun position_of :: "nat \<Rightarrow> jsnum \<Rightarrow> nat list \<Rightarrow> nat option" where
  "position_of i x [] = None"
| "position_of i x (k # ks) = (if neq (nnat k) x then Some i else position_of (Suc i) x ks)"

definition update_index :: "jsnum \<Rightarrow> nat \<Rightarrow> nat \<Rightarrow> jsnum" where
  "update_index i changedIndex n =
     nmax (nmin (nsub i (nnat changedIndex)) (nsub (nnat n) (Fin 1))) (Fin 0)"

definition update_shown :: "env \<Rightarrow> nat list \<Rightarrow> world stmt" where
  "update_shown E changed =
     ifS (\<lambda>w. len w > 0)
       (whenS viewed
          [getS (\<lambda>w. position_of 0 (index w) changed) (\<lambda>c.
             case c of
               Some changedIndex \<Rightarrow> block
                 [upd (\<lambda>w. w\<lparr>viewed := False\<rparr>),
                  getS (\<lambda>w. update_index (index w) changedIndex (len w)) (\<lambda>i. callS (view E (Num i)))]
             | None \<Rightarrow> upd (\<lambda>w. addClass E (node_at (items w) (index w)) CLASS_ACTIVE w))])
       (block
          [upd (\<lambda>w. w\<lparr>image := null, viewed := False, index := Fin 0\<rparr>),
           upd (new_imageData empty_data),
           upd (\<lambda>w. set_text (v_canvas w) [] w),
           upd (\<lambda>w. set_text (v_title w) [] w)])"

definition destroy :: "env \<Rightarrow> world stmt" where
  "destroy E =
     ifS (\<lambda>w. \<not> truthy (oget (n_expando (nodes w (element w))) NAMESPACE)) ret
       (block
         [upd (\<lambda>w. w\<lparr>destroyed := True\<rparr>),
          ifS ready
            (block
               [whenS played [callS (stop E)],
                ifS (opt_on ''inline'')
                  (block [whenS fulled [callS (exit E)], upd (unbind E)])
                  (ifS isShown
                     (block
                        [whenS (\<lambda>w. viewing w \<noteq> None) [callS (abort_image E)],
                         whenS hiding [callS (abort_transition E)],
                         callS (hidden E)])
                     (whenS showing [callS (abort_transition E), callS (hidden E)])),
                upd (\<lambda>w. w\<lparr>ready := False\<rparr>),
                getS (\<lambda>w. (n_parent (nodes w (v_viewer w)), v_viewer w)) (\<lambda>(p, vw). block
                  [need p, upd (removeChild p vw)])])
            (whenS (opt_on ''inline'')
               [ifS (\<lambda>w. delaying w \<noteq> None)
                  (upd (\<lambda>w. clearTimeout (delaying w) w))
                  (getS initializing (\<lambda>p.
                     case p of
                       Some f \<Rightarrow> getS images (eachS (\<lambda>img i. whenS (\<lambda>w. \<not> n_complete (nodes w img))
                         [upd (removeListener E (Node img) EVENT_LOAD (Some f))]) 0)
                     | None \<Rightarrow> skip))]),
          whenS (\<lambda>w. \<not> opt_on ''inline'' w)
            [upd (\<lambda>w. removeListener E (Node (element w)) EVENT_CLICK (onStart w) w)],
          upd (\<lambda>w. node_upd (element w) (\<lambda>e. e\<lparr>n_expando := oset (n_expando e) NAMESPACE Undefined\<rparr>) w)])"

definition update :: "env \<Rightarrow> world stmt" where
  "update E =
     ifS (\<lambda>w. isImg w \<and> n_parent (nodes w (element w)) = null)
       (block [callS (destroy E), ret])
       (getS candidates (\<lambda>cs. collect_images E [] cs (\<lambda>imgs.
          if imgs = [] then ret
          else block
            [upd (\<lambda>w. w\<lparr>images := imgs, len := length imgs\<rparr>),
             ifS ready
               (getS (\<lambda>w. changed_indexes w imgs) (\<lambda>changed. block
                  [getS v_list (\<lambda>l. setStyle l [(''width'', CText [Lit ''auto''])]),
                   callS (initList E),
                   whenS isShown [update_shown E changed]]))
               (callS (build E))])))"

end
