(* ===== verification/Handlers.thy ===== *)
theory Handlers imports Lifecycle begin

text \<open>
  The listeners of the viewer: clicks on the controls, the keyboard, the pointers, the wheel,
  the window's size. A \<open>switch\<close> of the source is a chain of tests in the same order.
\<close>

section \<open>Mouse\<close>

definition leave :: "env \<Rightarrow> world stmt" where
  "leave E =
     ifS played (callS (stop E))
       (ifS (opt_on ''inline'') (ifS fulled (callS (exit E)) (callS (full E))) (callS (hide E False)))"

definition flip :: "jsnum option \<Rightarrow> jsval" where
  "flip s = Num (nor (nneg (num_of s)) (Fin (-1)))"

definition click_action :: "env \<Rightarrow> nat \<Rightarrow> jsval \<Rightarrow> world stmt" where
  "click_action E tgt act =
     (if act = Str ''mix'' then leave E
      else if act = Str ''hide'' then callS (hide E False)
      else if act = Str ''view'' then getS (\<lambda>w. getData E (nodes w tgt) ''index'') (\<lambda>i. callS (view E i))
      else if act = Str ''zoom-in'' then callS (zoom E (Num (Fin (1 / 10))) True None)
      else if act = Str ''zoom-out'' then callS (zoom E (Num (Fin (- 1 / 10))) True None)
      else if act = Str ''one-to-one'' then callS (toggle E)
      else if act = Str ''reset'' then callS (reset E)
      else if act = Str ''prev'' then getS (opt_on ''loop'') (\<lambda>l. callS (prev E l))
      else if act = Str ''play'' then getS (opt_on ''fullscreen'') (\<lambda>f. callS (play E f))
      else if act = Str ''next'' then getS (opt_on ''loop'') (\<lambda>l. callS (next_image E l))
      else if act = Str ''rotate-left'' then callS (rotate_by E (Num (Fin (- 90))))
      else if act = Str ''rotate-right'' then callS (rotate_by E (Num (Fin 90)))
      else if act = Str ''flip-horizontal'' then getS idata (\<lambda>d. callS (scaleX E (flip (id_scaleX d))))
      else if act = Str ''flip-vertical'' then getS idata (\<lambda>d. callS (scaleY E (flip (id_scaleY d))))
      else whenS played [callS (stop E)])"

definition click :: "env \<Rightarrow> event \<Rightarrow> world stmt" where
  "click E ev =
     getS (\<lambda>w. getData E (nodes w (e_target ev)) DATA_ACTION) (\<lambda>act. block
       [whenS (\<lambda>w. IS_TOUCH_DEVICE (e_platform E) \<and> e_trusted ev \<and> e_target ev = v_canvas w)
          [upd (\<lambda>w. clearTimeout (clickCanvasTimeout w) w)],
        click_action E (e_target ev) act])"

definition dblclick :: "env \<Rightarrow> event \<Rightarrow> world stmt" where
  "dblclick E ev =
     block
       [preventDefault ev,
        whenS (\<lambda>w. viewed w \<and> e_target ev = image w)
          [whenS (\<lambda>w. IS_TOUCH_DEVICE (e_platform E) \<and> e_trusted ev)
             [upd (\<lambda>w. clearTimeout (doubleClickImageTimeout w) w)],
           callS (toggle E)]]"

definition dragstart :: "event \<Rightarrow> world stmt" where
  "dragstart ev =
     whenS (\<lambda>w. map to_lower (n_tag (nodes w (e_target ev))) = ''img'') [preventDefault ev]"

section \<open>Keyboard\<close>

definition key_of :: "event \<Rightarrow> nat" where
  "key_of ev =
     (if e_keyCode ev \<noteq> 0 then e_keyCode ev else if e_which ev \<noteq> 0 then e_which ev else e_charCode ev)"

definition escape_key :: "env \<Rightarrow> world stmt" where
  "escape_key E =
     ifS played (callS (stop E))
       (ifS (opt_on ''inline'') (whenS fulled [callS (exit E)]) (callS (hide E False)))"

definition zoomRatio_of :: "world \<Rightarrow> jsnum" where
  "zoomRatio_of w = to_num (opt ''zoomRatio'' w)"

definition key_action :: "env \<Rightarrow> event \<Rightarrow> nat \<Rightarrow> world stmt" where
  "key_action E ev key =
     (if key = 27 then escape_key E
      else if key = 32 then whenS played [callS (stop E)]
      else if key = 37 then getS (opt_on ''loop'') (\<lambda>l. callS (prev E l))
      else if key = 38 then block
        [preventDefault ev, getS (opt ''zoomRatio'') (\<lambda>r. callS (zoom E r True None))]
      else if key = 39 then getS (opt_on ''loop'') (\<lambda>l. callS (next_image E l))
      else if key = 40 then block
        [preventDefault ev, getS zoomRatio_of (\<lambda>r. callS (zoom E (Num (nneg r)) True None))]
      else if key = 48 \<or> key = 49 then
        (if e_ctrlKey ev then block [preventDefault ev, callS (toggle E)] else skip)
      else skip)"

definition keydown :: "env \<Rightarrow> event \<Rightarrow> world stmt" where
  "keydown E ev =
     ifS (\<lambda>w. \<not> fulled w \<or> \<not> opt_on ''keyboard'' w) ret (key_action E ev (key_of ev))"

section \<open>Pointers\<close>

definition isSwitchable :: "world \<Rightarrow> bool" where
  "isSwitchable w =
     (let d = idata w; v = viewerData w
      in len w > 1 \<and> nle (Fin 0) (num_of (id_left d)) \<and> nle (Fin 0) (num_of (id_top d)) \<and>
         nle (num_of (id_width d)) (dm_width v) \<and> nle (num_of (id_height d)) (dm_height v))"

definition wrong_button :: "event \<Rightarrow> bool" where
  "wrong_button ev =
     ((e_type ev = ''mousedown'' \<or> e_type ev = ''pointerdown'' \<and> e_pointerType ev = ''mouse'') \<and>
      (isNumber (e_buttons ev) \<and> e_buttons ev \<noteq> Num (Fin 1) \<or>
       isNumber (e_button ev) \<and> e_button ev \<noteq> Num (Fin 0) \<or> e_ctrlKey ev))"

definition pointerdown_refused :: "event \<Rightarrow> world \<Rightarrow> bool" where
  "pointerdown_refused ev w =
     (\<not> viewed w \<or> showing w \<or> viewing w \<noteq> None \<or> hiding w \<or> wrong_button ev)"

text \<open>The identifier and place of every pointer an event speaks of.\<close>

definition contacts :: "event \<Rightarrow> (nat \<times> jsnum \<times> jsnum) list" where
  "contacts ev =
     (case e_touches ev of
        Some ts \<Rightarrow> map (\<lambda>t. (tc_identifier t, tc_pageX t, tc_pageY t)) ts
      | None \<Rightarrow> [(e_pointerId ev, e_pageX ev, e_pageY ev)])"

definition press_all :: "jsnum \<Rightarrow> (nat \<times> jsnum \<times> jsnum) list \<Rightarrow> pointers \<Rightarrow> pointers" where
  "press_all now cs ps = foldl (\<lambda>ps (i, x, y). pointer_set ps i (getPointer now x y)) ps cs"

definition press_action :: "event \<Rightarrow> world \<Rightarrow> action" where
  "press_action ev w =
     (if opt_on ''zoomOnTouch'' w \<and> opt_on ''zoomable'' w \<and> length (pointers w) > 1 then ActZoom
      else if opt_on ''slideOnTouch'' w \<and>
        (e_pointerType ev = ''touch'' \<or> e_type ev = ''touchstart'') \<and> isSwitchable w then ActSwitch
      else if opt_on ''movable'' w then ActMove else ActNone)"

definition pointerdown :: "env \<Rightarrow> event \<Rightarrow> world stmt" where
  "pointerdown E ev =
     ifS (pointerdown_refused ev) ret
       (block
         [preventDefault ev,
          upd (\<lambda>w. w\<lparr>pointers := press_all (e_now E w) (contacts ev) (pointers w)\<rparr>),
          getS (press_action ev) (\<lambda>a. block
            [whenS (\<lambda>w. opt_on ''transition'' w \<and> a \<in> {ActMove, ActZoom})
               [upd (\<lambda>w. removeClass E (image w) CLASS_TRANSITION w)],
             upd (\<lambda>w. w\<lparr>action := a\<rparr>)])])"

definition pointer_upd :: "nat \<Rightarrow> (pointer \<Rightarrow> pointer) \<Rightarrow> pointers \<Rightarrow> pointers" where
  "pointer_upd k f ps = map (\<lambda>(k', p). (k', if k' = k then f p else p)) ps"

definition drag_all :: "(nat \<times> jsnum \<times> jsnum) list \<Rightarrow> pointers \<Rightarrow> pointers" where
  "drag_all cs ps = foldl (\<lambda>ps (i, x, y). pointer_upd i (movePointer x y) ps) ps cs"

definition rebase :: "pointers \<Rightarrow> pointers" where
  "rebase ps = map (\<lambda>(k, p). (k, p\<lparr>pt_startX := pt_endX p, pt_startY := pt_endY p\<rparr>)) ps"

definition swiped :: "jsnum \<Rightarrow> jsnum \<Rightarrow> bool" where
  "swiped offsetX offsetY = (nlt (Fin 1) (nabs offsetX) \<and> nlt (nabs offsetY) (nabs offsetX))"

text \<open>
  After a swipe \<open>this.pointers\<close> is a new object, and the loop at the end of \<open>change\<close>
  works on the old one, which nothing refers to any more.
\<close>

definition swipe :: "env \<Rightarrow> jsnum \<Rightarrow> jsnum \<Rightarrow> world stmt" where
  "swipe E offsetX offsetY =
     block
       [upd (\<lambda>w. w\<lparr>action := ActSwitched\<rparr>),
        (if swiped offsetX offsetY
         then block
           [upd (\<lambda>w. w\<lparr>pointers := []\<rparr>),
            getS (opt_on ''loop'') (\<lambda>l.
              if nlt (Fin 1) offsetX then callS (prev E l)
              else if nlt offsetX (Fin (-1)) then callS (next_image E l)
              else skip)]
         else upd (\<lambda>w. w\<lparr>pointers := rebase (pointers w)\<rparr>))]"

definition change :: "env \<Rightarrow> event \<Rightarrow> world stmt" where
  "change E ev =
     getS pointers (\<lambda>ps.
       case ps of
         [] \<Rightarrow> throw TypeError
       | (k, p) # rest \<Rightarrow>
           let offsetX = nsub (pt_endX p) (pt_startX p); offsetY = nsub (pt_endY p) (pt_startY p)
           in getS action (\<lambda>a.
             if a = ActSwitch then swipe E offsetX offsetY
             else block
               [(if a = ActMove then callS (move E (Num offsetX) (Num offsetY))
                 else if a = ActZoom then callS (zoom E (getMaxZoomRatio (e_sort E) ps) False (Some ev))
                 else skip),
                upd (\<lambda>w. w\<lparr>pointers := rebase (pointers w)\<rparr>)]))"

definition pointermove :: "env \<Rightarrow> event \<Rightarrow> world stmt" where
  "pointermove E ev =
     ifS (\<lambda>w. \<not> viewed w \<or> action w = ActNone) ret
       (block
         [preventDefault ev,
          upd (\<lambda>w. w\<lparr>pointers := drag_all (contacts ev) (pointers w)\<rparr>),
          callS (change E ev)])"

text \<open>The pointers that stay, and the one the last contact of the event has lifted.\<close>

definition lift_all ::
  "(nat \<times> jsnum \<times> jsnum) list \<Rightarrow> pointers \<Rightarrow> pointers \<times> pointer option" where
  "lift_all cs ps =
     foldl (\<lambda>(ps, last) (i, x, y). (pointer_del ps i, pointer_get ps i)) (ps, None) cs"

definition emulate_tap :: "event \<Rightarrow> world stmt" where
  "emulate_tap ev =
     block
       [upd (\<lambda>w. clearTimeout (clickCanvasTimeout w) w),
        upd (\<lambda>w. clearTimeout (doubleClickImageTimeout w) w),
        ifS (\<lambda>w. opt_on ''toggleOnDblclick'' w \<and> viewed w \<and> e_target ev = image w)
          (ifS imageClicked
             (block
                [upd (\<lambda>w. w\<lparr>imageClicked := False\<rparr>),
                 setTimeout TDispatchDblclick (Fin 50)
                   (\<lambda>i. upd (\<lambda>w. w\<lparr>doubleClickImageTimeout := Some i\<rparr>))])
             (block
                [upd (\<lambda>w. w\<lparr>imageClicked := True\<rparr>),
                 setTimeout TUnclick (Fin 500)
                   (\<lambda>i. upd (\<lambda>w. w\<lparr>doubleClickImageTimeout := Some i\<rparr>))]))
          (block
             [upd (\<lambda>w. w\<lparr>imageClicked := False\<rparr>),
              whenS (\<lambda>w. opt_on ''backdrop'' w \<and> opt ''backdrop'' w \<noteq> Str ''static'' \<and>
                         e_target ev = v_canvas w)
                [setTimeout TDispatchClickCanvas (Fin 50)
                   (\<lambda>i. upd (\<lambda>w. w\<lparr>clickCanvasTimeout := Some i\<rparr>))]])]"

definition tapped :: "env \<Rightarrow> action \<Rightarrow> pointer option \<Rightarrow> world \<Rightarrow> bool" where
  "tapped E a p w =
     (IS_TOUCH_DEVICE (e_platform E) \<and> a \<noteq> ActZoom \<and>
      (case p of None \<Rightarrow> False | Some q \<Rightarrow> nlt (nsub (e_now E w) (pt_time q)) (Fin 500)))"

definition pointerup :: "env \<Rightarrow> event \<Rightarrow> world stmt" where
  "pointerup E ev =
     getS (\<lambda>w. (action w, snd (lift_all (contacts ev) (pointers w)))) (\<lambda>(a, p). block
       [upd (\<lambda>w. w\<lparr>pointers := fst (lift_all (contacts ev) (pointers w))\<rparr>),
        ifS (\<lambda>w. a = ActNone) ret
          (block
            [preventDefault ev,
             whenS (\<lambda>w. opt_on ''transition'' w \<and> a \<in> {ActMove, ActZoom})
               [upd (\<lambda>w. addClass E (image w) CLASS_TRANSITION w)],
             upd (\<lambda>w. w\<lparr>action := ActNone\<rparr>),
             whenS (tapped E a p) [emulate_tap ev]])])"

section \<open>Resize and wheel\<close>

definition reload_slide :: "env \<Rightarrow> nat \<Rightarrow> world stmt" where
  "reload_slide E img =
     fresh_fun HLoadImage (\<lambda>f. block
       [upd (addListener_once E (Node img) EVENT_LOAD f),
        exprS (dispatchEvent E img EVENT_LOAD [] True)])"

definition resize :: "env \<Rightarrow> world stmt" where
  "resize E =
     ifS (\<lambda>w. \<not> isShown w \<or> hiding w) ret
       (block
         [whenS fulled [upd (close_body E), upd (initBody E), upd (open_body E)],
          upd (initContainer E),
          callS (initViewer E),
          callS renderViewer,
          callS (renderList E None),
          whenS viewed [callS (initImage E IRender)],
          whenS played
            [ifS (\<lambda>w. opt_on ''fullscreen'' w \<and> fulled w \<and> \<not> e_fs_element E w)
               (block [callS (stop E), ret])
               (getS (\<lambda>w. query_all (by_tag ''img'') w (v_player w))
                  (eachS (\<lambda>img i. reload_slide E img) 0))]])"

definition nonzero :: "jsnum \<Rightarrow> bool" where
  "nonzero x = (x \<noteq> NaN \<and> x \<noteq> Fin 0)"

definition wheel_delta :: "event \<Rightarrow> jsnum" where
  "wheel_delta ev =
     (if nonzero (e_deltaY ev) then (if nlt (Fin 0) (e_deltaY ev) then Fin 1 else Fin (-1))
      else if nonzero (e_wheelDelta ev) then ndiv (nneg (e_wheelDelta ev)) (Fin 120)
      else if nonzero (e_detail ev) then (if nlt (Fin 0) (e_detail ev) then Fin 1 else Fin (-1))
      else Fin 1)"

definition wheel :: "env \<Rightarrow> event \<Rightarrow> world stmt" where
  "wheel E ev =
     ifS (\<lambda>w. \<not> viewed w) ret
       (block
         [preventDefault ev,
          ifS wheeling ret
            (block
              [upd (\<lambda>w. w\<lparr>wheeling := True\<rparr>),
               setTimeout TWheelReset (Fin 50) (\<lambda>i. skip),
               getS (\<lambda>w. nor (zoomRatio_of w) (Fin (1 / 10))) (\<lambda>ratio.
                 callS (zoom E (Num (nmul (nneg (wheel_delta ev)) ratio)) True (Some ev)))])])"

end
