(* ===== verification/Viewer_Class.thy ===== *)
theory Viewer_Class imports Handlers begin

text \<open>
  The class: the constructor, \<open>init\<close> with its listener or its wait for the images of an
  inline viewer, and the two static functions. The table of defaults belongs to the class,
  not to a viewer, and \<open>setDefaults\<close> changes it, so it is an argument here.
\<close>

section \<open>Waiting for the images of an inline viewer\<close>

definition progress :: "world stmt" where
  "progress =
     block
       [upd (\<lambda>w. w\<lparr>progress_count := Suc (progress_count w)\<rparr>),
        whenS (\<lambda>w. progress_count w = len w)
          [upd (\<lambda>w. w\<lparr>initializing := None\<rparr>),
           setTimeout TBuild (Fin 0) (\<lambda>i. upd (\<lambda>w. w\<lparr>delaying := Some i\<rparr>))]]"

text \<open>The timer set by the last image.\<close>

definition delayed_build :: "env \<Rightarrow> world stmt" where
  "delayed_build E = block [upd (\<lambda>w. w\<lparr>delaying := None\<rparr>), callS (build E)]"

definition init_inline :: "env \<Rightarrow> world stmt" where
  "init_inline E =
     fresh_fun HProgress (\<lambda>f. block
       [upd (\<lambda>w. w\<lparr>progress_count := 0, initializing := Some f\<rparr>),
        getS images (eachS (\<lambda>img i.
          ifS (\<lambda>w. n_complete (nodes w img)) (callS progress)
            (upd (addListener_once E (Node img) EVENT_LOAD f))) 0)])"

section \<open>Opening a modal viewer by a click\<close>

fun index_of :: "nat \<Rightarrow> nat list \<Rightarrow> nat option" where
  "index_of n [] = None"
| "index_of n (x # xs) = (if x = n then Some 0 else map_option Suc (index_of n xs))"

definition indexOf :: "nat list \<Rightarrow> nat \<Rightarrow> jsnum" where
  "indexOf xs n = (case index_of n xs of Some i \<Rightarrow> nnat i | None \<Rightarrow> Fin (-1))"

definition is_img :: "world \<Rightarrow> nat \<Rightarrow> bool" where
  "is_img w n = (map to_lower (n_tag (nodes w n)) = ''img'')"

definition on_start :: "env \<Rightarrow> event \<Rightarrow> world stmt" where
  "on_start E ev =
     (let tgt = e_target ev in
      whenS (\<lambda>w. is_img w tgt)
        [getS (opt ''filter'') (\<lambda>flt. bindS
          (case flt of Fun k \<Rightarrow> e_user E k [Elem tgt] | _ \<Rightarrow> pureE (\<lambda>w. Bool True))
          (\<lambda>v. if truthy v
               then getS (\<lambda>w. indexOf (images w) tgt) (\<lambda>i. callS (view E (Num i)))
               else skip))])"

definition init_modal :: "env \<Rightarrow> world stmt" where
  "init_modal E =
     fresh_fun HStart (\<lambda>f. upd (\<lambda>w.
       addListener E (Node (element w)) EVENT_CLICK f (w\<lparr>onStart := Some f\<rparr>)))"

section \<open>Construction\<close>

definition init_images :: "env \<Rightarrow> bool \<Rightarrow> nat list \<Rightarrow> world stmt" where
  "init_images E img imgs =
     block
       [upd (\<lambda>w. w\<lparr>isImg := img, len := length imgs, images := imgs\<rparr>),
        upd (initBody E),
        whenS (\<lambda>w. \<not> p_style_transition (e_platform E))
          [upd (\<lambda>w. w\<lparr>options := oset (options w) ''transition'' (Bool False)\<rparr>)],
        ifS (opt_on ''inline'') (init_inline E) (init_modal E)]"

definition init :: "env \<Rightarrow> world stmt" where
  "init E =
     ifS (\<lambda>w. truthy (oget (n_expando (nodes w (element w))) NAMESPACE)) ret
       (block
         [upd (\<lambda>w. node_upd (element w)
            (\<lambda>e. e\<lparr>n_expando := oset (n_expando e) NAMESPACE (Obj [])\<rparr>) w),
          getS (\<lambda>w. is_img w (element w)) (\<lambda>img.
          getS (\<lambda>w. if img then [element w] else query_all (by_tag ''img'') w (element w)) (\<lambda>cs.
            collect_images E [] cs (\<lambda>imgs. init_images E img imgs)))])"

definition new_options :: "(string \<times> jsval) list \<Rightarrow> jsval \<Rightarrow> (string \<times> jsval) list" where
  "new_options defaults opts =
     assign [] [Obj defaults, if isPlainObject opts then opts else Bool False]"

text \<open>The members the constructor sets.\<close>

definition fresh_members :: "nat \<Rightarrow> (string \<times> jsval) list \<Rightarrow> world \<Rightarrow> world" where
  "fresh_members el os w =
     new_imageData empty_data
       (w\<lparr>element := el, options := os, action := ActNone, fading := False, fulled := False,
          hiding := False, imageClicked := False,
          index := to_num (oget os ''initialViewIndex''), isImg := False, isShown := False,
          len := 0, played := False, playing := None, pointers := [], ready := False,
          showing := False, timeout := None, tooltipping := None, viewed := False,
          viewing := None, wheeling := False, zooming := False\<rparr>)"

text \<open>The members a new object does not have yet.\<close>

definition unset_members :: "world \<Rightarrow> world" where
  "unset_members w =
     w\<lparr>destroyed := False, images := [], items := [], image := null, v_parent := null,
       v_viewer := null, v_title := null, v_toolbar := null, v_navbar := null,
       v_button := null, v_canvas := null, v_footer := null, v_tooltipBox := null,
       v_player := null, v_list := null, imageInitializing := None, imageRendering := None,
       transitioning := None, clickCanvasTimeout := None, doubleClickImageTimeout := None,
       onClick := None, onDragStart := None, onPointerDown := None, onPointerMove := None,
       onPointerUp := None, onKeyDown := None, onResize := None, onWheel := None,
       onDblclick := None, onStart := None, onLoadWhenPlay := None, delaying := None,
       initializing := None, progress_count := 0\<rparr>"

definition not_an_element :: js_error where
  "not_an_element = PlainError ''The first argument is required and must be an element.''"

definition construct :: "env \<Rightarrow> (string \<times> jsval) list \<Rightarrow> jsval \<Rightarrow> jsval \<Rightarrow> world stmt" where
  "construct E defaults el opts =
     (case el of
        Elem n \<Rightarrow>
          if n = null then throw not_an_element
          else block
            [upd (\<lambda>w. fresh_members n (new_options defaults opts) (unset_members w)),
             callS (init E)]
      | _ \<Rightarrow> throw not_an_element)"

section \<open>Static functions\<close>

definition noConflict :: "'v \<Rightarrow> 'v \<Rightarrow> (string \<times> 'v) list \<Rightarrow> 'v \<times> (string \<times> 'v) list" where
  "noConflict viewer another globals = (viewer, oset globals ''Viewer'' another)"

definition setDefaults :: "(string \<times> jsval) list \<Rightarrow> jsval \<Rightarrow> (string \<times> jsval) list" where
  "setDefaults defaults opts = assign defaults [if isPlainObject opts then opts else Bool False]"

end
