(* ===== verification/Event_Loop.thy ===== *)
theory Event_Loop imports Viewer_Class begin

text \<open>
  The closures of the program as code, and the loop that runs them. \<open>run_handler\<close> maps a
  listener to its body, \<open>run_task\<close> a timer. A dispatch inside a listener calls listeners
  again; \<open>stack d E\<close> bounds that nesting by \<open>d\<close> calls, and a deeper one throws the
  RangeError with which an engine refuses to grow its stack.
\<close>

section \<open>Listeners and timers as code\<close>

definition item_loaded :: "env \<Rightarrow> nat \<Rightarrow> event \<Rightarrow> world stmt" where
  "item_loaded E item ev =
     block
       [whenS (opt_on ''loading'') [upd (removeClass E item CLASS_LOADING)],
        callS (loadImage E ev)]"

definition event_arg :: "event \<Rightarrow> jsval" where
  "event_arg ev =
     Obj [(''type'', Str (e_type ev)), (''target'', Elem (e_target ev)), (''detail'', Obj (e_data ev))]"

definition rendered :: "env \<Rightarrow> rdone \<Rightarrow> world stmt" where
  "rendered E d = block [upd (\<lambda>w. w\<lparr>imageRendering := None\<rparr>), callS (run_rdone E d)]"

fun run_handler :: "env \<Rightarrow> handler \<Rightarrow> event \<Rightarrow> world stmt" where
  "run_handler E HClick ev = click E ev"
| "run_handler E HDragstart ev = dragstart ev"
| "run_handler E HPointerdown ev = pointerdown E ev"
| "run_handler E HPointermove ev = pointermove E ev"
| "run_handler E HPointerup ev = pointerup E ev"
| "run_handler E HKeydown ev = keydown E ev"
| "run_handler E HResize ev = resize E"
| "run_handler E HWheel ev = wheel E ev"
| "run_handler E HDblclick ev = dblclick E ev"
| "run_handler E HStart ev = on_start E ev"
| "run_handler E HProgress ev = progress"
| "run_handler E (HItemLoad item) ev = item_loaded E item ev"
| "run_handler E (HListTransition l) ev = upd (addClass E l CLASS_TRANSITION)"
| "run_handler E (HRenderDone d) ev = rendered E d"
| "run_handler E HShown ev = shown E"
| "run_handler E (HViewerTransitionEnd vw k) ev = viewer_transition_end E vw k ev"
| "run_handler E (HImageTransitionEnd vw k) ev = image_transition_end E vw k"
| "run_handler E (HViewed img alt title) ev = on_viewed E img alt title"
| "run_handler E HLoad ev = load E"
| "run_handler E HLoadImage ev = loadImage E ev"
| "run_handler E (HTooltipFaded box) ev = upd (tooltip_faded E box)"
| "run_handler E (HSized n cb) ev = sizing_onload E (run_sz E) n cb"
| "run_handler E (HUser k) ev = exprS (e_user E k [event_arg ev])"
| "run_handler E (HOnce t ty key capture k h) ev =
     block
       [upd (legacy_del t ty key),
        upd (removeEventListener t ty (HOnce t ty key capture k h, k) capture),
        callS (run_handler E h ev)]"

text \<open>\<open>setTimeout(function () { removeClass(image, CLASS_INVISIBLE) ...\<close> and the others.\<close>

definition load_timeout :: "env \<Rightarrow> nat \<Rightarrow> world stmt" where
  "load_timeout E img =
     block
       [upd (removeClass E img CLASS_INVISIBLE),
        upd (\<lambda>w. w\<lparr>timeout := None\<rparr>)]"

fun run_task :: "env \<Rightarrow> task \<Rightarrow> world stmt" where
  "run_task E TDispatchDblclick =
     getS image (\<lambda>img. exprS (dispatchEvent E img EVENT_DBLCLICK [] True))"
| "run_task E TUnclick = upd (\<lambda>w. w\<lparr>imageClicked := False\<rparr>)"
| "run_task E TDispatchClickCanvas =
     getS v_canvas (\<lambda>cv. exprS (dispatchEvent E cv EVENT_CLICK [] True))"
| "run_task E TWheelReset = upd (\<lambda>w. w\<lparr>wheeling := False\<rparr>)"
| "run_task E (TLoadTimeout img) = load_timeout E img"
| "run_task E (TPlay slides idx) = play_tick E slides idx"
| "run_task E (TAddTransition img lst) = upd (add_transitions E img lst)"
| "run_task E (TTooltipHide box) = tooltip_hide E box"
| "run_task E TBuild = delayed_build E"

section \<open>Nested dispatches\<close>

fun stack :: "nat \<Rightarrow> env \<Rightarrow> env" where
  "stack 0 E = E\<lparr>invoke := \<lambda>h ev. throw RangeError\<rparr>"
| "stack (Suc d) E = E\<lparr>invoke := run_handler (stack d E)\<rparr>"

lemma stack_fields [simp]:
  "e_platform (stack d E) = e_platform E" "e_user (stack d E) = e_user E"
  "e_root (stack d E) = e_root E" "e_sort (stack d E) = e_sort E" "e_now (stack d E) = e_now E"
  by (cases d; simp)+

section \<open>Steps\<close>

text \<open>
  What the browser does next: deliver an event of its own, run a timer that is due, finish
  loading an image, or run code of the page that calls a method of the viewer.
\<close>

datatype call =
    CShow bool | CHide bool | CView jsval | CPrev bool | CNext bool
  | CMove jsval jsval | CMoveTo jsval jsval | CZoom jsval bool | CZoomTo jsnum bool
  | CRotate jsval | CRotateTo jsval | CScale jsval jsval | CScaleX jsval | CScaleY jsval
  | CPlay bool | CStop | CFull | CExit | CTooltip | CToggle | CReset | CUpdate | CDestroy

fun run_call :: "env \<Rightarrow> call \<Rightarrow> world stmt" where
  "run_call E (CShow b) = show_viewer E b"
| "run_call E (CHide b) = hide E b"
| "run_call E (CView v) = view E v"
| "run_call E (CPrev b) = prev E b"
| "run_call E (CNext b) = next_image E b"
| "run_call E (CMove x y) = move E x y"
| "run_call E (CMoveTo x y) = moveTo E x y"
| "run_call E (CZoom r b) = zoom E r b None"
| "run_call E (CZoomTo r b) = zoomTo E r b None False"
| "run_call E (CRotate d) = rotate_by E d"
| "run_call E (CRotateTo d) = rotateTo E d"
| "run_call E (CScale x y) = scale E x y"
| "run_call E (CScaleX x) = scaleX E x"
| "run_call E (CScaleY y) = scaleY E y"
| "run_call E (CPlay b) = play E b"
| "run_call E CStop = stop E"
| "run_call E CFull = full E"
| "run_call E CExit = exit E"
| "run_call E CTooltip = tooltip E"
| "run_call E CToggle = toggle E"
| "run_call E CReset = reset E"
| "run_call E CUpdate = update E"
| "run_call E CDestroy = destroy E"

definition image_arrived :: "nat \<Rightarrow> jsnum \<Rightarrow> jsnum \<Rightarrow> world \<Rightarrow> world" where
  "image_arrived n a b = node_upd n (\<lambda>e. e\<lparr>n_complete := True, n_natW := a, n_natH := b\<rparr>)"

text \<open>The \<open>onload\<close> property of an image, and then the listeners of its \<open>load\<close> event.\<close>

definition run_onload :: "env \<Rightarrow> nat \<Rightarrow> event \<Rightarrow> world stmt" where
  "run_onload E n ev =
     getS (\<lambda>w. List.find (\<lambda>p. fst p = n) (onloads w)) (\<lambda>p.
       case p of Some (m, h) \<Rightarrow> callS (invoke E h ev) | None \<Rightarrow> skip)"

text \<open>A callback of the browser that throws ends with a report, not with a crash.\<close>

definition guarded :: "world stmt \<Rightarrow> world \<Rightarrow> world" where
  "guarded s w =
     (case s w of
        (Throw e, w') \<Rightarrow> w'\<lparr>reported := reported w' @ [e]\<rparr>
      | (Next, w') \<Rightarrow> w'
      | (Ret, w') \<Rightarrow> w')"

definition native_event :: "env \<Rightarrow> bool \<Rightarrow> target \<Rightarrow> event \<Rightarrow> world \<Rightarrow> world" where
  "native_event E bubbles t ev w = guarded (exprS (dispatch (invoke E) (e_root E) bubbles t ev)) w"

definition drop_timer :: "nat \<Rightarrow> world \<Rightarrow> world" where
  "drop_timer i w = w\<lparr>timers := filter (\<lambda>t. tm_id t \<noteq> i) (timers w)\<rparr>"

definition load_event :: "nat \<Rightarrow> event" where
  "load_event n = (plain_event EVENT_LOAD n)\<lparr>e_trusted := True, e_cancelable := False\<rparr>"

inductive step :: "env \<Rightarrow> world \<Rightarrow> world \<Rightarrow> bool" for E where
  native: "e_trusted ev \<Longrightarrow> step E w (native_event E bubbles t ev w)"
| timer: "tm \<in> set (timers w) \<Longrightarrow>
    step E w (guarded (run_task E (tm_task tm)) (drop_timer (tm_id tm) w))"
| loaded: "\<not> n_complete (nodes w n) \<Longrightarrow>
    step E w (native_event E False (Node n) (load_event n)
      (guarded (run_onload E n (load_event n)) (image_arrived n a b w)))"
| called: "step E w (guarded (run_call E c) w)"

inductive_cases step_cases: "step E w w'"

inductive reachable :: "env \<Rightarrow> world \<Rightarrow> world \<Rightarrow> bool" for E w where
  start: "reachable E w w"
| more: "reachable E w u \<Longrightarrow> step E u v \<Longrightarrow> reachable E w v"

lemma reachable_trans: "reachable E u v \<Longrightarrow> reachable E w u \<Longrightarrow> reachable E w v"
  by (induction rule: reachable.induct) (auto intro: reachable.intros)

end
