(* ===== verification/Typing.thy ===== *)
theory Typing imports Event_Loop begin

text \<open>
  The types of events a listener is written for, and how deep its code may nest dispatches. A
  listener of rank 0 dispatches nothing, one of rank 1 only events whose listeners have rank 0,
  and so on; the rank of an event type bounds that of the listeners written for it.
\<close>

section \<open>Listeners and the types of their events\<close>

text \<open>The events of the documentation, which only functions of the page and titles listen to.\<close>

definition custom_types :: "string list" where
  "custom_types =
     [EVENT_READY, EVENT_SHOW, EVENT_SHOWN, EVENT_HIDE, EVENT_HIDDEN, EVENT_VIEW, EVENT_VIEWED,
      EVENT_ZOOM, EVENT_ZOOMED, EVENT_PLAY, EVENT_STOP]"

fun types_of :: "handler \<Rightarrow> string list" where
  "types_of HClick = [EVENT_CLICK]"
| "types_of HDragstart = [EVENT_DRAG_START]"
| "types_of HPointerdown = [''pointerdown'', ''touchstart'', ''mousedown'']"
| "types_of HPointermove = [''pointermove'', ''touchmove'', ''mousemove'']"
| "types_of HPointerup = [''pointerup'', ''pointercancel'', ''touchend'', ''touchcancel'', ''mouseup'']"
| "types_of HKeydown = [EVENT_KEY_DOWN]"
| "types_of HResize = [EVENT_RESIZE]"
| "types_of HWheel = [EVENT_WHEEL]"
| "types_of HDblclick = [EVENT_DBLCLICK]"
| "types_of HStart = [EVENT_CLICK]"
| "types_of HProgress = [EVENT_LOAD]"
| "types_of (HItemLoad item) = [EVENT_LOAD]"
| "types_of (HListTransition l) = [EVENT_VIEWED]"
| "types_of (HRenderDone d) = [EVENT_TRANSITION_END]"
| "types_of HShown = [EVENT_TRANSITION_END]"
| "types_of (HViewerTransitionEnd vw k) = [EVENT_TRANSITION_END]"
| "types_of (HImageTransitionEnd vw k) = [EVENT_TRANSITION_END]"
| "types_of (HViewed img alt title) = [EVENT_VIEWED]"
| "types_of HLoad = [EVENT_LOAD]"
| "types_of HLoadImage = [EVENT_LOAD]"
| "types_of (HTooltipFaded box) = [EVENT_TRANSITION_END]"
| "types_of (HSized n cb) = []"
| "types_of (HUser k) = EVENT_CLICK # custom_types"
| "types_of (HOnce t ty key capture k h) = filter ((=) ty) (types_of h)"

definition typed :: "world \<Rightarrow> bool" where
  "typed w \<longleftrightarrow> (\<forall>l \<in> set (listeners w). l_type l \<in> set (types_of (fst (l_fun l))))"

text \<open>A listener may be registered for a list of types.\<close>

definition listens :: "string \<Rightarrow> handler \<Rightarrow> bool" where
  "listens types h \<longleftrightarrow> set (split_spaces (trim types)) \<subseteq> set (types_of h)"

lemma words_of_type [simp]:
  "split_spaces (trim EVENT_CLICK) = [EVENT_CLICK]"
  "split_spaces (trim EVENT_DRAG_START) = [EVENT_DRAG_START]"
  "split_spaces (trim EVENT_KEY_DOWN) = [EVENT_KEY_DOWN]"
  "split_spaces (trim EVENT_RESIZE) = [EVENT_RESIZE]"
  "split_spaces (trim EVENT_WHEEL) = [EVENT_WHEEL]"
  "split_spaces (trim EVENT_DBLCLICK) = [EVENT_DBLCLICK]"
  "split_spaces (trim EVENT_LOAD) = [EVENT_LOAD]"
  "split_spaces (trim EVENT_VIEWED) = [EVENT_VIEWED]"
  "split_spaces (trim EVENT_TRANSITION_END) = [EVENT_TRANSITION_END]"
  by code_simp+

lemma listens_one [simp]:
  "listens EVENT_CLICK h = (EVENT_CLICK \<in> set (types_of h))"
  "listens EVENT_DRAG_START h = (EVENT_DRAG_START \<in> set (types_of h))"
  "listens EVENT_KEY_DOWN h = (EVENT_KEY_DOWN \<in> set (types_of h))"
  "listens EVENT_RESIZE h = (EVENT_RESIZE \<in> set (types_of h))"
  "listens EVENT_WHEEL h = (EVENT_WHEEL \<in> set (types_of h))"
  "listens EVENT_DBLCLICK h = (EVENT_DBLCLICK \<in> set (types_of h))"
  "listens EVENT_LOAD h = (EVENT_LOAD \<in> set (types_of h))"
  "listens EVENT_VIEWED h = (EVENT_VIEWED \<in> set (types_of h))"
  "listens EVENT_TRANSITION_END h = (EVENT_TRANSITION_END \<in> set (types_of h))"
  by (simp_all add: listens_def del: trim.simps)

lemma listens_custom [simp]: "ty \<in> set custom_types \<Longrightarrow> listens ty (HUser k)"
proof -
  have "list_all (\<lambda>ty. list_all (\<lambda>t. list_ex ((=) t) custom_types) (split_spaces (trim ty))) custom_types"
    by code_simp
  then show "ty \<in> set custom_types \<Longrightarrow> ?thesis"
    by (auto simp: list_all_iff list_ex_iff listens_def)
qed

lemma listens_pointer [simp]:
  "listens (EVENT_POINTER_DOWN p) HPointerdown" "listens (EVENT_POINTER_MOVE p) HPointermove"
  "listens (EVENT_POINTER_UP p) HPointerup"
proof -
  have w: "split_spaces (trim ''pointerdown'') = [''pointerdown'']"
    "split_spaces (trim ''touchstart'') = [''touchstart'']" "split_spaces (trim ''mousedown'') = [''mousedown'']"
    "split_spaces (trim ''pointermove'') = [''pointermove'']"
    "split_spaces (trim ''touchmove'') = [''touchmove'']" "split_spaces (trim ''mousemove'') = [''mousemove'']"
    "split_spaces (trim ''pointerup pointercancel'') = [''pointerup'', ''pointercancel'']"
    "split_spaces (trim ''touchend touchcancel'') = [''touchend'', ''touchcancel'']"
    "split_spaces (trim ''mouseup'') = [''mouseup'']"
    by code_simp+
  show "listens (EVENT_POINTER_DOWN p) HPointerdown" "listens (EVENT_POINTER_MOVE p) HPointermove"
    "listens (EVENT_POINTER_UP p) HPointerup"
    by (simp_all add: listens_def EVENT_POINTER_DOWN_def EVENT_POINTER_MOVE_def EVENT_POINTER_UP_def
        EVENT_TOUCH_START_def EVENT_TOUCH_MOVE_def EVENT_TOUCH_END_def w del: trim.simps)
qed

section \<open>Ranks\<close>

fun rank :: "handler \<Rightarrow> nat" where
  "rank HClick = 2"
| "rank HPointerdown = 1"
| "rank HPointermove = 1"
| "rank HPointerup = 1"
| "rank HKeydown = 2"
| "rank HResize = 2"
| "rank HWheel = 2"
| "rank HDblclick = 2"
| "rank HStart = 1"
| "rank (HItemLoad item) = 1"
| "rank (HRenderDone d) = 1"
| "rank HShown = 1"
| "rank (HViewerTransitionEnd vw k) = 1"
| "rank (HImageTransitionEnd vw k) = 1"
| "rank HLoad = 1"
| "rank HLoadImage = 1"
| "rank (HSized n cb) = 1"
| "rank (HOnce t ty key capture k h) = rank h"
| "rank _ = 0"

lemma rank_le: "rank h \<le> 2"
  by (induction h) simp_all

text \<open>The rank of an event type: no listener written for it has a larger one.\<close>

definition type_rank :: "string \<Rightarrow> nat" where
  "type_rank ty =
     (if ty \<in> set custom_types then 0
      else if ty = EVENT_LOAD \<or> ty = EVENT_TRANSITION_END then 1 else 2)"

lemma type_rank_small [simp]: "type_rank EVENT_LOAD = 1" "type_rank EVENT_TRANSITION_END = 1"
proof -
  have "list_all (\<lambda>ty. ty \<noteq> EVENT_LOAD \<and> ty \<noteq> EVENT_TRANSITION_END) custom_types" by code_simp
  then show "type_rank EVENT_LOAD = 1" "type_rank EVENT_TRANSITION_END = 1"
    by (auto simp: type_rank_def list_all_iff)
qed

lemma type_rank_large:
  "type_rank EVENT_CLICK = 2" "type_rank EVENT_DBLCLICK = 2" "type_rank EVENT_KEY_DOWN = 2"
  "type_rank EVENT_RESIZE = 2" "type_rank EVENT_WHEEL = 2"
  "type_rank ''pointerdown'' = 2" "type_rank ''touchstart'' = 2" "type_rank ''mousedown'' = 2"
  "type_rank ''pointerup'' = 2" "type_rank ''pointercancel'' = 2" "type_rank ''touchend'' = 2"
  "type_rank ''touchcancel'' = 2" "type_rank ''mouseup'' = 2"
  "type_rank ''pointermove'' = 2" "type_rank ''touchmove'' = 2" "type_rank ''mousemove'' = 2"
  by code_simp+

theorem listener_rank: "ty \<in> set (types_of h) \<Longrightarrow> rank h \<le> type_rank ty"
  by (induction h) (auto simp: type_rank_large)

section \<open>What does not depend on how listeners are run\<close>

lemma invoke_same [simp]: "E\<lparr>invoke := invoke E\<rparr> = E"
  by (cases E) simp

lemma pure_fields:
  "e_platform (E\<lparr>invoke := I\<rparr>) = e_platform E"
  "e_root (E\<lparr>invoke := I\<rparr>) = e_root E"
  "e_body (E\<lparr>invoke := I\<rparr>) = e_body E"
  "e_innerWidth (E\<lparr>invoke := I\<rparr>) = e_innerWidth E"
  "e_innerHeight (E\<lparr>invoke := I\<rparr>) = e_innerHeight E"
  "e_clientWidth (E\<lparr>invoke := I\<rparr>) = e_clientWidth E"
  "e_scrollX (E\<lparr>invoke := I\<rparr>) = e_scrollX E"
  "e_scrollY (E\<lparr>invoke := I\<rparr>) = e_scrollY E"
  "e_offsetWidth (E\<lparr>invoke := I\<rparr>) = e_offsetWidth E"
  "e_offsetHeight (E\<lparr>invoke := I\<rparr>) = e_offsetHeight E"
  "e_boxLeft (E\<lparr>invoke := I\<rparr>) = e_boxLeft E"
  "e_boxTop (E\<lparr>invoke := I\<rparr>) = e_boxTop E"
  "e_paddingRight (E\<lparr>invoke := I\<rparr>) = e_paddingRight E"
  "e_position (E\<lparr>invoke := I\<rparr>) = e_position E"
  "e_cache (E\<lparr>invoke := I\<rparr>) = e_cache E"
  "e_now (E\<lparr>invoke := I\<rparr>) = e_now E"
  "e_sort (E\<lparr>invoke := I\<rparr>) = e_sort E"
  "e_fn_text (E\<lparr>invoke := I\<rparr>) = e_fn_text E"
  "e_fs_element (E\<lparr>invoke := I\<rparr>) = e_fs_element E"
  "e_fs_request (E\<lparr>invoke := I\<rparr>) = e_fs_request E"
  "e_fs_exit (E\<lparr>invoke := I\<rparr>) = e_fs_exit E"
  "e_select (E\<lparr>invoke := I\<rparr>) = e_select E"
  "e_user (E\<lparr>invoke := I\<rparr>) = e_user E"
  by simp_all

lemma pure_page_body [simp]: "page_body (E\<lparr>invoke := I\<rparr>) = page_body E"
  by (simp add: page_body_def)

lemma pure_dom [simp]:
  "hasClass (E\<lparr>invoke := I\<rparr>) = hasClass E"
  "addClass (E\<lparr>invoke := I\<rparr>) = addClass E"
  "removeClass (E\<lparr>invoke := I\<rparr>) = removeClass E"
  "getData (E\<lparr>invoke := I\<rparr>) = getData E"
  "setData (E\<lparr>invoke := I\<rparr>) = setData E"
  "add_one (E\<lparr>invoke := I\<rparr>) = add_one E"
  "set_src (E\<lparr>invoke := I\<rparr>) = set_src E"
  "getOffset (E\<lparr>invoke := I\<rparr>) = getOffset E"
  "container_of (E\<lparr>invoke := I\<rparr>) = container_of E"
  "tapped (E\<lparr>invoke := I\<rparr>) = tapped E"
  by (intro ext; unfold hasClass_def addClass_def removeClass_def getData_def setData_def add_one_def set_src_def getOffset_def container_of_def tapped_def pure_fields; rule refl)+

lemma pure_remove_each [simp]: "remove_each (E\<lparr>invoke := I\<rparr>) t f c h tys w = remove_each E t f c h tys w"
  by (induction tys arbitrary: h w) (simp_all add: Let_def)

lemma pure_listeners [simp]:
  "addClass_all (E\<lparr>invoke := I\<rparr>) = addClass_all E"
  "toggleClass (E\<lparr>invoke := I\<rparr>) = toggleClass E"
  "addListener_with (E\<lparr>invoke := I\<rparr>) = addListener_with E"
  "removeListener_with (E\<lparr>invoke := I\<rparr>) = removeListener_with E"
  by (intro ext; unfold addClass_all_def toggleClass_def addListener_with_def removeListener_with_def pure_fields pure_page_body pure_dom pure_remove_each; rule refl)+

lemma pure_once [simp]:
  "addListener (E\<lparr>invoke := I\<rparr>) = addListener E"
  "addListener_once (E\<lparr>invoke := I\<rparr>) = addListener_once E"
  "removeListener (E\<lparr>invoke := I\<rparr>) = removeListener E"
  by (intro ext; unfold addListener_def addListener_once_def removeListener_def pure_fields pure_page_body pure_dom pure_remove_each pure_listeners; rule refl)+

lemma pure_user_once [simp]: "add_user_once (E\<lparr>invoke := I\<rparr>) = add_user_once E"
  by (intro ext; unfold add_user_once_def pure_fields pure_page_body pure_dom pure_remove_each pure_listeners pure_once; rule refl)+

lemma pure_sizes [simp]:
  "getImageNaturalSizes (E\<lparr>invoke := I\<rparr>) = getImageNaturalSizes E"
  "sizing_onload (E\<lparr>invoke := I\<rparr>) = sizing_onload E"
  by (intro ext; unfold getImageNaturalSizes_def sizing_onload_def pure_fields pure_page_body pure_dom pure_remove_each pure_listeners pure_once pure_user_once; rule refl)+

lemma pure_render [simp]:
  "initBody (E\<lparr>invoke := I\<rparr>) = initBody E"
  "initContainer (E\<lparr>invoke := I\<rparr>) = initContainer E"
  "initViewer (E\<lparr>invoke := I\<rparr>) = initViewer E"
  "getImageURL (E\<lparr>invoke := I\<rparr>) = getImageURL E"
  "make_item (E\<lparr>invoke := I\<rparr>) = make_item E"
  "prepare_item (E\<lparr>invoke := I\<rparr>) = prepare_item E"
  "renderList (E\<lparr>invoke := I\<rparr>) = renderList E"
  "resetList (E\<lparr>invoke := I\<rparr>) = resetList E"
  "abort_rendering (E\<lparr>invoke := I\<rparr>) = abort_rendering E"
  by (intro ext; unfold initBody_def initContainer_def initViewer_def getImageURL_def make_item_def prepare_item_def renderList_def resetList_def abort_rendering_def pure_fields pure_page_body pure_dom pure_remove_each pure_listeners pure_once pure_user_once pure_sizes; rule refl)+

lemma pure_aborts [simp]: "abort_image (E\<lparr>invoke := I\<rparr>) = abort_image E"
  "abort_viewing (E\<lparr>invoke := I\<rparr>) = abort_viewing E" "resetImage (E\<lparr>invoke := I\<rparr>) = resetImage E"
  by (intro ext; unfold abort_image_def abort_viewing_def resetImage_def pure_fields pure_page_body pure_dom pure_remove_each pure_listeners pure_once pure_user_once pure_sizes pure_render; rule refl)+

lemma pure_list_images [simp]: "list_images (E\<lparr>invoke := I\<rparr>) i acc imgs k = list_images E i acc imgs k"
proof (induction imgs arbitrary: i acc)
  case (Cons x xs)
  show ?case unfolding list_images.simps pure_fields pure_page_body pure_dom pure_listeners pure_once pure_user_once pure_sizes pure_render Cons.IH by (rule refl)
qed simp

lemma pure_lists [simp]:
  "initList (E\<lparr>invoke := I\<rparr>) = initList E" "render (E\<lparr>invoke := I\<rparr>) = render E"
  by (intro ext; unfold initList_def render_def pure_fields pure_page_body pure_dom pure_remove_each pure_listeners pure_once pure_user_once pure_sizes pure_render pure_aborts pure_list_images; rule refl)+

lemma pure_methods [simp]:
  "bind_one (E\<lparr>invoke := I\<rparr>) = bind_one E"
  "bind (E\<lparr>invoke := I\<rparr>) = bind E"
  "unbind (E\<lparr>invoke := I\<rparr>) = unbind E"
  "open_body (E\<lparr>invoke := I\<rparr>) = open_body E"
  "close_body (E\<lparr>invoke := I\<rparr>) = close_body E"
  "requestFullscreen (E\<lparr>invoke := I\<rparr>) = requestFullscreen E"
  "exitFullscreen (E\<lparr>invoke := I\<rparr>) = exitFullscreen E"
  "note_width (E\<lparr>invoke := I\<rparr>) = note_width E"
  "tooltip_hide (E\<lparr>invoke := I\<rparr>) = tooltip_hide E"
  "tooltip_faded (E\<lparr>invoke := I\<rparr>) = tooltip_faded E"
  "make_slide (E\<lparr>invoke := I\<rparr>) = make_slide E"
  "play_tick (E\<lparr>invoke := I\<rparr>) = play_tick E"
  "drop_transitions (E\<lparr>invoke := I\<rparr>) = drop_transitions E"
  "add_transitions (E\<lparr>invoke := I\<rparr>) = add_transitions E"
  by (intro ext; unfold bind_one_def bind_def unbind_def open_body_def close_body_def requestFullscreen_def exitFullscreen_def note_width_def tooltip_hide_def tooltip_faded_def make_slide_def play_tick_def drop_transitions_def add_transitions_def pure_fields pure_page_body pure_dom pure_remove_each pure_listeners pure_once pure_user_once pure_sizes pure_render pure_aborts pure_list_images pure_lists; rule refl)+

lemma pure_play_items [simp]:
  "play_items (E\<lparr>invoke := I\<rparr>) f i its acc idx k = play_items E f i its acc idx k"
proof (induction its arbitrary: i acc idx)
  case (Cons x xs)
  show ?case unfolding play_items.simps pure_fields pure_page_body pure_dom pure_listeners pure_once pure_user_once pure_sizes pure_render pure_methods Cons.IH by (rule refl)
qed simp

lemma pure_lifecycle [simp]:
  "on_viewed (E\<lparr>invoke := I\<rparr>) = on_viewed E"
  "view_wait (E\<lparr>invoke := I\<rparr>) = view_wait E"
  "abort_transition (E\<lparr>invoke := I\<rparr>) = abort_transition E"
  "toolbar_item (E\<lparr>invoke := I\<rparr>) = toolbar_item E"
  "build_rotates (E\<lparr>invoke := I\<rparr>) = build_rotates E"
  "build_classes (E\<lparr>invoke := I\<rparr>) = build_classes E"
  "build_inline (E\<lparr>invoke := I\<rparr>) = build_inline E"
  "build_modal (E\<lparr>invoke := I\<rparr>) = build_modal E"
  by (intro ext; unfold on_viewed_def view_wait_def abort_transition_def toolbar_item_def build_rotates_def build_classes_def build_inline_def build_modal_def pure_fields pure_page_body pure_dom pure_remove_each pure_listeners pure_once pure_user_once pure_sizes pure_render pure_aborts pure_list_images pure_lists pure_methods pure_play_items; rule refl)+

lemma pure_toolbar [simp]: "build_toolbar (E\<lparr>invoke := I\<rparr>) = build_toolbar E"
  by (intro ext; unfold build_toolbar_def pure_fields pure_page_body pure_dom pure_remove_each pure_listeners pure_once pure_user_once pure_sizes pure_render pure_aborts pure_list_images pure_lists pure_methods pure_play_items pure_lifecycle; rule refl)+

lemma pure_collect [simp]: "collect_images (E\<lparr>invoke := I\<rparr>) acc cs k = collect_images E acc cs k"
proof (induction cs arbitrary: acc)
  case (Cons x xs)
  show ?case unfolding collect_images.simps pure_fields pure_page_body pure_dom pure_listeners pure_once pure_user_once pure_sizes pure_render Cons.IH by (rule refl)
qed simp

lemma pure_handlers [simp]:
  "pointerdown (E\<lparr>invoke := I\<rparr>) = pointerdown E"
  "pointerup (E\<lparr>invoke := I\<rparr>) = pointerup E"
  "load_timeout (E\<lparr>invoke := I\<rparr>) = load_timeout E"
  by (intro ext; unfold pointerdown_def pointerup_def load_timeout_def pure_fields pure_page_body pure_dom pure_remove_each pure_listeners pure_once pure_user_once pure_sizes pure_render pure_aborts pure_list_images pure_lists pure_methods pure_play_items pure_lifecycle pure_toolbar pure_collect; rule refl)+

end
