(* ===== verification/Invariants.thy ===== *)
theory Invariants imports Typing begin

text \<open>
  Invariants of the whole program. A state's \<open>core\<close> is what the invariants look at: the
  timers, the listeners, the pointers and their action, the reference to the image data, and the element and
  options of the viewer. The locale \<open>method_invariant\<close> asks of a predicate that it depends on the
  core only and survives the few ways the methods write it; inside, every method is shown to
  preserve it. The locale \<open>core_invariant\<close> adds the writes of the pointer listeners, and goes on
  to the steps of the event loop. The interpretations at the end are the invariants themselves.
\<close>

section \<open>The core of a state\<close>

definition core :: "world \<Rightarrow> _" where
  "core w =
     (timers w, next_timer w, listeners w, pointers w, action w, imageData w, next_idata w, element w, options w)"

lemma core_fields [simp]:
  "core (w\<lparr>legacy := x0\<rparr>) = core w"
  "core (w\<lparr>onloads := x1\<rparr>) = core w"
  "core (w\<lparr>nodes := x2\<rparr>) = core w"
  "core (w\<lparr>next_node := x3\<rparr>) = core w"
  "core (w\<lparr>next_fun := x4\<rparr>) = core w"
  "core (w\<lparr>prevented := x5\<rparr>) = core w"
  "core (w\<lparr>reported := x6\<rparr>) = core w"
  "core (w\<lparr>fading := x8\<rparr>) = core w"
  "core (w\<lparr>fulled := x9\<rparr>) = core w"
  "core (w\<lparr>hiding := x10\<rparr>) = core w"
  "core (w\<lparr>imageClicked := x11\<rparr>) = core w"
  "core (w\<lparr>idatas := x12\<rparr>) = core w"
  "core (w\<lparr>initialImageData := x13\<rparr>) = core w"
  "core (w\<lparr>index := x14\<rparr>) = core w"
  "core (w\<lparr>isImg := x15\<rparr>) = core w"
  "core (w\<lparr>isShown := x16\<rparr>) = core w"
  "core (w\<lparr>len := x17\<rparr>) = core w"
  "core (w\<lparr>played := x18\<rparr>) = core w"
  "core (w\<lparr>playing := x19\<rparr>) = core w"
  "core (w\<lparr>ready := x20\<rparr>) = core w"
  "core (w\<lparr>showing := x21\<rparr>) = core w"
  "core (w\<lparr>timeout := x22\<rparr>) = core w"
  "core (w\<lparr>tooltipping := x23\<rparr>) = core w"
  "core (w\<lparr>viewed := x24\<rparr>) = core w"
  "core (w\<lparr>viewing := x25\<rparr>) = core w"
  "core (w\<lparr>wheeling := x26\<rparr>) = core w"
  "core (w\<lparr>zooming := x27\<rparr>) = core w"
  "core (w\<lparr>destroyed := x28\<rparr>) = core w"
  "core (w\<lparr>images := x29\<rparr>) = core w"
  "core (w\<lparr>items := x30\<rparr>) = core w"
  "core (w\<lparr>body := x31\<rparr>) = core w"
  "core (w\<lparr>scrollbarWidth := x32\<rparr>) = core w"
  "core (w\<lparr>initialBodyPaddingRight := x33\<rparr>) = core w"
  "core (w\<lparr>initialBodyComputedPaddingRight := x34\<rparr>) = core w"
  "core (w\<lparr>containerData := x35\<rparr>) = core w"
  "core (w\<lparr>parentData := x36\<rparr>) = core w"
  "core (w\<lparr>viewerData := x37\<rparr>) = core w"
  "core (w\<lparr>image := x38\<rparr>) = core w"
  "core (w\<lparr>v_parent := x39\<rparr>) = core w"
  "core (w\<lparr>v_viewer := x40\<rparr>) = core w"
  "core (w\<lparr>v_title := x41\<rparr>) = core w"
  "core (w\<lparr>v_toolbar := x42\<rparr>) = core w"
  "core (w\<lparr>v_navbar := x43\<rparr>) = core w"
  "core (w\<lparr>v_button := x44\<rparr>) = core w"
  "core (w\<lparr>v_canvas := x45\<rparr>) = core w"
  "core (w\<lparr>v_footer := x46\<rparr>) = core w"
  "core (w\<lparr>v_tooltipBox := x47\<rparr>) = core w"
  "core (w\<lparr>v_player := x48\<rparr>) = core w"
  "core (w\<lparr>v_list := x49\<rparr>) = core w"
  "core (w\<lparr>imageInitializing := x50\<rparr>) = core w"
  "core (w\<lparr>imageRendering := x51\<rparr>) = core w"
  "core (w\<lparr>transitioning := x52\<rparr>) = core w"
  "core (w\<lparr>clickCanvasTimeout := x53\<rparr>) = core w"
  "core (w\<lparr>doubleClickImageTimeout := x54\<rparr>) = core w"
  "core (w\<lparr>onClick := x55\<rparr>) = core w"
  "core (w\<lparr>onDragStart := x56\<rparr>) = core w"
  "core (w\<lparr>onPointerDown := x57\<rparr>) = core w"
  "core (w\<lparr>onPointerMove := x58\<rparr>) = core w"
  "core (w\<lparr>onPointerUp := x59\<rparr>) = core w"
  "core (w\<lparr>onKeyDown := x60\<rparr>) = core w"
  "core (w\<lparr>onResize := x61\<rparr>) = core w"
  "core (w\<lparr>onWheel := x62\<rparr>) = core w"
  "core (w\<lparr>onDblclick := x63\<rparr>) = core w"
  "core (w\<lparr>onStart := x64\<rparr>) = core w"
  "core (w\<lparr>onLoadWhenPlay := x65\<rparr>) = core w"
  "core (w\<lparr>delaying := x66\<rparr>) = core w"
  "core (w\<lparr>initializing := x67\<rparr>) = core w"
  "core (w\<lparr>progress_count := x68\<rparr>) = core w"
  "core (w\<lparr>fs_calls := x69\<rparr>) = core w"
  by (simp_all add: core_def)

lemma core_node_upd [simp]: "core (node_upd k f w) = core w"
  by (simp add: node_upd_def)

lemma core_set_idata [simp]: "core (set_idata r f w) = core w"
  by (simp add: core_def set_idata_def)

lemma core_dom [simp]:
  "core (setAttribute n k v w) = core w"
  "core (removeChild p c w) = core w"
  "core (detach c w) = core w"
  "core (appendChild p c w) = core w"
  "core (insertBefore p c r w) = core w"
  "core (set_text n s w) = core w"
  by (simp_all add: setAttribute_def removeChild_def detach_def appendChild_def insertBefore_def set_text_def)

lemma core_foldl [simp]: "(\<And>w x. core (f w x) = core w) \<Longrightarrow> core (foldl f w xs) = core w"
  by (induction xs arbitrary: w) auto

lemma core_classes [simp]:
  "core (addClass E n v w) = core w"
  "core (addClass_all E ns v w) = core w"
  "core (removeClass E n v w) = core w"
  "core (setData E n name d w) = core w"
  "core (set_src E n s w) = core w"
  "core (inherit_attributes a b w) = core w"
  by (simp_all add: addClass_def addClass_all_def removeClass_def setData_def set_src_def
      inherit_attributes_def inherit_one_def split: option.splits)

lemma core_legacy [simp]:
  "core (legacy_del t ty key w) = core w" "core (legacy_put t ty key f w) = core w"
  by (simp_all add: core_def legacy_del_def legacy_put_def)

lemma core_mount [simp]: "core (mount par h w) = core w" "core (mount_all par hs w) = core w"
  by (induction par h w and par hs w rule: mount_mount_all.induct) (simp_all add: Let_def)

lemma core_viewer [simp]:
  "core (open_body E w) = core w"
  "core (close_body E w) = core w"
  "core (note_width E n w) = core w"
  "core (add_transitions E a b w) = core w"
  "core (initContainer E w) = core w"
  "core (initBody E w) = core w"
  "core (requestFullscreen E w) = core w"
  "core (exitFullscreen E w) = core w"
  "core (tooltip_faded E b w) = core w"
  by (simp_all add: open_body_def close_body_def note_width_def add_transitions_def Let_def
      initContainer_def initBody_def requestFullscreen_def exitFullscreen_def tooltip_faded_def
      split: option.splits)

text \<open>
  Listeners of rank less than \<open>r\<close> run the same through \<open>invoke E\<close> and through \<open>I\<close>; functions of
  the page keep \<open>P\<close>.
\<close>

definition calls :: "nat \<Rightarrow> (world \<Rightarrow> bool) \<Rightarrow> env \<Rightarrow> (handler \<Rightarrow> event \<Rightarrow> world stmt) \<Rightarrow> bool" where
  "calls r P E I \<longleftrightarrow> (\<forall>h ev. rank h < r \<longrightarrow> agree P (invoke E h ev) (I h ev))"

definition users :: "(world \<Rightarrow> bool) \<Rightarrow> env \<Rightarrow> bool" where
  "users P E \<longleftrightarrow> (\<forall>k vs. keepsE P (e_user E k vs))"

text \<open>
  The listeners an operation can reach by dispatches of rank less than \<open>r\<close> run the same: all of
  them do, or those of small rank do and the listeners are typed.
\<close>

definition reach :: "nat \<Rightarrow> (world \<Rightarrow> bool) \<Rightarrow> env \<Rightarrow> (handler \<Rightarrow> event \<Rightarrow> world stmt) \<Rightarrow> bool" where
  "reach r P E I \<longleftrightarrow> calls 3 P E I \<or> calls r P E I \<and> (\<forall>w. P w \<longrightarrow> typed w)"

definition light :: "(world \<Rightarrow> bool) \<Rightarrow> env \<Rightarrow> (handler \<Rightarrow> event \<Rightarrow> world stmt) \<Rightarrow> bool" where
  "light P E I \<longleftrightarrow> users P E \<and> reach 1 P E I"

definition heavy :: "(world \<Rightarrow> bool) \<Rightarrow> env \<Rightarrow> (handler \<Rightarrow> event \<Rightarrow> world stmt) \<Rightarrow> bool" where
  "heavy P E I \<longleftrightarrow> users P E \<and> reach 2 P E I"

definition full_calls :: "(world \<Rightarrow> bool) \<Rightarrow> env \<Rightarrow> (handler \<Rightarrow> event \<Rightarrow> world stmt) \<Rightarrow> bool" where
  "full_calls P E I \<longleftrightarrow> users P E \<and> calls 3 P E I"

lemma calls_mono: "calls r P E I \<Longrightarrow> q \<le> r \<Longrightarrow> calls q P E I"
  by (simp add: calls_def)

lemma calls_weaken [agree_intro]:
  "heavy P E I \<Longrightarrow> light P E I" "full_calls P E I \<Longrightarrow> heavy P E I" "light P E I \<Longrightarrow> users P E"
  using calls_mono [of 2 P E I 1] by (auto simp: light_def heavy_def full_calls_def reach_def)

locale method_invariant =
  fixes P :: "world \<Rightarrow> bool"
  assumes frame: "core w' = core w \<Longrightarrow> P w \<Longrightarrow> P w'"
    and timer_added: "P w \<Longrightarrow>
      P (w\<lparr>timers := timers w @ [\<lparr>tm_id = next_timer w, tm_delay = d, tm_task = t\<rparr>],
           next_timer := Suc (next_timer w)\<rparr>)"
    and timers_dropped: "P w \<Longrightarrow> P (w\<lparr>timers := filter p (timers w)\<rparr>)"
    and listener_added: "P w \<Longrightarrow> ty \<in> set (types_of (fst f)) \<Longrightarrow> P (addEventListener tgt ty f c once w)"
    and listeners_dropped: "P w \<Longrightarrow> P (w\<lparr>listeners := filter q (listeners w)\<rparr>)"
    and data_replaced: "P w \<Longrightarrow> P (new_imageData dat w)"
begin

section \<open>Statements of the document\<close>

lemma agree_frame [agree_intro]: "(\<And>w. core (f w) = core w) \<Longrightarrow> agree P (upd f) (upd f)"
  by (rule agree_upd) (rule frame)

lemma agree_setTimeout [agree_intro]:
  "(\<And>i. agree P (k i) (l i)) \<Longrightarrow> agree P (setTimeout t d k) (setTimeout t d l)"
  by (simp add: agree_def setTimeout_def Let_def timer_added)

lemma clearTimeout_keeps: "P w \<Longrightarrow> P (clearTimeout i w)"
  by (simp add: clearTimeout_def timers_dropped listeners_dropped split: option.split)

lemma agree_clearTimeout [agree_intro]:
  "agree P (upd (\<lambda>w. clearTimeout (f w) w)) (upd (\<lambda>w. clearTimeout (f w) w))"
  by (rule agree_upd) (rule clearTimeout_keeps)

lemma agree_fresh_fun [agree_intro]:
  assumes "\<And>i. agree P (k (h, i)) (l (h, i))"
  shows "agree P (fresh_fun h k) (fresh_fun h l)"
proof -
  have "P (w\<lparr>next_fun := Suc (next_fun w)\<rparr>)" if "P w" for w using that by (rule frame [rotated]) simp
  then show ?thesis using assms by (simp add: agree_def fresh_fun_def)
qed

lemma agree_createElement [agree_intro]:
  assumes "\<And>n. agree P (k n) (l n)"
  shows "agree P (createElement t k) (createElement t l)"
proof -
  have "P (w\<lparr>nodes := (nodes w)(next_node w := blank t), next_node := Suc (next_node w)\<rparr>)" if "P w" for w
    using that by (rule frame [rotated]) simp
  then show ?thesis using assms by (simp add: agree_def createElement_def Let_def)
qed

lemma agree_need [agree_intro]: "agree P (need n) (need n)"
  by (simp add: agree_def need_def)

lemma agree_preventDefault [agree_intro]: "agree P (preventDefault ev) (preventDefault ev)"
  by (simp add: preventDefault_def agree_frame)

lemma agree_setStyle [agree_intro]: "agree P (setStyle n s) (setStyle n s)"
  by (simp add: setStyle_def agree_intro)

lemma agree_toggleClass [agree_intro]: "agree P (toggleClass E n v b) (toggleClass E n v b)"
proof -
  have "agree P (block [need n, upd (\<lambda>w. if b then addClass E n v w else removeClass E n v w)])
      (block [need n, upd (\<lambda>w. if b then addClass E n v w else removeClass E n v w)])"
    by (simp add: agree_intro del: block.simps)
  then show ?thesis unfolding agree_def toggleClass_def by simp
qed

section \<open>Listeners\<close>

lemma add_one_keeps:
  assumes "P w" "ty \<in> set (types_of (fst f))"
  shows "P (add_one E t f oc c ty w)"
proof -
  have 1: "P (w\<lparr>next_fun := n\<rparr>)" for n using assms(1) by (rule frame [rotated]) simp
  have 2: "P (removeEventListener a b g d u)" if "P u" for a b g d u
    using that by (simp add: removeEventListener_def timers_dropped listeners_dropped)
  have 3: "P (legacy_put a b e g u)" if "P u" for a b e g u
    using that by (rule frame [rotated]) simp
  show ?thesis
    using assms by (auto simp: add_one_def Let_def intro!: listener_added 1 2 3 split: option.splits)
qed

lemma foldl_keeps: "(\<And>w x. P w \<Longrightarrow> x \<in> set xs \<Longrightarrow> P (f w x)) \<Longrightarrow> P w \<Longrightarrow> P (foldl f w xs)"
  by (induction xs arbitrary: w) auto

lemma addListener_keeps:
  "P w \<Longrightarrow> listens ty (fst f) \<Longrightarrow> P (addListener_with E t ty f oc c w)"
  "P w \<Longrightarrow> listens ty (fst f) \<Longrightarrow> P (addListener E t ty f w)"
  "P w \<Longrightarrow> listens ty (fst f) \<Longrightarrow> P (addListener_once E t ty f w)"
  by (auto simp: addListener_with_def addListener_def addListener_once_def listens_def
      simp del: trim.simps intro!: foldl_keeps add_one_keeps)

lemma add_user_once_keeps: "P w \<Longrightarrow> ty \<in> set custom_types \<Longrightarrow> P (add_user_once E name ty w)"
  by (simp add: add_user_once_def addListener_keeps split: jsval.split)

lemma remove_each_keeps: "P w \<Longrightarrow> P (remove_each E t f c h tys w)"
proof (induction tys arbitrary: h w)
  case (Cons ty tys)
  have "P (legacy_del t ty k w)" for k using Cons.prems by (rule frame [rotated]) simp
  then show ?case
    using Cons by (simp add: Let_def removeEventListener_def timers_dropped listeners_dropped)
qed simp

lemma removeListener_keeps:
  "P w \<Longrightarrow> P (removeListener_with E t ty f c w)"
  "P w \<Longrightarrow> P (removeListener E t ty f w)"
  by (simp_all add: removeListener_with_def removeListener_def remove_each_keeps split: option.splits)

lemma agree_add_listener [agree_intro]:
  assumes "listens ty (fst f)"
  shows "agree P (upd (\<lambda>w. addListener_with E (t w) ty f oc c w)) (upd (\<lambda>w. addListener_with E (t w) ty f oc c w))"
    "agree P (upd (\<lambda>w. addListener E (t w) ty f w)) (upd (\<lambda>w. addListener E (t w) ty f w))"
    "agree P (upd (\<lambda>w. addListener_once E (t w) ty f w)) (upd (\<lambda>w. addListener_once E (t w) ty f w))"
    "agree P (upd (addListener E t' ty f)) (upd (addListener E t' ty f))"
    "agree P (upd (addListener_once E t' ty f)) (upd (addListener_once E t' ty f))"
  using assms by (auto intro!: agree_upd addListener_keeps)

lemma agree_user_once [agree_intro]:
  "ty \<in> set custom_types \<Longrightarrow> agree P (upd (add_user_once E name ty)) (upd (add_user_once E name ty))"
  by (auto intro!: agree_upd add_user_once_keeps)

lemma agree_remove_listener [agree_intro]:
  "agree P (upd (\<lambda>w. removeListener_with E (t w) ty (h w) c w)) (upd (\<lambda>w. removeListener_with E (t w) ty (h w) c w))"
  "agree P (upd (\<lambda>w. removeListener E (t w) ty (h w) w)) (upd (\<lambda>w. removeListener E (t w) ty (h w) w))"
  "agree P (upd (removeListener E t' ty h')) (upd (removeListener E t' ty h'))"
  "agree P (upd (removeEventListener t' ty f c)) (upd (removeEventListener t' ty f c))"
  by (auto intro!: agree_upd removeListener_keeps simp: removeEventListener_def timers_dropped listeners_dropped)

lemma agree_new_imageData [agree_intro]:
  "agree P (upd (new_imageData d)) (upd (new_imageData d))"
  "agree P (upd (\<lambda>w. new_imageData (f w) w)) (upd (\<lambda>w. new_imageData (f w) w))"
  by (auto intro!: agree_upd data_replaced)

lemma agreeE_dispatch:
  assumes "reach r P E I" "type_rank (e_type ev) < r"
  shows "agreeE P (dispatch (invoke E) rt b t ev) (dispatch I rt b t ev)"
proof (rule dispatch_agree)
  fix w l assume w: "P w" and l: "l \<in> set (listeners w)" "l_type l = e_type ev"
  show "agree P (invoke E (fst (l_fun l)) ev) (I (fst (l_fun l)) ev)"
  proof (cases "calls 3 P E I")
    case True
    then show ?thesis using rank_le [of "fst (l_fun l)"] by (simp add: calls_def)
  next
    case False
    then have "calls r P E I" "typed w" using assms(1) w by (auto simp: reach_def)
    moreover from this(2) have "e_type ev \<in> set (types_of (fst (l_fun l)))"
      unfolding typed_def using l by (metis)
    ultimately show ?thesis using listener_rank assms(2) unfolding calls_def by (meson le_less_trans)
  qed
next
  fix w l assume "P w" then show "P (w\<lparr>listeners := removeAll l (listeners w)\<rparr>)"
    by (simp add: removeAll_filter_not_eq listeners_dropped)
qed (erule frame [rotated], simp)+

lemma agreeE_dispatchEvent:
  assumes "reach r P E I" "type_rank ty < r"
  shows "agreeE P (dispatchEvent E n ty dat c) (dispatchEvent (E\<lparr>invoke := I\<rparr>) n ty dat c)"
  using agreeE_dispatch [OF assms(1)] assms(2) by (simp add: dispatchEvent_def Let_def plain_event_def)

lemma agreeE_custom [agree_intro]:
  "light P E I \<Longrightarrow> ty \<in> set custom_types \<Longrightarrow>
   agreeE P (dispatchEvent E n ty dat c) (dispatchEvent (E\<lparr>invoke := I\<rparr>) n ty dat c)"
  by (rule agreeE_dispatchEvent [where r = 1]) (simp_all add: light_def type_rank_def)

lemma agreeE_load [agree_intro]:
  "heavy P E I \<Longrightarrow>
   agreeE P (dispatchEvent E n EVENT_LOAD dat c) (dispatchEvent (E\<lparr>invoke := I\<rparr>) n EVENT_LOAD dat c)"
  "heavy P E I \<Longrightarrow>
   agreeE P (dispatchEvent E n EVENT_TRANSITION_END dat c) (dispatchEvent (E\<lparr>invoke := I\<rparr>) n EVENT_TRANSITION_END dat c)"
  by (rule agreeE_dispatchEvent [where r = 2]; simp add: heavy_def)+

lemma agreeE_any [agree_intro]:
  "full_calls P E I \<Longrightarrow>
   agreeE P (dispatchEvent E n ty dat c) (dispatchEvent (E\<lparr>invoke := I\<rparr>) n ty dat c)"
  by (rule agreeE_dispatchEvent [where r = 3]) (simp_all add: full_calls_def reach_def type_rank_def)

lemma in_custom_types [simp]:
  "EVENT_READY \<in> set custom_types" "EVENT_SHOW \<in> set custom_types" "EVENT_SHOWN \<in> set custom_types"
  "EVENT_HIDE \<in> set custom_types" "EVENT_HIDDEN \<in> set custom_types" "EVENT_VIEW \<in> set custom_types"
  "EVENT_VIEWED \<in> set custom_types" "EVENT_ZOOM \<in> set custom_types" "EVENT_ZOOMED \<in> set custom_types"
  "EVENT_PLAY \<in> set custom_types" "EVENT_STOP \<in> set custom_types"
  by (simp_all add: custom_types_def)

section \<open>Every operation preserves a core invariant\<close>

text \<open>
  An operation that dispatches nothing is the same whatever runs the listeners. One that
  dispatches agrees with itself under another way to run them, as soon as the two ways agree on
  the listeners it can reach: \<open>light\<close> for those of the documented events, \<open>heavy\<close> for those
  that wait for an image or a transition too.
\<close>

lemmas simple_methods =
  abort_initializing_def abort_rendering_def abort_image_def abort_viewing_def resetImage_def
  renderViewer_def renderList_def resetList_def initViewer_def

lemma agreeE_user [agree_intro]: "users P E \<Longrightarrow> agreeE P (e_user E k vs) (e_user E k vs)"
  by (simp add: users_def agree_keeps)

lemma agreeE_getImageURL [agree_intro]: "users P E \<Longrightarrow> agreeE P (getImageURL E n) (getImageURL E n)"
  by (auto simp: agree_keeps keepsE_def getImageURL_def users_def split: jsval.splits)

lemma agreeE_image_alt [agree_intro]: "agreeE P (image_alt n) (image_alt n)"
  by (simp add: agree_keeps keepsE_def image_alt_def Let_def)

lemma agree_simple [agree_intro]:
  "agree P abort_initializing abort_initializing" "agree P (abort_rendering E) (abort_rendering E)" "agree P (abort_image E) (abort_image E)"
  "agree P (abort_viewing E) (abort_viewing E)" "agree P (resetImage E) (resetImage E)" "agree P renderViewer renderViewer"
  "agree P (renderList E i) (renderList E i)" "agree P (resetList E) (resetList E)" "agree P (initViewer E) (initViewer E)"
  by (simp_all add: agree_intro simple_methods split: option.split)

lemma agree_list_images [agree_intro]:
  "users P E \<Longrightarrow> (\<And>its. agree P (k its) (l its)) \<Longrightarrow>
   agree P (list_images E i acc imgs k) (list_images E i acc imgs l)"
  by (induction imgs arbitrary: i acc) (simp_all add: agree_intro make_item_def)

lemma agree_render [agree_intro]:
  "agree P (prepare_item E n) (prepare_item E n)"
  "users P E \<Longrightarrow> agree P (initList E) (initList E)"
  "users P E \<Longrightarrow> agree P (render E) (render E)"
  by (simp_all add: agree_intro prepare_item_def initList_def render_def)

lemma agree_getImageNaturalSizes [agree_intro]:
  "(\<And>a b. agree P (run cb a b) (sun cb a b)) \<Longrightarrow> (\<And>n. agree P (k n) (l n)) \<Longrightarrow>
   agree P (getImageNaturalSizes E run img cb k) (getImageNaturalSizes E sun img cb l)"
  by (simp add: agree_intro getImageNaturalSizes_def)

lemma agree_run_rdone [agree_intro]: "light P E I \<Longrightarrow>
   agree P (run_rdone E d) (run_rdone (E\<lparr>invoke := I\<rparr>) d)"
  by (cases d) (simp_all add: agree_intro run_rdone_def)

lemma agree_renderImage [agree_intro]: "light P E I \<Longrightarrow>
   agree P (renderImage E d) (renderImage (E\<lparr>invoke := I\<rparr>) d)"
  by (simp add: agree_intro renderImage_def)

lemma agree_run_idone [agree_intro]: "light P E I \<Longrightarrow>
   agree P (run_idone E d) (run_idone (E\<lparr>invoke := I\<rparr>) d)"
  by (cases d) (simp_all add: agree_intro run_idone_def)

lemma initial_data_keeps: "P w \<Longrightarrow> P ((new_imageData d w)\<lparr>initialImageData := i\<rparr>)"
  by (rule frame [OF _ data_replaced]) simp_all

lemma agree_initImage_sized [agree_intro]: "light P E I \<Longrightarrow>
   agree P (initImage_sized E vw vh old dn a b) (initImage_sized (E\<lparr>invoke := I\<rparr>) vw vh old dn a b)"
  by (simp add: agree_intro initImage_sized_def Let_def agree_upd initial_data_keeps)

lemma agree_run_sz [agree_intro]: "light P E I \<Longrightarrow>
   agree P (run_sz E cb a b) (run_sz (E\<lparr>invoke := I\<rparr>) cb a b)"
  by (cases cb) (simp_all add: agree_intro run_sz_def thumb_sized_def)

lemma agree_images [agree_intro]:
  "light P E I \<Longrightarrow> agree P (initImage E dn) (initImage (E\<lparr>invoke := I\<rparr>) dn)"
  "light P E I \<Longrightarrow> agree P (load E) (load (E\<lparr>invoke := I\<rparr>))"
  "light P E I \<Longrightarrow> agree P (loadImage E ev) (loadImage (E\<lparr>invoke := I\<rparr>) ev)"
  by (simp_all add: agree_intro initImage_def load_def loadImage_def)

lemma agree_bind_one [agree_intro]:
  "(\<And>f w. core (st f w) = core w) \<Longrightarrow> listens ty h \<Longrightarrow>
   agree P (bind_one E tgt ty h st c) (bind_one E tgt ty h st c)"
  unfolding bind_one_def
  by (intro agree_fresh_fun agree_upd addListener_keeps) (auto intro: frame)

lemma agree_bind [agree_intro]: "agree P (bind E) (bind E)"
  by (simp add: agree_intro bind_def Let_def)

lemma unbind_keeps: "P w \<Longrightarrow> P (unbind E w)"
  by (simp add: unbind_def Let_def removeListener_keeps)

lemma agree_unbind [agree_intro]: "agree P (upd (unbind E)) (upd (unbind E))"
  by (rule agree_upd) (rule unbind_keeps)

lemma agree_change_image [agree_intro]:
  "light P E I \<Longrightarrow> agree P (moveTo E x y) (moveTo (E\<lparr>invoke := I\<rparr>) x y)"
  "light P E I \<Longrightarrow> agree P (rotateTo E x) (rotateTo (E\<lparr>invoke := I\<rparr>) x)"
  "light P E I \<Longrightarrow> agree P (scale E x y) (scale (E\<lparr>invoke := I\<rparr>) x y)"
  by (simp_all add: agree_intro moveTo_def rotateTo_def scale_def Let_def)

lemma agree_change_image_by [agree_intro]:
  "light P E I \<Longrightarrow> agree P (move E x y) (move (E\<lparr>invoke := I\<rparr>) x y)"
  "light P E I \<Longrightarrow> agree P (rotate_by E x) (rotate_by (E\<lparr>invoke := I\<rparr>) x)"
  "light P E I \<Longrightarrow> agree P (scaleX E x) (scaleX (E\<lparr>invoke := I\<rparr>) x)"
  "light P E I \<Longrightarrow> agree P (scaleY E x) (scaleY (E\<lparr>invoke := I\<rparr>) x)"
  by (simp_all add: agree_intro move_def rotate_by_def scaleX_def scaleY_def)

lemma agree_tooltip [agree_intro]:
  "heavy P E I \<Longrightarrow>
   agree P (tooltip E) (tooltip (E\<lparr>invoke := I\<rparr>))" "agree P (tooltip_hide E box) (tooltip_hide E box)"
  by (simp_all add: agree_intro tooltip_def tooltip_hide_def)

lemma agree_zoom_apply [agree_intro]:
  "light P E I \<Longrightarrow>
   agree P (zoom_apply E d old r False ev) (zoom_apply (E\<lparr>invoke := I\<rparr>) d old r False ev)"
  "heavy P E I \<Longrightarrow>
   agree P (zoom_apply E d old r t ev) (zoom_apply (E\<lparr>invoke := I\<rparr>) d old r t ev)"
  by (simp_all add: agree_intro zoom_apply_def Let_def)

lemma agree_zoomTo [agree_intro]:
  "light P E I \<Longrightarrow>
   agree P (zoomTo E r False ev f) (zoomTo (E\<lparr>invoke := I\<rparr>) r False ev f)"
  "heavy P E I \<Longrightarrow> agree P (zoomTo E r t ev f) (zoomTo (E\<lparr>invoke := I\<rparr>) r t ev f)"
  by (simp_all add: agree_intro zoomTo_def)

lemma agree_zoom [agree_intro]:
  "light P E I \<Longrightarrow> agree P (zoom E r False ev) (zoom (E\<lparr>invoke := I\<rparr>) r False ev)"
  "heavy P E I \<Longrightarrow> agree P (zoom E r t ev) (zoom (E\<lparr>invoke := I\<rparr>) r t ev)"
  "heavy P E I \<Longrightarrow> agree P (toggle E) (toggle (E\<lparr>invoke := I\<rparr>))"
  "light P E I \<Longrightarrow> agree P (reset E) (reset (E\<lparr>invoke := I\<rparr>))"
  by (simp_all add: agree_intro zoom_def toggle_def reset_def)

lemma agree_play_items [agree_intro]:
  "listens EVENT_LOAD (fst f) \<Longrightarrow> (\<And>ss i. agree P (k ss i) (l ss i)) \<Longrightarrow>
   agree P (play_items E f i its acc idx k) (play_items E f i its acc idx l)"
  by (induction its arbitrary: i acc idx) (simp_all add: agree_intro make_slide_def)

lemma agree_play [agree_intro]:
  "agree P (play_schedule ss i) (play_schedule ss i)"
  "agree P (play_tick E ss i) (play_tick E ss i)"
  "light P E I \<Longrightarrow> agree P (play E b) (play (E\<lparr>invoke := I\<rparr>) b)"
  "light P E I \<Longrightarrow> agree P (stop E) (stop (E\<lparr>invoke := I\<rparr>))"
  by (simp_all add: agree_intro play_schedule_def play_tick_def play_def stop_def Let_def)

lemma agree_full [agree_intro]:
  "agree P (drop_transitions E a b) (drop_transitions E a b)"
  "light P E I \<Longrightarrow> agree P (full E) (full (E\<lparr>invoke := I\<rparr>))"
  "light P E I \<Longrightarrow> agree P (exit E) (exit (E\<lparr>invoke := I\<rparr>))"
  by (simp_all add: agree_intro drop_transitions_def full_def exit_def)

lemma agree_on_viewed [agree_intro]: "users P E \<Longrightarrow>
   agree P (on_viewed E img alt title) (on_viewed E img alt title)"
  by (auto simp: agree_intro on_viewed_def split: jsval.split)

lemma agree_view_body [agree_intro]: "light P E I \<Longrightarrow>
   agree P (view_body E i) (view_body (E\<lparr>invoke := I\<rparr>) i)"
  by (simp add: agree_intro view_body_def view_install_def view_wait_def)

lemma agree_view_with [agree_intro]:
  "light P E I \<Longrightarrow> agree P s t \<Longrightarrow>
   agree P (view_with E s v) (view_with (E\<lparr>invoke := I\<rparr>) t v)"
  by (simp add: agree_intro view_with_def)

lemma agree_shown [agree_intro]:
  "light P E I \<Longrightarrow> agree P (shown E) (shown (E\<lparr>invoke := I\<rparr>))"
  "light P E I \<Longrightarrow> agree P (hidden E) (hidden (E\<lparr>invoke := I\<rparr>))"
  by (simp_all add: agree_intro shown_def hidden_def)

lemma agree_abort_transition [agree_intro]: "agree P (abort_transition E) (abort_transition E)"
  by (simp add: agree_intro abort_transition_def split: option.split transition_abort.split)

lemma core_build_elements [simp]: "core (build_elements w) = core w"
  by (simp add: build_elements_def Let_def)

lemma agree_toolbar_item [agree_intro]: "agree P (toolbar_item E l c nm v) (toolbar_item E l c nm v)"
  by (auto simp: agree_intro toolbar_item_def Let_def split: jsval.split)

lemma agree_build_toolbar [agree_intro]: "agree P (build_toolbar E) (build_toolbar E)"
  by (simp add: agree_intro build_toolbar_def split: prod.split)

lemma agree_build_parts [agree_intro]:
  "agree P (build_rotates E) (build_rotates E)" "agree P (build_classes E) (build_classes E)" "agree P (build_inline E) (build_inline E)"
  "agree P (build_modal E) (build_modal E)"
  by (auto simp: agree_intro build_rotates_def build_classes_def build_inline_def build_modal_def
      split: jsval.split option.split)

lemma agree_build [agree_intro]: "light P E I \<Longrightarrow>
   agree P (build E) (build (E\<lparr>invoke := I\<rparr>))"
  by (simp add: agree_intro build_def)

lemma agree_show_viewer [agree_intro]: "light P E I \<Longrightarrow>
   agree P (show_viewer E b) (show_viewer (E\<lparr>invoke := I\<rparr>) b)"
  by (simp add: agree_intro show_viewer_def show_built_def)

lemma agree_view [agree_intro]:
  "light P E I \<Longrightarrow> agree P (view E v) (view (E\<lparr>invoke := I\<rparr>) v)"
  "light P E I \<Longrightarrow> agree P (prev E b) (prev (E\<lparr>invoke := I\<rparr>) b)"
  "light P E I \<Longrightarrow> agree P (next_image E b) (next_image (E\<lparr>invoke := I\<rparr>) b)"
  by (simp_all add: agree_intro view_def prev_def next_image_def)

lemma agree_hide [agree_intro]:
  "light P E I \<Longrightarrow>
   agree P (hide_immediately E vw) (hide_immediately (E\<lparr>invoke := I\<rparr>) vw)"
  "light P E I \<Longrightarrow>
   agree P (viewer_transition_end E vw k ev) (viewer_transition_end (E\<lparr>invoke := I\<rparr>) vw k ev)"
  "light P E I \<Longrightarrow>
   agree P (image_transition_end E vw k) (image_transition_end (E\<lparr>invoke := I\<rparr>) vw k)"
  "light P E I \<Longrightarrow>
   agree P (hide_slowly E vw img) (hide_slowly (E\<lparr>invoke := I\<rparr>) vw img)"
  "light P E I \<Longrightarrow> agree P (hide E b) (hide (E\<lparr>invoke := I\<rparr>) b)"
  by (simp_all add: agree_intro hide_immediately_def viewer_transition_end_def
      image_transition_end_def hide_slowly_def hide_def)

lemma agree_collect [agree_intro]:
  "users P E \<Longrightarrow> (\<And>is. agree P (k is) (l is)) \<Longrightarrow>
   agree P (collect_images E acc cs k) (collect_images E acc cs l)"
  by (induction cs arbitrary: acc) (auto simp: agree_intro split: jsval.split)

lemma agree_destroy [agree_intro]: "light P E I \<Longrightarrow>
   agree P (destroy E) (destroy (E\<lparr>invoke := I\<rparr>))"
  by (simp add: agree_intro destroy_def split: option.split)

lemma agree_update [agree_intro]: "light P E I \<Longrightarrow>
   agree P (update E) (update (E\<lparr>invoke := I\<rparr>))"
  by (auto simp: agree_intro update_def update_shown_def split: option.split)

lemma agree_leave [agree_intro]:
  "light P E I \<Longrightarrow> agree P (leave E) (leave (E\<lparr>invoke := I\<rparr>))" "light P E I \<Longrightarrow>
   agree P (escape_key E) (escape_key (E\<lparr>invoke := I\<rparr>))"
  by (simp_all add: agree_intro leave_def escape_key_def)

lemma agree_click [agree_intro]: "heavy P E I \<Longrightarrow>
   agree P (click E ev) (click (E\<lparr>invoke := I\<rparr>) ev)"
  by (simp add: agree_intro click_def click_action_def)

lemma agree_keydown [agree_intro]: "heavy P E I \<Longrightarrow>
   agree P (keydown E ev) (keydown (E\<lparr>invoke := I\<rparr>) ev)"
  by (simp add: agree_intro keydown_def key_action_def)

lemma agree_mouse [agree_intro]:
  "heavy P E I \<Longrightarrow> agree P (dblclick E ev) (dblclick (E\<lparr>invoke := I\<rparr>) ev)"
  "agree P (dragstart ev) (dragstart ev)"
  "heavy P E I \<Longrightarrow> agree P (resize E) (resize (E\<lparr>invoke := I\<rparr>))"
  "heavy P E I \<Longrightarrow> agree P (wheel E ev) (wheel (E\<lparr>invoke := I\<rparr>) ev)"
  by (simp_all add: agree_intro dblclick_def dragstart_def resize_def reload_slide_def wheel_def)

lemma agree_on_start [agree_intro]: "light P E I \<Longrightarrow>
   agree P (on_start E ev) (on_start (E\<lparr>invoke := I\<rparr>) ev)"
  by (auto simp: agree_intro on_start_def Let_def split: jsval.split)

lemma agree_progress [agree_intro]: "agree P progress progress"
  by (simp add: agree_intro progress_def)

lemma agree_waiting [agree_intro]:
  "light P E I \<Longrightarrow> agree P (delayed_build E) (delayed_build (E\<lparr>invoke := I\<rparr>))"
  "light P E I \<Longrightarrow>
   agree P (item_loaded E item ev) (item_loaded (E\<lparr>invoke := I\<rparr>) item ev)"
  "light P E I \<Longrightarrow> agree P (rendered E d) (rendered (E\<lparr>invoke := I\<rparr>) d)"
  "agree P (load_timeout E img) (load_timeout E img)"
  "(\<And>a b. agree P (run cb a b) (sun cb a b)) \<Longrightarrow>
   agree P (sizing_onload E run n cb) (sizing_onload E sun n cb)"
  by (simp_all add: agree_intro delayed_build_def item_loaded_def rendered_def load_timeout_def
      sizing_onload_def)

lemma users_stack: "users P E \<Longrightarrow> users P (stack d E)"
  by (simp add: users_def)

text \<open>The listeners of the documented events keep the predicate, whatever the depth of the stack.\<close>

lemma agree_rank_0: "users P E \<Longrightarrow> rank h = 0 \<Longrightarrow> agree P (run_handler E h ev) (run_handler E h ev)"
proof (induction h)
  case (HOnce t ty key capture k h)
  then show ?case unfolding run_handler.simps
    by (intro agree_block_Cons agree_block_Nil agree_callS agree_frame agree_remove_listener) simp_all
qed (simp_all add: agree_intro)

lemma light_stack:
  assumes "users P E" "\<And>w. P w \<Longrightarrow> typed w"
  shows "light P (stack (Suc d) E) (invoke (stack (Suc d) E))"
  using agree_rank_0 [OF users_stack [OF assms(1)]] assms
  by (simp add: light_def reach_def calls_def users_def)

end

text \<open>The pointer listeners, and with them every step.\<close>

locale core_invariant = method_invariant +
  assumes pressed: "P w \<Longrightarrow> P (w\<lparr>pointers := press_all now cs (pointers w)\<rparr>)"
    and dragged: "P w \<Longrightarrow> P (w\<lparr>pointers := drag_all cs (pointers w)\<rparr>)"
    and rebased: "P w \<Longrightarrow> P (w\<lparr>pointers := rebase (pointers w)\<rparr>)"
    and lifted: "P w \<Longrightarrow> P (w\<lparr>pointers := fst (lift_all cs (pointers w))\<rparr>)"
    and emptied: "P w \<Longrightarrow> P (w\<lparr>pointers := []\<rparr>)"
    and acted: "P w \<Longrightarrow> P (w\<lparr>action := a\<rparr>)"
begin

lemma agree_pointer_writes [agree_intro]:
  "agree P (upd (\<lambda>w. w\<lparr>pointers := press_all (now w) cs (pointers w)\<rparr>)) (upd (\<lambda>w. w\<lparr>pointers := press_all (now w) cs (pointers w)\<rparr>))"
  "agree P (upd (\<lambda>w. w\<lparr>pointers := drag_all cs (pointers w)\<rparr>)) (upd (\<lambda>w. w\<lparr>pointers := drag_all cs (pointers w)\<rparr>))"
  "agree P (upd (\<lambda>w. w\<lparr>pointers := rebase (pointers w)\<rparr>)) (upd (\<lambda>w. w\<lparr>pointers := rebase (pointers w)\<rparr>))"
  "agree P (upd (\<lambda>w. w\<lparr>pointers := fst (lift_all cs (pointers w))\<rparr>)) (upd (\<lambda>w. w\<lparr>pointers := fst (lift_all cs (pointers w))\<rparr>))"
  "agree P (upd (\<lambda>w. w\<lparr>pointers := []\<rparr>)) (upd (\<lambda>w. w\<lparr>pointers := []\<rparr>))"
  by (auto intro!: agree_upd pressed dragged rebased lifted emptied)

lemma agree_acted [agree_intro]: "agree P (upd (\<lambda>w. w\<lparr>action := a\<rparr>)) (upd (\<lambda>w. w\<lparr>action := a\<rparr>))"
  by (rule agree_upd) (rule acted)

lemma agree_pointerdown [agree_intro]: "agree P (pointerdown E ev) (pointerdown E ev)"
  by (simp add: agree_intro pointerdown_def)

lemma agree_change [agree_intro]: "light P E I \<Longrightarrow>
   agree P (change E ev) (change (E\<lparr>invoke := I\<rparr>) ev)"
  by (auto simp: agree_intro change_def swipe_def Let_def split: list.split)

lemma agree_pointers [agree_intro]:
  "light P E I \<Longrightarrow>
   agree P (pointermove E ev) (pointermove (E\<lparr>invoke := I\<rparr>) ev)" "agree P (pointerup E ev) (pointerup E ev)"
  by (simp_all add: agree_intro pointermove_def pointerup_def emulate_tap_def)

text \<open>A listener of rank \<open>r\<close> reaches only listeners of smaller rank.\<close>

lemma ranked:
  "users P E \<Longrightarrow> reach (rank h) P E I \<Longrightarrow>
   users P E \<and> (rank h = 1 \<longrightarrow> light P E I) \<and> (rank h = 2 \<longrightarrow> heavy P E I)"
  by (auto simp: light_def heavy_def)

lemma agree_run_handler:
  "users P E \<Longrightarrow> reach (rank h) P E I \<Longrightarrow>
   agree P (run_handler E h ev) (run_handler (E\<lparr>invoke := I\<rparr>) h ev)"
proof (induction h)
  case (HOnce t ty key capture k h)
  then show ?case unfolding run_handler.simps
    by (intro agree_block_Cons agree_block_Nil agree_callS agree_frame agree_remove_listener) simp_all
qed (drule (1) ranked, simp add: agree_intro)+

lemma agree_run_task [agree_intro]: "full_calls P E I \<Longrightarrow>
   agree P (run_task E t) (run_task (E\<lparr>invoke := I\<rparr>) t)"
  by (cases t) (simp_all add: agree_intro)

lemma agree_run_call [agree_intro]: "full_calls P E I \<Longrightarrow>
   agree P (run_call E c) (run_call (E\<lparr>invoke := I\<rparr>) c)"
  by (cases c) (simp_all add: agree_intro)


section \<open>Nested dispatches\<close>

text \<open>
  Two stacks agree on the listeners whose rank is less than either depth; a stack agrees with
  itself on all.
\<close>

lemma stack_other: "(stack d E)\<lparr>invoke := invoke (stack d' E)\<rparr> = stack d' E"
  by (cases d; cases d') simp_all

lemma stack_calls:
  assumes "users P E" "\<And>w. P w \<Longrightarrow> typed w"
  shows "r \<le> d \<Longrightarrow> r \<le> d' \<Longrightarrow> calls r P (stack d E) (invoke (stack d' E))"
proof (induction r arbitrary: d d')
  case (Suc r)
  obtain a b where d: "d = Suc a" "d' = Suc b" "r \<le> a" "r \<le> b"
    using Suc.prems by (cases d; cases d') auto
  have "agree P (run_handler (stack a E) h ev) (run_handler (stack b E) h ev)" if "rank h \<le> r" for h ev
  proof -
    have "reach (rank h) P (stack a E) (invoke (stack b E))"
      using calls_mono [OF Suc.IH [OF d(3, 4)] that] assms(2) by (simp add: reach_def)
    from agree_run_handler [OF users_stack [OF assms(1)] this] show ?thesis by (simp add: stack_other)
  qed
  then show ?case by (simp add: calls_def d)
qed (simp add: calls_def)

lemma stack_self: "users P E \<Longrightarrow> calls 3 P (stack d E) (invoke (stack d E))"
proof (induction d)
  case 0
  then show ?case by (simp add: calls_def agree_throw)
next
  case (Suc d)
  then have "reach (rank h) P (stack d E) (invoke (stack d E))" for h by (simp add: reach_def)
  from agree_run_handler [OF users_stack [OF Suc.prems] this]
  have "agree P (run_handler (stack d E) h ev) (run_handler (stack d E) h ev)" for h ev by simp
  then show ?case by (simp add: calls_def)
qed

section \<open>The event loop\<close>

lemma guarded_agree:
  assumes "agree P s t" "P w"
  shows "guarded s w = guarded t w" "P (guarded s w)"
proof -
  obtain r w' where r: "s w = (r, w')" "t w = (r, w')" "P w'" using assms by (rule agreeD_cases)
  have "P (w'\<lparr>reported := es\<rparr>)" for es using r(3) by (rule frame [rotated]) simp
  with r show "guarded s w = guarded t w" "P (guarded s w)" by (simp_all add: guarded_def split: outcome.split)
qed

lemma native_agree:
  assumes "full_calls P E I" "P w"
  shows "native_event E b t ev w = native_event (E\<lparr>invoke := I\<rparr>) b t ev w" "P (native_event E b t ev w)"
proof -
  have "agreeE P (dispatch (invoke E) (e_root E) b t ev) (dispatch I (e_root E) b t ev)"
    using assms(1) by (intro agreeE_dispatch [where r = 3]) (simp_all add: full_calls_def reach_def type_rank_def)
  from guarded_agree [OF agree_exprS [OF this] assms(2)]
  show "native_event E b t ev w = native_event (E\<lparr>invoke := I\<rparr>) b t ev w" "P (native_event E b t ev w)"
    by (simp_all add: native_event_def)
qed

lemma run_onload_agree:
  assumes "full_calls P E I"
  shows "agree P (run_onload E n ev) (run_onload (E\<lparr>invoke := I\<rparr>) n ev)"
proof -
  have "agree P (invoke E h ev) (I h ev)" for h
    using assms rank_le [of h] by (simp add: full_calls_def calls_def)
  then show ?thesis by (simp add: run_onload_def agree_intro split: option.split)
qed

lemma step_agree:
  assumes E: "full_calls P E I" and s: "step E w w'" and P: "P w"
  shows "step (E\<lparr>invoke := I\<rparr>) w w' \<and> P w'"
  using s
proof cases
  case (native ev bubbles t)
  then show ?thesis using native_agree [OF E P] step.native [of ev "E\<lparr>invoke := I\<rparr>"] by simp
next
  case (timer tm)
  have "P (drop_timer (tm_id tm) w)" using P by (simp add: drop_timer_def timers_dropped listeners_dropped)
  from guarded_agree [OF agree_run_task [OF E] this] timer step.timer [OF timer(2), of "E\<lparr>invoke := I\<rparr>"]
  show ?thesis by simp
next
  case (loaded n a b)
  have "P (image_arrived n a b w)" using P by (rule frame [rotated]) (simp add: image_arrived_def)
  note on = guarded_agree [OF run_onload_agree [OF E] this, of n "load_event n"]
  from on native_agree [OF E on(2)] loaded step.loaded [OF loaded(2), of "E\<lparr>invoke := I\<rparr>"]
  show ?thesis by simp
next
  case (called c)
  then show ?thesis
    using guarded_agree [OF agree_run_call [OF E] P] step.called [of "E\<lparr>invoke := I\<rparr>"] by simp
qed

lemma reachable_agree:
  "reachable E w w' \<Longrightarrow> full_calls P E I \<Longrightarrow> P w \<Longrightarrow> reachable (E\<lparr>invoke := I\<rparr>) w w' \<and> P w'"
  by (induction rule: reachable.induct) (auto intro: reachable.intros dest: step_agree)

lemma reachable_stack_keeps:
  assumes "reachable (stack d E) w w'" "users P E" "P w"
  shows "P w'"
  using reachable_agree [OF assms(1), of "invoke (stack d E)"] assms(2, 3)
  by (simp add: full_calls_def users_stack stack_self)

text \<open>Three levels are enough: a larger stack reaches the same states.\<close>

lemma reachable_stack_depth:
  assumes "users P E" "\<And>w. P w \<Longrightarrow> typed w" "P w" "3 \<le> d" "3 \<le> d'"
  shows "reachable (stack d E) w w' \<longleftrightarrow> reachable (stack d' E) w w'"
proof -
  have "reachable (stack a E) w w' \<Longrightarrow> reachable (stack b E) w w'" if "3 \<le> a" "3 \<le> b" for a b
    using reachable_agree [of "stack a E" w w' "invoke (stack b E)"] assms(1, 3) stack_calls [OF assms(1, 2)] that
    by (simp add: full_calls_def users_stack stack_other)
  with assms(4, 5) show ?thesis by blast
qed

end

section \<open>The invariants\<close>

definition timers_ok :: "world \<Rightarrow> bool" where
  "timers_ok w \<longleftrightarrow>
     distinct (map tm_id (timers w)) \<and> (\<forall>t \<in> set (timers w). tm_id t < next_timer w)"

definition listener_id :: "handler listener \<Rightarrow> target \<times> string \<times> callback \<times> bool" where
  "listener_id l = (l_target l, l_type l, l_fun l, l_capture l)"

definition listeners_ok :: "world \<Rightarrow> bool" where
  "listeners_ok w \<longleftrightarrow> distinct (map listener_id (listeners w))"

definition pointers_ok :: "world \<Rightarrow> bool" where
  "pointers_ok w \<longleftrightarrow> sorted_wrt (<) (map fst (pointers w))"

definition data_ok :: "world \<Rightarrow> bool" where
  "data_ok w \<longleftrightarrow> imageData w < next_idata w"

definition same_owner :: "nat \<Rightarrow> (string \<times> jsval) list \<Rightarrow> world \<Rightarrow> bool" where
  "same_owner el os w \<longleftrightarrow> element w = el \<and> options w = os"

lemma distinct_map_filter_of: "distinct (map f xs) \<Longrightarrow> distinct (map f (filter p xs))"
  by (induction xs) auto

lemma new_imageData_fields [simp]:
  "timers (new_imageData d w) = timers w" "next_timer (new_imageData d w) = next_timer w"
  "listeners (new_imageData d w) = listeners w" "pointers (new_imageData d w) = pointers w"
  "action (new_imageData d w) = action w"
  "element (new_imageData d w) = element w" "options (new_imageData d w) = options w"
  "imageData (new_imageData d w) = next_idata w" "next_idata (new_imageData d w) = Suc (next_idata w)"
  by (simp_all add: new_imageData_def)

lemma addEventListener_fields [simp]:
  "timers (addEventListener t ty f c b w) = timers w"
  "next_timer (addEventListener t ty f c b w) = next_timer w"
  "pointers (addEventListener t ty f c b (w :: world)) = pointers w"
  "action (addEventListener t ty f c b (w :: world)) = action w"
  "imageData (addEventListener t ty f c b w) = imageData w"
  "next_idata (addEventListener t ty f c b w) = next_idata w"
  "element (addEventListener t ty f c b w) = element w"
  "options (addEventListener t ty f c b w) = options w"
  by (simp_all add: addEventListener_def)

lemma addEventListener_distinct:
  "listeners_ok w \<Longrightarrow> listeners_ok (addEventListener t ty f c b w)"
  by (auto simp: listeners_ok_def addEventListener_def listener_id_def same_listener_def list_ex_iff)

lemma keys_pointer_set: "set (map fst (pointer_set ps k p)) = insert k (set (map fst ps))"
  by (induction ps k p rule: pointer_set.induct) auto

lemma sorted_pointer_set:
  "sorted_wrt (<) (map fst ps) \<Longrightarrow> sorted_wrt (<) (map fst (pointer_set ps k p))"
proof (induction ps k p rule: pointer_set.induct)
  case (2 k' p' ps k p)
  then show ?case using keys_pointer_set [of ps k p] by auto
qed simp

lemma sorted_press_all:
  "sorted_wrt (<) (map fst ps) \<Longrightarrow> sorted_wrt (<) (map fst (press_all now cs ps))"
  unfolding press_all_def
  by (induction cs arbitrary: ps) (auto simp: sorted_pointer_set split: prod.split)

lemma keys_rebase: "map fst (rebase ps) = map fst ps"
  by (induction ps) (auto simp: rebase_def)

lemma keys_drag_all: "map fst (drag_all cs ps) = map fst ps"
proof (induction cs arbitrary: ps)
  case (Cons c cs)
  have "map fst (pointer_upd i f ps) = map fst ps" for i f
    by (induction ps) (auto simp: pointer_upd_def)
  with Cons show ?case by (cases c) (simp add: drag_all_def)
qed (simp add: drag_all_def)

lemma sorted_filter_keys:
  "sorted_wrt (<) (map fst ps) \<Longrightarrow> sorted_wrt (<) (map fst (pointer_del ps k))"
  by (induction ps) (auto simp: pointer_del_def)

lemma sorted_lift_all:
  "sorted_wrt (<) (map fst ps) \<Longrightarrow> sorted_wrt (<) (map fst (fst (lift_all cs ps)))"
proof -
  have "sorted_wrt (<) (map fst ps) \<Longrightarrow> sorted_wrt (<) (map fst (fst
    (foldl (\<lambda>(ps, last) (i, x, y). (pointer_del ps i, pointer_get ps i)) (ps, q) cs)))" for q
    by (induction cs arbitrary: ps q) (auto simp: sorted_filter_keys split: prod.split)
  then show "sorted_wrt (<) (map fst ps) \<Longrightarrow> ?thesis" by (simp add: lift_all_def)
qed

interpretation timers_inv: core_invariant timers_ok
  by unfold_locales
    (auto simp: timers_ok_def core_def distinct_map_filter_of less_Suc_eq)

interpretation listeners_inv: core_invariant listeners_ok
proof
  show "\<And>w t ty f c b. listeners_ok w \<Longrightarrow> listeners_ok (addEventListener t ty f c b w)"
    by (rule addEventListener_distinct)
qed (auto simp: listeners_ok_def core_def distinct_map_filter_of)

interpretation pointers_inv: core_invariant pointers_ok
  by unfold_locales
    (auto simp: pointers_ok_def core_def sorted_press_all keys_rebase keys_drag_all sorted_lift_all)

interpretation data_inv: core_invariant data_ok
  by unfold_locales (auto simp: data_ok_def core_def)

interpretation typed_inv: core_invariant typed
  by unfold_locales (auto simp: typed_def core_def addEventListener_def new_imageData_def)

interpretation owner_inv: core_invariant "same_owner el os"
  by unfold_locales (auto simp: same_owner_def core_def)

end
