(* ===== verification/Sample_Page.thy ===== *)
theory Sample_Page imports Invariants begin

text \<open>
  A small page on which the theorems are exercised: a root element, a body, and a gallery of
  two images that the cache holds. The page's own functions answer \<open>true\<close> and change
  nothing; the layout gives every element the same box.
\<close>

definition modern_platform :: platform where
  "modern_platform =
     \<lparr>p_has_window = True, p_has_documentElement = True, p_ontouchstart = False,
      p_PointerEvent = True, p_safari_agent = False, p_reads_once = True, p_classList = True,
      p_dataset = True, p_style_transition = True, p_CustomEvent = True\<rparr>"

text \<open>An insertion sort by a comparator, as an engine may have it.\<close>

fun place_by :: "(jsnum \<Rightarrow> jsnum \<Rightarrow> int) \<Rightarrow> jsnum \<Rightarrow> jsnum list \<Rightarrow> jsnum list" where
  "place_by cmp x [] = [x]"
| "place_by cmp x (y # ys) = (if cmp x y \<le> 0 then x # y # ys else y # place_by cmp x ys)"

definition sort_by :: "(jsnum \<Rightarrow> jsnum \<Rightarrow> int) \<Rightarrow> jsnum list \<Rightarrow> jsnum list" where
  "sort_by cmp xs = foldr (place_by cmp) xs []"

definition page_env :: env where
  "page_env =
     \<lparr>e_platform = modern_platform, e_root = 1, e_body = 2,
      e_innerWidth = (\<lambda>w. Fin 1000), e_innerHeight = (\<lambda>w. Fin 700),
      e_clientWidth = (\<lambda>w. Fin 985), e_scrollX = (\<lambda>w. Fin 0), e_scrollY = (\<lambda>w. Fin 0),
      e_offsetWidth = (\<lambda>w n. Fin 30), e_offsetHeight = (\<lambda>w n. Fin 50),
      e_boxLeft = (\<lambda>w n. Fin 0), e_boxTop = (\<lambda>w n. Fin 0),
      e_paddingRight = (\<lambda>w n. ''0px''), e_position = (\<lambda>w n. ''static''),
      e_cache = (\<lambda>s. if s = ''a.jpg'' then Some (Fin 800, Fin 600)
                     else if s = ''b.jpg'' then Some (Fin 400, Fin 600) else None),
      e_now = (\<lambda>w. Fin 0), e_sort = sort_by, e_fn_text = (\<lambda>h. ''function''),
      e_fs_element = (\<lambda>w. False), e_fs_request = Some RequestStd, e_fs_exit = Some ExitStd,
      e_select = (\<lambda>s w. if s = ''body'' then 2 else 0),
      e_user = (\<lambda>k vs w. (Val (Bool True), w)), invoke = (\<lambda>h ev. skip)\<rparr>"

text \<open>Square roots of zero and one are all a run on this page asks for.\<close>

lemma sqrt_code [code]: "sqrt x = (if x = 0 then 0 else if x = 1 then 1 else sqrt x)"
  by simp

definition page_node :: "string \<Rightarrow> nat list \<Rightarrow> nat \<Rightarrow> node" where
  "page_node t kids par = (blank t)\<lparr>n_kids := kids, n_parent := par\<rparr>"

definition page_img :: "string \<Rightarrow> jsnum \<Rightarrow> jsnum \<Rightarrow> node" where
  "page_img s a b =
     (page_node ''img'' [] 3)
       \<lparr>n_attrs := [(''src'', s), (''alt'', s)], n_complete := True, n_natW := a, n_natH := b\<rparr>"

definition page_nodes :: "nat \<Rightarrow> node" where
  "page_nodes =
     (\<lambda>n. blank [])
       (1 := page_node ''html'' [2] 0, 2 := page_node ''body'' [3] 1,
        3 := page_node ''div'' [4, 5] 2,
        4 := page_img ''a.jpg'' (Fin 800) (Fin 600), 5 := page_img ''b.jpg'' (Fin 400) (Fin 600))"

definition empty_page :: world where
  "empty_page =
     \<lparr>nodes = page_nodes, next_node = 6, listeners = [], legacy = [], onloads = [], timers = [],
      next_timer = 1, next_fun = 0, prevented = False, reported = [],
      element = 0, options = [], action = ActNone, fading = False, fulled = False,
      hiding = False, imageClicked = False, imageData = 0, idatas = (\<lambda>n. empty_data),
      next_idata = 1, initialImageData = empty_data, index = Fin 0, isImg = False,
      isShown = False, len = 0, played = False, playing = None, pointers = [], ready = False,
      showing = False, timeout = None, tooltipping = None, viewed = False, viewing = None,
      wheeling = False, zooming = False, destroyed = False, images = [], items = [], body = 0,
      scrollbarWidth = Fin 0, initialBodyPaddingRight = [],
      initialBodyComputedPaddingRight = [], containerData = no_dims, parentData = no_dims,
      viewerData = no_dims, image = 0, v_parent = 0, v_viewer = 0, v_title = 0, v_toolbar = 0,
      v_navbar = 0, v_button = 0, v_canvas = 0, v_footer = 0, v_tooltipBox = 0, v_player = 0,
      v_list = 0, imageInitializing = None, imageRendering = None, transitioning = None,
      clickCanvasTimeout = None, doubleClickImageTimeout = None, onClick = None,
      onDragStart = None, onPointerDown = None, onPointerMove = None, onPointerUp = None,
      onKeyDown = None, onResize = None, onWheel = None, onDblclick = None, onStart = None,
      onLoadWhenPlay = None, delaying = None, initializing = None, progress_count = 0,
      fs_calls = []\<rparr>"

abbreviation E2 :: env where "E2 \<equiv> stack 2 page_env"

text \<open>The page after \<open>new Viewer(gallery, {transition: false})\<close>.\<close>

definition gallery :: world where
  "gallery =
     guarded (construct E2 DEFAULTS (Elem 3) (Obj [(''transition'', Bool False)])) empty_page"

end
