(* ===== verification/Shop_Main.thy ===== *)
theory Shop_Main imports Viewer_Util begin

text \<open>
  The script of the shop's pages, \<open>main.js\<close>, and the inline script of \<open>buy.html\<close> that
  handles the same controls. The drawings of the source are names of \<open>icon\<close>; the template
  engine is an argument; what the script asks of the page and of the dialog library is
  recorded in the state.
\<close>

section \<open>Drawings and payment methods\<close>

datatype icon =
    TipsSvg | QrSvg | AlipaySvg | WeChatSvg | QqSvg | OtherSvg | PaypalSvg | CoinbaseSvg
  | QrFrameSvg | Inherited string

definition paySvgArr :: "(string \<times> icon) list" where
  "paySvgArr =
     [(''zfbf2f'', AlipaySvg), (''aliweb'', AlipaySvg), (''aliwap'', AlipaySvg),
      (''mqq'', QqSvg), (''mzfb'', AlipaySvg), (''mwx'', WeChatSvg), (''pszfb'', AlipaySvg),
      (''pswx'', WeChatSvg), (''wescan'', WeChatSvg), (''payjswescan'', WeChatSvg),
      (''alipay'', AlipaySvg), (''wxpay'', WeChatSvg), (''qqpay'', QqSvg),
      (''paypal'', PaypalSvg), (''mgcoin'', OtherSvg), (''coinbase'', CoinbaseSvg),
      (''vzfb'', AlipaySvg), (''vwx'', WeChatSvg)]"

text \<open>An object literal also has the members of the object prototype.\<close>

definition prototype_members :: "string list" where
  "prototype_members =
     [''constructor'', ''hasOwnProperty'', ''isPrototypeOf'', ''propertyIsEnumerable'',
      ''toLocaleString'', ''toString'', ''valueOf'', ''__proto__'', ''__defineGetter__'',
      ''__defineSetter__'', ''__lookupGetter__'', ''__lookupSetter__'']"

definition svg_member :: "string \<Rightarrow> icon option" where
  "svg_member ty =
     (case map_of paySvgArr ty of
        Some i \<Rightarrow> Some i
      | None \<Rightarrow> if ty \<in> set prototype_members then Some (Inherited ty) else None)"

record pay_item =
  pi_type :: string
  pi_name :: string
  pi_id :: string
  pi_selected :: bool
  pi_label :: "(icon \<times> string) option"

definition label_item :: "pay_item \<Rightarrow> pay_item" where
  "label_item t =
     (case svg_member (pi_type t) of
        Some i \<Rightarrow> t\<lparr>pi_label := Some (i, '' '' @ pi_name t)\<rparr>
      | None \<Rightarrow> t\<lparr>pi_label := Some (OtherSvg, '' '' @ pi_name t)\<rparr>)"

section \<open>State\<close>

datatype piece_html = Markup string | Art icon

record dialog =
  dg_type :: nat
  dg_title :: "icon \<times> string"
  dg_closeBtn :: nat
  dg_area :: string
  dg_skin :: string
  dg_anim :: nat
  dg_shade :: jsnum
  dg_content :: "piece_html list"

datatype page_effect = Msg jsval | Dialog dialog

record goods =
  gd_cnf :: jsval
  gd_arr :: "string list list"
  gd_in_stock :: jsnum
  gd_sales_volume :: jsnum
  gd_proportion :: jsnum

record cate =
  ct_key :: nat
  ct_goods :: "goods list"

record shop =
  orderNumber :: jsnum
  number_field :: string
  pay_items :: "pay_item list"
  payway :: string
  cates :: "cate list"
  goods_html :: string
  cate_html :: string
  selected_cate :: "nat option"
  effects :: "page_effect list"

text \<open>The global variables of the page, and its templates.\<close>

record page =
  clientWidth :: jsnum
  limitNum :: jsnum
  stock :: jsnum
  tipsMsg :: jsval
  tipsCon :: jsval
  goodsMsg_given :: bool
  goodsTpl :: "goods \<Rightarrow> string"
  cateTpl :: "cate \<Rightarrow> string"

section \<open>Dialogs\<close>

definition msgArea :: "page \<Rightarrow> string" where
  "msgArea p = (if nle (clientWidth p) (Fin 768) then ''85%'' else ''50%'')"

definition open_dialog :: "page \<Rightarrow> icon \<times> string \<Rightarrow> piece_html list \<Rightarrow> shop stmt" where
  "open_dialog p title content =
     upd (\<lambda>w. w\<lparr>effects := effects w @
       [Dialog \<lparr>dg_type = 1, dg_title = title, dg_closeBtn = 2, dg_area = msgArea p,
                dg_skin = ''home-tips'', dg_anim = 5, dg_shade = Fin (7 / 10),
                dg_content = content\<rparr>]\<rparr>)"

text \<open>\<open>v.k\<close>; a function has no member of these names.\<close>

definition member :: "jsval \<Rightarrow> string \<Rightarrow> ('s, jsval) expr" where
  "member v k w =
     (case v of
        Undefined \<Rightarrow> (Exn TypeError, w)
      | Null \<Rightarrow> (Exn TypeError, w)
      | Obj ps \<Rightarrow> (Val (oget ps k), w)
      | _ \<Rightarrow> (Val Undefined, w))"

definition layer_msg :: "page \<Rightarrow> string \<Rightarrow> shop stmt" where
  "layer_msg p k =
     bindS (member (tipsMsg p) k) (\<lambda>v. block
       [upd (\<lambda>w. w\<lparr>effects := effects w @ [Msg v]\<rparr>), ret])"

definition showQrcode :: "page \<Rightarrow> string \<Rightarrow> shop stmt" where
  "showQrcode p imgUrl =
     bindS (member (tipsMsg p) ''mobile_order'') (\<lambda>v.
       open_dialog p (QrSvg, to_str v)
         [Markup ''<div class=\"qr\" style=\"\">'', Art QrFrameSvg,
          Markup (''<img src=\"'' @ imgUrl @ ''\" alt=\"\"></div>'')])"

definition show_tips :: "page \<Rightarrow> string \<Rightarrow> string \<Rightarrow> shop stmt" where
  "show_tips p title content = open_dialog p (TipsSvg, title) [Markup content]"

section \<open>The goods of the front page\<close>

fun split_acc :: "string \<Rightarrow> string \<Rightarrow> string \<Rightarrow> string list" where
  "split_acc sep acc [] = [rev acc]"
| "split_acc sep acc (c # cs) =
     (if starts_with sep (c # cs) then rev acc # split_acc sep [] (drop (length sep - 1) cs)
      else split_acc sep (c # acc) cs)"

definition split_text :: "string \<Rightarrow> string \<Rightarrow> string list" where
  "split_text sep s = split_acc sep [] s"

definition crlf :: string where "crlf = [CHR 0x0D, CHR 0x0A]"

definition wholesale :: "string \<Rightarrow> string list list" where
  "wholesale s = map (split_text ''='') (split_text crlf s)"

text \<open>\<open>v == ""\<close>, a comparison that converts.\<close>

definition loosely_empty :: "jsval \<Rightarrow> bool" where
  "loosely_empty v =
     (case v of
        Str s \<Rightarrow> s = [] | Num x \<Rightarrow> x = Fin 0 | Bool b \<Rightarrow> \<not> b | Arr vs \<Rightarrow> to_str_list vs = []
      | _ \<Rightarrow> False)"

definition proportion :: "jsnum \<Rightarrow> jsnum \<Rightarrow> jsnum" where
  "proportion in_stock sales =
     (if truthy (Num in_stock) then nmul (ndiv in_stock (nadd in_stock sales)) (Fin 100) else Fin 0)"

definition enrich :: "goods \<Rightarrow> goods result" where
  "enrich i =
     (let j = i\<lparr>gd_proportion := proportion (gd_in_stock i) (gd_sales_volume i)\<rparr>
      in if \<not> loosely_empty (gd_cnf i) \<and> gd_cnf i \<noteq> Undefined \<and> gd_cnf i \<noteq> Null
         then (case gd_cnf i of
                 Str s \<Rightarrow> Val (j\<lparr>gd_arr := wholesale s\<rparr>)
               | _ \<Rightarrow> Exn TypeError)
         else Val j)"

text \<open>The loop over the goods; those before a throw keep what they were given.\<close>

fun enrich_all :: "goods list \<Rightarrow> goods list \<times> bool" where
  "enrich_all [] = ([], True)"
| "enrich_all (g # gs) =
     (case enrich g of
        Val g' \<Rightarrow> (let (gs', ok) = enrich_all gs in (g' # gs', ok))
      | Exn e \<Rightarrow> (g # gs, False))"

definition changeCate :: "page \<Rightarrow> nat \<Rightarrow> shop stmt" where
  "changeCate p key =
     getS cates (\<lambda>cs.
       if key < length cs then
         let (gs, ok) = enrich_all (ct_goods (cs ! key)) in block
           [upd (\<lambda>w. w\<lparr>cates := cs[key := (cs ! key)\<lparr>ct_goods := gs\<rparr>]\<rparr>),
            (if ok then skip else throw TypeError),
            upd (\<lambda>w. w\<lparr>goods_html := concat (map (goodsTpl p) gs), selected_cate := Some key\<rparr>)]
       else throw TypeError)"

definition number_cates :: "cate list \<Rightarrow> cate list" where
  "number_cates cs = map (\<lambda>(k, c). c\<lparr>ct_key := k\<rparr>) (zip [0..<length cs] cs)"

definition render_home :: "page \<Rightarrow> shop stmt" where
  "render_home p =
     block
       [upd (\<lambda>w. w\<lparr>cates := number_cates (cates w)\<rparr>),
        upd (\<lambda>w. w\<lparr>cate_html := concat (map (cateTpl p) (cates w))\<rparr>),
        callS (changeCate p 0)]"

definition home_ready :: "page \<Rightarrow> string \<Rightarrow> shop stmt" where
  "home_ready p title =
     block
       [(if nle (clientWidth p) (Fin 768) \<and> \<not> isUndefined (tipsCon p) \<and> tipsCon p \<noteq> Str []
         then open_dialog p (TipsSvg, title) [Markup (to_str (tipsCon p))] else skip),
        (if goodsMsg_given p then render_home p else skip)]"

section \<open>Choosing how to pay\<close>

definition label_all :: "shop stmt" where
  "label_all = upd (\<lambda>w. w\<lparr>pay_items := map label_item (pay_items w)\<rparr>)"

definition unselect :: "pay_item \<Rightarrow> pay_item" where
  "unselect t = t\<lparr>pi_selected := False\<rparr>"

definition toggle_item :: "pay_item \<Rightarrow> pay_item" where
  "toggle_item t = t\<lparr>pi_selected := \<not> pi_selected t\<rparr>"

definition pay_click :: "nat \<Rightarrow> shop stmt" where
  "pay_click i =
     block
       [upd (\<lambda>w. w\<lparr>pay_items := map unselect (pay_items w)\<rparr>),
        upd (\<lambda>w. w\<lparr>pay_items := (pay_items w)[i := toggle_item (pay_items w ! i)]\<rparr>),
        upd (\<lambda>w. w\<lparr>payway := pi_id (pay_items w ! i)\<rparr>)]"

section \<open>The quantity\<close>

definition set_field :: "jsnum \<Rightarrow> shop \<Rightarrow> shop" where
  "set_field n w = w\<lparr>number_field := num_to_str n\<rparr>"

definition sub_click :: "page \<Rightarrow> shop stmt" where
  "sub_click p =
     ifS (\<lambda>w. nle (orderNumber w) (Fin 1)) (layer_msg p ''least_one'')
       (block
         [upd (\<lambda>w. w\<lparr>orderNumber := nsub (orderNumber w) (Fin 1)\<rparr>),
          upd (\<lambda>w. set_field (orderNumber w) w)])"

definition limited :: "page \<Rightarrow> bool" where
  "limited p = (nlt (Fin 0) (limitNum p) \<and> nlt (limitNum p) (stock p))"

definition add_click :: "page \<Rightarrow> shop stmt" where
  "add_click p =
     block
       [(if limited p
         then ifS (\<lambda>w. nle (limitNum p) (orderNumber w)) (layer_msg p ''exceeds_limit'') skip
         else ifS (\<lambda>w. nle (stock p) (orderNumber w)) (layer_msg p ''exceeds'') skip),
        upd (\<lambda>w. w\<lparr>orderNumber := nadd (orderNumber w) (Fin 1)\<rparr>),
        upd (\<lambda>w. set_field (orderNumber w) w)]"

definition put_number :: "page \<Rightarrow> jsnum \<Rightarrow> string \<Rightarrow> shop stmt" where
  "put_number p n msg =
     block
       [upd (set_field n), upd (\<lambda>w. w\<lparr>orderNumber := n\<rparr>), layer_msg p msg]"

definition number_change :: "page \<Rightarrow> shop stmt" where
  "number_change p =
     getS (\<lambda>w. parseInt (number_field w)) (\<lambda>val. block
       [(if nle val (Fin 0) then put_number p (Fin 1) ''least_one'' else skip),
        (if limited p
         then (if nlt (limitNum p) val then put_number p (limitNum p) ''exceeds_limit'' else skip)
         else (if nlt (stock p) val then put_number p (stock p) ''exceeds'' else skip)),
        upd (\<lambda>w. w\<lparr>orderNumber := val\<rparr>)])"

text \<open>What a visitor does to the quantity: the two buttons, or typing into the field.\<close>

datatype quantity_input = Sub | Add | Typed string

fun quantity_step :: "page \<Rightarrow> quantity_input \<Rightarrow> shop stmt" where
  "quantity_step p Sub = sub_click p"
| "quantity_step p Add = add_click p"
| "quantity_step p (Typed s) =
     block [upd (\<lambda>w. w\<lparr>number_field := s\<rparr>), callS (number_change p)]"

definition quantity_run :: "page \<Rightarrow> quantity_input list \<Rightarrow> shop \<Rightarrow> shop" where
  "quantity_run p is w = foldl (\<lambda>w i. snd (quantity_step p i w)) w is"

section \<open>The inline script of the buy page\<close>

definition buy_cap :: "jsnum \<Rightarrow> jsnum \<Rightarrow> jsnum" where
  "buy_cap stk lmt =
     (let mx = (if nlt (Fin 0) stk then stk else Fin 1)
      in if nlt (Fin 0) lmt \<and> nlt lmt mx then lmt else mx)"

definition buy_set :: "jsnum \<Rightarrow> jsnum \<Rightarrow> jsnum \<Rightarrow> string" where
  "buy_set stk lmt v =
     (let v1 = (if nlt v (Fin 1) then Fin 1 else v);
          v2 = (if nlt (buy_cap stk lmt) v1 then buy_cap stk lmt else v1)
      in num_to_str v2)"

definition buy_read :: "string \<Rightarrow> jsnum" where
  "buy_read s = nor (parseInt s) (Fin 1)"

fun buy_step :: "jsnum \<Rightarrow> jsnum \<Rightarrow> string \<Rightarrow> quantity_input \<Rightarrow> string" where
  "buy_step stk lmt s Sub = buy_set stk lmt (nsub (buy_read s) (Fin 1))"
| "buy_step stk lmt s Add = buy_set stk lmt (nadd (buy_read s) (Fin 1))"
| "buy_step stk lmt s (Typed t) = buy_set stk lmt (buy_read t)"

end
