(* ===== verification/Shop_Quantity.thy ===== *)
theory Shop_Quantity imports Shop_Main Js_Facts Machines begin

text \<open>
  The quantity control of the shop. The locale \<open>quantity_control\<close> is its contract: a number
  between one and a cap that the two buttons and the field move. Both scripts of the source,
  \<open>main.js\<close> and the inline script of \<open>buy.html\<close>, are shown to meet it for a good in stock and
  typed text that starts with a number, so they agree with the same abstract counter; the
  cases outside the contract are stated separately.
\<close>

section \<open>The contract\<close>

definition clamp :: "int \<Rightarrow> int \<Rightarrow> int" where
  "clamp cap n = max 1 (min cap n)"

text \<open>The abstract counter.\<close>

fun count_step :: "int \<Rightarrow> int \<Rightarrow> quantity_input \<Rightarrow> int" where
  "count_step cap n Sub = clamp cap (n - 1)"
| "count_step cap n Add = clamp cap (n + 1)"
| "count_step cap n (Typed s) =
     (case parseInt s of Fin x \<Rightarrow> clamp cap \<lfloor>x\<rfloor> | _ \<Rightarrow> n)"

definition numeric :: "quantity_input \<Rightarrow> bool" where
  "numeric i = (case i of Typed s \<Rightarrow> parseInt s \<noteq> NaN | _ \<Rightarrow> True)"

locale quantity_control =
  fixes step :: "'s \<Rightarrow> quantity_input \<Rightarrow> 's" and amount :: "'s \<Rightarrow> int"
    and cap :: "'s \<Rightarrow> int" and ok :: "'s \<Rightarrow> bool"
  assumes ok_step: "ok s \<Longrightarrow> numeric i \<Longrightarrow> ok (step s i)"
    and cap_step: "cap (step s i) = cap s"
    and in_range: "ok s \<Longrightarrow> 1 \<le> amount s \<and> amount s \<le> cap s"
    and counts: "ok s \<Longrightarrow> numeric i \<Longrightarrow> amount (step s i) = count_step (cap s) (amount s) i"
begin

definition counting :: "int \<Rightarrow> int \<Rightarrow> 's \<Rightarrow> bool" where
  "counting c n s \<longleftrightarrow> ok s \<and> cap s = c \<and> amount s = n"

end

sublocale quantity_control < counter: simulation "\<lambda>i s. step s i" "\<lambda>i n. count_step c n i" "counting c" numeric for c
  by unfold_locales (auto simp: counting_def ok_step cap_step counts)

context quantity_control begin

lemma run_counting:
  "ok s \<Longrightarrow> list_all numeric is \<Longrightarrow>
   counting (cap s) (foldl (count_step (cap s)) (amount s) is) (foldl step s is)"
  by (rule counter.run_displays) (simp_all add: counting_def)

lemma run_ok: "ok s \<Longrightarrow> list_all numeric is \<Longrightarrow> ok (foldl step s is)"
  using run_counting by (simp add: counting_def)

lemma run_in_range:
  "ok s \<Longrightarrow> list_all numeric is \<Longrightarrow>
   1 \<le> amount (foldl step s is) \<and> amount (foldl step s is) \<le> cap s"
  using in_range [OF run_ok] run_counting by (simp add: counting_def)

lemma run_counts:
  "ok s \<Longrightarrow> list_all numeric is \<Longrightarrow>
   amount (foldl step s is) = foldl (count_step (cap s)) (amount s) is"
  using run_counting by (simp add: counting_def)

end

section \<open>Both scripts meet it\<close>

definition whole :: "jsnum \<Rightarrow> int" where
  "whole x = (case x of Fin a \<Rightarrow> \<lfloor>a\<rfloor> | _ \<Rightarrow> 0)"

definition cap_of :: "jsnum \<Rightarrow> jsnum \<Rightarrow> int" where
  "cap_of stk lmt = (if 0 < whole lmt \<and> whole lmt < whole stk then whole lmt else whole stk)"

text \<open>Stock is a positive whole number, the limit a whole number (zero for none).\<close>

definition on_sale :: "jsnum \<Rightarrow> jsnum \<Rightarrow> bool" where
  "on_sale stk lmt \<longleftrightarrow>
     stk = Fin (real_of_int (whole stk)) \<and> lmt = Fin (real_of_int (whole lmt)) \<and> 1 \<le> whole stk"

definition shop_step :: "page \<times> shop \<Rightarrow> quantity_input \<Rightarrow> page \<times> shop" where
  "shop_step = (\<lambda>(p, w) i. (p, snd (quantity_step p i w)))"

definition shop_ok :: "page \<times> shop \<Rightarrow> bool" where
  "shop_ok = (\<lambda>(p, w). on_sale (stock p) (limitNum p) \<and>
     orderNumber w = Fin (real_of_int (whole (orderNumber w))) \<and>
     1 \<le> whole (orderNumber w) \<and> whole (orderNumber w) \<le> cap_of (stock p) (limitNum p))"

definition shop_amount :: "page \<times> shop \<Rightarrow> int" where
  "shop_amount = (\<lambda>(p, w). whole (orderNumber w))"

definition shop_cap :: "page \<times> shop \<Rightarrow> int" where
  "shop_cap = (\<lambda>(p, w). cap_of (stock p) (limitNum p))"

lemma whole_of_int [simp]: "whole (Fin (real_of_int n)) = n"
  by (simp add: whole_def)

lemma layer_msg_number [simp]:
  "orderNumber (snd (layer_msg p k w)) = orderNumber w"
  "number_field (snd (layer_msg p k w)) = number_field w"
  by (auto simp: layer_msg_def member_def js_run split: jsval.splits)

lemma set_field_number [simp]: "orderNumber (set_field n w) = orderNumber w"
  by (simp add: set_field_def)

lemma layer_msg_ends: "fst (layer_msg p k w) = Next \<longleftrightarrow> False"
  by (auto simp: layer_msg_def member_def js_run split: jsval.splits)

lemma msg_cases:
  obtains (returns) w' where "layer_msg p k w = (Ret, w')" "orderNumber w' = orderNumber w"
      "number_field w' = number_field w"
  | (throws) e w' where "layer_msg p k w = (Throw e, w')" "orderNumber w' = orderNumber w"
      "number_field w' = number_field w"
  using layer_msg_ends [of p k w] layer_msg_number [of p k w]
  by (cases "layer_msg p k w"; cases "fst (layer_msg p k w)") auto

lemma put_cases:
  obtains (returns) w' where "put_number p n k w = (Ret, w')" "orderNumber w' = n"
      "number_field w' = num_to_str n"
  | (throws) e w' where "put_number p n k w = (Throw e, w')" "orderNumber w' = n"
      "number_field w' = num_to_str n"
proof -
  have eq: "put_number p n k w = layer_msg p k ((set_field n w)\<lparr>orderNumber := n\<rparr>)"
    by (simp add: put_number_def upd_def split: prod.split outcome.split)
  show ?thesis
    by (rule msg_cases [of p k "(set_field n w)\<lparr>orderNumber := n\<rparr>"])
       (use that eq in \<open>auto simp: set_field_def\<close>)
qed

text \<open>The number each handler leaves behind, for any values of the page.\<close>

definition the_cap :: "page \<Rightarrow> jsnum" where
  "the_cap p = (if limited p then limitNum p else stock p)"

lemma sub_number:
  "orderNumber (snd (sub_click p w)) =
     (if nle (orderNumber w) (Fin 1) then orderNumber w else nsub (orderNumber w) (Fin 1))"
  by (simp add: sub_click_def js_run set_field_def)

lemma add_number:
  "orderNumber (snd (add_click p w)) =
     (if nle (the_cap p) (orderNumber w) then orderNumber w else nadd (orderNumber w) (Fin 1))"
  unfolding add_click_def the_cap_def
  by (rule msg_cases [of p "''exceeds_limit''" w]; rule msg_cases [of p "''exceeds''" w])
     (simp_all add: ifS_def skip_def upd_def set_field_def)

lemma change_number:
  "orderNumber (snd (number_change p w)) =
     (let val = parseInt (number_field w)
      in if nle val (Fin 0) then Fin 1 else if nlt (the_cap p) val then the_cap p else val)"
  unfolding number_change_def the_cap_def Let_def getS_def
  by (rule put_cases [of p "Fin 1" "''least_one''" w];
      rule put_cases [of p "limitNum p" "''exceeds_limit''" w];
      rule put_cases [of p "stock p" "''exceeds''" w])
     (simp_all add: skip_def upd_def)

lemma typed_number:
  "orderNumber (snd (quantity_step p (Typed s) w)) =
     (let val = parseInt s
      in if nle val (Fin 0) then Fin 1 else if nlt (the_cap p) val then the_cap p else val)"
proof -
  have "snd (quantity_step p (Typed s) w) = snd (number_change p (w\<lparr>number_field := s\<rparr>))"
    by (simp add: upd_def callS_def split: prod.split outcome.split)
  then show ?thesis by (simp add: change_number)
qed


lemma parseInt_floor: "parseInt s = Fin x \<Longrightarrow> x = real_of_int \<lfloor>x\<rfloor>"
  using parseInt_whole by fastforce

lemma on_saleE:
  assumes "on_sale stk lmt"
  obtains n m where "stk = Fin (real_of_int n)" "lmt = Fin (real_of_int m)" "1 \<le> n"
  using assms by (auto simp: on_sale_def)

lemma the_cap_on_sale:
  "on_sale (stock p) (limitNum p) \<Longrightarrow>
   the_cap p = Fin (real_of_int (cap_of (stock p) (limitNum p))) \<and>
   1 \<le> cap_of (stock p) (limitNum p)"
  by (erule on_saleE) (simp add: the_cap_def limited_def cap_of_def)

lemma shop_number_step:
  assumes sale: "on_sale (stock p) (limitNum p)"
    and n: "orderNumber w = Fin (real_of_int n)" "1 \<le> n" "n \<le> cap_of (stock p) (limitNum p)"
    and i: "numeric i"
  shows "orderNumber (snd (quantity_step p i w)) =
    Fin (real_of_int (count_step (cap_of (stock p) (limitNum p)) n i))"
proof (cases i)
  case Sub
  then show ?thesis using n by (auto simp: sub_number clamp_def)
next
  case Add
  then show ?thesis using n the_cap_on_sale [OF sale] by (auto simp: add_number clamp_def)
next
  case (Typed s)
  then obtain m where m: "parseInt s = Fin (real_of_int m)"
    using i parseInt_cases [of s] by (auto simp: numeric_def)
  then show ?thesis
    using Typed the_cap_on_sale [OF sale] by (auto simp: typed_number clamp_def Let_def simp del: quantity_step.simps)
qed

lemma count_step_range: "1 \<le> cap \<Longrightarrow> 1 \<le> n \<Longrightarrow> n \<le> cap \<Longrightarrow> 1 \<le> count_step cap n i \<and> count_step cap n i \<le> cap"
  by (cases i) (auto simp: clamp_def split: jsnum.splits)

interpretation main_script: quantity_control shop_step shop_amount shop_cap shop_ok
proof
  fix s i assume ok: "shop_ok s" and i: "numeric i"
  obtain p w where s: "s = (p, w)" by (cases s)
  let ?n = "whole (orderNumber w)" and ?c = "cap_of (stock p) (limitNum p)"
  have n: "on_sale (stock p) (limitNum p)" "orderNumber w = Fin (real_of_int ?n)" "1 \<le> ?n" "?n \<le> ?c"
    using ok by (auto simp: shop_ok_def s)
  have "orderNumber (snd (quantity_step p i w)) = Fin (real_of_int (count_step ?c ?n i))"
    by (rule shop_number_step [OF n(1) n(2) n(3) n(4) i])
  moreover have "1 \<le> count_step ?c ?n i \<and> count_step ?c ?n i \<le> ?c"
    using n by (intro count_step_range) auto
  ultimately show "shop_ok (shop_step s i)"
    and "shop_amount (shop_step s i) = count_step (shop_cap s) (shop_amount s) i"
    using n(1) by (simp_all add: s shop_ok_def shop_step_def shop_amount_def shop_cap_def)
qed (auto simp: shop_ok_def shop_step_def shop_amount_def shop_cap_def)

text \<open>The inline script keeps its number in the field.\<close>

definition buy_step' :: "(jsnum \<times> jsnum) \<times> string \<Rightarrow> quantity_input \<Rightarrow> (jsnum \<times> jsnum) \<times> string" where
  "buy_step' = (\<lambda>((stk, lmt), f) i. ((stk, lmt), buy_step stk lmt f i))"

definition buy_ok :: "(jsnum \<times> jsnum) \<times> string \<Rightarrow> bool" where
  "buy_ok = (\<lambda>((stk, lmt), f). on_sale stk lmt \<and>
     (\<exists>n. f = nat_to_str n \<and> 1 \<le> n \<and> int n \<le> cap_of stk lmt))"

definition buy_amount :: "(jsnum \<times> jsnum) \<times> string \<Rightarrow> int" where
  "buy_amount = (\<lambda>(g, f). whole (parseInt f))"

definition buy_limit :: "(jsnum \<times> jsnum) \<times> string \<Rightarrow> int" where
  "buy_limit = (\<lambda>((stk, lmt), f). cap_of stk lmt)"

lemma buy_cap_on_sale:
  "on_sale stk lmt \<Longrightarrow> buy_cap stk lmt = Fin (real_of_int (cap_of stk lmt)) \<and> 1 \<le> cap_of stk lmt"
  by (erule on_saleE) (simp add: buy_cap_def cap_of_def Let_def)

lemma buy_set_on_sale:
  assumes "on_sale stk lmt"
  shows "buy_set stk lmt (Fin (real_of_int v)) = nat_to_str (nat (clamp (cap_of stk lmt) v))"
proof -
  have c: "buy_cap stk lmt = Fin (real_of_int (cap_of stk lmt))" "1 \<le> cap_of stk lmt"
    using buy_cap_on_sale [OF assms] by auto
  have "num_to_str (Fin (real_of_int k)) = nat_to_str (nat k)" if "1 \<le> k" for k
    using that by (simp add: int_to_str_def)
  from c this [of 1] this [of v] this [of "cap_of stk lmt"] show ?thesis
    by (auto simp: buy_set_def clamp_def Let_def simp del: num_to_str.simps)
qed

lemma buy_step_on_sale:
  assumes sale: "on_sale stk lmt" and n: "1 \<le> n" "int n \<le> cap_of stk lmt" and i: "numeric i"
  shows "buy_step stk lmt (nat_to_str n) i = nat_to_str (nat (count_step (cap_of stk lmt) (int n) i))"
proof (cases i)
  case Sub
  have "real n - 1 = real_of_int (int n - 1)" by simp
  then show ?thesis using Sub n buy_set_on_sale [OF sale, of "int n - 1"] by (simp add: buy_read_def)
next
  case Add
  have "real n + 1 = real_of_int (int n + 1)" by simp
  then show ?thesis using Add n buy_set_on_sale [OF sale, of "int n + 1"] by (simp add: buy_read_def add.commute)
next
  case (Typed s)
  then obtain m where m: "parseInt s = Fin (real_of_int m)"
    using i parseInt_cases [of s] by (auto simp: numeric_def)
  then have "buy_read s = Fin (real_of_int (if m = 0 then 1 else m))"
    by (simp add: buy_read_def nor_def)
  then show ?thesis
    using Typed m buy_set_on_sale [OF sale] by (auto simp: clamp_def)
qed

interpretation buy_script: quantity_control buy_step' buy_amount buy_limit buy_ok
proof
  fix s i assume ok: "buy_ok s" and i: "numeric i"
  obtain stk lmt n where s: "s = ((stk, lmt), nat_to_str n)"
    and n: "on_sale stk lmt" "1 \<le> n" "int n \<le> cap_of stk lmt"
    using ok by (auto simp: buy_ok_def)
  let ?m = "count_step (cap_of stk lmt) (int n) i"
  have step: "buy_step stk lmt (nat_to_str n) i = nat_to_str (nat ?m)"
    by (rule buy_step_on_sale [OF n i])
  have m: "1 \<le> ?m \<and> ?m \<le> cap_of stk lmt" using n by (intro count_step_range) auto
  show "buy_ok (buy_step' s i)"
    unfolding s buy_ok_def buy_step'_def using n m step by (auto intro!: exI [of _ "nat ?m"])
  show "buy_amount (buy_step' s i) = count_step (buy_limit s) (buy_amount s) i"
    using m step by (simp add: s buy_amount_def buy_step'_def buy_limit_def whole_def)
qed (auto simp: buy_ok_def buy_step'_def buy_amount_def buy_limit_def whole_def)

end
