(* ===== verification/Shop_Props.thy ===== *)
theory Shop_Props imports Shop_Quantity begin

text \<open>
  The properties of the shop's script: the quantity, its agreement with the inline script,
  the cases in which its guards fail, the wholesale table, the stock bar, the choice of a
  payment method and the rendering of the front page.
\<close>

section \<open>The quantity\<close>




definition demo_page :: page where
  "demo_page =
     \<lparr>clientWidth = Fin 500, limitNum = Fin 3, stock = Fin 9, tipsMsg = Fun 0,
      tipsCon = Str ''notice'', goodsMsg_given = True, goodsTpl = (\<lambda>g. ''<li>''),
      cateTpl = (\<lambda>c. ''<a>'')\<rparr>"

definition demo_shop :: shop where
  "demo_shop =
     \<lparr>orderNumber = Fin 1, number_field = ''1'', pay_items = [], payway = [], cates = [],
      goods_html = [], cate_html = [], selected_cate = None, effects = []\<rparr>"






definition button :: "quantity_input \<Rightarrow> bool" where
  "button i = (case i of Typed s \<Rightarrow> False | _ \<Rightarrow> True)"

lemma nan_cmp [simp]: "\<not> nle x NaN" "\<not> nle NaN x" "\<not> nlt NaN x" "\<not> nlt x NaN"
  by (cases x; simp add: nle_def neq_def)+

lemma nan_button:
  "orderNumber w = NaN \<Longrightarrow> button i \<Longrightarrow>
   orderNumber (snd (quantity_step p i w)) = NaN \<and> effects (snd (quantity_step p i w)) = effects w"
  by (cases i)
     (auto simp: button_def sub_click_def add_click_def js_run set_field_def nsub_def)

text \<open>
  Text that does not start with a number makes the quantity NaN, and no button brings
  it back or reports a limit.
\<close>

theorem not_a_number_sticks:
  assumes "parseInt s = NaN" and "list_all button is"
  shows "orderNumber (quantity_run p (Typed s # is) w) = NaN \<and>
    effects (quantity_run p (Typed s # is) w) = effects w"
proof -
  have run: "list_all button is \<Longrightarrow> orderNumber u = NaN \<Longrightarrow>
      orderNumber (quantity_run p is u) = NaN \<and> effects (quantity_run p is u) = effects u" for u
  proof (induction "is" arbitrary: u)
    case (Cons i "is")
    then show ?case using nan_button [of u i p] by (simp add: quantity_run_def)
  qed (simp add: quantity_run_def)
  have first: "orderNumber (snd (quantity_step p (Typed s) w)) = NaN"
    "effects (snd (quantity_step p (Typed s) w)) = effects w"
    using assms(1) by (auto simp: number_change_def js_run)
  then show ?thesis
    using run [OF assms(2) first(1)] by (simp_all add: quantity_run_def)
qed

theorem not_a_number_sticks_witness:
  "orderNumber (quantity_run demo_page [Typed ''abc'', Add, Sub] demo_shop) = NaN"
  using not_a_number_sticks [of "''abc''" "[Add, Sub]" demo_page demo_shop]
  by (simp add: parseInt_def is_space_def is_digit_def code_def button_def)


text \<open>
  With nothing in stock the field's guard writes zero, below the least quantity.
\<close>

theorem sold_out_writes_zero:
  assumes "stock p = Fin 0" and "parseInt s = Fin (real_of_int n)" and "1 \<le> n"
  shows "orderNumber (snd (quantity_step p (Typed s) w)) = Fin 0"
  using assms by (simp add: typed_number the_cap_def limited_def Let_def del: quantity_step.simps)
     (cases "limitNum p"; simp)

theorem sold_out_writes_zero_witness:
  "orderNumber (snd (quantity_step (demo_page\<lparr>stock := Fin 0\<rparr>) (Typed ''7'') demo_shop)) = Fin 0"
  by (rule sold_out_writes_zero [where n = 7])
     (simp_all add: demo_page_def parseInt_def is_space_def is_digit_def code_def digits_val_def digit_val_def)

text \<open>
  The script overwrites the table of messages with a function, so the message of a
  refused click is undefined.
\<close>

theorem refused_without_text:
  assumes "tipsMsg p = Fun k" and "orderNumber w = Fin 1"
  shows "sub_click p w = (Ret, w\<lparr>effects := effects w @ [Msg Undefined]\<rparr>)"
  using assms by (simp add: sub_click_def layer_msg_def member_def js_run)

theorem refused_without_text_witness:
  "effects (snd (sub_click demo_page demo_shop)) = [Msg Undefined]"
  using refused_without_text [of demo_page 0 demo_shop] by (simp add: demo_page_def demo_shop_def)

section \<open>The wholesale table and the stock bar\<close>

fun join_text :: "string \<Rightarrow> string list \<Rightarrow> string" where
  "join_text sep [] = []"
| "join_text sep [x] = x"
| "join_text sep (x # y # ys) = x @ sep @ join_text sep (y # ys)"

lemma starts_with_Cons: "starts_with (p # ps) (c # cs) \<longleftrightarrow> p = c \<and> starts_with ps cs"
  by (auto simp: starts_with_def)

lemma starts_with_append [simp]: "starts_with p (p @ s)"
  by (simp add: starts_with_def)

lemma split_acc_skip:
  "hd sep \<notin> set x \<Longrightarrow> sep \<noteq> [] \<Longrightarrow> split_acc sep acc (x @ s) = split_acc sep (rev x @ acc) s"
proof (induction x arbitrary: acc)
  case (Cons c x)
  then have "\<not> starts_with sep (c # x @ s)" by (cases sep) (auto simp: starts_with_Cons)
  with Cons show ?case by simp
qed simp

lemma split_acc_sep: "sep \<noteq> [] \<Longrightarrow> split_acc sep acc (sep @ s) = rev acc # split_acc sep [] s"
  by (cases sep) (auto simp: starts_with_Cons [symmetric] starts_with_def)

lemma split_join:
  "sep \<noteq> [] \<Longrightarrow> xs \<noteq> [] \<Longrightarrow> list_all (\<lambda>x. hd sep \<notin> set x) xs \<Longrightarrow>
   split_text sep (join_text sep xs) = xs"
proof (induction sep xs rule: join_text.induct)
  case (2 sep x)
  then show ?case using split_acc_skip [of sep x "[]" "[]"] by (simp add: split_text_def)
next
  case (3 sep x y ys)
  then show ?case by (simp add: split_text_def split_acc_skip split_acc_sep)
qed simp

text \<open>
  A table of wholesale prices, joined by line breaks and equals signs, is read back as
  its rows and cells.
\<close>

theorem wholesale_reads_back:
  assumes "rows \<noteq> []"
    and "list_all (\<lambda>r. r \<noteq> [] \<and> list_all (\<lambda>c. CHR ''='' \<notin> set c \<and> CHR 0x0D \<notin> set c) r) rows"
  shows "wholesale (join_text crlf (map (join_text ''='') rows)) = rows"
proof -
  have row: "CHR 0x0D \<notin> set (join_text ''='' r)" if "list_all (\<lambda>c. CHR 0x0D \<notin> set c) r" for r
    using that by (induction "''=''" r rule: join_text.induct) auto
  have "list_all (\<lambda>x. hd crlf \<notin> set x) (map (join_text ''='') rows)"
    using assms(2) row by (auto simp: crlf_def list_all_iff)
  then have "split_text crlf (join_text crlf (map (join_text ''='') rows)) = map (join_text ''='') rows"
    using assms(1) by (intro split_join) (auto simp: crlf_def)
  moreover have "split_text ''='' (join_text ''='' r) = r" if "r \<in> set rows" for r
    using assms(2) that by (intro split_join) (auto simp: list_all_iff)
  ultimately show ?thesis by (simp add: wholesale_def map_idI)
qed

theorem wholesale_reads_back_witness:
  "wholesale (''5=9'' @ crlf @ ''10=8.5'') = [[''5'', ''9''], [''10'', ''8.5'']]"
  using wholesale_reads_back [of "[[''5'', ''9''], [''10'', ''8.5'']]"] by (simp add: crlf_def)

text \<open>
  The bar that shows the stock is between empty and full, empty only without stock.
\<close>

theorem proportion_is_percentage:
  assumes "0 \<le> a" and "0 \<le> b"
  shows "\<exists>x. proportion (Fin a) (Fin b) = Fin x \<and> 0 \<le> x \<and> x \<le> 100 \<and> (x = 0 \<longleftrightarrow> a = 0)"
proof (cases "a = 0")
  case False
  with assms have "proportion (Fin a) (Fin b) = Fin (a / (a + b) * 100)" "0 < a / (a + b) * 100"
    "a / (a + b) * 100 \<le> 100"
    by (auto simp: proportion_def divide_simps)
  with False assms show ?thesis by (intro exI [of _ "a / (a + b) * 100"]) auto
qed (simp add: proportion_def)

theorem proportion_is_percentage_witness:
  "\<exists>x. proportion (Fin 3) (Fin 1) = Fin x \<and> 0 \<le> x \<and> x \<le> 100 \<and> (x = 0 \<longleftrightarrow> (3::real) = 0)"
  by (rule proportion_is_percentage) simp_all

section \<open>Payment methods and the front page\<close>

lemma unselect_items [simp]:
  "pi_selected (unselect t) = False" "pi_id (unselect t) = pi_id t"
  by (simp_all add: unselect_def)

text \<open>
  A click on a payment method leaves exactly that one selected, whatever was selected
  before, and puts its id into the form.
\<close>

theorem pay_click_selects_one:
  assumes "i < length (pay_items w)"
  shows "\<exists>w'. pay_click i w = (Next, w') \<and> payway w' = pi_id (pay_items w ! i) \<and>
    map pi_selected (pay_items w') = map (\<lambda>j. j = i) [0..<length (pay_items w)] \<and>
    map pi_id (pay_items w') = map pi_id (pay_items w)"
  using assms
  by (auto simp: pay_click_def js_run toggle_item_def nth_list_update unselect_items
      intro!: nth_equalityI split: if_splits)

definition demo_item :: "string \<Rightarrow> bool \<Rightarrow> pay_item" where
  "demo_item k b = \<lparr>pi_type = k, pi_name = k, pi_id = k, pi_selected = b, pi_label = None\<rparr>"

theorem pay_click_selects_one_witness:
  "\<exists>w'. pay_click 1 (demo_shop\<lparr>pay_items := [demo_item ''a'' True, demo_item ''b'' True]\<rparr>) = (Next, w') \<and>
     payway w' = ''b'' \<and> map pi_selected (pay_items w') = [False, True]"
  using pay_click_selects_one
    [of 1 "demo_shop\<lparr>pay_items := [demo_item ''a'' True, demo_item ''b'' True]\<rparr>"]
  by (auto simp: demo_item_def)

definition cnf_ok :: "goods \<Rightarrow> bool" where
  "cnf_ok g = (case gd_cnf g of Str s \<Rightarrow> True | Undefined \<Rightarrow> True | Null \<Rightarrow> True | _ \<Rightarrow> False)"

lemma enrich_ok: "cnf_ok g \<Longrightarrow> \<exists>g'. enrich g = Val g'"
  by (auto simp: cnf_ok_def enrich_def Let_def loosely_empty_def split: jsval.splits)

lemma enrich_all_ok:
  "list_all cnf_ok gs \<Longrightarrow>
   \<exists>gs'. enrich_all gs = (gs', True) \<and> list_all2 (\<lambda>g g'. enrich g = Val g') gs gs'"
proof (induction gs)
  case (Cons g gs)
  then obtain g' gs' where "enrich g = Val g'" "enrich_all gs = (gs', True)"
    "list_all2 (\<lambda>g g'. enrich g = Val g') gs gs'"
    using enrich_ok by force
  then show ?case by simp
qed simp

text \<open>
  Rendering the front page selects the first category and shows its goods, each with its
  wholesale table and stock bar, provided the price tables are texts or empty; with no
  category it throws.
\<close>

theorem front_page_renders:
  "(cates w = [] \<longrightarrow> fst (render_home p w) = Throw TypeError) \<and>
   (cates w \<noteq> [] \<and> list_all cnf_ok (ct_goods (hd (cates w))) \<longrightarrow>
      (\<exists>w' gs. render_home p w = (Next, w') \<and> selected_cate w' = Some 0 \<and>
         goods_html w' = concat (map (goodsTpl p) gs) \<and>
         list_all2 (\<lambda>g g'. enrich g = Val g') (ct_goods (hd (cates w))) gs))"
proof (cases "cates w")
  case Nil
  then show ?thesis
    by (simp add: render_home_def changeCate_def number_cates_def js_run)
next
  case (Cons c cs)
  have k: "number_cates (c # cs) ! 0 = c\<lparr>ct_key := 0\<rparr>" "number_cates (c # cs) \<noteq> []"
    by (simp_all add: number_cates_def upt_rec)
  show ?thesis
  proof (cases "list_all cnf_ok (ct_goods c)")
    case True
    then obtain gs where "enrich_all (ct_goods c) = (gs, True)"
      "list_all2 (\<lambda>g g'. enrich g = Val g') (ct_goods c) gs"
      using enrich_all_ok by blast
    then show ?thesis using Cons k
      by (auto simp: render_home_def changeCate_def js_run Let_def)
  qed (use Cons in simp)
qed

definition demo_goods :: goods where
  "demo_goods =
     \<lparr>gd_cnf = Str (''5=9''), gd_arr = [], gd_in_stock = Fin 1, gd_sales_volume = Fin 1,
      gd_proportion = NaN\<rparr>"

theorem front_page_renders_witness:
  "\<exists>w'. render_home demo_page (demo_shop\<lparr>cates := [\<lparr>ct_key = 7, ct_goods = [demo_goods]\<rparr>]\<rparr>) = (Next, w') \<and>
     selected_cate w' = Some 0"
  using front_page_renders [of "demo_shop\<lparr>cates := [\<lparr>ct_key = 7, ct_goods = [demo_goods]\<rparr>]\<rparr>" demo_page]
  by (auto simp: cnf_ok_def demo_goods_def)

end
