(* ===== verification/Pay_Page.thy ===== *)
theory Pay_Page imports Viewer_Util begin

text \<open>
  The waiting page of a payment: the inline scripts of \<open>cldxpay.html\<close>, \<open>qrpay.html\<close> and
  \<open>usdtpay.html\<close> ask the server at intervals whether the order is paid, and the handler
  \<open>poll\<close> of \<open>server.go\<close> answers. A request is outstanding until its answer arrives, which
  may be after the interval is cleared or after a later request has been answered; a run is
  a list of ticks of the interval and of arriving answers.
\<close>

section \<open>The page\<close>

text \<open>The texts that the scripts write into the element \<open>pay-state\<close>.\<close>

datatype notice =
    NothingYet | WaitingForPayment | OrderExpired | OrderExpiredLate | OrderException
  | PaymentSeen | CannotAsk | CopyByHand | Copied | CopyFailed

text \<open>
  \<open>state\<close> is None when the page has no \<open>pay-state\<close>, \<open>pay_now\<close> when it has no block to hide.
  \<open>asked\<close> lists the addresses fetched, \<open>outstanding\<close> counts those without an answer.
\<close>

record cashier =
  polling :: bool
  outstanding :: nat
  asked :: "string list"
  state :: "notice option"
  pay_now :: "bool option"
  location :: "string option"

text \<open>\<open>encodeURIComponent\<close> of a text given as UTF-8 bytes.\<close>

definition unreserved :: "char \<Rightarrow> bool" where
  "unreserved c \<longleftrightarrow> is_digit c \<or> is_upper c \<or> is_lower c \<or>
     c \<in> {CHR ''-'', CHR ''_'', CHR ''.'', CHR ''!'', CHR ''~'', CHR ''*'', CHR 0x27, CHR ''('', CHR '')''}"

definition hex_digit :: "nat \<Rightarrow> char" where
  "hex_digit n = (if n < 10 then char_of (48 + n) else char_of (55 + n))"

fun encodeURIComponent :: "string \<Rightarrow> string" where
  "encodeURIComponent [] = []"
| "encodeURIComponent (c # cs) =
     (if unreserved c then [c] else [CHR ''%'', hex_digit (code c div 16), hex_digit (code c mod 16)]) @
     encodeURIComponent cs"

definition status_url :: "string \<Rightarrow> string" where
  "status_url sn = ''/check-order-status/'' @ encodeURIComponent sn"

definition detail_url :: "string \<Rightarrow> string" where
  "detail_url sn = ''/detail-order-sn/'' @ encodeURIComponent sn"

section \<open>Answers\<close>

text \<open>A request fails, or is answered with a status (good or not) and a body (None: not JSON).\<close>

datatype reply = Lost | Reply bool "jsval option"

definition catchS :: "'s stmt \<Rightarrow> 's stmt \<Rightarrow> 's stmt" where
  "catchS s h w = (case s w of (Throw e, w') \<Rightarrow> h w' | r \<Rightarrow> r)"

text \<open>\<open>res.code\<close>\<close>

definition reply_code :: "jsval \<Rightarrow> (cashier, jsval) expr" where
  "reply_code v w =
     (case v of
        Undefined \<Rightarrow> (Exn TypeError, w)
      | Null \<Rightarrow> (Exn TypeError, w)
      | Obj ps \<Rightarrow> (Val (oget ps ''code''), w)
      | _ \<Rightarrow> (Val Undefined, w))"

definition is_code :: "nat \<Rightarrow> jsval \<Rightarrow> bool" where
  "is_code n c \<longleftrightarrow> c = Num (nnat n)"

text \<open>The body of a reply: \<open>r.json()\<close> rejects what is not JSON.\<close>

definition with_body :: "reply \<Rightarrow> (jsval \<Rightarrow> cashier stmt) \<Rightarrow> cashier stmt" where
  "with_body r k =
     (case r of
        Lost \<Rightarrow> throw TypeError
      | Reply ok body \<Rightarrow> (case body of None \<Rightarrow> throw (PlainError ''SyntaxError'') | Some v \<Rightarrow> k v))"

text \<open>\<open>if (state) state.textContent = ...\<close>, and the same without the test.\<close>

definition show_if_there :: "notice \<Rightarrow> cashier \<Rightarrow> cashier" where
  "show_if_there n w = w\<lparr>state := map_option (\<lambda>_. n) (state w)\<rparr>"

definition show_state :: "notice \<Rightarrow> cashier stmt" where
  "show_state n = ifS (\<lambda>w. state w = None) (throw TypeError) (upd (\<lambda>w. w\<lparr>state := Some n\<rparr>))"

definition clear_poll :: "cashier \<Rightarrow> cashier" where
  "clear_poll w = w\<lparr>polling := False\<rparr>"

definition cldx_code :: "string \<Rightarrow> jsval \<Rightarrow> cashier stmt" where
  "cldx_code sn c =
     block
       [whenS (\<lambda>w. is_code 400001 c)
          [upd clear_poll, upd (show_if_there OrderExpired),
           upd (\<lambda>w. w\<lparr>pay_now := map_option (\<lambda>_. False) (pay_now w)\<rparr>)],
        whenS (\<lambda>w. is_code 400002 c) [upd clear_poll, upd (show_if_there OrderException)],
        whenS (\<lambda>w. is_code 200 c)
          [upd clear_poll, upd (show_if_there PaymentSeen),
           upd (\<lambda>w. w\<lparr>location := Some (detail_url sn)\<rparr>)]]"

definition cldx_answer :: "string \<Rightarrow> reply \<Rightarrow> cashier stmt" where
  "cldx_answer sn r =
     catchS (with_body r (\<lambda>v. bindS (reply_code v) (cldx_code sn))) (upd (show_if_there CannotAsk))"

definition qr_answer :: "string \<Rightarrow> reply \<Rightarrow> cashier stmt" where
  "qr_answer = cldx_answer"

definition usdt_code :: "string \<Rightarrow> jsval \<Rightarrow> cashier stmt" where
  "usdt_code sn c =
     (if is_code 200 c then block
        [upd clear_poll, show_state PaymentSeen, upd (\<lambda>w. w\<lparr>location := Some (detail_url sn)\<rparr>)]
      else if is_code 400001 c then block
        [show_state OrderExpiredLate,
         ifS (\<lambda>w. pay_now w = None) (throw TypeError) (upd (\<lambda>w. w\<lparr>pay_now := Some False\<rparr>))]
      else if is_code 400002 c then block [upd clear_poll, show_state OrderException]
      else skip)"

definition usdt_answer :: "string \<Rightarrow> reply \<Rightarrow> cashier stmt" where
  "usdt_answer sn r =
     catchS
       (case r of
          Reply False body \<Rightarrow> throw (PlainError ''network'')
        | _ \<Rightarrow> with_body r (\<lambda>v. bindS (reply_code v) (usdt_code sn)))
       (show_state CannotAsk)"

section \<open>Runs\<close>

datatype page_kind = Cldx | Qr | Usdt

fun on_answer :: "page_kind \<Rightarrow> string \<Rightarrow> reply \<Rightarrow> cashier stmt" where
  "on_answer Cldx = cldx_answer"
| "on_answer Qr = qr_answer"
| "on_answer Usdt = usdt_answer"

text \<open>The script when the page is loaded: the interval is started and asks at its first tick.\<close>

definition cashier_ready :: "notice option \<Rightarrow> bool option \<Rightarrow> cashier" where
  "cashier_ready st pay =
     \<lparr>polling = True, outstanding = 0, asked = [], state = st, pay_now = pay, location = None\<rparr>"

datatype cashier_event = Tick | Answered reply

text \<open>An event that cannot happen, a tick of a cleared interval say, has no step.\<close>

fun cashier_step :: "page_kind \<Rightarrow> string \<Rightarrow> cashier_event \<Rightarrow> cashier \<Rightarrow> cashier option" where
  "cashier_step k sn Tick w =
     (if polling w
      then Some (w\<lparr>outstanding := Suc (outstanding w), asked := asked w @ [status_url sn]\<rparr>)
      else None)"
| "cashier_step k sn (Answered r) w =
     (if outstanding w = 0 then None
      else Some (snd (on_answer k sn r (w\<lparr>outstanding := outstanding w - 1\<rparr>))))"

fun cashier_run :: "page_kind \<Rightarrow> string \<Rightarrow> cashier_event list \<Rightarrow> cashier \<Rightarrow> cashier option" where
  "cashier_run k sn [] w = Some w"
| "cashier_run k sn (e # es) w =
     (case cashier_step k sn e w of None \<Rightarrow> None | Some w' \<Rightarrow> cashier_run k sn es w')"

section \<open>The server's answers\<close>

text \<open>What the look-up of an order finds: its status, no such order, or an error of the database.\<close>

datatype lookup = OrderWith int | NoSuchOrder | LookupError

definition pollLookupFailed :: "lookup \<Rightarrow> nat" where
  "pollLookupFailed l = (case l of NoSuchOrder \<Rightarrow> 400001 | _ \<Rightarrow> 400000)"

text \<open>\<open>synced\<close> is the status after the payment providers were asked.\<close>

definition poll :: "(int \<Rightarrow> int) \<Rightarrow> lookup \<Rightarrow> nat" where
  "poll synced l =
     (case l of
        OrderWith s0 \<Rightarrow>
          (let s = (if s0 = 1 \<or> s0 = -1 then synced s0 else s0)
           in if s = -1 then 400001
              else if s = 1 then 400000
              else if s \<noteq> 2 \<and> s \<noteq> 3 \<and> s \<noteq> 4 then 400002
              else 200)
      | _ \<Rightarrow> pollLookupFailed l)"

definition served :: "(int \<Rightarrow> int) \<Rightarrow> lookup \<Rightarrow> reply" where
  "served synced l = Reply True (Some (Obj [(''code'', Num (nnat (poll synced l)))]))"

section \<open>Copy buttons of the cashier\<close>

text \<open>
  \<open>writeText\<close> of the clipboard succeeds or fails; None when the browser has no clipboard.
  The page of this script always has the element \<open>pay-state\<close>.
\<close>

definition usdt_copy :: "bool option \<Rightarrow> cashier stmt" where
  "usdt_copy clipboard =
     (case clipboard of
        None \<Rightarrow> block [show_state CopyByHand, ret]
      | Some True \<Rightarrow> catchS (show_state Copied) (show_state CopyFailed)
      | Some False \<Rightarrow> show_state CopyFailed)"

end
