(* ===== verification/Pay_Props.thy ===== *)
theory Pay_Props imports Pay_Page begin

text \<open>
  What the waiting pages do for every order of ticks and answers: when they ask, when they
  stop, when they open the page of the order, and how the three of them differ.
\<close>

section \<open>What a reply says\<close>

definition says :: "page_kind \<Rightarrow> reply \<Rightarrow> nat \<Rightarrow> bool" where
  "says k r n =
     (case r of
        Reply ok (Some (Obj ps)) \<Rightarrow> (k = Usdt \<longrightarrow> ok) \<and> oget ps ''code'' = Num (nnat n)
      | _ \<Rightarrow> False)"

text \<open>The codes after which a page asks no more.\<close>

definition finals :: "page_kind \<Rightarrow> nat set" where
  "finals k = (if k = Usdt then {200, 400002} else {200, 400001, 400002})"

text \<open>What an answer changes, whatever it is: both scripts agree on this much.\<close>

definition settles :: "bool \<Rightarrow> bool \<Rightarrow> string \<Rightarrow> cashier \<Rightarrow> cashier \<Rightarrow> bool" where
  "settles paid over sn w w' \<longleftrightarrow>
     location w' = (if paid then Some (detail_url sn) else location w) \<and>
     polling w' = (polling w \<and> \<not> over) \<and> outstanding w' = outstanding w \<and>
     asked w' = asked w \<and> (state w' = None \<longleftrightarrow> state w = None)"

lemma settles_notice:
  "settles p b sn w (snd (show_state n u)) = settles p b sn w u"
  "settles p b sn w (show_if_there n u) = settles p b sn w u"
  by (auto simp: settles_def show_state_def show_if_there_def js_run)

lemma settles_catch:
  assumes "settles p b sn w (snd (s u))"
  shows "settles p b sn w (snd (catchS s (show_state n) u))"
    "settles p b sn w (snd (catchS s (upd (show_if_there n)) u))"
  using assms
  by (auto simp: catchS_def settles_notice js_run split: prod.split outcome.split)

lemma settles_code:
  "settles (is_code 200 c) (is_code 200 c \<or> is_code 400001 c \<or> is_code 400002 c) sn w (snd (cldx_code sn c w))"
  "state w \<noteq> None \<Longrightarrow>
   settles (is_code 200 c) (is_code 200 c \<or> is_code 400002 c) sn w (snd (usdt_code sn c w))"
  by (auto simp: settles_def cldx_code_def usdt_code_def js_run clear_poll_def show_if_there_def
      show_state_def is_code_def)

lemma settles_refl: "settles False False sn w w"
  by (simp add: settles_def)

definition code_is :: "(jsval \<Rightarrow> bool) \<Rightarrow> reply \<Rightarrow> bool" where
  "code_is q r = (case r of Reply ok (Some (Obj ps)) \<Rightarrow> q (oget ps ''code'') | _ \<Rightarrow> False)"

lemma settles_body:
  assumes "\<And>c. settles (is_code 200 c) (q c) sn w (snd (k c w))" "\<not> q Undefined"
  shows "settles (code_is (is_code 200) r) (code_is q r) sn w
    (snd (with_body r (\<lambda>v. bindS (reply_code v) k) w))"
proof -
  have "settles False False sn w (snd (k Undefined w))"
    using assms(1) [of Undefined] assms(2) by (simp add: is_code_def)
  then show ?thesis using assms(1)
    by (auto simp: with_body_def reply_code_def code_is_def js_run settles_refl
        split: reply.split option.split jsval.split)
qed

lemma says_code:
  "k \<noteq> Usdt \<Longrightarrow> says k r n = code_is (is_code n) r"
  "k \<noteq> Usdt \<Longrightarrow> (\<exists>n \<in> finals k. says k r n) =
     code_is (\<lambda>c. is_code 200 c \<or> is_code 400001 c \<or> is_code 400002 c) r"
  "(\<And>b. r \<noteq> Reply False b) \<Longrightarrow> says Usdt r n = code_is (is_code n) r"
  "(\<And>b. r \<noteq> Reply False b) \<Longrightarrow> (\<exists>n \<in> finals Usdt. says Usdt r n) =
     code_is (\<lambda>c. is_code 200 c \<or> is_code 400002 c) r"
  by (auto simp: says_def finals_def is_code_def code_is_def split: reply.split option.split jsval.split)

lemma cldx_settles:
  assumes "k \<noteq> Usdt"
  shows "settles (says k r 200) (\<exists>n \<in> finals k. says k r n) sn w (snd (cldx_answer sn r w))"
  unfolding says_code(2) [OF assms]
  unfolding says_code(1) [OF assms] cldx_answer_def
  by (intro settles_catch settles_body settles_code) (simp add: is_code_def)

lemma usdt_settles:
  assumes "state w \<noteq> None"
  shows "settles (says Usdt r 200) (\<exists>n \<in> finals Usdt. says Usdt r n) sn w (snd (usdt_answer sn r w))"
proof (cases "\<exists>body. r = Reply False body")
  case True
  then obtain b where r: "r = Reply False b" by auto
  then have "\<not> says Usdt r n" for n by (simp add: says_def split: option.split jsval.split)
  with r show ?thesis
    by (simp add: usdt_answer_def catchS_def js_run settles_notice settles_refl)
next
  case False
  then have r: "(case r of Reply False body \<Rightarrow> throw (PlainError ''network'') | _ \<Rightarrow> s) = s" for s :: "cashier stmt"
    by (auto split: reply.split bool.split)
  have says: "says Usdt r 200 = code_is (is_code 200) r"
    using False by (intro says_code) auto
  have fin: "(\<exists>n \<in> finals Usdt. says Usdt r n) = code_is (\<lambda>c. is_code 200 c \<or> is_code 400002 c) r"
    using False by (intro says_code) auto
  show ?thesis
    unfolding usdt_answer_def r says fin
    by (intro settles_catch settles_body settles_code assms) (simp add: is_code_def)
qed

lemma answer_settles:
  "state w \<noteq> None \<Longrightarrow>
   settles (says k r 200) (\<exists>n \<in> finals k. says k r n) sn w (snd (on_answer k sn r w))"
  by (cases k) (simp_all add: qr_answer_def cldx_settles usdt_settles)

section \<open>Whole runs\<close>

lemma run_settles:
  assumes "cashier_run k sn es w = Some w'" "state w \<noteq> None"
  shows "settles (\<exists>r. Answered r \<in> set es \<and> says k r 200)
      (\<exists>r. Answered r \<in> set es \<and> (\<exists>n \<in> finals k. says k r n)) sn
      (w\<lparr>outstanding := outstanding w', asked := asked w'\<rparr>) w' \<and>
    outstanding w' + length (filter (\<lambda>e. e \<noteq> Tick) es) = outstanding w + length (filter (\<lambda>e. e = Tick) es) \<and>
    asked w' = asked w @ replicate (length (filter (\<lambda>e. e = Tick) es)) (status_url sn)"
  using assms
proof (induction es arbitrary: w)
  case Nil
  then show ?case by (simp add: settles_def)
next
  case (Cons e es)
  then obtain u where u: "cashier_step k sn e w = Some u" "cashier_run k sn es u = Some w'"
    by (auto split: option.splits)
  show ?case
  proof (cases e)
    case Tick
    with u(1) have "u = w\<lparr>outstanding := Suc (outstanding w), asked := asked w @ [status_url sn]\<rparr>"
      by (auto split: if_splits)
    with Cons.IH [OF u(2)] Cons.prems(2) Tick show ?thesis by (auto simp: settles_def)
  next
    case (Answered r)
    let ?v = "w\<lparr>outstanding := outstanding w - 1\<rparr>"
    from u(1) Answered have o: "0 < outstanding w" "u = snd (on_answer k sn r ?v)"
      by (auto split: if_splits)
    have "settles (says k r 200) (\<exists>n \<in> finals k. says k r n) sn ?v u"
      using answer_settles [of ?v k r sn] Cons.prems(2) o(2) by simp
    with Cons.IH [OF u(2)] Cons.prems(2) Answered o(1) show ?thesis
      by (auto simp: settles_def)
  qed
qed

section \<open>The properties of the waiting page\<close>

lemmas answer_defs = cldx_answer_def qr_answer_def usdt_answer_def with_body_def catchS_def reply_code_def
  js_run usdt_code_def cldx_code_def is_code_def show_state_def show_if_there_def clear_poll_def

text \<open>The order is paid, completed or being processed after the look-up.\<close>

definition paid :: "(int \<Rightarrow> int) \<Rightarrow> lookup \<Rightarrow> bool" where
  "paid synced l =
     (case l of
        OrderWith s \<Rightarrow> (if s = 1 \<or> s = -1 then synced s else s) \<in> {2, 3, 4}
      | _ \<Rightarrow> False)"

lemma says_served: "says k (served synced l) n \<longleftrightarrow> poll synced l = n"
  by (simp add: says_def served_def)

lemma poll_paid: "poll synced l = 200 \<longleftrightarrow> paid synced l"
  by (auto simp: poll_def paid_def pollLookupFailed_def Let_def split: lookup.split)

lemma says_Lost [simp]: "\<not> says k Lost n"
  by (simp add: says_def)

text \<open>
  C17: for every order of ticks and answers of the server, lost ones included, the waiting page opens
  the page of the order exactly when one of the answers says that the order is paid.
\<close>

theorem page_opens_when_paid:
  assumes "cashier_run k sn es (cashier_ready (Some st) pay) = Some w"
    and "\<And>r. Answered r \<in> set es \<Longrightarrow> r = Lost \<or> r \<in> range (served synced)"
  shows "location w =
    (if \<exists>l. Answered (served synced l) \<in> set es \<and> paid synced l then Some (detail_url sn) else None)"
proof -
  have "location w = (if \<exists>r. Answered r \<in> set es \<and> says k r 200 then Some (detail_url sn) else None)"
    using run_settles [OF assms(1)] by (simp add: settles_def cashier_ready_def)
  moreover have "(\<exists>r. Answered r \<in> set es \<and> says k r 200) \<longleftrightarrow>
      (\<exists>l. Answered (served synced l) \<in> set es \<and> paid synced l)"
    using assms(2) by (force simp: says_served poll_paid)
  ultimately show ?thesis by simp
qed

definition paid_run :: "cashier_event list" where
  "paid_run = [Tick, Answered (served id (OrderWith 1)), Tick, Answered Lost, Tick, Answered (served id (OrderWith 4))]"

lemma paid_run_ends: "\<exists>w. cashier_run Qr ''A1'' paid_run (cashier_ready (Some NothingYet) None) = Some w"
  by (simp add: paid_run_def cashier_ready_def)
     (simp add: answer_defs served_def poll_def cldx_code_def is_code_def show_if_there_def Let_def split_def)

theorem page_opens_when_paid_witness:
  "\<exists>w. cashier_run Qr ''A1'' paid_run (cashier_ready (Some NothingYet) None) = Some w \<and>
     location w = Some (detail_url ''A1'')"
proof -
  obtain w where w: "cashier_run Qr ''A1'' paid_run (cashier_ready (Some NothingYet) None) = Some w"
    using paid_run_ends by blast
  have "r = Lost \<or> r \<in> range (served id)" if "Answered r \<in> set paid_run" for r
    using that by (auto simp: paid_run_def)
  from page_opens_when_paid [OF w this] have "location w = Some (detail_url ''A1'')"
    by (auto simp: paid_run_def paid_def)
  with w show ?thesis by blast
qed

theorem asks_until_final_answer:
  assumes "cashier_run k sn es (cashier_ready (Some st) pay) = Some w"
  shows "(polling w \<longleftrightarrow> \<not> (\<exists>r. Answered r \<in> set es \<and> (\<exists>n \<in> finals k. says k r n))) \<and>
    asked w = replicate (length (filter (\<lambda>e. e = Tick) es)) (status_url sn)"
  using run_settles [OF assms] by (simp add: settles_def cashier_ready_def)

theorem asks_until_final_answer_witness:
  "\<exists>w. cashier_run Qr ''A1'' paid_run (cashier_ready (Some NothingYet) None) = Some w \<and>
     \<not> polling w \<and> length (asked w) = 3"
proof -
  obtain w where w: "cashier_run Qr ''A1'' paid_run (cashier_ready (Some NothingYet) None) = Some w"
    using paid_run_ends by blast
  have "says Qr (served id (OrderWith 4)) 200" "200 \<in> finals Qr"
    by (simp_all add: says_served poll_def finals_def)
  with asks_until_final_answer [OF w] show ?thesis using w by (auto simp: paid_run_def)
qed

lemma run_append:
  "cashier_run k sn (es @ es') w =
     (case cashier_run k sn es w of None \<Rightarrow> None | Some w' \<Rightarrow> cashier_run k sn es' w')"
  by (induction es arbitrary: w) (auto split: option.split)

theorem goes_quiet_after_final_answer:
  assumes "cashier_run k sn (es @ Answered r # es') (cashier_ready (Some st) pay) = Some w"
    and "says k r n" "n \<in> finals k"
  shows "Tick \<notin> set es' \<and> length es' < length (filter (\<lambda>e. e = Tick) es)"
proof -
  obtain u where u: "cashier_run k sn (es @ [Answered r]) (cashier_ready (Some st) pay) = Some u"
    "cashier_run k sn es' u = Some w"
    using assms(1) by (auto simp: run_append split: option.splits)
  have off: "\<not> polling u" "state u \<noteq> None"
    using run_settles [OF u(1)] assms(2, 3) by (auto simp: settles_def cashier_ready_def)
  have "\<not> polling v \<Longrightarrow> state v \<noteq> None \<Longrightarrow> cashier_run k sn xs v = Some w \<Longrightarrow> Tick \<notin> set xs" for xs v
  proof (induction xs arbitrary: v)
    case (Cons e xs)
    then obtain v' where v': "cashier_step k sn e v = Some v'" "cashier_run k sn xs v' = Some w"
      by (auto split: option.splits)
    with Cons.prems(1) obtain q where "e = Answered q" "v' = snd (on_answer k sn q (v\<lparr>outstanding := outstanding v - 1\<rparr>))"
      by (cases e) (auto split: if_splits)
    with v' Cons.IH [of v'] Cons.prems(1, 2)
      answer_settles [of "v\<lparr>outstanding := outstanding v - 1\<rparr>" k q sn]
    show ?case by (auto simp: settles_def)
  qed simp
  from this [OF off u(2)] have t: "Tick \<notin> set es'" .
  then have "filter (\<lambda>e. e = Tick) es' = []" "filter (\<lambda>e. e \<noteq> Tick) es' = es'"
    by (auto simp: filter_empty_conv filter_id_conv)
  with run_settles [OF assms(1)] t show ?thesis by (simp add: cashier_ready_def)
qed

theorem goes_quiet_after_final_answer_witness:
  "Tick \<notin> set [Answered Lost] \<and> length [Answered Lost] < 2"
proof -
  have "\<exists>w. cashier_run Cldx ''A1'' ([Tick, Tick] @ Answered (served id NoSuchOrder) # [Answered Lost])
      (cashier_ready (Some NothingYet) None) = Some w"
    by (simp add: cashier_ready_def answer_defs served_def poll_def pollLookupFailed_def)
  moreover have "says Cldx (served id NoSuchOrder) 400001" "400001 \<in> finals Cldx"
    by (simp_all add: says_served poll_def pollLookupFailed_def finals_def)
  ultimately show ?thesis
    using goes_quiet_after_final_answer
      [of Cldx "''A1''" "[Tick, Tick]" "served id NoSuchOrder" "[Answered Lost]"] by fastforce
qed

text \<open>
  C18: as long as no final answer has arrived, whatever was asked, lost or refused before, one more
  question that the server answers for a paid order opens the page of the order and stops the
  questions: no earlier failure stands in the way of a payment.
\<close>

theorem payment_is_always_noticed:
  assumes "cashier_run k sn es (cashier_ready (Some st) pay) = Some w"
    and "\<And>r. Answered r \<in> set es \<Longrightarrow> \<forall>n \<in> finals k. \<not> says k r n" and "paid synced l"
  shows "\<exists>w'. cashier_run k sn (es @ [Tick, Answered (served synced l)]) (cashier_ready (Some st) pay) = Some w' \<and>
    location w' = Some (detail_url sn) \<and> \<not> polling w' \<and> asked w' = asked w @ [status_url sn]"
proof -
  have run: "cashier_run k sn (es @ [Tick, Answered (served synced l)]) (cashier_ready (Some st) pay) =
      Some (snd (on_answer k sn (served synced l)
        (w\<lparr>asked := asked w @ [status_url sn]\<rparr>)))" (is "_ = Some ?w'")
    using assms(1) run_settles [OF assms(1)] assms(2) by (simp add: run_append settles_def cashier_ready_def)
  have "says k (served synced l) 200" "200 \<in> finals k"
    using assms(3) by (simp_all add: says_served poll_paid finals_def)
  moreover have "settles (says k (served synced l) 200) (\<exists>n \<in> finals k. says k (served synced l) n) sn
      (w\<lparr>asked := asked w @ [status_url sn]\<rparr>) ?w'"
    using run_settles [OF assms(1)] by (intro answer_settles) (simp add: settles_def cashier_ready_def)
  ultimately show ?thesis using run by (auto simp: settles_def)
qed

theorem payment_is_always_noticed_witness:
  "\<exists>w'. cashier_run Usdt ''A1'' ([Tick, Answered (served id NoSuchOrder), Tick, Answered Lost] @
       [Tick, Answered (served id (OrderWith 2))]) (cashier_ready (Some WaitingForPayment) (Some True)) = Some w' \<and>
     location w' = Some (detail_url ''A1'')"
proof -
  let ?es = "[Tick, Answered (served id NoSuchOrder), Tick, Answered Lost]"
  obtain w where w: "cashier_run Usdt ''A1'' ?es (cashier_ready (Some WaitingForPayment) (Some True)) = Some w"
    by (simp add: cashier_ready_def answer_defs served_def poll_def pollLookupFailed_def)
  have "\<forall>n \<in> finals Usdt. \<not> says Usdt r n" if "Answered r \<in> set ?es" for r
    using that by (auto simp: says_served poll_def pollLookupFailed_def finals_def)
  moreover have "paid id (OrderWith 2)" by (simp add: paid_def)
  ultimately show ?thesis using payment_is_always_noticed [OF w] by blast
qed

text \<open>One answer is the same step for both scripts unless it tells of an expired order.\<close>

lemma same_answer:
  assumes "state w \<noteq> None" "\<not> says Cldx r 400001" "\<And>b. r \<noteq> Reply False b"
  shows "snd (usdt_answer sn r w) = snd (cldx_answer sn r w)"
proof -
  have r: "(case r of Reply False body \<Rightarrow> throw (PlainError ''network'') | _ \<Rightarrow> s) = s" for s :: "cashier stmt"
    using assms(3) by (auto split: reply.split bool.split)
  have show_same: "show_state n u = (Next, show_if_there n u)" if "state u \<noteq> None" for n u
    using that by (auto simp: show_state_def show_if_there_def js_run)
  have code: "usdt_code sn c w = cldx_code sn c w" if "\<not> is_code 400001 c" for c
    using that assms(1)
    by (auto simp: usdt_code_def cldx_code_def js_run show_same clear_poll_def is_code_def)
  have "\<not> (\<exists>ok ps. r = Reply ok (Some (Obj ps)) \<and> is_code 400001 (oget ps ''code''))"
    using assms(2) by (auto simp: says_def is_code_def)
  moreover have "\<not> is_code 400001 Undefined" by (simp add: is_code_def)
  ultimately have body: "with_body r (\<lambda>v. bindS (reply_code v) (usdt_code sn)) w =
      with_body r (\<lambda>v. bindS (reply_code v) (cldx_code sn)) w"
    using code
    by (simp add: with_body_def reply_code_def bindS_def split: reply.split option.split jsval.split)
  have "settles (code_is (is_code 200) r) (code_is (\<lambda>c. is_code 200 c \<or> is_code 400001 c \<or> is_code 400002 c) r)
      sn w (snd (with_body r (\<lambda>v. bindS (reply_code v) (cldx_code sn)) w))"
    by (intro settles_body settles_code) (simp add: is_code_def)
  then have "state (snd (with_body r (\<lambda>v. bindS (reply_code v) (cldx_code sn)) w)) \<noteq> None"
    using assms(1) by (simp add: settles_def)
  then show ?thesis
    unfolding usdt_answer_def cldx_answer_def r
    by (auto simp: catchS_def body show_same upd_def split: prod.split outcome.split)
qed

text \<open>
  Unless an answer tells of an expired order or carries an error status, the waiting page for USDT
  and the one for other payments do the same, step by step.
\<close>

theorem cashiers_agree:
  assumes "state w \<noteq> None"
    and "\<And>r. Answered r \<in> set es \<Longrightarrow> \<not> says Cldx r 400001 \<and> (\<forall>b. r \<noteq> Reply False b)"
  shows "cashier_run Usdt sn es w = cashier_run Cldx sn es w"
  using assms
proof (induction es arbitrary: w)
  case (Cons e es)
  have same: "cashier_step Usdt sn e w = cashier_step Cldx sn e w"
    using Cons.prems by (cases e) (auto simp: same_answer)
  show ?case
  proof (cases "cashier_step Cldx sn e w")
    case (Some v)
    then have "state v \<noteq> None"
      using Cons.prems(1) answer_settles [of "w\<lparr>outstanding := outstanding w - 1\<rparr>" Cldx _ sn]
      by (cases e) (auto simp: settles_def split: if_splits)
    with Cons.IH [OF this] Cons.prems(2) same Some show ?thesis by simp
  qed (use same in simp)
qed simp

theorem cashiers_agree_witness:
  "cashier_run Usdt ''A1'' paid_run (cashier_ready (Some WaitingForPayment) (Some True)) =
   cashier_run Cldx ''A1'' paid_run (cashier_ready (Some WaitingForPayment) (Some True))"
  by (rule cashiers_agree)
     (auto simp: cashier_ready_def paid_run_def says_served poll_def, auto simp: served_def)

theorem late_payment_is_seen:
  "cashier_run Usdt sn [Tick, Answered (served id (OrderWith (-1))), Tick, Answered (served id (OrderWith 2))]
     (cashier_ready (Some WaitingForPayment) (Some True)) =
   Some \<lparr>polling = False, outstanding = 0, asked = [status_url sn, status_url sn],
     state = Some PaymentSeen, pay_now = Some False, location = Some (detail_url sn)\<rparr> \<and>
   cashier_run Cldx sn [Tick, Answered (served id (OrderWith (-1))), Tick]
     (cashier_ready (Some NothingYet) (Some True)) = None"
  by (simp add: cashier_ready_def answer_defs served_def poll_def usdt_code_def cldx_code_def is_code_def
      show_state_def show_if_there_def clear_poll_def Let_def)

theorem notices_go_stale:
  "\<exists>w v. cashier_run k sn [Tick, Tick, Answered (served id (OrderWith 4)), Answered Lost]
       (cashier_ready (Some NothingYet) pay) = Some w \<and>
     location w = Some (detail_url sn) \<and> state w = Some CannotAsk \<and>
   cashier_run k sn [Tick, Answered Lost, Tick, Answered (served id (OrderWith 1))]
       (cashier_ready (Some NothingYet) pay) = Some v \<and> polling v \<and> state v = Some CannotAsk"
  by (cases k)
     (simp_all add: cashier_ready_def answer_defs served_def poll_def usdt_code_def cldx_code_def is_code_def
      show_state_def show_if_there_def clear_poll_def Let_def)

section \<open>The addresses\<close>

lemma hex_val_digit: "n < 16 \<Longrightarrow> hex_val (hex_digit n) = Some n"
  by (auto simp: hex_val_def hex_digit_def is_digit_def code_def)

definition escape_of :: "char \<Rightarrow> pct" where
  "escape_of c = (if unreserved c then Raw c else Enc (code c))"

lemma code_bound: "code c < 256"
  by (simp add: code_def)

lemma unreserved_not_percent: "unreserved c \<Longrightarrow> c \<noteq> CHR ''%''"
  by (auto simp: unreserved_def is_digit_def is_upper_def is_lower_def code_def)

lemma pct_tokens_encode: "pct_tokens (encodeURIComponent s) = Some (map escape_of s)"
proof (induction s)
  case (Cons c s)
  have "code c div 16 < 16" "code c mod 16 < 16" using code_bound [of c] by simp_all
  then show ?case
    using Cons unreserved_not_percent [of c] by (auto simp: hex_val_digit escape_of_def)
qed simp

lemma pct_byte_escape: "pct_byte (escape_of c) = c"
  by (simp add: pct_byte_def escape_of_def code_def)

text \<open>
  An order number that is UTF-8 text is read back unchanged from the addresses the waiting page
  asks and opens, and adds no slash and no question mark to them.
\<close>

theorem order_number_survives_url:
  assumes "utf8_ok 0 0 0 (map escape_of sn)"
  shows "decodeURIComponent (drop (length ''/detail-order-sn/'') (detail_url sn)) = Val sn \<and>
    decodeURIComponent (drop (length ''/check-order-status/'') (status_url sn)) = Val sn \<and>
    CHR ''/'' \<notin> set (encodeURIComponent sn) \<and> CHR ''?'' \<notin> set (encodeURIComponent sn)"
proof -
  have "decodeURIComponent (encodeURIComponent sn) = Val sn"
    using assms by (simp add: decodeURIComponent_def pct_tokens_encode pct_byte_escape map_idI)
  moreover have h: "CHR ''/'' \<noteq> hex_digit n \<and> CHR ''?'' \<noteq> hex_digit n" if "n < 16" for n
    using that by (auto simp: hex_digit_def char_of_eq_iff take_bit_nat_eq_self dest: sym)
  have u: "unreserved c \<Longrightarrow> CHR ''/'' \<noteq> c \<and> CHR ''?'' \<noteq> c" for c
    by (auto simp: unreserved_def is_digit_def is_upper_def is_lower_def code_def)
  have "CHR ''/'' \<notin> set (encodeURIComponent sn) \<and> CHR ''?'' \<notin> set (encodeURIComponent sn)"
  proof (induction sn)
    case (Cons c s)
    have "code c div 16 < 16" "code c mod 16 < 16" using code_bound [of c] by simp_all
    with Cons h u [of c] show ?case by simp
  qed simp
  ultimately show ?thesis by (simp add: detail_url_def status_url_def)
qed

theorem order_number_survives_url_witness:
  "decodeURIComponent (drop (length ''/detail-order-sn/'') (detail_url ''A/1?'')) = Val ''A/1?''"
proof -
  have "utf8_ok 0 0 0 (map escape_of ''A/1?'')"
    by (simp add: escape_of_def unreserved_def is_digit_def is_upper_def is_lower_def code_def)
  from order_number_survives_url [OF this] show ?thesis by blast
qed

end
