(* ===== verification/Pay_Clock.thy ===== *)
theory Pay_Clock imports Js_Facts begin

text \<open>
  The countdown of a payment, the inline script of \<open>payclock.html\<close>: what it paints at a given
  time, the block with the payment that it hides when nothing is left, and its interval,
  which stops itself.
\<close>

section \<open>Arithmetic of the script\<close>

fun nfloor :: "jsnum \<Rightarrow> jsnum" where
  "nfloor (Fin a) = Fin (of_int \<lfloor>a\<rfloor>)"
| "nfloor x = x"

text \<open>The remainder \<open>%\<close> has the sign of the dividend.\<close>

fun nrem :: "jsnum \<Rightarrow> jsnum \<Rightarrow> jsnum" where
  "nrem (Fin a) (Fin b) =
     (if b = 0 then NaN
      else if 0 \<le> a / b then Fin (a - b * of_int \<lfloor>a / b\<rfloor>) else Fin (a - b * of_int \<lceil>a / b\<rceil>))"
| "nrem (Fin a) y = (if y = NaN then NaN else Fin a)"
| "nrem x y = NaN"

section \<open>The clock\<close>

text \<open>The texts for minutes and seconds, in UTF-8.\<close>

definition minutes_sign :: string where "minutes_sign = [CHR 0xE5, CHR 0x88, CHR 0x86]"

definition seconds_sign :: string where "seconds_sign = [CHR 0xE7, CHR 0xA7, CHR 0x92]"

text \<open>\<open>pay_block\<close> says whether the block is displayed, None when the page has none.\<close>

record clock =
  clock_text :: string
  pay_block :: "bool option"
  ticking :: bool

text \<open>The attribute \<open>data-deadline\<close> in seconds; a missing attribute counts as zero.\<close>

definition deadline :: "string option \<Rightarrow> jsnum" where
  "deadline attr = nmul (case attr of None \<Rightarrow> Fin 0 | Some s \<Rightarrow> str_to_num s) (Fin 1000)"

definition time_left :: "jsnum \<Rightarrow> jsnum \<Rightarrow> jsnum" where
  "time_left end now = nmax (Fin 0) (nfloor (ndiv (nsub end now) (Fin 1000)))"

definition clock_face :: "jsnum \<Rightarrow> string" where
  "clock_face left =
     (let m = nfloor (ndiv left (Fin 60)); s = nrem left (Fin 60)
      in num_to_str m @ minutes_sign @ (if nlt s (Fin 10) then ''0'' else []) @ num_to_str s @ seconds_sign)"

definition paint :: "jsnum \<Rightarrow> jsnum \<Rightarrow> clock \<Rightarrow> jsnum \<times> clock" where
  "paint end now c =
     (let left = time_left end now;
          c1 = c\<lparr>clock_text := clock_face left\<rparr>;
          c2 = (if left = Fin 0 then c1\<lparr>pay_block := map_option (\<lambda>_. False) (pay_block c1)\<rparr> else c1)
      in (left, c2))"

text \<open>Loading the script paints once and starts the interval, whatever is left.\<close>

definition clock_start :: "jsnum \<Rightarrow> jsnum \<Rightarrow> clock \<Rightarrow> clock" where
  "clock_start end now c = (snd (paint end now c))\<lparr>ticking := True\<rparr>"

definition clock_tick :: "jsnum \<Rightarrow> jsnum \<Rightarrow> clock \<Rightarrow> clock" where
  "clock_tick end now c =
     (if ticking c then
        let (left, c1) = paint end now c in (if left = Fin 0 then c1\<lparr>ticking := False\<rparr> else c1)
      else c)"

text \<open>The interval fires at the given times.\<close>

definition clock_run :: "jsnum \<Rightarrow> jsnum list \<Rightarrow> clock \<Rightarrow> clock" where
  "clock_run end ts c = foldl (\<lambda>c t. clock_tick end t c) c ts"

section \<open>What it shows\<close>

definition seconds_left :: "real \<Rightarrow> real \<Rightarrow> nat" where
  "seconds_left end now = nat \<lfloor>(end - now) / 1000\<rfloor>"

lemma time_left_Fin: "time_left (Fin e) (Fin t) = nnat (seconds_left e t)"
proof -
  have "max 0 (of_int \<lfloor>x\<rfloor>) = real (nat \<lfloor>x\<rfloor>)" for x :: real
    by (cases "0 \<le> \<lfloor>x\<rfloor>") auto
  then show ?thesis by (simp add: time_left_def seconds_left_def)
qed

definition two_digits :: "nat \<Rightarrow> string" where
  "two_digits s = (if s < 10 then ''0'' else []) @ nat_to_str s"

lemma floor_div_60: "\<lfloor>real n / 60\<rfloor> = int (n div 60)"
  using floor_divide_of_nat_eq [of n 60] by simp

lemma clock_face_nat:
  "clock_face (nnat n) = nat_to_str (n div 60) @ minutes_sign @ two_digits (n mod 60) @ seconds_sign"
proof -
  have "real n - 60 * real (n div 60) = real (n mod 60)"
    by (simp add: minus_div_mult_eq_mod [symmetric] of_nat_diff)
  moreover have "real n / 60 \<ge> 0" by simp
  ultimately have "nrem (nnat n) (Fin 60) = nnat (n mod 60)"
    by (simp add: floor_div_60)
  moreover have "nfloor (ndiv (nnat n) (Fin 60)) = nnat (n div 60)"
    by (simp add: floor_div_60)
  ultimately show ?thesis by (simp add: clock_face_def two_digits_def Let_def del: nrem.simps nfloor.simps ndiv.simps num_to_str.simps)
qed


text \<open>Reading a text that starts with digits.\<close>

lemma parseInt_digits:
  assumes "list_all is_digit ds" "ds \<noteq> []" "\<not> is_digit c"
  shows "parseInt (ds @ c # r) = nnat (digits_val ds)"
proof -
  obtain d ds' where d: "ds = d # ds'" "is_digit d" using assms(1, 2) by (cases ds) auto
  then have "\<not> is_space d" "d \<noteq> CHR ''+''" "d \<noteq> CHR ''-''" by (simp_all add: is_digit_not)
  moreover have "takeWhile is_digit (ds @ c # r) = ds"
    using assms(1, 3) by (subst takeWhile_append2) (auto simp: list_all_iff)
  ultimately show ?thesis using d by (simp add: parseInt_def)
qed

lemma two_digits_facts:
  "list_all is_digit (two_digits s)" "two_digits s \<noteq> []" "digits_val (two_digits s) = s"
proof -
  have z: "digits_val (CHR ''0'' # ds) = digits_val ds" for ds
    by (simp add: digits_val_def digit_val_def code_def)
  show "list_all is_digit (two_digits s)" "two_digits s \<noteq> []" "digits_val (two_digits s) = s"
    using nat_to_str_digits [of s] nat_to_str_not_Nil [of s]
    by (simp_all add: two_digits_def z is_digit_def code_def)
qed

definition after_minutes :: "string \<Rightarrow> string" where
  "after_minutes s = drop (length minutes_sign) (dropWhile is_digit s)"

lemma tick_text:
  "ticking c \<Longrightarrow> clock_text (clock_tick (Fin e) (Fin t) c) = clock_face (nnat (seconds_left e t))"
  by (simp add: clock_tick_def paint_def Let_def time_left_Fin)

text \<open>
  What a tick writes are the minutes and the seconds, below sixty, of the time that is left: reading
  the two numbers back gives the whole seconds up to the deadline.
\<close>

theorem clock_reads_back:
  assumes "ticking c"
  shows "\<exists>m s. parseInt (clock_text (clock_tick (Fin e) (Fin t) c)) = nnat m \<and>
    parseInt (after_minutes (clock_text (clock_tick (Fin e) (Fin t) c))) = nnat s \<and>
    s < 60 \<and> 60 * m + s = seconds_left e t"
proof -
  let ?n = "seconds_left e t"
  have sign: "\<not> is_digit (CHR 0xE5)" "\<not> is_digit (CHR 0xE7)" by (simp_all add: is_digit_def code_def)
  have "dropWhile is_digit (nat_to_str m @ CHR 0xE5 # r) = CHR 0xE5 # r" for m r
    using nat_to_str_digits [of m] sign by (subst dropWhile_append2) (auto simp: list_all_iff)
  then have "parseInt (after_minutes (clock_face (nnat ?n))) = nnat (?n mod 60)"
    by (simp add: clock_face_nat after_minutes_def minutes_sign_def seconds_sign_def parseInt_digits
        two_digits_facts sign)
  moreover have "parseInt (clock_face (nnat ?n)) = nnat (?n div 60)"
    by (simp add: clock_face_nat minutes_sign_def parseInt_digits nat_to_str_digits nat_to_str_not_Nil sign)
  ultimately show ?thesis
    using assms by (intro exI [of _ "?n div 60"] exI [of _ "?n mod 60"]) (simp add: tick_text)
qed

definition fresh_clock :: clock where
  "fresh_clock = \<lparr>clock_text = [], pay_block = Some True, ticking = True\<rparr>"

theorem clock_reads_back_witness:
  "\<exists>m s. parseInt (clock_text (clock_tick (Fin 900000) (Fin 15000) fresh_clock)) = nnat m \<and> 60 * m + s = 885"
  using clock_reads_back [of fresh_clock 900000 15000] by (auto simp: fresh_clock_def seconds_left_def)

text \<open>The state of the clock after ticks at the times \<open>ts\<close>.\<close>

lemma clock_tick_Fin:
  "clock_tick (Fin e) (Fin t) c =
     (if ticking c then
        c\<lparr>clock_text := clock_face (nnat (seconds_left e t)),
          pay_block := (if seconds_left e t = 0 then map_option (\<lambda>_. False) (pay_block c) else pay_block c),
          ticking := (seconds_left e t \<noteq> 0)\<rparr>
      else c)"
  by (simp add: clock_tick_def paint_def Let_def time_left_Fin)

lemma clock_stopped: "\<not> ticking c \<Longrightarrow> clock_run end ts c = c"
  by (induction ts) (auto simp: clock_run_def clock_tick_def)

text \<open>
  The countdown ticks exactly as long as a whole second is left at every tick; the tick that finds
  less stops it for good, shows zero and hides the payment.
\<close>

theorem clock_stops_at_deadline:
  assumes "ticking c"
  shows "(ticking (clock_run (Fin e) (map Fin ts) c) \<longleftrightarrow> (\<forall>t \<in> set ts. 1000 \<le> e - t)) \<and>
    pay_block (clock_run (Fin e) (map Fin ts) c) =
      (if \<forall>t \<in> set ts. 1000 \<le> e - t then pay_block c else map_option (\<lambda>_. False) (pay_block c)) \<and>
    (\<not> (\<forall>t \<in> set ts. 1000 \<le> e - t) \<longrightarrow> clock_text (clock_run (Fin e) (map Fin ts) c) = clock_face (Fin 0))"
  using assms
proof (induction ts arbitrary: c)
  case (Cons t ts)
  have z: "seconds_left e t = 0 \<longleftrightarrow> \<not> 1000 \<le> e - t"
    by (simp add: seconds_left_def le_floor_iff [symmetric] floor_less_one) linarith
  have run: "clock_run (Fin e) (map Fin (t # ts)) c =
      clock_run (Fin e) (map Fin ts) (clock_tick (Fin e) (Fin t) c)"
    by (simp add: clock_run_def)
  show ?case
  proof (cases "1000 \<le> e - t")
    case True
    then show ?thesis
      using Cons.IH [of "clock_tick (Fin e) (Fin t) c"] Cons.prems z
      unfolding run by (simp add: clock_tick_Fin)
  next
    case False
    then show ?thesis using Cons.prems z
      unfolding run by (simp add: clock_tick_Fin clock_stopped)
  qed
qed (simp add: clock_run_def)

theorem clock_stops_at_deadline_witness:
  "\<not> ticking (clock_run (Fin 3000) (map Fin [1000, 2000, 3000]) fresh_clock) \<and>
   pay_block (clock_run (Fin 3000) (map Fin [1000, 2000, 3000]) fresh_clock) = Some False"
proof -
  have "ticking fresh_clock" "pay_block fresh_clock = Some True" by (simp_all add: fresh_clock_def)
  with clock_stops_at_deadline [of fresh_clock 3000 "[1000, 2000, 3000]"] show ?thesis by simp
qed

end
