(* ===== verification/Shop_Home.thy ===== *)
theory Shop_Home imports Viewer_Util Js_Facts begin

text \<open>
  The front page of the shop, \<open>home.html\<close>: the page as the template renders it, and the inline
  script that filters the goods by category, orders them, and drives the tabs and the menu
  for small screens. The elements the script works on are records with the attributes it
  reads and writes; an element is its position in the script's array. \<open>localeCompare\<close> is
  the language's; it is an argument \<open>loc\<close>, by language tag.
\<close>

section \<open>The page\<close>

record tab =
  tab_key :: string
  tab_name :: string
  tab_id :: string
  tab_select :: bool
  tab_aria :: bool
  tab_stop :: bool

record card =
  card_key :: string
  card_name :: string
  card_price :: string
  card_hidden :: bool

record mobile_option =
  op_key :: string
  op_name :: string
  op_select :: bool
  op_checked :: bool

record sort_button =
  sb_mode :: string
  sb_select :: bool
  sb_pressed :: bool

datatype focus = OnTab nat | OnToggle | OnOption string

text \<open>
  \<open>tab_stop\<close> says that \<open>tabIndex\<close> is 0, not -1. The menu, its toggle, the text of the current
  category and the panel are None when the page has no such element. The order of \<open>cards\<close>
  and \<open>mobileOptions\<close> is also their order in the document.
\<close>

record home =
  tabs :: "tab list"
  cards :: "card list"
  mobileOptions :: "mobile_option list"
  sortButtons :: "sort_button list"
  menu_hidden :: "bool option"
  toggle_expanded :: "bool option"
  mobileCurrent :: "string option"
  panel_label :: "string option"
  focused :: "focus option"
  default_prevented :: bool

definition ALL_NAME :: string where
  "ALL_NAME = [CHR 0xE5, CHR 0x85, CHR 0xA8, CHR 0xE9, CHR 0x83, CHR 0xA8]"

section \<open>Sorting\<close>

text \<open>
  \<open>Array.prototype.sort\<close> is stable; with a comparator that is consistent there is one stable
  order, which insertion finds. A result NaN counts as zero.
\<close>

fun js_insert :: "('a \<Rightarrow> 'a \<Rightarrow> jsnum) \<Rightarrow> 'a \<Rightarrow> 'a list \<Rightarrow> 'a list" where
  "js_insert cmp x [] = [x]"
| "js_insert cmp x (y # ys) = (if nlt (Fin 0) (cmp x y) then y # js_insert cmp x ys else x # y # ys)"

definition js_sort :: "('a \<Rightarrow> 'a \<Rightarrow> jsnum) \<Rightarrow> 'a list \<Rightarrow> 'a list" where
  "js_sort cmp xs = foldr (js_insert cmp) xs []"

text \<open>The test \<open>/^[A-Za-z0-9]/\<close>.\<close>

definition latin :: "string \<Rightarrow> bool" where
  "latin s \<longleftrightarrow> (case s of [] \<Rightarrow> False | c # cs \<Rightarrow> is_upper c \<or> is_lower c \<or> is_digit c)"

type_synonym compare = "string \<Rightarrow> string \<Rightarrow> string \<Rightarrow> jsnum"

definition compareCategoryNames :: "compare \<Rightarrow> string \<Rightarrow> string \<Rightarrow> jsnum" where
  "compareCategoryNames loc aName bName =
     (if latin aName \<noteq> latin bName then (if latin aName then Fin (-1) else Fin 1)
      else loc (if latin aName then ''en'' else ''zh-CN'') aName bName)"

definition compareOptions :: "compare \<Rightarrow> mobile_option \<Rightarrow> mobile_option \<Rightarrow> jsnum" where
  "compareOptions loc a b =
     (if op_key a = ''all'' then Fin (-1)
      else if op_key b = ''all'' then Fin 1
      else compareCategoryNames loc (op_name a) (op_name b))"

definition compareCards :: "compare \<Rightarrow> string \<Rightarrow> card \<Rightarrow> card \<Rightarrow> jsnum" where
  "compareCards loc mode a b =
     (if mode = ''price'' then nsub (parseFloat (card_price a)) (parseFloat (card_price b))
      else loc ''zh-CN'' (card_name a) (card_name b))"

section \<open>Selecting a category\<close>

definition mobile :: "home \<Rightarrow> bool" where
  "mobile w \<longleftrightarrow> menu_hidden w \<noteq> None \<and> toggle_expanded w \<noteq> None"

definition closeMobileMenu :: "home \<Rightarrow> home" where
  "closeMobileMenu w = (if mobile w then w\<lparr>menu_hidden := Some True, toggle_expanded := Some False\<rparr> else w)"

definition updateMobileSelection :: "tab \<Rightarrow> home \<Rightarrow> home" where
  "updateMobileSelection t w =
     w\<lparr>mobileCurrent :=
         map_option (\<lambda>_. if tab_key t = ''all'' then ALL_NAME else tab_name t) (mobileCurrent w),
       mobileOptions :=
         map (\<lambda>op. op\<lparr>op_select := (op_key op = tab_key t), op_checked := (op_key op = tab_key t)\<rparr>)
           (mobileOptions w)\<rparr>"

definition mark_tab :: "nat \<Rightarrow> nat \<Rightarrow> tab \<Rightarrow> tab" where
  "mark_tab i j t = t\<lparr>tab_select := (j = i), tab_aria := (j = i), tab_stop := (j = i)\<rparr>"

definition filter_card :: "string \<Rightarrow> card \<Rightarrow> card" where
  "filter_card key c = c\<lparr>card_hidden := (key \<noteq> ''all'' \<and> card_key c \<noteq> key)\<rparr>"

definition select :: "nat \<Rightarrow> bool \<Rightarrow> home \<Rightarrow> home" where
  "select i moveFocus w =
     (let t = tabs w ! i;
          w1 = w\<lparr>tabs := map (\<lambda>(j, u). mark_tab i j u) (enumerate 0 (tabs w)),
                 cards := map (filter_card (tab_key t)) (cards w),
                 panel_label := map_option (\<lambda>_. tab_id t) (panel_label w)\<rparr>;
          w2 = updateMobileSelection t w1
      in if moveFocus then w2\<lparr>focused := Some (OnTab i)\<rparr> else w2)"

section \<open>Listeners\<close>

definition prevent :: "home \<Rightarrow> home" where
  "prevent w = w\<lparr>default_prevented := True\<rparr>"

text \<open>Each test of the key may override the one before.\<close>

definition next_tab :: "nat \<Rightarrow> string \<Rightarrow> nat \<Rightarrow> nat" where
  "next_tab n key i =
     (let a = (if key = ''ArrowRight'' then (i + 1) mod n else i);
          b = (if key = ''ArrowLeft'' then (i + n - 1) mod n else a);
          c = (if key = ''Home'' then 0 else b)
      in if key = ''End'' then n - 1 else c)"

definition tab_keydown :: "nat \<Rightarrow> string \<Rightarrow> home \<Rightarrow> home" where
  "tab_keydown i key w =
     (let nxt = next_tab (length (tabs w)) key i
      in if nxt \<noteq> i then select nxt True (prevent w)
         else if key = ''Enter'' \<or> key = '' '' then select i False (prevent w)
         else w)"

definition toggle_click :: "home \<Rightarrow> home" where
  "toggle_click w =
     (let opened = (menu_hidden w = Some True);
          w1 = w\<lparr>menu_hidden := Some (\<not> opened), toggle_expanded := Some opened\<rparr>
      in if opened then w1\<lparr>focused := Some (OnOption (op_key (mobileOptions w1 ! 0)))\<rparr> else w1)"

text \<open>The position of the first tab with a key.\<close>

fun tab_of :: "string \<Rightarrow> tab list \<Rightarrow> nat option" where
  "tab_of k [] = None"
| "tab_of k (t # ts) = (if tab_key t = k then Some 0 else map_option Suc (tab_of k ts))"

definition option_click :: "nat \<Rightarrow> home \<Rightarrow> home" where
  "option_click j w =
     (let w1 = (case tab_of (op_key (mobileOptions w ! j)) (tabs w) of
                  Some i \<Rightarrow> select i False w | None \<Rightarrow> w)
      in (closeMobileMenu w1)\<lparr>focused := Some OnToggle\<rparr>)"

definition next_option :: "nat \<Rightarrow> string \<Rightarrow> nat \<Rightarrow> nat" where
  "next_option n key i =
     (let a = (if key = ''ArrowDown'' then (i + 1) mod n else i)
      in if key = ''ArrowUp'' then (i + n - 1) mod n else a)"

definition option_keydown :: "nat \<Rightarrow> string \<Rightarrow> home \<Rightarrow> home" where
  "option_keydown j key w =
     (if key = ''Escape'' then (closeMobileMenu (prevent w))\<lparr>focused := Some OnToggle\<rparr>
      else
        let nxt = next_option (length (mobileOptions w)) key j
        in if nxt \<noteq> j
           then (prevent w)\<lparr>focused := Some (OnOption (op_key (mobileOptions w ! nxt)))\<rparr>
           else w)"

text \<open>The click on the document: it reaches it from every element of the page.\<close>

definition document_click :: "bool \<Rightarrow> home \<Rightarrow> home" where
  "document_click in_category w = (if mobile w \<and> \<not> in_category then closeMobileMenu w else w)"

definition sort_click :: "compare \<Rightarrow> nat \<Rightarrow> home stmt" where
  "sort_click loc b =
     getS (\<lambda>w. sb_mode (sortButtons w ! b)) (\<lambda>mode. block
       [upd (\<lambda>w. w\<lparr>cards := js_sort (compareCards loc mode) (cards w)\<rparr>),
        ifS (\<lambda>w. panel_label w = None \<and> cards w \<noteq> []) (throw TypeError) skip,
        upd (\<lambda>w. w\<lparr>sortButtons :=
          map (\<lambda>(j, s). s\<lparr>sb_select := (j = b), sb_pressed := (j = b)\<rparr>)
            (enumerate 0 (sortButtons w))\<rparr>)])"

section \<open>Loading and running\<close>

definition home_loaded :: "compare \<Rightarrow> home \<Rightarrow> home" where
  "home_loaded loc w = w\<lparr>mobileOptions := js_sort (compareOptions loc) (mobileOptions w)\<rparr>"

datatype home_event =
    TabClick nat
  | TabKey nat string
  | ToggleClick
  | OptionClick nat
  | OptionKey nat string
  | SortClick nat
  | PageClick bool

text \<open>
  A click bubbles to the document. The tabs and the buttons for sorting lie outside the
  element \<open>.mobile-category\<close>, the toggle and the options inside it. The listeners of the menu
  exist only where there is a menu and a toggle.
\<close>

fun home_step :: "compare \<Rightarrow> home_event \<Rightarrow> home \<Rightarrow> home" where
  "home_step loc (TabClick i) w = document_click False (select i False w)"
| "home_step loc (TabKey i key) w = tab_keydown i key w"
| "home_step loc ToggleClick w = (if mobile w then document_click True (toggle_click w) else w)"
| "home_step loc (OptionClick j) w = (if mobile w then document_click True (option_click j w) else w)"
| "home_step loc (OptionKey j key) w = (if mobile w then option_keydown j key w else w)"
| "home_step loc (SortClick b) w = document_click False (snd (sort_click loc b w))"
| "home_step loc (PageClick in_category) w = document_click in_category w"

definition home_run :: "compare \<Rightarrow> home_event list \<Rightarrow> home \<Rightarrow> home" where
  "home_run loc es w = foldl (\<lambda>w e. home_step loc e w) w es"

section \<open>The page the server renders\<close>

text \<open>A group of the shop: its name and the names and prices of its goods.\<close>

record group =
  grp_name :: string
  grp_goods :: "(string \<times> string) list"

definition all_tab :: tab where
  "all_tab =
     \<lparr>tab_key = ''all'', tab_name = ALL_NAME, tab_id = ''category-tab-all'', tab_select = True,
      tab_aria = True, tab_stop = True\<rparr>"

definition group_tab :: "nat \<Rightarrow> group \<Rightarrow> tab" where
  "group_tab i g =
     \<lparr>tab_key = nat_to_str i, tab_name = grp_name g, tab_id = ''category-tab-'' @ nat_to_str i,
      tab_select = False, tab_aria = False, tab_stop = False\<rparr>"

definition all_option :: mobile_option where
  "all_option = \<lparr>op_key = ''all'', op_name = ALL_NAME, op_select = True, op_checked = True\<rparr>"

definition group_option :: "nat \<Rightarrow> group \<Rightarrow> mobile_option" where
  "group_option i g =
     \<lparr>op_key = nat_to_str i, op_name = grp_name g, op_select = False, op_checked = False\<rparr>"

definition group_cards :: "nat \<Rightarrow> group \<Rightarrow> card list" where
  "group_cards i g =
     map (\<lambda>(n, p). \<lparr>card_key = nat_to_str i, card_name = n, card_price = p, card_hidden = False\<rparr>) (grp_goods g)"

definition rendered_sorts :: "sort_button list" where
  "rendered_sorts =
     [\<lparr>sb_mode = ''name'', sb_select = False, sb_pressed = False\<rparr>,
      \<lparr>sb_mode = ''price'', sb_select = False, sb_pressed = False\<rparr>]"

definition home_rendered :: "group list \<Rightarrow> home" where
  "home_rendered gs =
     \<lparr>tabs = all_tab # map (\<lambda>(i, g). group_tab i g) (enumerate 0 gs),
      cards = concat (map (\<lambda>(i, g). group_cards i g) (enumerate 0 gs)),
      mobileOptions = all_option # map (\<lambda>(i, g). group_option i g) (enumerate 0 gs),
      sortButtons = rendered_sorts,
      menu_hidden = Some True, toggle_expanded = Some False,
      mobileCurrent = Some ALL_NAME, panel_label = Some ''category-tab-all'',
      focused = None, default_prevented = False\<rparr>"

end
