(* ===== verification/Shop_Home_Props.thy ===== *)
theory Shop_Home_Props imports Shop_Home "HOL-Library.Multiset" begin

text \<open>
  The front page refines a machine with one variable, the chosen category; the order of the
  menu and of the goods; the keys of the tabs.
\<close>

section \<open>Sorting\<close>

definition not_after :: "('a \<Rightarrow> 'a \<Rightarrow> jsnum) \<Rightarrow> 'a \<Rightarrow> 'a \<Rightarrow> bool" where
  "not_after cmp x y \<longleftrightarrow> \<not> nlt (Fin 0) (cmp x y)"

lemma mset_js_insert: "mset (js_insert cmp x ys) = add_mset x (mset ys)"
  by (induction ys) auto

lemma mset_js_sort [simp]: "mset (js_sort cmp xs) = mset xs"
  by (induction xs) (auto simp: js_sort_def mset_js_insert)

lemma set_js_sort [simp]: "set (js_sort cmp xs) = set xs"
  by (rule mset_eq_setD) simp

lemma js_sort_Cons: "js_sort cmp (x # xs) = js_insert cmp x (js_sort cmp xs)"
  by (simp add: js_sort_def)

text \<open>A comparator is consistent on a set when it is total and transitive there.\<close>

definition consistent_on :: "'a set \<Rightarrow> ('a \<Rightarrow> 'a \<Rightarrow> jsnum) \<Rightarrow> bool" where
  "consistent_on A cmp \<longleftrightarrow>
     (\<forall>x \<in> A. \<forall>y \<in> A. not_after cmp x y \<or> not_after cmp y x) \<and>
     (\<forall>x \<in> A. \<forall>y \<in> A. \<forall>z \<in> A. not_after cmp x y \<longrightarrow> not_after cmp y z \<longrightarrow> not_after cmp x z)"

lemma set_js_insert [simp]: "set (js_insert cmp x ys) = insert x (set ys)"
  by (induction ys) auto

lemma consistent_onD:
  assumes "consistent_on A cmp" "x \<in> A" "y \<in> A"
  shows "not_after cmp x y \<or> not_after cmp y x"
    and "z \<in> A \<Longrightarrow> not_after cmp x y \<Longrightarrow> not_after cmp y z \<Longrightarrow> not_after cmp x z"
  using assms unfolding consistent_on_def by blast+

lemma js_insert_sorted:
  "consistent_on A cmp \<Longrightarrow> x \<in> A \<Longrightarrow> set ys \<subseteq> A \<Longrightarrow> sorted_wrt (not_after cmp) ys \<Longrightarrow>
   sorted_wrt (not_after cmp) (js_insert cmp x ys)"
proof (induction ys)
  case (Cons y ys)
  have A: "x \<in> A" "y \<in> A" "set ys \<subseteq> A" using Cons.prems by simp_all
  have after: "\<forall>z \<in> set ys. not_after cmp y z" and ys: "sorted_wrt (not_after cmp) ys"
    using Cons.prems(4) by simp_all
  note IH = Cons.IH [OF Cons.prems(1) A(1, 3) ys]
  show ?case
  proof (cases "nlt (Fin 0) (cmp x y)")
    case True
    then have "not_after cmp y x"
      using consistent_onD(1) [OF Cons.prems(1) A(1, 2)] by (simp add: not_after_def)
    then show ?thesis using True IH after by simp
  next
    case False
    then have xy: "not_after cmp x y" by (simp add: not_after_def)
    have "not_after cmp x z" if "z \<in> set ys" for z
      using consistent_onD(2) [OF Cons.prems(1) A(1, 2) subsetD [OF A(3) that] xy] after that by blast
    then show ?thesis using False xy after ys by simp
  qed
qed simp

lemma js_sort_sorted:
  "consistent_on (set xs) cmp \<Longrightarrow> sorted_wrt (not_after cmp) (js_sort cmp xs)"
proof -
  have "set ys \<subseteq> set xs \<Longrightarrow> sorted_wrt (not_after cmp) (js_sort cmp ys)"
    if "consistent_on (set xs) cmp" for ys
  proof (induction ys)
    case (Cons y ys)
    then show ?case using js_insert_sorted [OF that, of y "js_sort cmp ys"] by (simp add: js_sort_Cons)
  qed (simp add: js_sort_def)
  then show "consistent_on (set xs) cmp \<Longrightarrow> ?thesis" by simp
qed

text \<open>Equal elements keep their order.\<close>

lemma js_insert_stable:
  "(\<And>y. y \<in> set ys \<Longrightarrow> p x \<Longrightarrow> p y \<Longrightarrow> not_after cmp x y) \<Longrightarrow>
   filter p (js_insert cmp x ys) = (if p x then x # filter p ys else filter p ys)"
  by (induction ys) (auto simp: not_after_def)

lemma js_sort_stable:
  "(\<And>x y. x \<in> set xs \<Longrightarrow> y \<in> set xs \<Longrightarrow> p x \<Longrightarrow> p y \<Longrightarrow> not_after cmp x y) \<Longrightarrow>
   filter p (js_sort cmp xs) = filter p xs"
proof (induction xs)
  case (Cons x xs)
  have "filter p (js_insert cmp x (js_sort cmp xs)) =
      (if p x then x # filter p (js_sort cmp xs) else filter p (js_sort cmp xs))"
    using Cons.prems by (intro js_insert_stable) auto
  moreover have "filter p (js_sort cmp xs) = filter p xs"
    using Cons.prems by (intro Cons.IH) auto
  ultimately show ?case by (simp add: js_sort_Cons)
qed (simp add: js_sort_def)

section \<open>The order of the menu\<close>

text \<open>What the language promises of \<open>localeCompare\<close>.\<close>

definition collation :: "compare \<Rightarrow> bool" where
  "collation loc \<longleftrightarrow> (\<forall>l. consistent_on UNIV (loc l))"

text \<open>A name that starts with a Latin letter or a digit comes before one that does not.\<close>

definition name_order :: "compare \<Rightarrow> string \<Rightarrow> string \<Rightarrow> bool" where
  "name_order loc a b \<longleftrightarrow>
     (latin a \<or> \<not> latin b) \<and>
     (latin a = latin b \<longrightarrow> not_after (loc (if latin a then ''en'' else ''zh-CN'')) a b)"

lemma not_after_names: "not_after (compareCategoryNames loc) a b \<longleftrightarrow> name_order loc a b"
  by (auto simp: not_after_def compareCategoryNames_def name_order_def)

lemma names_consistent:
  assumes "collation loc"
  shows "consistent_on UNIV (compareCategoryNames loc)"
proof -
  have total: "not_after (loc l) a b \<or> not_after (loc l) b a"
    and trans: "not_after (loc l) a b \<Longrightarrow> not_after (loc l) b c \<Longrightarrow> not_after (loc l) a c" for l a b c
    using assms unfolding collation_def consistent_on_def by blast+
  have "name_order loc a b \<or> name_order loc b a" for a b
    using total [of _ a b] by (cases "latin a"; cases "latin b") (simp_all add: name_order_def)
  moreover have "name_order loc a b \<Longrightarrow> name_order loc b c \<Longrightarrow> name_order loc a c" for a b c
    using trans [of _ a b c]
    by (cases "latin a"; cases "latin b"; cases "latin c") (simp_all add: name_order_def)
  ultimately show ?thesis unfolding consistent_on_def not_after_names by blast
qed

lemma not_after_option:
  "not_after (compareOptions loc) a b \<longleftrightarrow>
     op_key a = ''all'' \<or> op_key b \<noteq> ''all'' \<and> not_after (compareCategoryNames loc) (op_name a) (op_name b)"
  by (simp add: not_after_def compareOptions_def)

lemma options_consistent: "collation loc \<Longrightarrow> consistent_on A (compareOptions loc)"
  using names_consistent [of loc]
  by (auto simp: consistent_on_def not_after_option)

lemma nat_to_str_not_all: "nat_to_str i \<noteq> ''all''"
  using nat_to_str_Cons [of i] by (auto simp: is_digit_def code_def)

lemma rendered_options:
  "mobileOptions (home_rendered gs) = all_option # map (\<lambda>(i, g). group_option i g) (enumerate 0 gs)"
  by (simp add: home_rendered_def)

lemma option_names: "map op_name (map (\<lambda>(i, g). group_option i g) (enumerate n gs)) = map grp_name gs"
  by (induction gs arbitrary: n) (simp_all add: group_option_def)

text \<open>
  The menu lists the option for all goods first and then every category of the shop once, names
  that start with a Latin letter or a digit before the others, each kind in the order of its
  language.
\<close>

theorem menu_in_order:
  assumes "collation loc"
  shows "\<exists>os. mobileOptions (home_loaded loc (home_rendered gs)) = all_option # os \<and>
    mset (map op_name os) = mset (map grp_name gs) \<and> sorted_wrt (name_order loc) (map op_name os)"
proof -
  let ?os = "map (\<lambda>(i, g). group_option i g) (enumerate 0 gs)"
  have keys: "op_key x \<noteq> ''all''" if "x \<in> set ?os" for x
    using that nat_to_str_not_all by (auto simp: group_option_def)
  have "js_insert (compareOptions loc) all_option ys = all_option # ys" for ys
    by (cases ys) (simp_all add: compareOptions_def all_option_def)
  then have eq: "mobileOptions (home_loaded loc (home_rendered gs)) = all_option # js_sort (compareOptions loc) ?os"
    by (simp add: home_loaded_def rendered_options js_sort_Cons)
  have "sorted_wrt (not_after (compareOptions loc)) (js_sort (compareOptions loc) ?os)"
    by (rule js_sort_sorted [OF options_consistent [OF assms]])
  then have "sorted_wrt (\<lambda>a b. name_order loc (op_name a) (op_name b)) (js_sort (compareOptions loc) ?os)"
    by (rule sorted_wrt_mono_rel [rotated]) (use keys in \<open>auto simp: not_after_option not_after_names\<close>)
  then have "sorted_wrt (name_order loc) (map op_name (js_sort (compareOptions loc) ?os))"
    by (simp add: sorted_wrt_map)
  moreover have "map op_name ?os = map grp_name gs"
    by (rule option_names)
  then have "mset (map op_name (js_sort (compareOptions loc) ?os)) = mset (map grp_name gs)"
    unfolding mset_map mset_js_sort by (simp add: mset_map [symmetric] del: mset_map)
  ultimately show ?thesis using eq by blast
qed

definition by_length :: compare where
  "by_length l a b = Fin (real (length a) - real (length b))"

lemma collation_by_length: "collation by_length"
  by (auto simp: collation_def consistent_on_def not_after_def by_length_def)

definition demo_groups :: "group list" where
  "demo_groups =
     [\<lparr>grp_name = ''Mugs'', grp_goods = [(''Blue'', ''12''), (''Red'', ''9'')]\<rparr>,
      \<lparr>grp_name = ''Ink'', grp_goods = [(''Black'', ''9'')]\<rparr>]"

theorem menu_in_order_witness:
  "\<exists>os. mobileOptions (home_loaded by_length (home_rendered demo_groups)) = all_option # os \<and>
     sorted_wrt (name_order by_length) (map op_name os)"
  using menu_in_order [OF collation_by_length, of demo_groups] by blast

section \<open>The order of the goods\<close>

text \<open>
  A click on the button for prices puts the goods in ascending order of their prices, loses none,
  and keeps goods of the same price in the order they had.
\<close>

theorem sort_by_price:
  assumes "sortButtons w ! b = \<lparr>sb_mode = ''price'', sb_select = s, sb_pressed = q\<rparr>"
    and "panel_label w = Some l" and "\<And>c. c \<in> set (cards w) \<Longrightarrow> parseFloat (card_price c) = Fin (price c)"
  shows "\<exists>w'. sort_click loc b w = (Next, w') \<and> mset (cards w') = mset (cards w) \<and>
    sorted (map price (cards w')) \<and>
    (\<forall>v. filter (\<lambda>c. price c = v) (cards w') = filter (\<lambda>c. price c = v) (cards w))"
proof -
  let ?cs = "js_sort (compareCards loc ''price'') (cards w)"
  have na: "not_after (compareCards loc ''price'') a b \<longleftrightarrow> price a \<le> price b"
    if "a \<in> set (cards w)" "b \<in> set (cards w)" for a b
    using assms(3) that by (auto simp: not_after_def compareCards_def)
  have "sorted_wrt (not_after (compareCards loc ''price'')) ?cs"
    by (rule js_sort_sorted) (auto simp: consistent_on_def na)
  then have "sorted_wrt (\<lambda>a b. price a \<le> price b) ?cs"
    by (rule sorted_wrt_mono_rel [rotated]) (simp add: na)
  then have "sorted (map price ?cs)" by (simp add: sorted_map)
  moreover have "filter (\<lambda>c. price c = v) ?cs = filter (\<lambda>c. price c = v) (cards w)" for v
    by (rule js_sort_stable) (simp add: na)
  ultimately show ?thesis using assms(1, 2)
    by (simp add: sort_click_def js_run)
qed

definition price_of :: "card \<Rightarrow> real" where
  "price_of c = (case parseFloat (card_price c) of Fin r \<Rightarrow> r | _ \<Rightarrow> 0)"

lemma demo_prices: "c \<in> set (cards (home_rendered demo_groups)) \<Longrightarrow> parseFloat (card_price c) = Fin (price_of c)"
proof -
  have "parseFloat ''12'' = Fin 12" "parseFloat ''9'' = Fin 9" by code_simp+
  then show "c \<in> set (cards (home_rendered demo_groups)) \<Longrightarrow> ?thesis"
    by (auto simp: home_rendered_def demo_groups_def group_cards_def price_of_def)
qed

theorem sort_by_price_witness:
  "\<exists>w'. sort_click by_length 1 (home_rendered demo_groups) = (Next, w') \<and> sorted (map price_of (cards w'))"
proof -
  have "sortButtons (home_rendered demo_groups) ! 1 = \<lparr>sb_mode = ''price'', sb_select = False, sb_pressed = False\<rparr>"
    and "panel_label (home_rendered demo_groups) = Some ''category-tab-all''"
    by (simp_all add: home_rendered_def rendered_sorts_def)
  from sort_by_price [OF this demo_prices, where loc = by_length] show ?thesis by blast
qed

end
