(* ===== verification/Home_Refine.thy ===== *)
theory Home_Refine imports Shop_Home_Props Machines begin

text \<open>
  The front page refines a machine of two variables: the key of the chosen category, and whether
  the menu for small screens is open.
\<close>

section \<open>The abstract machine\<close>

text \<open>\<open>ks\<close> are the keys of the tabs, \<open>os\<close> those of the options.\<close>

fun choice_step :: "string list \<Rightarrow> string list \<Rightarrow> home_event \<Rightarrow> string \<times> bool \<Rightarrow> string \<times> bool" where
  "choice_step ks os (TabClick i) (k, m) = (ks ! i, False)"
| "choice_step ks os (TabKey i key) (k, m) =
     (let j = next_tab (length ks) key i
      in (if j \<noteq> i \<or> key = ''Enter'' \<or> key = '' '' then ks ! j else k, m))"
| "choice_step ks os ToggleClick (k, m) = (k, \<not> m)"
| "choice_step ks os (OptionClick j) (k, m) = (os ! j, False)"
| "choice_step ks os (OptionKey j key) (k, m) = (k, m \<and> key \<noteq> ''Escape'')"
| "choice_step ks os (SortClick b) (k, m) = (k, False)"
| "choice_step ks os (PageClick in_category) (k, m) = (k, m \<and> in_category)"

definition choice_run :: "string list \<Rightarrow> string list \<Rightarrow> home_event list \<Rightarrow> string \<times> bool \<Rightarrow> string \<times> bool" where
  "choice_run ks os es s = foldl (\<lambda>s e. choice_step ks os e s) s es"

text \<open>What a visitor sees when the category \<open>k\<close> is chosen and the menu is open or not.\<close>

definition tab_displays :: "string \<Rightarrow> tab \<Rightarrow> bool" where
  "tab_displays k t \<longleftrightarrow> tab_select t = (tab_key t = k) \<and> tab_aria t = (tab_key t = k) \<and> tab_stop t = (tab_key t = k)"

definition card_displays :: "string \<Rightarrow> card \<Rightarrow> bool" where
  "card_displays k c \<longleftrightarrow> card_hidden c = (k \<noteq> ''all'' \<and> card_key c \<noteq> k)"

definition option_displays :: "string \<Rightarrow> mobile_option \<Rightarrow> bool" where
  "option_displays k p \<longleftrightarrow> op_select p = (op_key p = k) \<and> op_checked p = (op_key p = k)"

definition headed_by :: "string \<Rightarrow> home \<Rightarrow> bool" where
  "headed_by k w \<longleftrightarrow> (\<exists>t \<in> set (tabs w). tab_key t = k \<and> panel_label w = Some (tab_id t) \<and>
     mobileCurrent w = Some (if k = ''all'' then ALL_NAME else tab_name t))"

definition menu_displays :: "bool \<Rightarrow> home \<Rightarrow> bool" where
  "menu_displays m w \<longleftrightarrow> menu_hidden w = Some (\<not> m) \<and> toggle_expanded w = Some m"

definition displays :: "string \<times> bool \<Rightarrow> home \<Rightarrow> bool" where
  "displays s w \<longleftrightarrow>
     (\<forall>t \<in> set (tabs w). tab_displays (fst s) t) \<and> (\<forall>c \<in> set (cards w). card_displays (fst s) c) \<and>
     (\<forall>p \<in> set (mobileOptions w). option_displays (fst s) p) \<and> headed_by (fst s) w \<and> menu_displays (snd s) w"

text \<open>The events that name an element the page has, among \<open>n\<close> tabs.\<close>

fun possible :: "nat \<Rightarrow> home_event \<Rightarrow> bool" where
  "possible n (TabClick i) = (i < n)"
| "possible n (TabKey i key) = (i < n)"
| "possible n (OptionClick j) = (j < n)"
| "possible n (OptionKey j key) = (j < n)"
| "possible n (SortClick b) = (b < 2)"
| "possible n _ = True"

section \<open>One step\<close>

lemma next_tab_less: "i < n \<Longrightarrow> next_tab n key i < n"
  by (auto simp: next_tab_def Let_def)

lemma tab_of_SomeD: "tab_of k ts = Some i \<Longrightarrow> i < length ts \<and> tab_key (ts ! i) = k"
  by (induction ts arbitrary: i) (auto split: if_splits)

lemma tab_of_known: "k \<in> set (map tab_key ts) \<Longrightarrow> \<exists>i. tab_of k ts = Some i"
  by (induction ts) auto

lemma tab_key_mark [simp]: "tab_key (mark_tab i j t) = tab_key t" "tab_id (mark_tab i j t) = tab_id t"
  "tab_name (mark_tab i j t) = tab_name t"
  by (simp_all add: mark_tab_def)

text \<open>The keys never change, and are what the abstract machine knows.\<close>

definition keyed :: "string list \<Rightarrow> string list \<Rightarrow> home \<Rightarrow> bool" where
  "keyed ks os w \<longleftrightarrow> map tab_key (tabs w) = ks \<and> map op_key (mobileOptions w) = os \<and>
     distinct ks \<and> set os \<subseteq> set ks \<and> length os = length ks"

lemma marked_tabs:
  assumes "distinct (map tab_key ts)" "i < length ts" "t \<in> set (map (\<lambda>(j, u). mark_tab i j u) (enumerate 0 ts))"
  shows "tab_displays (tab_key (ts ! i)) t"
proof -
  obtain j where j: "j < length ts" "t = mark_tab i j (ts ! j)"
    using assms(3) by (auto simp: in_set_enumerate_eq)
  have "(tab_key (ts ! j) = tab_key (ts ! i)) = (j = i)"
    using nth_eq_iff_index_eq [OF assms(1), of j i] j(1) assms(2) by simp
  then show ?thesis using j(2) by (simp add: tab_displays_def mark_tab_def)
qed

lemma marked_tab:
  "i < length ts \<Longrightarrow> mark_tab i i (ts ! i) \<in> set (map (\<lambda>(j, u). mark_tab i j u) (enumerate 0 ts))"
  by (force simp: in_set_enumerate_eq)

lemma map_mark: "map tab_key (map (\<lambda>(j, u). mark_tab i j u) (enumerate n ts)) = map tab_key ts"
  by (induction ts arbitrary: n) simp_all

text \<open>The facts of a selection; the menu and the sorting are left as they were.\<close>

lemma select_displays:
  assumes "keyed ks os w" "i < length ks" "displays (k, m) w"
  shows "keyed ks os (select i f w)" "displays (ks ! i, m) (select i f w)"
proof -
  let ?ts = "map (\<lambda>(j, u). mark_tab i j u) (enumerate 0 (tabs w))"
  have w: "map tab_key (tabs w) = ks" "distinct (map tab_key (tabs w))" "i < length (tabs w)"
    "tab_key (tabs w ! i) = ks ! i"
    using assms(1, 2) by (auto simp: keyed_def)
  have ts: "tabs (select i f w) = ?ts" by (simp add: select_def updateMobileSelection_def Let_def)
  have ops: "map op_key (mobileOptions (select i f w)) = map op_key (mobileOptions w)"
    by (simp add: select_def updateMobileSelection_def Let_def)
  show "keyed ks os (select i f w)"
    using assms(1) ops map_mark [of i 0 "tabs w"] by (simp add: keyed_def ts del: map_map)
  have "\<forall>t \<in> set (tabs (select i f w)). tab_displays (ks ! i) t"
    using marked_tabs [OF w(2, 3)] w(4) ts by auto
  moreover have "\<forall>c \<in> set (cards (select i f w)). card_displays (ks ! i) c"
    by (auto simp: select_def updateMobileSelection_def Let_def filter_card_def card_displays_def w)
  moreover have "\<forall>p \<in> set (mobileOptions (select i f w)). option_displays (ks ! i) p"
    by (auto simp: select_def updateMobileSelection_def Let_def option_displays_def w)
  moreover have "headed_by (ks ! i) (select i f w)"
    unfolding headed_by_def ts using assms(3) w
    by (intro bexI [OF _ marked_tab [OF w(3)]])
       (auto simp: displays_def headed_by_def select_def updateMobileSelection_def Let_def)
  moreover have "menu_displays m (select i f w)"
    using assms(3) by (simp add: displays_def menu_displays_def select_def updateMobileSelection_def Let_def)
  ultimately show "displays (ks ! i, m) (select i f w)" by (simp add: displays_def)
qed

text \<open>What a step does to the elements that only the menu and the focus concern.\<close>

lemma displays_menu:
  "keyed ks os (w\<lparr>menu_hidden := a, toggle_expanded := b\<rparr>) = keyed ks os w"
  "displays (k, m) w \<Longrightarrow> displays (k, m') (w\<lparr>menu_hidden := Some (\<not> m'), toggle_expanded := Some m'\<rparr>)"
  by (auto simp: keyed_def displays_def headed_by_def menu_displays_def)

lemma displays_focus [simp]:
  "keyed ks os (w\<lparr>focused := a\<rparr>) = keyed ks os w" "displays s (w\<lparr>focused := a\<rparr>) = displays s w"
  "keyed ks os (prevent w) = keyed ks os w" "displays s (prevent w) = displays s w"
  by (auto simp: keyed_def displays_def headed_by_def menu_displays_def prevent_def)

lemma displays_mobile: "displays s w \<Longrightarrow> mobile w"
  by (simp add: displays_def menu_displays_def mobile_def)

lemma displays_close:
  assumes "keyed ks os w" "displays (k, m) w"
  shows "keyed ks os (closeMobileMenu w)" "displays (k, False) (closeMobileMenu w)"
  using assms displays_mobile [OF assms(2)] displays_menu(2) [OF assms(2), of False]
  by (simp_all add: closeMobileMenu_def displays_menu(1))

lemma displays_document:
  assumes "keyed ks os w" "displays (k, m) w"
  shows "keyed ks os (document_click c w)" "displays (k, m \<and> c) (document_click c w)"
  using assms displays_close [OF assms] displays_mobile [OF assms(2)] by (simp_all add: document_click_def)

lemma displays_sort:
  assumes "keyed ks os w" "displays s w"
  shows "keyed ks os (snd (sort_click loc b w))" "displays s (snd (sort_click loc b w))"
  using assms by (auto simp: sort_click_def js_run keyed_def displays_def headed_by_def menu_displays_def)

lemma step_refines:
  assumes "keyed ks os w" "displays s w" "possible (length ks) e"
  shows "keyed ks os (home_step loc e w) \<and> displays (choice_step ks os e s) (home_step loc e w)"
proof -
  obtain k m where s: "s = (k, m)" by force
  note inv = assms(1) assms(2) [unfolded s]
  have len: "length (tabs w) = length ks" using inv(1) by (auto simp: keyed_def)
  show ?thesis
  proof (cases e)
    case (TabClick i)
    then show ?thesis
      using displays_document [OF select_displays [OF inv(1) _ inv(2), of i False], of False] assms(3) s by simp
  next
    case (TabKey i key)
    have i: "i < length ks" using assms(3) TabKey by simp
    have inv': "keyed ks os (prevent w)" "displays (k, m) (prevent w)" using inv by simp_all
    show ?thesis
      using select_displays [OF inv'(1) next_tab_less [OF i, of key] inv'(2), of True]
        select_displays [OF inv'(1) i inv'(2), of False] inv
      by (simp add: TabKey s tab_keydown_def Let_def len)
  next
    case ToggleClick
    have m: "(menu_hidden w = Some True) = (\<not> m)" using inv(2) by (simp add: displays_def menu_displays_def)
    have "keyed ks os (toggle_click w)" "displays (k, \<not> m) (toggle_click w)"
      using inv displays_menu(2) [OF inv(2), of "\<not> m"]
      by (cases m; simp add: toggle_click_def Let_def m displays_menu(1))+
    from displays_document [OF this, of True] show ?thesis
      by (simp add: ToggleClick s displays_mobile [OF inv(2)])
  next
    case (OptionClick j)
    have j: "j < length os" "os ! j \<in> set ks" "op_key (mobileOptions w ! j) = os ! j"
      using inv(1) assms(3) OptionClick by (auto simp: keyed_def)
    obtain i where i: "tab_of (os ! j) (tabs w) = Some i"
      using tab_of_known [of "os ! j" "tabs w"] j(2) inv(1) by (auto simp: keyed_def)
    then have i': "i < length ks" "ks ! i = os ! j"
      using tab_of_SomeD [OF i] inv(1) by (auto simp: keyed_def)
    have "keyed ks os (option_click j w)" "displays (os ! j, False) (option_click j w)"
      using displays_close [OF select_displays [OF inv(1) i'(1) inv(2), of False]] i i'(2)
      by (simp_all add: option_click_def Let_def j(3))
    from displays_document [OF this, of True] show ?thesis
      by (simp add: OptionClick s displays_mobile [OF inv(2)])
  next
    case (OptionKey j key)
    have inv': "keyed ks os (prevent w)" "displays (k, m) (prevent w)" using inv by simp_all
    show ?thesis using inv displays_close [OF inv'] displays_mobile [OF inv(2)]
      by (simp add: OptionKey s option_keydown_def Let_def)
  next
    case (SortClick b)
    show ?thesis using displays_document [OF displays_sort [OF inv, of loc b], of False] by (simp add: SortClick s)
  next
    case (PageClick c)
    show ?thesis using displays_document [OF inv, of c] by (simp add: PageClick s)
  qed
qed

section \<open>Every run\<close>

interpretation front_page: simulation "home_step loc" "choice_step ks os" "\<lambda>s w. keyed ks os w \<and> displays s w"
    "possible (length ks)" for loc ks os
  using step_refines by unfold_locales blast

lemma run_refines:
  "keyed ks os w \<Longrightarrow> displays s w \<Longrightarrow> list_all (possible (length ks)) es \<Longrightarrow>
   displays (choice_run ks os es s) (home_run loc es w)"
  using front_page.run_displays [of ks os w s es loc] by (simp add: home_run_def choice_run_def)

lemma group_tab_keys: "map tab_key (map (\<lambda>(i, g). group_tab i g) (enumerate n gs)) = map nat_to_str [n..<n + length gs]"
  by (induction gs arbitrary: n) (simp_all add: group_tab_def upt_conv_Cons del: upt_Suc)

lemma group_option_keys:
  "map op_key (map (\<lambda>(i, g). group_option i g) (enumerate n gs)) = map nat_to_str [n..<n + length gs]"
  by (induction gs arbitrary: n) (simp_all add: group_option_def upt_conv_Cons del: upt_Suc)

lemma inj_nat_to_str: "inj nat_to_str"
  by (rule inj_on_inverseI [where g = digits_val]) simp

definition category_keys :: "group list \<Rightarrow> string list" where
  "category_keys gs = ''all'' # map nat_to_str [0..<length gs]"

definition menu_keys :: "compare \<Rightarrow> group list \<Rightarrow> string list" where
  "menu_keys loc gs = map op_key (mobileOptions (home_loaded loc (home_rendered gs)))"

lemma distinct_category_keys: "distinct (category_keys gs)"
  using nat_to_str_not_all
  by (auto simp: category_keys_def distinct_map intro: inj_on_subset [OF inj_nat_to_str] dest: sym)

lemma rendered_keyed: "keyed (category_keys gs) (menu_keys loc gs) (home_loaded loc (home_rendered gs))"
proof -
  have tabs: "map tab_key (tabs (home_rendered gs)) = category_keys gs"
    using group_tab_keys [of 0 gs] by (simp add: home_rendered_def category_keys_def all_tab_def del: map_map)
  have ops: "map op_key (mobileOptions (home_rendered gs)) = category_keys gs"
    using group_option_keys [of 0 gs] by (simp add: home_rendered_def category_keys_def all_option_def del: map_map)
  have "mset (menu_keys loc gs) = mset (category_keys gs)"
    unfolding ops [symmetric] menu_keys_def home_loaded_def by simp
  then have "set (menu_keys loc gs) = set (category_keys gs)" "length (menu_keys loc gs) = length (category_keys gs)"
    by (metis mset_eq_setD, metis size_mset)
  then show ?thesis using tabs distinct_category_keys
    by (simp add: keyed_def menu_keys_def home_loaded_def)
qed

lemma rendered_displays: "displays (''all'', False) (home_loaded loc (home_rendered gs))"
  using nat_to_str_not_all
  by (auto simp: displays_def home_loaded_def home_rendered_def tab_displays_def card_displays_def option_displays_def
      headed_by_def menu_displays_def all_tab_def group_tab_def all_option_def group_option_def group_cards_def
      in_set_enumerate_eq)

text \<open>
  C13: whatever a visitor does on the front page, in any order, the page shows what a machine of two
  variables says: the tab of the chosen category is marked and focusable, exactly the goods of
  that category are visible, the options of the menu, its heading and the label of the panel
  name it, and the menu and its button agree on whether it is open.
\<close>

theorem front_page_refines_choice:
  assumes "list_all (possible (Suc (length gs))) es"
  shows "displays (choice_run (category_keys gs) (menu_keys loc gs) es (''all'', False))
    (home_run loc es (home_loaded loc (home_rendered gs)))"
  by (rule run_refines [OF rendered_keyed rendered_displays]) (use assms in \<open>simp add: category_keys_def\<close>)

definition demo_visit :: "home_event list" where
  "demo_visit = [TabClick 1, ToggleClick, OptionKey 0 ''ArrowDown'', OptionClick 2, SortClick 1, TabKey 0 ''End'', ToggleClick]"

theorem front_page_refines_choice_witness:
  "list_all (possible 3) demo_visit \<and>
   displays (''1'', True) (home_run by_length demo_visit (home_loaded by_length (home_rendered demo_groups)))"
proof -
  have l: "length demo_groups = 2" by (simp add: demo_groups_def)
  have p: "list_all (possible (Suc (length demo_groups))) demo_visit" by (simp add: demo_visit_def l)
  have "nat_to_str 1 = ''1''" by code_simp
  then have "choice_run (category_keys demo_groups) (menu_keys by_length demo_groups) demo_visit (''all'', False)
      = (''1'', True)"
    by (simp add: choice_run_def demo_visit_def l category_keys_def next_tab_def)
  with front_page_refines_choice [OF p, of by_length] p show ?thesis by (simp add: l)
qed

end
