(* ===== verification/Shop_Pages.thy ===== *)
theory Shop_Pages imports Pay_Page Machines begin

text \<open>
  The small inline scripts of the shop's pages: the tabs of \<open>search.html\<close>, the choice of the
  payment method in \<open>buy.html\<close>, the copy buttons of \<open>orders.html\<close>, the connection test of
  \<open>install.html\<close>. The locale \<open>single_choice\<close> is what a group of buttons with one chosen
  promises; the groups of this theory and those of the administration meet it.
\<close>

section \<open>One of many\<close>

definition only :: "nat \<Rightarrow> nat \<Rightarrow> bool list" where
  "only n i = map (\<lambda>j. j = i) [0..<n]"

lemma length_only [simp]: "length (only n i) = n"
  by (simp add: only_def)

lemma nth_only [simp]: "j < n \<Longrightarrow> only n i ! j = (j = i)"
  by (simp add: only_def)

lemma only_update: "i < n \<Longrightarrow> (replicate n False)[i := True] = only n i"
  by (rule nth_equalityI) (auto simp: nth_list_update)

lemma map_enumerate_only: "map (\<lambda>(j, x). j = i) (enumerate 0 xs) = only (length xs) i"
  by (rule nth_equalityI) (auto simp: nth_enumerate_eq)

lemma only_one: "i < n \<Longrightarrow> \<exists>!j. j < n \<and> only n i ! j"
  by auto

text \<open>
  \<open>on\<close> reads the marks of the group, \<open>pick\<close> is the click on its button \<open>i\<close>; \<open>ok\<close> is what the
  clicks rely on and keep.
\<close>

locale single_choice =
  fixes pick :: "nat \<Rightarrow> 's \<Rightarrow> 's" and on :: "'s \<Rightarrow> bool list" and ok :: "'s \<Rightarrow> bool"
  assumes ok_pick: "ok s \<Longrightarrow> i < length (on s) \<Longrightarrow> ok (pick i s)"
    and on_pick: "ok s \<Longrightarrow> i < length (on s) \<Longrightarrow> on (pick i s) = only (length (on s)) i"
begin

abbreviation picks :: "nat list \<Rightarrow> 's \<Rightarrow> 's" where
  "picks is s \<equiv> foldl (\<lambda>s i. pick i s) s is"

text \<open>What \<open>n\<close> marks show once something was picked, if anything was.\<close>

definition marks :: "nat \<Rightarrow> nat option \<Rightarrow> 's \<Rightarrow> bool" where
  "marks n a s \<longleftrightarrow> ok s \<and> length (on s) = n \<and> (a \<noteq> None \<longrightarrow> on s = only n (the a))"

end

sublocale single_choice < choice: simulation pick "\<lambda>i _. Some i" "marks n" "\<lambda>i. i < n" for n
  by unfold_locales (simp add: marks_def ok_pick on_pick)

context single_choice begin

lemma last_pick:
  assumes "ok s" "is \<noteq> []" "\<forall>i \<in> set is. i < length (on s)"
  shows "on (picks is s) = only (length (on s)) (last is)"
proof -
  have "marks (length (on s)) (foldl (\<lambda>_. Some) None is) (picks is s)"
    using assms by (intro choice.run_displays) (simp_all add: marks_def list_all_iff)
  moreover have "foldl (\<lambda>_. Some) None is = Some (last is)"
    using assms(2) by (cases "is" rule: rev_cases) simp_all
  ultimately show ?thesis by (simp add: marks_def)
qed

end

section \<open>The tabs of the order query\<close>

text \<open>The class \<open>layui-this\<close> of the tabs, \<open>layui-show\<close> of the panes.\<close>

record query_page =
  q_tabs :: "bool list"
  q_panes :: "bool list"

definition query_click :: "nat \<Rightarrow> query_page stmt" where
  "query_click index =
     block
       [upd (\<lambda>w. w\<lparr>q_tabs := map (\<lambda>_. False) (q_tabs w)\<rparr>),
        upd (\<lambda>w. w\<lparr>q_panes := map (\<lambda>_. False) (q_panes w)\<rparr>),
        upd (\<lambda>w. w\<lparr>q_tabs := (q_tabs w)[index := True]\<rparr>),
        ifS (\<lambda>w. index < length (q_panes w))
          (upd (\<lambda>w. w\<lparr>q_panes := (q_panes w)[index := True]\<rparr>))
          (throw TypeError)]"

definition query_rendered :: query_page where
  "query_rendered = \<lparr>q_tabs = [True, False, False], q_panes = [True, False, False]\<rparr>"

section \<open>The payment method of an order\<close>

record pay_button =
  pb_id :: string
  pb_select :: bool
  pb_pressed :: bool

text \<open>\<open>payway_field\<close> is the hidden field \<open>payway\<close> of the form.\<close>

record checkout =
  pay_buttons :: "pay_button list"
  payway_field :: "string option"

definition choose_payway :: "nat \<Rightarrow> checkout \<Rightarrow> checkout" where
  "choose_payway i w =
     (let bs = map (\<lambda>b. b\<lparr>pb_select := False, pb_pressed := False\<rparr>) (pay_buttons w)
      in w\<lparr>pay_buttons := bs[i := (bs ! i)\<lparr>pb_select := True, pb_pressed := True\<rparr>],
           payway_field := map_option (\<lambda>_. pb_id (pay_buttons w ! i)) (payway_field w)\<rparr>)"

text \<open>The page the server renders for the identifiers of the payment methods; none is disabled.\<close>

definition checkout_rendered :: "string list \<Rightarrow> checkout" where
  "checkout_rendered ids =
     \<lparr>pay_buttons = map (\<lambda>(i, d). \<lparr>pb_id = d, pb_select = (i = 0), pb_pressed = (i = 0)\<rparr>) (enumerate 0 ids),
      payway_field = Some (if ids = [] then ''0'' else hd ids)\<rparr>"

section \<open>Copying an order\<close>

datatype copy_label = CopyText | CopyDone | CopyRefused | CopyManually

text \<open>
  \<open>sheet_value\<close> is the text of the order's area, None when the button has no sibling before it;
  \<open>sheet_selected\<close> says that the script focused and selected it.
\<close>

record copy_sheet =
  sheet_value :: "string option"
  sheet_selected :: bool
  copy_label :: copy_label
  copied :: "string option"

text \<open>
  \<open>clipboard\<close> is None when the browser has no \<open>writeText\<close>, else whether the promise is kept;
  \<open>exec\<close> is the result of \<open>document.execCommand\<close>, which copies the selection.
\<close>

definition order_copy :: "bool option \<Rightarrow> bool \<Rightarrow> copy_sheet stmt" where
  "order_copy clipboard exec =
     getS sheet_value (\<lambda>v. case v of
       None \<Rightarrow> throw TypeError
     | Some text \<Rightarrow>
         (case clipboard of
            Some True \<Rightarrow> block [upd (\<lambda>w. w\<lparr>copied := Some text, copy_label := CopyDone\<rparr>), ret]
          | Some False \<Rightarrow> block [upd (\<lambda>w. w\<lparr>copy_label := CopyRefused\<rparr>), ret]
          | None \<Rightarrow> block
              [upd (\<lambda>w. w\<lparr>sheet_selected := True\<rparr>),
               (if exec then upd (\<lambda>w. w\<lparr>copied := Some text, copy_label := CopyDone\<rparr>)
                else upd (\<lambda>w. w\<lparr>copy_label := CopyManually\<rparr>))]))"

section \<open>The connection test of the installation\<close>

datatype probe_text = ProbeEmpty | Connecting | NoExplanation | ProbeSays string

text \<open>
  The click writes \<open>Connecting\<close> and awaits the answer. What follows runs when the answer
  arrives; a rejected promise leaves the function with an error nobody catches.
\<close>

definition probe_click :: "probe_text stmt" where
  "probe_click = upd (\<lambda>_. Connecting)"

definition probe_message :: "jsval \<Rightarrow> (probe_text, jsval) expr" where
  "probe_message v w =
     (case v of
        Undefined \<Rightarrow> (Exn TypeError, w)
      | Null \<Rightarrow> (Exn TypeError, w)
      | Obj ps \<Rightarrow> (Val (oget ps ''message''), w)
      | _ \<Rightarrow> (Val Undefined, w))"

definition probe_answer :: "reply \<Rightarrow> probe_text stmt" where
  "probe_answer r =
     (case r of
        Lost \<Rightarrow> throw TypeError
      | Reply ok body \<Rightarrow>
          (case body of
             None \<Rightarrow> throw (PlainError ''SyntaxError'')
           | Some v \<Rightarrow> bindS (probe_message v) (\<lambda>m.
               upd (\<lambda>_. if truthy m then ProbeSays (to_str m) else NoExplanation))))"

definition probe :: "reply \<Rightarrow> probe_text \<Rightarrow> probe_text" where
  "probe r w = snd (probe_answer r (snd (probe_click w)))"

section \<open>The groups meet the contract\<close>

definition query_pick :: "nat \<Rightarrow> query_page \<Rightarrow> query_page" where
  "query_pick i w = snd (query_click i w)"

lemma query_click_run:
  "query_click i w =
     (if i < length (q_panes w) then Next else Throw TypeError,
      \<lparr>q_tabs = (replicate (length (q_tabs w)) False)[i := True],
       q_panes = (replicate (length (q_panes w)) False)[i := True]\<rparr>)"
  by (cases w) (auto simp: query_click_def js_run map_replicate_const list_update_beyond)

interpretation query_tabs: single_choice query_pick q_tabs "\<lambda>_. True"
  by unfold_locales (simp_all add: query_pick_def query_click_run only_update)

interpretation query_panes: single_choice query_pick q_panes "\<lambda>_. True"
  by unfold_locales (simp_all add: query_pick_def query_click_run only_update)


lemma choose_marks:
  assumes "i < length (pay_buttons w)"
  shows "map pb_select (pay_buttons (choose_payway i w)) = only (length (pay_buttons w)) i"
    and "map pb_pressed (pay_buttons (choose_payway i w)) = only (length (pay_buttons w)) i"
    and "map pb_id (pay_buttons (choose_payway i w)) = map pb_id (pay_buttons w)"
  using assms
  by (simp_all add: choose_payway_def Let_def map_update only_update map_replicate_const comp_def
      list_update_same_conv)

interpretation pay_highlight: single_choice choose_payway "\<lambda>w. map pb_select (pay_buttons w)" "\<lambda>_. True"
  by unfold_locales (simp_all add: choose_marks)

interpretation pay_pressed: single_choice choose_payway "\<lambda>w. map pb_pressed (pay_buttons w)" "\<lambda>_. True"
  by unfold_locales (simp_all add: choose_marks)

section \<open>Properties\<close>

theorem one_tab_one_pane:
  assumes "\<forall>i \<in> set is. i < 3"
  shows "\<exists>i < 3. foldl (\<lambda>w i. query_pick i w) query_rendered is = \<lparr>q_tabs = only 3 i, q_panes = only 3 i\<rparr>"
proof (cases "is = []")
  case True
  then show ?thesis by (intro exI [of _ 0]) (simp add: query_rendered_def only_def upt_conv_Cons)
next
  case False
  have n: "length (q_tabs query_rendered) = 3" "length (q_panes query_rendered) = 3"
    by (simp_all add: query_rendered_def)
  have "last is < 3" using assms False by simp
  moreover have "q_tabs (foldl (\<lambda>w i. query_pick i w) query_rendered is) = only 3 (last is)"
    using query_tabs.last_pick [OF TrueI False, of query_rendered] assms by (simp add: n)
  moreover have "q_panes (foldl (\<lambda>w i. query_pick i w) query_rendered is) = only 3 (last is)"
    using query_panes.last_pick [OF TrueI False, of query_rendered] assms by (simp add: n)
  ultimately show ?thesis by (intro exI [of _ "last is"]) simp
qed

theorem one_tab_one_pane_witness:
  "\<exists>i < 3. foldl (\<lambda>w i. query_pick i w) query_rendered [2, 1] = \<lparr>q_tabs = only 3 i, q_panes = only 3 i\<rparr>"
  by (rule one_tab_one_pane) simp

lemma choose_ids: "map pb_id (pay_buttons (choose_payway i w)) = map pb_id (pay_buttons w)"
proof (cases "i < length (pay_buttons w)")
  case False
  then show ?thesis by (simp add: choose_payway_def Let_def list_update_beyond comp_def)
qed (rule choose_marks(3))

text \<open>The form submits the method that is highlighted.\<close>

definition pays_by :: "string list \<Rightarrow> nat \<Rightarrow> checkout \<Rightarrow> bool" where
  "pays_by ids i w \<longleftrightarrow> map pb_id (pay_buttons w) = ids \<and> payway_field w = Some (ids ! i) \<and>
     map pb_select (pay_buttons w) = only (length ids) i \<and> map pb_pressed (pay_buttons w) = only (length ids) i"

lemma choose_pays: "pays_by ids i w \<Longrightarrow> j < length ids \<Longrightarrow> pays_by ids j (choose_payway j w)"
  by (auto simp: pays_by_def choose_marks choose_ids) (simp add: choose_payway_def Let_def)

lemma checkout_pays: "ids \<noteq> [] \<Longrightarrow> pays_by ids 0 (checkout_rendered ids)"
  by (auto simp: pays_by_def checkout_rendered_def hd_conv_nth nth_enumerate_eq intro!: nth_equalityI)

interpretation payway: simulation choose_payway "\<lambda>i _. i" "pays_by ids" "\<lambda>i. i < length ids" for ids
  by unfold_locales (rule choose_pays)

text \<open>
  After any clicks on the payment methods of an order the method clicked last, at first the first
  one, is the only one highlighted and announced as pressed, and the one whose identifier the
  form submits.
\<close>

theorem highlighted_method_is_submitted:
  assumes "ids \<noteq> []" "\<forall>i \<in> set is. i < length ids"
  shows "pays_by ids (last (0 # is)) (foldl (\<lambda>w i. choose_payway i w) (checkout_rendered ids) is)"
  using payway.run_displays [OF checkout_pays [OF assms(1)]] assms(2) by (simp add: last_event list_all_iff)

theorem highlighted_method_is_submitted_witness:
  "pays_by [''3'', ''7''] 1 (foldl (\<lambda>w i. choose_payway i w) (checkout_rendered [''3'', ''7'']) [0, 1])"
  using highlighted_method_is_submitted [of "[''3'', ''7'']" "[0, 1]"] by simp

lemma copied_is_shown:
  "order_copy clipboard exec w = (c, w') \<Longrightarrow> copied w = None \<Longrightarrow> copy_label w = CopyText \<Longrightarrow>
   (copy_label w' = CopyDone) = (copied w' \<noteq> None) \<and> (copied w' \<noteq> None \<longrightarrow> copied w' = sheet_value w)"
  by (auto simp: order_copy_def js_run split: option.splits bool.splits if_splits)

lemma probe_hangs: "probe Lost w = Connecting" "probe (Reply ok None) w = Connecting"
  by (simp_all add: probe_def probe_click_def probe_answer_def js_run)

end
