(* ===== verification/Admin_Page.thy ===== *)
theory Admin_Page imports Shop_Pages begin

text \<open>
  The script of the administration pages, \<open>layout.html\<close>: the theme, the search in the
  navigation, the account menu and the side bar, the sections of the settings, and the copy
  buttons. The script of the head sets the theme before the page is drawn, that of the foot
  the rest.
\<close>

section \<open>Theme\<close>

text \<open>
  \<open>stored\<close> is the entry of the local storage, which the browser may refuse to read or to
  write; \<open>system_dark\<close> is what the media query matches; the buttons are given by their mode
  and whether they are pressed.
\<close>

record theme_page =
  stored :: "string option"
  may_read :: bool
  may_write :: bool
  system_dark :: bool
  data_theme :: "string option"
  theme_choice :: "string option"
  theme_buttons :: "(string \<times> bool) list"

definition or_system :: "string option \<Rightarrow> string" where
  "or_system v = (case v of Some s \<Rightarrow> if s = [] then ''system'' else s | None \<Rightarrow> ''system'')"

definition is_dark :: "string \<Rightarrow> bool \<Rightarrow> bool" where
  "is_dark mode sys \<longleftrightarrow> mode = ''dark'' \<or> (mode \<noteq> ''light'' \<and> sys)"

definition theme_name :: "string \<Rightarrow> bool \<Rightarrow> string" where
  "theme_name mode sys = (if is_dark mode sys then ''dark'' else ''light'')"

definition theme_head :: "theme_page \<Rightarrow> theme_page" where
  "theme_head w =
     (let saved = (if may_read w then or_system (stored w) else ''system'')
      in w\<lparr>data_theme := Some (theme_name saved (system_dark w)), theme_choice := Some saved\<rparr>)"

definition choice :: "theme_page \<Rightarrow> string" where
  "choice w = or_system (theme_choice w)"

definition apply_theme :: "string \<Rightarrow> theme_page \<Rightarrow> theme_page" where
  "apply_theme mode w =
     w\<lparr>data_theme := Some (theme_name mode (system_dark w)), theme_choice := Some mode,
       stored := (if may_write w then Some mode else stored w),
       theme_buttons := map (\<lambda>(m, p). (m, m = mode)) (theme_buttons w)\<rparr>"

definition theme_foot :: "theme_page \<Rightarrow> theme_page" where
  "theme_foot w = apply_theme (choice w) w"

definition theme_click :: "nat \<Rightarrow> theme_page \<Rightarrow> theme_page" where
  "theme_click i w = apply_theme (fst (theme_buttons w ! i)) w"

text \<open>The system changes between light and dark.\<close>

definition system_change :: "bool \<Rightarrow> theme_page \<Rightarrow> theme_page" where
  "system_change d w =
     (let w1 = w\<lparr>system_dark := d\<rparr> in if choice w1 = ''system'' then apply_theme ''system'' w1 else w1)"

datatype theme_event = ThemeClick nat | SystemChange bool

fun theme_step :: "theme_event \<Rightarrow> theme_page \<Rightarrow> theme_page" where
  "theme_step (ThemeClick i) w = theme_click i w"
| "theme_step (SystemChange d) w = system_change d w"

text \<open>A page that is opened: a new document over the storage and the settings of the browser.\<close>

definition rendered_buttons :: "(string \<times> bool) list" where
  "rendered_buttons = [(''system'', False), (''light'', False), (''dark'', False)]"

definition open_page :: "theme_page \<Rightarrow> theme_page" where
  "open_page w =
     theme_foot (theme_head (w\<lparr>data_theme := None, theme_choice := None, theme_buttons := rendered_buttons\<rparr>))"

section \<open>Search in the navigation\<close>

datatype entry_kind = NavHeader | NavItem

record nav_entry =
  entry_kind :: entry_kind
  entry_text :: string
  entry_hidden :: bool

text \<open>\<open>text.indexOf(q) !== -1\<close>\<close>

fun occurs :: "string \<Rightarrow> string \<Rightarrow> bool" where
  "occurs q [] = (q = [])"
| "occurs q (c # cs) = (starts_with q (c # cs) \<or> occurs q cs)"

definition nav_query :: "string \<Rightarrow> string" where
  "nav_query v = map to_lower (trim v)"

definition filter_item :: "string \<Rightarrow> nav_entry \<Rightarrow> nav_entry" where
  "filter_item q e =
     (if entry_kind e = NavItem
      then e\<lparr>entry_hidden := (q \<noteq> [] \<and> \<not> occurs q (map to_lower (entry_text e)))\<rparr>
      else e)"

text \<open>The loop over the siblings after a header, up to the next header.\<close>

fun any_shown :: "nav_entry list \<Rightarrow> bool" where
  "any_shown [] = False"
| "any_shown (n # ns) = (entry_kind n \<noteq> NavHeader \<and> (\<not> entry_hidden n \<or> any_shown ns))"

fun filter_headers :: "nav_entry list \<Rightarrow> nav_entry list" where
  "filter_headers [] = []"
| "filter_headers (e # es) =
     (if entry_kind e = NavHeader then e\<lparr>entry_hidden := \<not> any_shown es\<rparr> else e) # filter_headers es"

definition nav_input :: "string \<Rightarrow> nav_entry list \<Rightarrow> nav_entry list" where
  "nav_input value nav = filter_headers (map (filter_item (nav_query value)) nav)"

section \<open>Account menu and side bar\<close>

datatype admin_focus = OnMenuButton | OnSidebar

record panels =
  account_expanded :: bool
  account_hidden :: bool
  sidebar_open :: bool
  scrim_open :: bool
  menu_expanded :: bool
  panel_focus :: "admin_focus option"

definition setAccount :: "bool \<Rightarrow> panels \<Rightarrow> panels" where
  "setAccount opened w = w\<lparr>account_expanded := opened, account_hidden := \<not> opened\<rparr>"

definition closeNav :: "panels \<Rightarrow> panels" where
  "closeNav w = w\<lparr>sidebar_open := False, scrim_open := False, menu_expanded := False,
                  panel_focus := Some OnMenuButton\<rparr>"

definition openNav :: "panels \<Rightarrow> panels" where
  "openNav w = w\<lparr>sidebar_open := True, scrim_open := True, menu_expanded := True,
                 panel_focus := Some OnSidebar\<rparr>"

text \<open>The listener of the document; the click is inside the account menu or its button or not.\<close>

definition page_click :: "bool \<Rightarrow> panels \<Rightarrow> panels" where
  "page_click in_account w = (if \<not> account_hidden w \<and> \<not> in_account then setAccount False w else w)"

definition page_key :: "string \<Rightarrow> panels \<Rightarrow> panels" where
  "page_key key w =
     (let w1 = (if key = ''Escape'' then setAccount False w else w)
      in if key = ''Escape'' \<and> sidebar_open w1 then closeNav w1 else w1)"

text \<open>The click on the account button does not reach the document; the others bubble to it.\<close>

datatype panel_event = AccountClick | MenuClick | ScrimClick | ElsewhereClick bool | PageKey string

fun panel_step :: "panel_event \<Rightarrow> panels \<Rightarrow> panels" where
  "panel_step AccountClick w = setAccount (account_hidden w) w"
| "panel_step MenuClick w = page_click False (openNav w)"
| "panel_step ScrimClick w = page_click False (closeNav w)"
| "panel_step (ElsewhereClick in_menu) w = page_click in_menu w"
| "panel_step (PageKey key) w = page_key key w"

definition panels_rendered :: panels where
  "panels_rendered = \<lparr>account_expanded = False, account_hidden = True, sidebar_open = False,
     scrim_open = False, menu_expanded = False, panel_focus = None\<rparr>"

section \<open>Sections of the settings\<close>

record section_button =
  sec_tab :: "string option"
  sec_on :: bool
  sec_selected :: bool

record settings_page =
  sec_buttons :: "section_button list"
  sec_panels :: "(string \<times> bool) list"

definition section_click :: "nat \<Rightarrow> settings_page \<Rightarrow> settings_page" where
  "section_click i w =
     (let t = sec_tab (sec_buttons w ! i)
      in w\<lparr>sec_buttons := map (\<lambda>(j, b). b\<lparr>sec_on := (j = i), sec_selected := (j = i)\<rparr>)
              (enumerate 0 (sec_buttons w)),
           sec_panels := map (\<lambda>(d, on). (d, Some d = t)) (sec_panels w)\<rparr>)"

text \<open>The page \<open>system.html\<close> with \<open>n\<close> sections.\<close>

definition section_name :: "nat \<Rightarrow> string" where
  "section_name i = ''set-'' @ nat_to_str i"

definition settings_rendered :: "nat \<Rightarrow> settings_page" where
  "settings_rendered n =
     \<lparr>sec_buttons = map (\<lambda>i. \<lparr>sec_tab = Some (section_name i), sec_on = (i = 0), sec_selected = (i = 0)\<rparr>) [0..<n],
      sec_panels = map (\<lambda>i. (section_name i, i = 0)) [0..<n]\<rparr>"

section \<open>Copy buttons\<close>

definition admin_copy :: "bool option \<Rightarrow> copy_label \<Rightarrow> copy_label" where
  "admin_copy clipboard l =
     (case clipboard of Some True \<Rightarrow> CopyDone | Some False \<Rightarrow> CopyRefused | None \<Rightarrow> CopyManually)"

end
