(* ===== verification/Admin_Props.thy ===== *)
theory Admin_Props imports Admin_Page Js_Facts begin

text \<open>
  The theme survives from page to page, the navigation shows the entries that match, the panels
  agree with what they announce, one section of the settings is open.
\<close>

section \<open>Theme\<close>

definition modes :: "string set" where
  "modes = {''system'', ''light'', ''dark''}"

text \<open>The page and the storage show one mode, and the button of that mode is pressed.\<close>

definition themed :: "string \<Rightarrow> theme_page \<Rightarrow> bool" where
  "themed m w \<longleftrightarrow> m \<in> modes \<and> may_read w \<and> may_write w \<and> stored w = Some m \<and> theme_choice w = Some m \<and>
     data_theme w = Some (theme_name m (system_dark w)) \<and>
     theme_buttons w = map (\<lambda>(b, p). (b, b = m)) rendered_buttons"

lemma themed_apply:
  assumes "theme_buttons w = map (\<lambda>(b, p). (b, q b)) rendered_buttons" "m \<in> modes" "may_read w" "may_write w"
  shows "themed m (apply_theme m w)"
  using assms by (simp add: themed_def apply_theme_def rendered_buttons_def)

lemma modes_not_Nil: "m \<in> modes \<Longrightarrow> or_system (Some m) = m"
  by (auto simp: modes_def or_system_def)

lemma themed_choice: "themed m w \<Longrightarrow> choice w = m"
  by (simp add: themed_def choice_def modes_not_Nil)

fun on_page :: "theme_event \<Rightarrow> bool" where
  "on_page (ThemeClick i) = (i < 3)"
| "on_page (SystemChange d) = True"

text \<open>The abstract machine: the mode that was chosen last.\<close>

fun mode_step :: "theme_event \<Rightarrow> string \<Rightarrow> string" where
  "mode_step (ThemeClick i) m = [''system'', ''light'', ''dark''] ! i"
| "mode_step (SystemChange d) m = m"

lemma themed_step:
  assumes w: "themed m w" and e: "on_page e"
  shows "themed (mode_step e m) (theme_step e w)"
proof (cases e)
  case (ThemeClick i)
  have b: "theme_buttons w = map (\<lambda>(b, p). (b, b = m)) rendered_buttons" "may_read w" "may_write w"
    using w by (simp_all add: themed_def)
  have m: "mode_step e m \<in> modes" "fst (theme_buttons w ! i) = mode_step e m"
    using e b(1) ThemeClick by (auto simp: rendered_buttons_def modes_def less_Suc_eq numeral_3_eq_3)
  show ?thesis unfolding ThemeClick theme_step.simps theme_click_def m(2) [unfolded ThemeClick]
    by (rule themed_apply [OF b(1) m(1) [unfolded ThemeClick] b(2, 3)])
next
  case (SystemChange d)
  have c: "choice (w\<lparr>system_dark := d\<rparr>) = m" using themed_choice [OF w] by (simp add: choice_def)
  show ?thesis
  proof (cases "m = ''system''")
    case True
    have "themed ''system'' (apply_theme ''system'' (w\<lparr>system_dark := d\<rparr>))"
      using w by (intro themed_apply [where q = "\<lambda>b. b = m"]) (simp_all add: themed_def modes_def)
    then show ?thesis using c True by (auto simp: SystemChange system_change_def)
  next
    case False
    then have "theme_name m d = theme_name m (system_dark w)"
      using w by (auto simp: themed_def modes_def theme_name_def is_dark_def)
    then have "themed m (w\<lparr>system_dark := d\<rparr>)" using w by (simp add: themed_def)
    then show ?thesis using c False by (auto simp: SystemChange system_change_def)
  qed
qed

interpretation theme: simulation theme_step mode_step themed on_page
  by unfold_locales (rule themed_step)

lemma themed_open:
  assumes "may_read w" "may_write w" "stored w = None \<or> (\<exists>m \<in> modes. stored w = Some m)"
  shows "themed (or_system (stored w)) (open_page w)"
proof -
  have "or_system (stored w) \<in> modes" using assms(3) by (auto simp: modes_not_Nil) (simp add: or_system_def modes_def)
  then show ?thesis unfolding open_page_def theme_foot_def
    using assms(1, 2) themed_apply [of "theme_head (w\<lparr>data_theme := None, theme_choice := None, theme_buttons := rendered_buttons\<rparr>)" "\<lambda>_. False"]
    by (simp add: theme_head_def choice_def modes_not_Nil rendered_buttons_def Let_def)
qed

lemma themed_reopen: "themed m w \<Longrightarrow> open_page w = w"
  by (simp add: themed_def open_page_def theme_foot_def theme_head_def apply_theme_def choice_def modes_not_Nil
      rendered_buttons_def)

text \<open>
  C33: after any choices of a theme and any changes of the system's, the page opened next in the same
  browser is exactly the page that was left: its choice is the last one, or the stored one when
  there was none, its theme is what the choice and the system say, and the button of the choice
  alone is pressed.
\<close>

theorem theme_survives_reload:
  assumes "may_read w0" "may_write w0" "stored w0 = None \<or> (\<exists>m \<in> modes. stored w0 = Some m)"
    and "list_all on_page es" "w = foldl (\<lambda>w e. theme_step e w) (open_page w0) es"
  shows "open_page w = w \<and> choice w = foldl (\<lambda>m e. mode_step e m) (or_system (stored w0)) es \<and>
    data_theme w = Some (theme_name (choice w) (system_dark w)) \<and>
    (\<forall>(m, p) \<in> set (theme_buttons w). p = (m = choice w))"
proof -
  let ?m = "foldl (\<lambda>m e. mode_step e m) (or_system (stored w0)) es"
  have m: "themed ?m w"
    using theme.run_displays [OF themed_open [OF assms(1-3)] assms(4)] assms(5) by simp
  then have "\<forall>(m', p) \<in> set (theme_buttons w). p = (m' = ?m)" by (auto simp: themed_def)
  with m themed_reopen [OF m] themed_choice [OF m] show ?thesis by (simp add: themed_def)
qed

definition fresh_browser :: theme_page where
  "fresh_browser = \<lparr>stored = None, may_read = True, may_write = True, system_dark = False, data_theme = None,
     theme_choice = None, theme_buttons = []\<rparr>"

theorem theme_survives_reload_witness:
  "let w = theme_step (SystemChange True) (theme_step (ThemeClick 1) (open_page fresh_browser))
   in open_page w = w \<and> choice w = ''light''"
  using theme_survives_reload [of fresh_browser "[ThemeClick 1, SystemChange True]"]
  by (simp add: fresh_browser_def Let_def)

section \<open>Navigation\<close>

definition header_entry :: "string \<Rightarrow> nav_entry" where
  "header_entry h = \<lparr>entry_kind = NavHeader, entry_text = h, entry_hidden = False\<rparr>"

definition item_entry :: "string \<Rightarrow> nav_entry" where
  "item_entry t = \<lparr>entry_kind = NavItem, entry_text = t, entry_hidden = False\<rparr>"

text \<open>The navigation as the server renders it: groups, each a header and the texts of its items.\<close>

definition nav_of :: "(string \<times> string list) list \<Rightarrow> nav_entry list" where
  "nav_of gs = concat (map (\<lambda>(h, ts). header_entry h # map item_entry ts) gs)"

definition visible_entries :: "nav_entry list \<Rightarrow> string list" where
  "visible_entries nav = map entry_text (filter (\<lambda>e. \<not> entry_hidden e) nav)"

text \<open>What a search should show: the items that match, each group under its header.\<close>

definition matches :: "string \<Rightarrow> string \<Rightarrow> bool" where
  "matches v t \<longleftrightarrow> nav_query v = [] \<or> occurs (nav_query v) (map to_lower t)"

definition matching :: "string \<Rightarrow> (string \<times> string list) list \<Rightarrow> string list" where
  "matching v gs = concat (map (\<lambda>(h, ts).
     (let ms = filter (matches v) ts in if ms = [] then [] else h # ms)) gs)"

lemma any_shown_append:
  "list_all (\<lambda>e. entry_kind e \<noteq> NavHeader) xs \<Longrightarrow> ys = [] \<or> entry_kind (hd ys) = NavHeader \<Longrightarrow>
   any_shown (xs @ ys) = list_ex (\<lambda>e. \<not> entry_hidden e) xs"
  by (induction xs) (cases ys; auto)+

lemma filter_headers_items:
  "list_all (\<lambda>e. entry_kind e \<noteq> NavHeader) xs \<Longrightarrow> filter_headers (xs @ ys) = xs @ filter_headers ys"
  by (induction xs) simp_all

lemma filter_item_simps [simp]:
  "filter_item q (header_entry h) = header_entry h"
  "entry_kind (filter_item q e) = entry_kind e" "entry_text (filter_item q e) = entry_text e"
  "entry_hidden (filter_item (nav_query v) (item_entry t)) = (\<not> matches v t)"
  by (simp_all add: filter_item_def header_entry_def item_entry_def matches_def)

lemma item_entry_kind [simp]: "entry_kind (item_entry t) = NavItem" "entry_text (item_entry t) = t"
  "entry_kind (header_entry h) = NavHeader" "entry_text (header_entry h) = h"
  by (simp_all add: item_entry_def header_entry_def)

lemma nav_of_hd: "map (filter_item q) (nav_of gs) = [] \<or> entry_kind (hd (map (filter_item q) (nav_of gs))) = NavHeader"
  by (cases gs) (auto simp: nav_of_def)

lemma shown_items:
  "map entry_text (filter (\<lambda>e. \<not> entry_hidden e) (map (filter_item (nav_query v)) (map item_entry ts))) =
   filter (matches v) ts"
  by (induction ts) simp_all

lemma nav_input_shows: "visible_entries (nav_input v (nav_of gs)) = matching v gs"
proof (induction gs)
  case (Cons g gs)
  obtain h ts where g: "g = (h, ts)" by force
  let ?f = "filter_item (nav_query v)"
  let ?is = "map ?f (map item_entry ts)"
  have kinds: "list_all (\<lambda>e. entry_kind e \<noteq> NavHeader) ?is" by (simp add: list_all_iff)
  have any: "any_shown (?is @ map ?f (nav_of gs)) = (filter (matches v) ts \<noteq> [])"
    unfolding any_shown_append [OF kinds nav_of_hd] by (auto simp: list_ex_iff filter_empty_conv)
  have "nav_input v (nav_of (g # gs)) =
      (header_entry h)\<lparr>entry_hidden := filter (matches v) ts = []\<rparr> # ?is @ nav_input v (nav_of gs)"
    using any filter_headers_items [OF kinds] by (simp add: nav_input_def nav_of_def g del: map_map)
  then have "visible_entries (nav_input v (nav_of (g # gs))) =
      (if filter (matches v) ts = [] then [] else [h]) @ filter (matches v) ts @ visible_entries (nav_input v (nav_of gs))"
    using shown_items [of v ts] by (simp add: visible_entries_def del: map_map)
  then show ?case unfolding Cons.IH by (simp add: matching_def g Let_def)
qed (simp add: nav_input_def nav_of_def matching_def visible_entries_def)

text \<open>A search forgets the searches before it.\<close>

lemma nav_input_forgets: "nav_input v (nav_input u nav) = nav_input v nav"
proof -
  define vq where "vq = nav_query v"
  define uq where "uq = nav_query u"
  have kinds: "any_shown (map (filter_item vq) (filter_headers (map (filter_item uq) es))) =
      any_shown (map (filter_item vq) es)" for es
    by (induction es) (auto simp: filter_item_def)
  have "filter_headers (map (filter_item vq) (filter_headers (map (filter_item uq) es))) =
      filter_headers (map (filter_item vq) es)" for es
    using kinds by (induction es) (auto simp: filter_item_def)
  then show ?thesis by (simp add: nav_input_def vq_def uq_def)
qed

text \<open>
  C34: after any searches in the navigation exactly the entries that contain the last text are shown,
  each group under its header, and no header without an entry.
\<close>

theorem navigation_shows_matches:
  assumes "vs \<noteq> []"
  shows "visible_entries (foldl (\<lambda>nav v. nav_input v nav) (nav_of gs) vs) = matching (last vs) gs"
proof -
  have "foldl (\<lambda>nav v. nav_input v nav) nav (us @ [v]) = nav_input v nav" for us v nav
    by (induction us arbitrary: nav) (simp_all add: nav_input_forgets)
  with nav_input_shows [of "last vs" gs] show ?thesis
    using append_butlast_last_id [OF assms] by metis
qed

theorem navigation_shows_matches_witness:
  "visible_entries (foldl (\<lambda>nav v. nav_input v nav) (nav_of [(''Goods'', [''List'', ''Groups'']), (''Sales'', [''Orders''])])
     [''x'', '' GRO '']) = [''Goods'', ''Groups'']"
proof -
  have "nav_query '' GRO '' = ''gro''" by code_simp
  then have "matching '' GRO '' [(''Goods'', [''List'', ''Groups'']), (''Sales'', [''Orders''])] = [''Goods'', ''Groups'']"
    by (simp add: matching_def matches_def) code_simp
  then show ?thesis
    using navigation_shows_matches [of "[''x'', '' GRO '']" "[(''Goods'', [''List'', ''Groups'']), (''Sales'', [''Orders''])]"]
    by simp
qed

section \<open>Panels\<close>

text \<open>The abstract machine: whether the account menu and whether the side bar are open.\<close>

fun open_step :: "panel_event \<Rightarrow> bool \<times> bool \<Rightarrow> bool \<times> bool" where
  "open_step AccountClick (a, n) = (\<not> a, n)"
| "open_step MenuClick (a, n) = (False, True)"
| "open_step ScrimClick (a, n) = (False, False)"
| "open_step (ElsewhereClick in_menu) (a, n) = (a \<and> in_menu, n)"
| "open_step (PageKey key) (a, n) = (a \<and> key \<noteq> ''Escape'', n \<and> key \<noteq> ''Escape'')"

definition panels_show :: "bool \<times> bool \<Rightarrow> panels \<Rightarrow> bool" where
  "panels_show = (\<lambda>(a, n) w. account_expanded w = a \<and> account_hidden w = (\<not> a) \<and> sidebar_open w = n \<and>
     scrim_open w = n \<and> menu_expanded w = n)"

lemma panel_step_shows: "panels_show s w \<Longrightarrow> panels_show (open_step e s) (panel_step e w)"
  by (cases e; cases s)
     (auto simp: panels_show_def setAccount_def page_click_def openNav_def closeNav_def page_key_def Let_def)

interpretation panels_open: simulation panel_step open_step panels_show "\<lambda>_. True"
  by unfold_locales (rule panel_step_shows)

theorem panels_announce_what_they_show:
  "panels_show (foldl (\<lambda>s e. open_step e s) (False, False) es) (foldl (\<lambda>w e. panel_step e w) panels_rendered es)"
  by (rule panels_open.run_displays) (simp_all add: panels_show_def panels_rendered_def list_all_iff)

section \<open>Sections of the settings\<close>

definition settings_ok :: "nat \<Rightarrow> settings_page \<Rightarrow> bool" where
  "settings_ok n w \<longleftrightarrow> map sec_tab (sec_buttons w) = map (\<lambda>i. Some (section_name i)) [0..<n] \<and>
     map fst (sec_panels w) = map section_name [0..<n]"

lemma section_name_eq [simp]: "(section_name i = section_name j) = (i = j)"
  by (metis section_name_def same_append_eq digits_val_nat_to_str)

definition section_marks :: "settings_page \<Rightarrow> bool list" where
  "section_marks w = map sec_on (sec_buttons w)"

lemma sec_tab_nth:
  assumes "settings_ok n w" "i < n"
  shows "sec_tab (sec_buttons w ! i) = Some (section_name i)"
proof -
  have "map sec_tab (sec_buttons w) ! i = Some (section_name i)" using assms by (simp add: settings_ok_def)
  moreover have "length (sec_buttons w) = n"
    using assms(1) unfolding settings_ok_def by (metis length_map length_upt minus_nat.diff_0)
  ultimately show ?thesis using assms(2) by simp
qed

lemma settings_length: "settings_ok n w \<Longrightarrow> length (sec_buttons w) = n \<and> length (sec_panels w) = n"
  unfolding settings_ok_def by (metis length_map length_upt minus_nat.diff_0)

lemma map_sec_tab:
  "map sec_tab (map (\<lambda>(j, b). b\<lparr>sec_on := P j, sec_selected := Q j\<rparr>) (enumerate k bs)) = map sec_tab bs"
  by (induction bs arbitrary: k) simp_all

lemma section_click_ok: "settings_ok n w \<Longrightarrow> settings_ok n (section_click i w)"
  using map_sec_tab [of "\<lambda>j. j = i" "\<lambda>j. j = i" 0 "sec_buttons w"]
  by (simp add: settings_ok_def section_click_def Let_def case_prod_beta comp_def)

lemma panel_marks:
  assumes "settings_ok n w" "i < n"
  shows "map snd (sec_panels (section_click i w)) = only n i"
proof (rule nth_equalityI)
  note len = settings_length [OF assms(1)]
  show "length (map snd (sec_panels (section_click i w))) = length (only n i)"
    using len by (simp add: section_click_def Let_def)
  fix j assume "j < length (map snd (sec_panels (section_click i w)))"
  then have j: "j < n" using len by (simp add: section_click_def Let_def)
  have "map fst (sec_panels w) ! j = section_name j" using assms(1) j by (simp add: settings_ok_def)
  then have "fst (sec_panels w ! j) = section_name j" using len j by simp
  then show "map snd (sec_panels (section_click i w)) ! j = only n i ! j"
    using sec_tab_nth [OF assms] j len
    by (auto simp: section_click_def Let_def case_prod_beta)
qed

lemma button_marks:
  "map sec_on (sec_buttons (section_click i w)) = only (length (sec_buttons w)) i"
  "map sec_selected (sec_buttons (section_click i w)) = only (length (sec_buttons w)) i"
  by (simp_all add: section_click_def Let_def comp_def case_prod_beta map_enumerate_only [symmetric])

interpretation section_on: single_choice section_click "\<lambda>w. map sec_on (sec_buttons w)" "settings_ok n"
  by unfold_locales (simp_all add: section_click_ok button_marks)

interpretation section_selected: single_choice section_click "\<lambda>w. map sec_selected (sec_buttons w)" "settings_ok n"
  by unfold_locales (simp_all add: section_click_ok button_marks)

interpretation section_panel: single_choice section_click "\<lambda>w. map snd (sec_panels w)" "settings_ok n"
  by unfold_locales (use settings_length in \<open>simp_all add: section_click_ok panel_marks\<close>)

lemma settings_rendered_ok: "settings_ok n (settings_rendered n)"
  by (simp add: settings_ok_def settings_rendered_def comp_def)

theorem one_section_of_settings:
  assumes "is \<noteq> []" "\<forall>i \<in> set is. i < n"
  defines "w \<equiv> foldl (\<lambda>w i. section_click i w) (settings_rendered n) is"
  shows "map sec_on (sec_buttons w) = only n (last is) \<and> map sec_selected (sec_buttons w) = only n (last is) \<and>
    map snd (sec_panels w) = only n (last is)"
  using section_on.last_pick [OF settings_rendered_ok assms(1)] section_selected.last_pick [OF settings_rendered_ok assms(1)]
    section_panel.last_pick [OF settings_rendered_ok assms(1)] assms(2) settings_length [OF settings_rendered_ok [of n]]
  by (simp add: w_def)

theorem one_section_of_settings_witness:
  "map snd (sec_panels (section_click 1 (section_click 2 (settings_rendered 3)))) = only 3 1"
  using one_section_of_settings [of "[2, 1]" 3] by simp

end
