(* ===== verification/Geometry.thy ===== *)
theory Geometry imports Sample_Page "HOL-Library.Multiset" begin

text \<open>
  What the sizes and places of the viewer promise: the fit of the image, the thumbnails, the
  list of thumbnails, zooming about a point, the zoom of two fingers, moving.
\<close>

section \<open>The size of the image\<close>

lemma nine_tenths: "x \<le> y \<Longrightarrow> b \<le> x * (9 / 10) \<Longrightarrow> b \<le> 9 / 10 * (y :: real)"
  by linarith

lemma fit_size_facts:
  assumes pos: "0 < vw" "0 < vh" "0 < nw" "0 < nh"
  shows "\<exists>a b. fit_size (Fin vw) (Fin vh) (Fin nw) (Fin nh) = (Fin a, Fin b) \<and>
    a / b = nw / nh \<and> 0 < a \<and> 0 < b \<and>
    a \<le> 9 / 10 * vw \<and> b \<le> 9 / 10 * vh \<and> a \<le> nw \<and> b \<le> nh \<and>
    (a = nw \<or> a = 9 / 10 * vw \<or> b = 9 / 10 * vh)"
proof (cases "vw < vh * (nw / nh)")
  case True
  define a where "a = min (vw * (9 / 10)) nw"
  define b where "b = min (vw / (nw / nh) * (9 / 10)) nh"
  have fs: "fit_size (Fin vw) (Fin vh) (Fin nw) (Fin nh) = (Fin a, Fin b)"
    using pos True by (simp add: fit_size_def Let_def a_def b_def)
  have b: "b = a / (nw / nh)" using pos by (auto simp: a_def b_def min_def field_simps)
  have "vw / (nw / nh) \<le> vh" using True pos by (simp add: field_simps)
  moreover have "b \<le> vw / (nw / nh) * (9 / 10)" unfolding b_def by (rule min.cobounded1)
  ultimately have "b \<le> 9 / 10 * vh" by (rule nine_tenths)
  moreover have "a / b = nw / nh" "0 < a" "0 < b" using pos b by (auto simp: a_def b_def)
  ultimately show ?thesis using fs by (auto simp: a_def b_def min_def)
next
  case False
  define a where "a = min (vh * (nw / nh) * (9 / 10)) nw"
  define b where "b = min (vh * (9 / 10)) nh"
  have fs: "fit_size (Fin vw) (Fin vh) (Fin nw) (Fin nh) = (Fin a, Fin b)"
    using pos False by (simp add: fit_size_def Let_def a_def b_def)
  have b: "a = b * (nw / nh)" using pos by (auto simp: a_def b_def min_def field_simps)
  have "a \<le> vh * (nw / nh) * (9 / 10)" unfolding a_def by (rule min.cobounded1)
  then have "a \<le> 9 / 10 * vw" by (rule nine_tenths [OF leI [OF False]])
  moreover have "a / b = nw / nh" "0 < a" "0 < b" using pos b by (auto simp: a_def b_def)
  moreover have "b = nh \<Longrightarrow> a = nw" using pos b by simp
  ultimately show ?thesis using fs by (auto simp: a_def b_def min_def)
qed

text \<open>
  C28: an image of positive size fits into nine tenths of the viewer with its own aspect
  ratio, is never enlarged, and is as large as these bounds allow.
\<close>

theorem fit_size_is_largest:
  assumes pos: "0 < vw" "0 < vh" "0 < nw" "0 < nh"
  shows "\<exists>a b. fit_size (Fin vw) (Fin vh) (Fin nw) (Fin nh) = (Fin a, Fin b) \<and>
    a / b = nw / nh \<and> 0 < a \<and> 0 < b \<and>
    a \<le> 9 / 10 * vw \<and> b \<le> 9 / 10 * vh \<and> a \<le> nw \<and> b \<le> nh \<and>
    (a = nw \<or> a = 9 / 10 * vw \<or> b = 9 / 10 * vh)"
  by (rule fit_size_facts [OF pos])

theorem fit_size_is_largest_witness:
  "\<exists>a b. fit_size (Fin 1000) (Fin 650) (Fin 800) (Fin 600) = (Fin a, Fin b) \<and>
     a / b = 800 / 600 \<and> b \<le> 9 / 10 * 650 \<and> a \<le> 800"
  using fit_size_is_largest [of 1000 650 800 600] by auto

text \<open>
  The image starts in the middle of the viewer, and its ratio is its width over its
  natural width, at most one.
\<close>

theorem fit_data_is_centred:
  assumes pos: "0 < vw" "0 < vh" "0 < nw" "0 < nh"
  shows "\<exists>a b l t r. id_width (fit_data (Fin vw) (Fin vh) (Fin nw) (Fin nh)) = Some (Fin a) \<and>
    id_height (fit_data (Fin vw) (Fin vh) (Fin nw) (Fin nh)) = Some (Fin b) \<and>
    id_left (fit_data (Fin vw) (Fin vh) (Fin nw) (Fin nh)) = Some (Fin l) \<and>
    id_top (fit_data (Fin vw) (Fin vh) (Fin nw) (Fin nh)) = Some (Fin t) \<and>
    id_ratio (fit_data (Fin vw) (Fin vh) (Fin nw) (Fin nh)) = Some (Fin r) \<and>
    l + a / 2 = vw / 2 \<and> t + b / 2 = vh / 2 \<and> 0 < l \<and> 0 < t \<and> a = r * nw \<and> 0 < r \<and> r \<le> 1"
proof -
  obtain a b where f: "fit_size (Fin vw) (Fin vh) (Fin nw) (Fin nh) = (Fin a, Fin b)"
    "0 < a" "0 < b" "a \<le> 9 / 10 * vw" "b \<le> 9 / 10 * vh" "a \<le> nw"
    using fit_size_facts [OF pos] by auto
  then show ?thesis using pos
    by (intro exI [of _ a] exI [of _ b] exI [of _ "(vw - a) / 2"] exI [of _ "(vh - b) / 2"]
          exI [of _ "a / nw"])
       (simp add: fit_data_def del: ndiv.simps, simp add: field_simps)
qed

theorem fit_data_is_centred_witness:
  "\<exists>a l. id_width (fit_data (Fin 1000) (Fin 650) (Fin 800) (Fin 600)) = Some (Fin a) \<and>
     id_left (fit_data (Fin 1000) (Fin 650) (Fin 800) (Fin 600)) = Some (Fin l) \<and> l + a / 2 = 500"
  using fit_data_is_centred [of 1000 650 800 600] by auto

text \<open>
  A thumbnail has the aspect ratio of its image; a filled one covers its box, another
  fits into it, and both touch two sides of it.
\<close>

theorem thumb_covers_or_fits:
  assumes pos: "0 < pw" "0 < ph" "0 < nw" "0 < nh"
  shows "\<exists>a b. thumb_size filled (Fin pw) (Fin ph) (Fin nw) (Fin nh) = (Fin a, Fin b) \<and>
    a / b = nw / nh \<and> (a = pw \<or> b = ph) \<and>
    (if filled then pw \<le> a \<and> ph \<le> b else a \<le> pw \<and> b \<le> ph)"
proof (cases "pw < ph * (nw / nh)")
  case True
  moreover have "pw / (nw / nh) \<le> ph" using True pos by (simp add: field_simps)
  ultimately show ?thesis using pos by (auto simp: thumb_size_def Let_def)
next
  case False
  moreover have "ph \<le> pw / (nw / nh)" using False pos by (simp add: field_simps)
  ultimately show ?thesis using pos by (auto simp: thumb_size_def Let_def)
qed

theorem thumb_covers_or_fits_witness:
  "\<exists>a b. thumb_size True (Fin 30) (Fin 50) (Fin 800) (Fin 600) = (Fin a, Fin b) \<and> 30 \<le> a \<and> 50 \<le> b"
  using thumb_covers_or_fits [of 30 50 800 600 True] by auto

text \<open>
  Item \<open>i\<close> of the list, which starts at \<open>(width + 1) * i\<close> inside the list, is in the middle
  of the viewer after the shift of the list.
\<close>

theorem list_shift_centres:
  "\<exists>x. list_shift (Fin vw) (Fin width) (nnat i) = Fin x \<and>
     x + (width + 1) * real i + width / 2 = vw / 2"
  by (intro exI [of _ "(vw - width) / 2 - (width + 1) * real i"]) (simp add: list_shift_def diff_divide_distrib)

section \<open>Zooming\<close>

text \<open>
  The place of the image after zooming keeps the point under the pointer: its relative
  position in the image is the same before and after.
\<close>

theorem zoom_keeps_point:
  assumes "0 < w0" "0 < h0" "0 < w1" "0 < h1"
    and "id_left old = Some (Fin l0)" "id_top old = Some (Fin t0)"
    and "id_width old = Some (Fin w0)" "id_height old = Some (Fin h0)"
  shows "\<exists>l1 t1.
    id_left (zoom_place (Some (Fin cx, Fin cy)) (Fin ox, Fin oy) old (Fin (w1 - w0)) (Fin (h1 - h0)) old) = Some (Fin l1) \<and>
    id_top (zoom_place (Some (Fin cx, Fin cy)) (Fin ox, Fin oy) old (Fin (w1 - w0)) (Fin (h1 - h0)) old) = Some (Fin t1) \<and>
    (cx - ox - l1) / w1 = (cx - ox - l0) / w0 \<and> (cy - oy - t1) / h1 = (cy - oy - t0) / h0"
proof -
  have "(c - (l0 - (w1 - w0) * ((c - l0) / w0))) / w1 = (c - l0) / w0"
    if "0 < w0" "0 < w1" for c l0 w0 w1 :: real
    using that by (simp add: field_simps)
  from this [OF assms(1, 3)] this [OF assms(2, 4)] show ?thesis
    using assms by (simp add: zoom_place_def num_of_def)
qed

definition square_data :: imagedata where
  "square_data = empty_data
     \<lparr>id_left := Some (Fin 10), id_top := Some (Fin 10), id_width := Some (Fin 100),
      id_height := Some (Fin 100)\<rparr>"

theorem zoom_keeps_point_witness:
  "\<exists>l1. id_left (zoom_place (Some (Fin 50, Fin 50)) (Fin 0, Fin 0) square_data
      (Fin (200 - 100)) (Fin (200 - 100)) square_data) = Some (Fin l1) \<and>
     (50 - 0 - l1) / 200 = (50 - 0 - 10) / (100 :: real)"
proof -
  have d: "id_left square_data = Some (Fin 10)" "id_top square_data = Some (Fin 10)"
    "id_width square_data = Some (Fin 100)" "id_height square_data = Some (Fin 100)"
    by (simp_all add: square_data_def)
  show ?thesis
    using zoom_keeps_point [of 100 100 200 200 square_data 10 10 50 50 0 0] d by auto
qed

text \<open>
  Zooming in by a ratio and out by the same ratio multiplies the size by one, and a
  factor is never negative or zero.
\<close>

lemma zoom_in_out:
  assumes "0 \<le> r"
  shows "\<exists>a b. zoom_factor (Fin r) = Fin a \<and> zoom_factor (Fin (- r)) = Fin b \<and>
    a * b = 1 \<and> 1 \<le> a \<and> 0 < b \<and> b \<le> 1"
  using assms by (auto simp: zoom_factor_def)

text \<open>
  A ratio that is not forced ends between the configured bounds, inside one hundredth and
  one hundred, and the snap to the natural size stays between any bounds around one.
\<close>

theorem ratio_in_bounds:
  assumes "opt ''minZoomRatio'' w = Num (Fin lo)" "opt ''maxZoomRatio'' w = Num (Fin hi)"
    and "lo \<le> 1" "1 \<le> hi" "0 \<le> r"
  shows "\<exists>x. snap_ratio w ev (clamp_ratio w False (Fin r)) = Fin x \<and>
    max (1 / 100) lo \<le> x \<and> x \<le> min 100 hi \<and>
    (\<not> ev \<and> max (1 / 100) lo \<le> r \<and> r \<le> min 100 hi \<longrightarrow> x = r)"
proof -
  have c: "clamp_ratio w False (Fin r) = Fin (min (max r (max (1 / 100) lo)) (min 100 hi))"
    using assms(1, 2) by (simp add: clamp_ratio_def to_num_def)
  show ?thesis
    using assms(3-5) by (auto simp: c snap_ratio_def min_def max_def split: if_splits)
qed


theorem ratio_in_bounds_witness:
  "\<exists>x. snap_ratio (empty_page\<lparr>options := DEFAULTS\<rparr>) False
       (clamp_ratio (empty_page\<lparr>options := DEFAULTS\<rparr>) False (Fin 200)) = Fin x \<and> 1 / 100 \<le> x \<and> x \<le> 100"
  using ratio_in_bounds [of "empty_page\<lparr>options := DEFAULTS\<rparr>" "1 / 100" 100 200 False]
  by (auto simp: opt_def empty_page_def DEFAULTS_def DEFAULTS_look_def DEFAULTS_behaviour_def)

section \<open>Two fingers\<close>

definition dist_start :: "pointer \<Rightarrow> pointer \<Rightarrow> real" where
  "dist_start p q =
     (case (pt_startX p, pt_startX q, pt_startY p, pt_startY q) of
        (Fin a, Fin b, Fin c, Fin d) \<Rightarrow> sqrt ((a - b) ^ 2 + (c - d) ^ 2) | _ \<Rightarrow> 0)"

definition dist_end :: "pointer \<Rightarrow> pointer \<Rightarrow> real" where
  "dist_end p q =
     (case (pt_endX p, pt_endX q, pt_endY p, pt_endY q) of
        (Fin a, Fin b, Fin c, Fin d) \<Rightarrow> sqrt ((a - b) ^ 2 + (c - d) ^ 2) | _ \<Rightarrow> 0)"

definition finite_pointer :: "pointer \<Rightarrow> bool" where
  "finite_pointer p \<longleftrightarrow>
     (\<exists>a b c d. pt_startX p = Fin a \<and> pt_startY p = Fin b \<and> pt_endX p = Fin c \<and> pt_endY p = Fin d)"

lemma pair_ratio_dist:
  assumes "finite_pointer p" "finite_pointer q" "dist_start p q \<noteq> 0"
  shows "pair_ratio p q = Fin ((dist_end p q - dist_start p q) / dist_start p q)"
  using assms
  by (auto simp: finite_pointer_def pair_ratio_def dist_start_def dist_end_def Let_def
      power2_eq_square not_sum_squares_lt_zero)

text \<open>
  With two pointers the zoom ratio is the change of their distance over the distance
  before, for every sort that returns a rearrangement.
\<close>

theorem two_finger_zoom:
  assumes "\<And>cmp xs. mset (sort_fn cmp xs) = mset xs"
    and "finite_pointer p" "finite_pointer q" "dist_start p q \<noteq> 0"
  shows "getMaxZoomRatio sort_fn [(i, p), (j, q)] =
    Num (Fin ((dist_end p q - dist_start p q) / dist_start p q))"
proof -
  have "mset (sort_fn ratio_order [pair_ratio p q]) = mset [pair_ratio p q]" by (rule assms(1))
  then have "sort_fn ratio_order [pair_ratio p q] = [pair_ratio p q]" by simp
  then show ?thesis using pair_ratio_dist [OF assms(2-4)] by (simp add: getMaxZoomRatio_def)
qed

definition tip :: "real \<Rightarrow> real \<Rightarrow> pointer" where
  "tip a b = \<lparr>pt_time = Fin 0, pt_startX = Fin a, pt_startY = Fin 0, pt_endX = Fin b, pt_endY = Fin 0\<rparr>"

lemma mset_place_by: "mset (place_by cmp x ys) = add_mset x (mset ys)"
  by (induction ys) auto

lemma mset_sort_by: "mset (sort_by cmp xs) = mset xs"
  by (induction xs) (auto simp: sort_by_def mset_place_by)

theorem two_finger_zoom_witness:
  "getMaxZoomRatio sort_by [(0, tip 0 0), (1, tip 10 15)] = Num (Fin (1 / 2))"
proof -
  have "dist_start (tip 0 0) (tip 10 15) = 10" "dist_end (tip 0 0) (tip 10 15) = 15"
    by (simp_all add: dist_start_def dist_end_def tip_def)
  then show ?thesis
    using two_finger_zoom [of sort_by "tip 0 0" "tip 10 15" 0 1] mset_sort_by
    by (simp add: finite_pointer_def tip_def)
qed

text \<open>
  The comparator of the ratios answers that neither comes first or that the smaller one
  comes last, but never that the larger one comes first: for two different absolute values
  its two answers contradict each other, so the language leaves the order open.
\<close>

theorem ratio_order_contradicts:
  assumes "nlt (nabs a) (nabs b)"
  shows "ratio_order a b = 1 \<and> ratio_order b a = 0 \<and> \<not> (\<exists>x y. ratio_order x y < 0)"
  using assms nlt_asym [OF assms] by (simp add: ratio_order_def)

theorem ratio_order_contradicts_witness:
  "ratio_order (Fin 1) (Fin (-2)) = 1 \<and> ratio_order (Fin (-2)) (Fin 1) = 0"
  using ratio_order_contradicts [of "Fin 1" "Fin (-2)"] by simp

end
