(* ===== verification/Dragging.thy ===== *)
theory Dragging imports Sample_Page begin

text \<open>
  Moving the image: what rendering leaves alone, the effect of \<open>moveTo\<close>, and a drag as a
  sequence of pointer events.
\<close>

section \<open>Rendering\<close>

lemma setStyle_run [js_run]:
  "setStyle n s w = (if n = null then (Throw TypeError, w) else (Next, node_upd n (style_all s) w))"
  by (simp add: setStyle_def need_def upd_def)

definition redrawn :: "world \<Rightarrow> world" where
  "redrawn w = node_upd (image w) (style_all (image_styles (idata w))) w"

lemma renderImage_run [js_run]:
  "renderImage E RNone w = (if image w = null then (Throw TypeError, w) else (Next, redrawn w))"
  by (simp add: renderImage_def redrawn_def getS_def setStyle_run skip_def)

lemma redrawn_fields [simp]:
  "idata (redrawn w) = idata w" "viewed (redrawn w) = viewed w" "played (redrawn w) = played w"
  "options (redrawn w) = options w" "image (redrawn w) = image w" "action (redrawn w) = action w"
  "pointers (redrawn w) = pointers w" "imageData (redrawn w) = imageData w"
  by (simp_all add: redrawn_def node_upd_def idata_def)

lemma set_idata_fields [simp]:
  "viewed (set_idata r f w) = viewed w" "played (set_idata r f w) = played w"
  "options (set_idata r f w) = options w" "image (set_idata r f w) = image w"
  "action (set_idata r f w) = action w" "pointers (set_idata r f w) = pointers w"
  "imageData (set_idata r f w) = imageData w"
  by (simp_all add: set_idata_def)

section \<open>Moving\<close>

text \<open>A viewed image that can be moved.\<close>

definition can_move :: "world \<Rightarrow> bool" where
  "can_move w \<longleftrightarrow> viewed w \<and> \<not> played w \<and> opt_on ''movable'' w \<and> image w \<noteq> null"

definition placed :: "real \<Rightarrow> real \<Rightarrow> imagedata \<Rightarrow> imagedata" where
  "placed x y d = d\<lparr>id_left := Some (Fin x), id_top := Some (Fin y)\<rparr>"

lemma opt_on_fields [simp]:
  "opt_on k (redrawn w) = opt_on k w" "opt_on k (set_idata r f w) = opt_on k w"
  "opt_on k (w\<lparr>pointers := ps\<rparr>) = opt_on k w" "opt_on k (w\<lparr>prevented := b\<rparr>) = opt_on k w"
  by (simp_all add: opt_on_def opt_def)

lemma moveTo_run:
  assumes "can_move w"
  shows "\<exists>w'. moveTo E (Num (Fin x)) (Num (Fin y)) w = (Next, w') \<and>
    idata w' = placed x y (idata w) \<and> can_move w' \<and> action w' = action w \<and> pointers w' = pointers w"
  using assms
  by (simp add: moveTo_def Let_def isUndefined_def to_num_def js_run movable_now_def can_move_def
      idata_set_idata placed_def)

lemma move_run:
  assumes "can_move w" "id_left (idata w) = Some (Fin l)" "id_top (idata w) = Some (Fin t)"
  shows "\<exists>w'. move E (Num (Fin x)) (Num (Fin y)) w = (Next, w') \<and>
    idata w' = placed (l + x) (t + y) (idata w) \<and> can_move w' \<and> action w' = action w \<and>
    pointers w' = pointers w"
  using moveTo_run [OF assms(1), of E "l + x" "t + y"] assms(2, 3)
  by (auto simp: move_def getS_def callS_def shift_by_def isUndefined_def num_of_def to_num_def)

section \<open>Dragging\<close>

definition held :: "nat \<Rightarrow> real \<Rightarrow> real \<Rightarrow> world \<Rightarrow> bool" where
  "held k x y w \<longleftrightarrow>
     (\<exists>p. pointers w = [(k, p)] \<and> pt_startX p = Fin x \<and> pt_startY p = Fin y)"

definition drag_event :: "nat \<Rightarrow> real \<times> real \<Rightarrow> event" where
  "drag_event k = (\<lambda>(x, y). (plain_event ''pointermove'' 0)
     \<lparr>e_trusted := True, e_pointerId := k, e_pageX := Fin x, e_pageY := Fin y\<rparr>)"

lemma drag_step:
  assumes w: "can_move w" "action w = ActMove" "held k x y w"
    and d: "id_left (idata w) = Some (Fin l)" "id_top (idata w) = Some (Fin t)"
  shows "\<exists>w'. pointermove E (drag_event k (x', y')) w = (Next, w') \<and>
    idata w' = placed (l + (x' - x)) (t + (y' - y)) (idata w) \<and>
    can_move w' \<and> action w' = ActMove \<and> held k x' y' w'"
proof -
  obtain p where p: "pointers w = [(k, p)]" "pt_startX p = Fin x" "pt_startY p = Fin y"
    using w(3) by (auto simp: held_def)
  let ?q = "movePointer (Fin x') (Fin y') p"
  let ?u = "w\<lparr>prevented := True, pointers := [(k, ?q)]\<rparr>"
  have u: "can_move ?u" "id_left (idata ?u) = Some (Fin l)" "id_top (idata ?u) = Some (Fin t)"
    using w(1) d by (auto simp: can_move_def idata_def opt_on_def opt_def)
  obtain v where v: "move E (Num (Fin (x' - x))) (Num (Fin (y' - y))) ?u = (Next, v)"
    "idata v = placed (l + (x' - x)) (t + (y' - y)) (idata ?u)" "can_move v"
    "action v = action ?u" "pointers v = pointers ?u"
    using move_run [OF u, of E "x' - x" "y' - y"] by auto
  have "pointermove E (drag_event k (x', y')) w = (Next, v\<lparr>pointers := rebase (pointers v)\<rparr>)"
    using w v(1) p
    by (simp add: pointermove_def js_run preventDefault_def drag_event_def plain_event_def contacts_def
        drag_all_def pointer_upd_def change_def Let_def can_move_def movePointer_def)
  then show ?thesis
    using v w(2)
    by (auto simp: held_def rebase_def movePointer_def can_move_def idata_def opt_on_def opt_def)
qed

text \<open>
  C14: while a finger drags a movable image, the image follows it: after any sequence of
  pointer events its place has changed by the way from where the finger was to where it is,
  and only its place.
\<close>

theorem drag_follows_finger:
  assumes "can_move w" "action w = ActMove" "held k x y w"
    and "id_left (idata w) = Some (Fin l)" "id_top (idata w) = Some (Fin t)"
  shows "idata (foldl (\<lambda>w pt. snd (pointermove E (drag_event k pt) w)) w pts) =
    placed (l + (fst (last ((x, y) # pts)) - x)) (t + (snd (last ((x, y) # pts)) - y)) (idata w)"
  using assms
proof (induction pts arbitrary: w x y l t)
  case Nil
  then show ?case by (simp add: placed_def)
next
  case (Cons pt pts)
  obtain x' y' where pt: "pt = (x', y')" by (cases pt)
  obtain w' where s: "pointermove E (drag_event k (x', y')) w = (Next, w')"
    "idata w' = placed (l + (x' - x)) (t + (y' - y)) (idata w)" "can_move w'" "action w' = ActMove"
    "held k x' y' w'"
    using drag_step [OF Cons.prems] by blast
  have "id_left (idata w') = Some (Fin (l + (x' - x)))" "id_top (idata w') = Some (Fin (t + (y' - y)))"
    by (simp_all add: s(2) placed_def)
  from Cons.IH [OF s(3-5) this] show ?case
    by (simp add: pt s(1) s(2)) (simp add: placed_def)
qed

definition drag_world :: world where
  "drag_world = empty_page
     \<lparr>options := DEFAULTS, viewed := True, image := 4, action := ActMove,
      pointers := [(1, getPointer (Fin 0) (Fin 5) (Fin 5))],
      idatas := (\<lambda>n. placed 100 50 empty_data)\<rparr>"

theorem drag_follows_finger_witness:
  "idata (foldl (\<lambda>w pt. snd (pointermove page_env (drag_event 1 pt) w)) drag_world [(6, 6), (15, 9)]) =
     placed (100 + (15 - 5)) (50 + (9 - 5)) (placed 100 50 empty_data)"
proof -
  have "can_move drag_world" "action drag_world = ActMove" "held 1 5 5 drag_world"
    "id_left (idata drag_world) = Some (Fin 100)" "id_top (idata drag_world) = Some (Fin 50)"
    "idata drag_world = placed 100 50 empty_data"
    by (simp_all add: drag_world_def can_move_def held_def opt_on_def opt_def DEFAULTS_def
        DEFAULTS_look_def DEFAULTS_behaviour_def getPointer_def idata_def placed_def null_def empty_page_def)
  then show ?thesis
    using drag_follows_finger [of drag_world 1 5 5 100 50 page_env "[(6, 6), (15, 9)]"] by simp
qed

section \<open>After a swipe\<close>

definition swipe_over :: "world \<Rightarrow> bool" where
  "swipe_over w \<longleftrightarrow> typed w \<and> pointers w = [] \<and> action w = ActSwitched"

interpretation swipe_inv: method_invariant swipe_over
  by unfold_locales
     (auto simp: swipe_over_def core_def typed_def addEventListener_def new_imageData_def)

lemma agree_run: "agree P s t \<Longrightarrow> P w \<Longrightarrow> \<exists>r v. s w = (r, v) \<and> P v"
  by (erule agreeD_cases) auto

text \<open>Once the neighbour has been asked for, no method puts the pointers or the action back.\<close>

lemma neighbour_keeps_swipe:
  assumes "swipe_over u" "\<And>j vs. keepsE swipe_over (e_user E j vs)"
  shows "\<exists>r v. callS (prev (stack (Suc d) E) l) u = (r, v) \<and> swipe_over v"
    "\<exists>r v. callS (next_image (stack (Suc d) E) l) u = (r, v) \<and> swipe_over v"
proof -
  have "light swipe_over (stack (Suc d) E) (invoke (stack (Suc d) E))"
    using assms(2) by (intro swipe_inv.light_stack) (simp_all add: users_def swipe_over_def)
  note keeps = swipe_inv.agree_view [OF this]
  show "\<exists>r v. callS (prev (stack (Suc d) E) l) u = (r, v) \<and> swipe_over v"
    using agree_run [OF agree_callS [OF keeps(2)] assms(1)] by blast
  show "\<exists>r v. callS (next_image (stack (Suc d) E) l) u = (r, v) \<and> swipe_over v"
    using agree_run [OF agree_callS [OF keeps(3)] assms(1)] by blast
qed

lemma swipe_run:
  assumes "typed w" "viewed w" "action w = ActSwitch" "held k x y w"
    and "1 < \<bar>x' - x\<bar>" "\<bar>y' - y\<bar> < \<bar>x' - x\<bar>" "\<And>j vs. keepsE swipe_over (e_user E j vs)"
  shows "\<exists>r v. pointermove (stack (Suc d) E) (drag_event k (x', y')) w = (r, v) \<and> swipe_over v"
proof -
  obtain p where p: "pointers w = [(k, p)]" "pt_startX p = Fin x" "pt_startY p = Fin y"
    using assms(4) by (auto simp: held_def)
  define u where "u = w\<lparr>prevented := True, action := ActSwitched, pointers := []\<rparr>"
  define F where "F = stack (Suc d) E"
  let ?prev = "1 < x' - x" and ?l = "opt_on ''loop'' w"
  have "swipe_over u" using assms(1) by (simp add: u_def swipe_over_def typed_def)
  note n = neighbour_keeps_swipe [OF this assms(7), of d ?l, folded F_def]
  obtain r v where v: "(if ?prev then callS (prev F ?l) else callS (next_image F ?l)) u = (r, v)" "swipe_over v"
    using n by (cases ?prev) auto
  have "?prev \<or> x' - x < - 1" using assms(5) by linarith
  then have "pointermove F (drag_event k (x', y')) w = (r, v)"
    using assms(2, 3, 5, 6) p v(1)
    by (auto simp: pointermove_def js_run preventDefault_def drag_event_def plain_event_def contacts_def
        drag_all_def pointer_upd_def change_def Let_def movePointer_def swipe_def swiped_def u_def
        opt_on_def opt_def split: prod.splits outcome.splits if_splits)
  with v(2) show ?thesis unfolding F_def by blast
qed

text \<open>
  C39: \<open>change\<close> takes the first pointer for granted, and a swipe throws the pointers away without
  ending the action. A finger that has moved far enough to the side swipes: the neighbour is asked
  for, and whatever the images and the page's listeners do then, the pointers are gone and the action
  is still set. The next movement of the same finger over a shown image throws a TypeError.
\<close>

theorem move_after_swipe_throws:
  assumes "typed w" "viewed w" "action w = ActSwitch" "held k x y w"
    and "1 < \<bar>x' - x\<bar>" "\<bar>y' - y\<bar> < \<bar>x' - x\<bar>" "\<And>j vs. keepsE swipe_over (e_user E j vs)"
  shows "\<exists>r v. pointermove (stack (Suc d) E) (drag_event k (x', y')) w = (r, v) \<and>
    action v = ActSwitched \<and> pointers v = [] \<and>
    pointermove (stack (Suc d) E) (drag_event k pt) v =
      (if viewed v then (Throw TypeError, v\<lparr>prevented := True\<rparr>) else (Ret, v))"
proof -
  obtain r v where v: "pointermove (stack (Suc d) E) (drag_event k (x', y')) w = (r, v)" "swipe_over v"
    using swipe_run [OF assms] by blast
  have "drag_all (contacts (drag_event k pt)) [] = []"
    using keys_drag_all [of "contacts (drag_event k pt)" "[]"] by simp
  moreover have "e_cancelable (drag_event k pt)" by (cases pt) (simp add: drag_event_def plain_event_def)
  ultimately have "pointermove F (drag_event k pt) v =
      (if viewed v then (Throw TypeError, v\<lparr>prevented := True\<rparr>) else (Ret, v))" for F
    using v(2) by (simp add: swipe_over_def pointermove_def js_run preventDefault_def change_def)
  with v show ?thesis unfolding swipe_over_def by blast
qed

text \<open>At the first of two images, without \<open>loop\<close>, a swipe to the right stays where it is.\<close>

definition swipe_world :: world where
  "swipe_world = drag_world\<lparr>options := oset DEFAULTS ''loop'' (Bool False), action := ActSwitch, len := 2, isShown := True\<rparr>"

lemma first_swipe:
  "viewed (snd (pointermove E (drag_event 1 (15, 5)) swipe_world))"
  by (simp add: swipe_world_def drag_world_def empty_page_def pointermove_def js_run preventDefault_def
      drag_event_def plain_event_def contacts_def drag_all_def pointer_upd_def change_def Let_def
      movePointer_def swipe_def swiped_def getPointer_def opt_on_def opt_def prev_def prev_index_def view_def
      view_with_def view_index_def view_refused_def isUndefined_def to_num_def nor_def neq_def)

theorem move_after_swipe_throws_witness:
  "\<exists>r v. pointermove (stack (Suc 1) page_env) (drag_event 1 (15, 5)) swipe_world = (r, v) \<and> viewed v \<and>
     pointermove (stack (Suc 1) page_env) (drag_event 1 (20, 5)) v = (Throw TypeError, v\<lparr>prevented := True\<rparr>)"
proof -
  have "typed swipe_world" "viewed swipe_world" "action swipe_world = ActSwitch" "held 1 5 5 swipe_world"
    by (simp_all add: typed_def swipe_world_def drag_world_def empty_page_def held_def getPointer_def)
  moreover have "keepsE swipe_over (e_user page_env j vs)" for j vs by (simp add: keepsE_def page_env_def)
  ultimately show ?thesis
    using move_after_swipe_throws [of swipe_world 1 5 5 15 5 page_env 1 "(20, 5)"]
      first_swipe [of "stack (Suc 1) page_env"] by (auto simp del: stack.simps)
qed

end
