(* ===== verification/Text_Props.thy ===== *)
theory Text_Props imports Sample_Page Js_Facts begin

text \<open>
  What the text functions promise: escaping, names of data attributes, data stored on an
  element, names of images, the markup template.
\<close>

section \<open>Escaping\<close>

text \<open>Text in which every ampersand begins one of the five entities, and no special character is left.\<close>

fun escaped :: "string \<Rightarrow> bool" where
  "escaped [] = True"
| "escaped (c # cs) =
     ((c = CHR ''&'' \<longrightarrow> entity_follows cs) \<and>
      c \<notin> {CHR ''<'', CHR ''>'', CHR 0x22, CHR 0x27} \<and> escaped cs)"

text \<open>One pass that does the five replacements together.\<close>

fun escape_one :: "string \<Rightarrow> string" where
  "escape_one [] = []"
| "escape_one (c # cs) =
     (if c = CHR ''&'' \<and> \<not> entity_follows cs then ''&amp;''
      else if c = CHR 0x22 then ''&quot;''
      else if c = CHR 0x27 then ''&#39;''
      else if c = CHR ''<'' then ''&lt;''
      else if c = CHR ''>'' then ''&gt;''
      else [c]) @ escape_one cs"

lemma replace_char_append [simp]: "replace_char c r (xs @ ys) = replace_char c r xs @ replace_char c r ys"
  by (induction xs) auto

lemma escape_text_one: "escape_text s = escape_one s"
  unfolding escape_text_def
  by (induction s) auto

lemma starts_with_obtain: "starts_with p s \<Longrightarrow> \<exists>r. s = p @ r"
  by (metis append_take_drop_id starts_with_def)

lemma starts_with_self [simp]: "starts_with p (p @ s)"
  by (simp add: starts_with_def)

definition plain :: "string \<Rightarrow> bool" where
  "plain s = list_all (\<lambda>c. c \<notin> {CHR ''&'', CHR ''<'', CHR ''>'', CHR 0x22, CHR 0x27}) s"

lemma escape_one_plain: "plain p \<Longrightarrow> escape_one (p @ r) = p @ escape_one r"
  by (induction p) (auto simp: plain_def)

lemma entity_kept: "entity_follows s \<Longrightarrow> entity_follows (escape_one s)"
proof -
  have "starts_with p s \<Longrightarrow> starts_with p (escape_one s)" if "plain p" for p
    using starts_with_obtain [of p s] escape_one_plain [OF that] by auto
  from this [of "''amp;''"] this [of "''quot;''"] this [of "''#39;''"] this [of "''lt;''"] this [of "''gt;''"]
  show "entity_follows s \<Longrightarrow> entity_follows (escape_one s)"
    by (auto simp: entity_follows_def plain_def)
qed

lemma escaped_append_plain: "plain p \<Longrightarrow> escaped (p @ s) = escaped s"
  by (induction p) (auto simp: plain_def)

lemma entity_start [simp]:
  "entity_follows (''amp;'' @ s)" "entity_follows (''quot;'' @ s)" "entity_follows (''#39;'' @ s)"
  "entity_follows (''lt;'' @ s)" "entity_follows (''gt;'' @ s)"
  by (simp_all add: entity_follows_def starts_with_def)

lemma escaped_entity:
  "entity_follows (p @ s) \<Longrightarrow> plain p \<Longrightarrow> escaped (CHR ''&'' # p @ s) = escaped s"
  by (simp add: escaped_append_plain)

lemma escape_one_escaped: "escaped (escape_one s)"
proof (induction s)
  case (Cons c s)
  have e: "escaped (CHR ''&'' # p @ escape_one s)"
    if "p \<in> {''amp;'', ''quot;'', ''#39;'', ''lt;'', ''gt;''}" for p
    using that Cons.IH by (auto simp: escaped_entity plain_def simp del: append.simps escaped.simps(2))
  from Cons.IH entity_kept [of s] e [of "''amp;''"] e [of "''quot;''"] e [of "''#39;''"]
    e [of "''lt;''"] e [of "''gt;''"]
  show ?case by simp
qed simp

lemma escape_one_fixed: "escaped s \<Longrightarrow> escape_one s = s"
  by (induction s) auto

text \<open>
  C29: escaped text contains no angle bracket and no quote, every ampersand of it begins an
  entity, and escaping it again changes nothing.
\<close>

theorem escape_is_safe:
  "escaped (escape_text s) \<and> escape_text (escape_text s) = escape_text s \<and>
   (plain s \<longrightarrow> escape_text s = s)"
  using escape_one_escaped [of s] escape_one_fixed escape_one_plain [of s "[]"]
  by (simp add: escape_text_one)

theorem escape_is_safe_witness:
  "escape_text ''Mug'' = ''Mug'' \<and> escaped (escape_text (''<b>'' @ ''&amp;''))"
  using escape_is_safe [of "''Mug''"] escape_is_safe [of "''<b>'' @ ''&amp;''"] by (simp add: plain_def)

section \<open>Data attributes\<close>

fun camel :: "string \<Rightarrow> bool" where
  "camel (c # d # cs) = ((is_upper d \<longrightarrow> is_lower c \<or> is_digit c) \<and> camel (d # cs))"
| "camel cs = True"

lemma upper_lower [simp]: "is_upper c \<Longrightarrow> \<not> is_lower c" "is_upper c \<Longrightarrow> \<not> is_digit c"
  by (auto simp: is_upper_def is_lower_def is_digit_def)

lemma to_lower_dash [simp]: "to_lower (CHR ''-'') = CHR ''-''"
  by (simp add: to_lower_def is_upper_def code_def)

lemma to_lower_other [simp]: "\<not> is_upper c \<Longrightarrow> to_lower c = c"
  by (simp add: to_lower_def)

lemma hyphen_marks_attr:
  "camel s \<Longrightarrow> s = [] \<or> \<not> is_upper (hd s) \<Longrightarrow> map to_lower (hyphen_marks s) = dataset_attr s"
proof (induction s rule: hyphen_marks.induct)
  case (1 c d cs)
  show ?case
  proof (cases "is_upper d")
    case True
    have rest: "cs = [] \<or> \<not> is_upper (hd cs)" using 1(3) True by (cases cs) auto
    have "camel cs" using 1(3) by (cases cs rule: camel.cases) auto
    then show ?thesis using 1 True rest by auto
  next
    case False
    then show ?thesis using 1 by auto
  qed
qed simp_all

text \<open>
  Browsers with and without \<open>dataset\<close> use the same attribute for a name in which every
  capital letter follows a small letter or a digit.
\<close>

theorem data_names_agree:
  assumes "camel s" "s = [] \<or> \<not> is_upper (hd s)"
  shows "data_attr (p\<lparr>p_dataset := True\<rparr>) s = data_attr (p\<lparr>p_dataset := False\<rparr>) s"
  using hyphen_marks_attr [OF assms] by (simp add: data_attr_def hyphenate_def)

theorem data_names_agree_witness:
  "data_attr (modern_platform\<lparr>p_dataset := True\<rparr>) ''viewerAction'' =
   data_attr (modern_platform\<lparr>p_dataset := False\<rparr>) ''viewerAction''"
  by (rule data_names_agree) (simp_all add: is_upper_def is_lower_def is_digit_def code_def)

text \<open>
  \<open>getData\<close> returns what \<open>setData\<close> stored: an object itself, any other value as its text,
  when no object was stored under the name.
\<close>

lemma getData_setData:
  assumes "\<not> isObject (oget (n_expando (nodes w n)) k)"
  shows "getData E (nodes (setData E n k v w) n) k = (if isObject v then v else Str (to_str v))"
  using assms
  by (auto simp: getData_def setData_def Let_def setAttribute_def getAttribute_def)

text \<open>
  The index that \<open>initList\<close> writes on the thumbnail of image \<open>i\<close> is the index a click on
  it asks \<open>view\<close> to show.
\<close>

theorem thumbnail_index_reads_back:
  "view_index w (getData E (nodes (setAttribute n ''data-index'' (nat_to_str i)
      (w\<lparr>nodes := (nodes w)(n := blank t)\<rparr>)) n) ''index'') = nnat i"
proof -
  have a: "data_attr (e_platform E) ''index'' = ''data-index''"
    by (simp add: data_attr_def hyphenate_def is_upper_def is_lower_def is_digit_def code_def to_lower_def)
  have "getData E (nodes (setAttribute n ''data-index'' (nat_to_str i)
      (w\<lparr>nodes := (nodes w)(n := blank t)\<rparr>)) n) ''index'' = Str (nat_to_str i)"
    by (simp add: getData_def a setAttribute_def getAttribute_def isObject_def blank_def)
  then show ?thesis by (simp add: view_index_def isUndefined_def to_num_def nor_def)
qed

section \<open>Names of images\<close>

definition name_char :: "char \<Rightarrow> bool" where
  "name_char c = (\<not> is_newline c \<and> c \<notin> {CHR ''/'', CHR ''?'', CHR ''&'', CHR ''#'', CHR ''%''})"

lemma drop_path_last:
  assumes "list_all (\<lambda>c. \<not> is_newline c) d" "list_all (\<lambda>c. \<not> is_newline c \<and> c \<noteq> CHR ''/'') r"
  shows "drop_path (d @ CHR ''/'' # r) = r"
proof -
  have line: "takeWhile (\<lambda>c. \<not> is_newline c) (d @ CHR ''/'' # r) = d @ CHR ''/'' # r"
    using assms by (auto simp: takeWhile_eq_all_conv list_all_iff is_newline_def)
  have "takeWhile (\<lambda>c. c \<noteq> CHR ''/'') (rev r @ CHR ''/'' # rev d) = rev r"
    using assms(2) by (subst takeWhile_append2) (auto simp: list_all_iff)
  then show ?thesis by (simp add: drop_path_def line Let_def)
qed

lemma strip_query_plain: "list_all name_char n \<Longrightarrow> strip_query (n @ s) = n @ strip_query s"
  by (induction n) (auto simp: name_char_def)

lemma pct_tokens_plain: "list_all name_char n \<Longrightarrow> pct_tokens n = Some (map Raw n)"
  by (induction n) (auto simp: name_char_def)

lemma utf8_ok_raw: "utf8_ok 0 0 0 (map Raw n)"
  by (induction n) auto

text \<open>
  The name of an image is what stands between the last slash and the query of its URL.
\<close>

theorem image_name_of_url:
  assumes "list_all (\<lambda>c. \<not> is_newline c) d" "list_all name_char n"
    and "list_all (\<lambda>c. \<not> is_newline c \<and> c \<noteq> CHR ''/'') q"
  shows "getImageNameFromURL (Str (d @ ''/'' @ n @ ''?'' @ q)) = Val n"
proof -
  have "list_all (\<lambda>c. \<not> is_newline c \<and> c \<noteq> CHR ''/'') (n @ CHR ''?'' # q)"
    using assms(2, 3) by (auto simp: list_all_iff name_char_def is_newline_def)
  then have "drop_path (d @ CHR ''/'' # n @ CHR ''?'' # q) = n @ CHR ''?'' # q"
    by (rule drop_path_last [OF assms(1)])
  moreover have "strip_query (CHR ''?'' # q) = []"
    using assms(3) by (auto simp: list_all_iff)
  ultimately show ?thesis
    using assms(2)
    by (simp add: getImageNameFromURL_def strip_query_plain decodeURIComponent_def pct_tokens_plain
        utf8_ok_raw comp_def pct_byte_def)
qed

theorem image_name_of_url_witness:
  "getImageNameFromURL (Str (''/goods'' @ ''/'' @ ''mug.png'' @ ''?'' @ ''v=2'')) = Val ''mug.png''"
  by (rule image_name_of_url) (simp_all add: name_char_def is_newline_def)

lemma pct_tokens_bad:
  "list_all name_char n \<Longrightarrow> hex_val h = None \<Longrightarrow> pct_tokens (n @ CHR ''%'' # h # r) = None"
  by (induction n) (auto simp: name_char_def split: list.split option.split)

text \<open>
  An image without a description whose URL has a malformed escape stops the building of
  the list with a URIError: no thumbnail is made for it or for any image after it.
\<close>

theorem bad_url_stops_list:
  assumes "attr_prop (nodes w img) ''alt'' = []"
    and "attr_prop (nodes w img) ''src'' = n @ ''%'' @ h # r"
    and "list_all name_char n" "hex_val h = None" "list_all name_char (h # r)"
  shows "list_images E i acc (img # imgs) k w = (Throw URIError, w)"
proof -
  let ?s = "n @ CHR ''%'' # h # r"
  have nl: "list_all (\<lambda>c. \<not> is_newline c) ?s" "CHR ''/'' \<notin> set ?s"
    using assms(3, 5) by (auto simp: list_all_iff name_char_def is_newline_def)
  have tw: "takeWhile (\<lambda>c. \<not> is_newline c) ?s = ?s"
    using nl(1) by (simp only: takeWhile_eq_all_conv list_all_iff)
  have "drop_path ?s = ?s" unfolding drop_path_def tw Let_def using nl(2) by simp
  moreover have "strip_query (h # r) = h # r"
    using strip_query_plain [OF assms(5), of "[]"] by simp
  then have "strip_query ?s = ?s" using assms(3) by (simp add: strip_query_plain)
  ultimately have "getImageNameFromURL (Str ?s) = Exn URIError"
    using pct_tokens_bad [OF assms(3, 4)]
    by (simp add: getImageNameFromURL_def decodeURIComponent_def)
  then show ?thesis using assms(1, 2) by (simp add: bindS_def image_alt_def Let_def)
qed

definition bad_image :: node where
  "bad_image = (blank ''img'')\<lparr>n_attrs := [(''src'', ''sale100%off.jpg'')]\<rparr>"

theorem bad_url_stops_list_witness:
  "list_images page_env 0 [] [4, 5] (\<lambda>its. skip) (empty_page\<lparr>nodes := page_nodes(4 := bad_image)\<rparr>) =
     (Throw URIError, empty_page\<lparr>nodes := page_nodes(4 := bad_image)\<rparr>)"
  by (rule bad_url_stops_list [where n = "''sale100''" and h = "CHR ''o''" and r = "''ff.jpg''"])
     (simp_all add: bad_image_def blank_def attr_prop_def getAttribute_def name_char_def is_newline_def
        hex_val_def is_digit_def code_def)

section \<open>The markup\<close>

definition parts :: "world \<Rightarrow> nat list" where
  "parts w =
     [v_viewer w, v_title w, v_toolbar w, v_navbar w, v_button w, v_canvas w, v_footer w,
      v_tooltipBox w, v_player w, v_list w]"

definition part :: "string \<Rightarrow> html list \<Rightarrow> html" where
  "part c kids = Elt ''div'' [(''class'', c)] kids"

definition template_tree :: html where
  "template_tree =
     Elt ''div'' [(''class'', ''viewer-container''), (''touch-action'', ''none'')]
       [part ''viewer-canvas'' [],
        part ''viewer-footer''
          [part ''viewer-title'' [], part ''viewer-toolbar'' [],
           part ''viewer-navbar'' [Elt ''ul'' [(''class'', ''viewer-list'')] []]],
        part ''viewer-tooltip'' [],
        Elt ''div'' [(''role'', ''button''), (''class'', ''viewer-button''),
          (''data-viewer-action'', ''mix'')] [],
        part ''viewer-player'' []]"

text \<open>
  The template parses without a rest into one container with the documented parts, and
  after \<open>build\<close> has mounted it the ten references of the viewer name different elements.
\<close>

theorem template_has_all_parts:
  "parse_html (length TEMPLATE) TEMPLATE = ([template_tree], []) \<and>
   parts (build_elements empty_page) = [7, 10, 11, 12, 15, 8, 9, 14, 16, 13]"
  by code_simp

end
