(* ===== verification/Quiet_Facts.thy ===== *)
theory Quiet_Facts imports Sample_Page begin

text \<open>
  What the document operations leave alone: the members of the viewer (\<open>browser.more\<close>) and the
  listeners. Events nobody listens to.
\<close>

section \<open>Document operations leave the viewer alone\<close>

lemma foldl_more: "(\<And>w x. g (f w x) = g w) \<Longrightarrow> g (foldl f w xs) = g w"
  by (induction xs arbitrary: w) auto

lemma more_dom [simp]:
  "browser.more (removeChild p c w) = browser.more w"
  "browser.more (detach c w) = browser.more w"
  "browser.more (appendChild p c w) = browser.more w"
  "browser.more (set_text n s w) = browser.more w"
  "browser.more (setAttribute n k v w) = browser.more w"
  "browser.more (addClass E n v' w') = browser.more w'"
  "browser.more (removeClass E n v' w') = browser.more w'"
  by (simp_all add: removeChild_def detach_def appendChild_def set_text_def setAttribute_def
      addClass_def removeClass_def)

lemma listeners_dom [simp]:
  "listeners (removeChild p c w) = listeners w"
  "listeners (set_text n s w) = listeners w"
  "listeners (addClass E n v' w') = listeners w'"
  "listeners (removeClass E n v' w') = listeners w'"
  by (simp_all add: removeChild_def set_text_def addClass_def removeClass_def)

lemma more_listeners [simp]:
  "browser.more (removeEventListener t ty f c w) = browser.more w"
  "browser.more (addEventListener t ty f c b w) = browser.more w"
  "browser.more (legacy_del t ty k u) = browser.more u"
  by (simp_all add: removeEventListener_def addEventListener_def legacy_del_def)

lemma more_remove_each [simp]: "browser.more (remove_each E t f c h tys w) = browser.more w"
  by (induction tys arbitrary: h w) (simp_all add: Let_def)

lemma more_removeListener [simp]:
  "browser.more (removeListener_with E t ty f c w) = browser.more w"
  "browser.more (removeListener E t ty f w) = browser.more w"
  by (simp_all add: removeListener_with_def removeListener_def split: option.split)

lemma more_unbind [simp]: "browser.more (unbind E w) = browser.more w"
  by (simp add: unbind_def Let_def)

lemma more_close_body [simp]: "browser.more (close_body E w) = browser.more w"
  by (simp add: close_body_def)

text \<open>The members of the viewer that the proofs below follow.\<close>

lemma members:
  assumes "browser.more w' = browser.more w"
  shows "isShown w' = isShown w" "showing w' = showing w" "hiding w' = hiding w"
    "viewed w' = viewed w" "viewing w' = viewing w" "fulled w' = fulled w" "played w' = played w"
    "destroyed w' = destroyed w" "options w' = options w" "element w' = element w"
    "image w' = image w" "v_list w' = v_list w" "v_viewer w' = v_viewer w" "ready w' = ready w"
    "transitioning w' = transitioning w"
  using assms by (cases w; cases w'; simp)+

lemma more_node_upd: "browser.more (node_upd n f w) = browser.more w"
  by simp

lemmas node_members [simp] =
  members [OF more_node_upd] members [OF more_dom(1)] members [OF more_dom(3)]
  members [OF more_dom(4)] members [OF more_dom(6)] members [OF more_dom(7)]

lemmas listener_members [simp] =
  members [OF more_removeListener(2)] members [OF more_unbind] members [OF more_close_body]

section \<open>Events nobody listens to\<close>

definition unheard :: "string \<Rightarrow> world \<Rightarrow> bool" where
  "unheard ty w \<longleftrightarrow> (\<forall>l \<in> set (listeners w). l_type l \<noteq> ty)"

lemma unheard_subset: "set (listeners w') \<subseteq> set (listeners w) \<Longrightarrow> unheard ty w \<Longrightarrow> unheard ty w'"
  by (auto simp: unheard_def)

lemma remove_each_subset: "set (listeners (remove_each E t f c h tys w)) \<subseteq> set (listeners w)"
proof (induction tys arbitrary: h w)
  case (Cons ty tys)
  have step: "set (listeners (remove_each E t f c g tys (removeEventListener t ty g c u)))
      \<subseteq> set (listeners u)" for g u
    by (rule subset_trans [OF Cons.IH]) (auto simp: removeEventListener_def)
  have "listeners (legacy_del t ty k w) = listeners w" for k by (simp add: legacy_del_def)
  with step [of _ w] step [of _ "legacy_del t ty _ w"] show ?case by (simp add: Let_def)
qed simp

lemma removeListener_subset:
  "set (listeners (removeListener_with E t ty f c w)) \<subseteq> set (listeners w)"
  "set (listeners (removeListener E t ty f w)) \<subseteq> set (listeners w)"
  by (simp_all add: removeListener_with_def removeListener_def remove_each_subset split: option.split)

lemma unheard_removeListener:
  "unheard ty' w \<Longrightarrow> unheard ty' (removeListener_with E t ty f c w)"
  "unheard ty' w \<Longrightarrow> unheard ty' (removeListener E t ty f w)"
  by (auto intro: unheard_subset [OF removeListener_subset(1)] unheard_subset [OF removeListener_subset(2)])

lemma unheard_unbind: "unheard ty w \<Longrightarrow> unheard ty (unbind E w)"
  by (simp add: unbind_def Let_def unheard_removeListener)

lemma unheard_same: "listeners w' = listeners w \<Longrightarrow> unheard ty w' = unheard ty w"
  by (simp add: unheard_def)

lemma unheard_dom [simp]:
  "unheard ty (addClass E n v w) = unheard ty w" "unheard ty (removeClass E n v w) = unheard ty w"
  "unheard ty (close_body E w) = unheard ty w"
  "unheard ty (w\<lparr>fulled := b\<rparr>) = unheard ty w" "unheard ty (w\<lparr>viewed := b\<rparr>) = unheard ty w"
  "unheard ty (w\<lparr>isShown := b\<rparr>) = unheard ty w" "unheard ty (w\<lparr>hiding := b\<rparr>) = unheard ty w"
  by (simp_all add: unheard_def close_body_def)

lemma dispatchEvent_unheard: "unheard ty w \<Longrightarrow> dispatchEvent E n ty dat c w = (Val True, w)"
  by (simp add: dispatchEvent_def Let_def plain_event_def dispatch_silent unheard_def)

text \<open>The option has no function to call.\<close>

lemma add_user_once_none: "\<not> isFunction (opt k w) \<Longrightarrow> add_user_once E k ty w = w"
  by (auto simp: add_user_once_def isFunction_iff split: jsval.split)

end
