(* ===== verification/Bind_Props.thy ===== *)
theory Bind_Props imports Quiet_Facts begin

text \<open>
  What the viewer takes back: the listeners of a shown viewer, the style of the page's body,
  the click listener of a viewer that was never shown.
\<close>

section \<open>Registering and taking back listeners\<close>

declare trim.simps [simp del]

lemma single_type [simp]:
  "split_spaces (trim EVENT_CLICK) = [EVENT_CLICK]"
  "split_spaces (trim EVENT_DRAG_START) = [EVENT_DRAG_START]"
  "split_spaces (trim EVENT_KEY_DOWN) = [EVENT_KEY_DOWN]"
  "split_spaces (trim EVENT_RESIZE) = [EVENT_RESIZE]"
  "split_spaces (trim EVENT_WHEEL) = [EVENT_WHEEL]"
  "split_spaces (trim EVENT_DBLCLICK) = [EVENT_DBLCLICK]"
  by code_simp+

definition entry :: "target \<Rightarrow> callback \<Rightarrow> bool \<Rightarrow> string \<Rightarrow> handler listener" where
  "entry t f c ty = \<lparr>l_target = t, l_type = ty, l_fun = f, l_capture = c, l_once = False\<rparr>"

definition unbound :: "handler \<Rightarrow> world \<Rightarrow> bool" where
  "unbound h w \<longleftrightarrow> (\<forall>l \<in> set (listeners w). fst (l_fun l) \<noteq> h)"

text \<open>\<open>addEventListener\<close> with a function not registered under that type appends.\<close>

lemma add_each:
  "distinct tys \<Longrightarrow> (\<forall>l \<in> set (listeners w). l_fun l = f \<longrightarrow> l_type l \<notin> set tys) \<Longrightarrow>
   foldl (\<lambda>w ty. add_one E t f False c ty w) w tys = w\<lparr>listeners := listeners w @ map (entry t f c) tys\<rparr>"
proof (induction tys arbitrary: w)
  case (Cons ty tys)
  have "\<not> list_ex (same_listener t ty f c) (listeners w)"
    using Cons.prems(2) by (auto simp: list_ex_iff same_listener_def)
  then have "add_one E t f False c ty w = w\<lparr>listeners := listeners w @ [entry t f c ty]\<rparr>"
    by (simp add: add_one_def addEventListener_def entry_def)
  then show ?case using Cons by (auto simp: entry_def)
qed simp

lemma bind_one_run:
  assumes "unbound h w" "distinct (split_spaces (trim ty))"
    and "\<And>f u. listeners (st f u) = listeners u" "\<And>f u. tgt (st f u) = tgt u"
    and "\<And>n. tgt (w\<lparr>next_fun := n\<rparr>) = tgt w"
  shows "bind_one E tgt ty h st c w =
    (let f = (h, next_fun w); u = st f (w\<lparr>next_fun := Suc (next_fun w)\<rparr>)
     in (Next, u\<lparr>listeners := listeners w @ map (entry (tgt w) f c) (split_spaces (trim ty))\<rparr>))"
proof -
  have "\<forall>l \<in> set (listeners w). l_fun l = (h, next_fun w) \<longrightarrow> l_type l \<notin> set (split_spaces (trim ty))"
    using assms(1) by (auto simp: unbound_def)
  then show ?thesis
    using assms(2-5) by (simp add: bind_one_def fresh_fun_def upd_def addListener_with_def add_each Let_def)
qed

text \<open>
  Where the browser removes \<open>once\<close> listeners itself, \<open>removeListener\<close> removes exactly the
  entries of that function.
\<close>

definition is_entry :: "target \<Rightarrow> callback \<Rightarrow> bool \<Rightarrow> string list \<Rightarrow> handler listener \<Rightarrow> bool" where
  "is_entry t f c tys l \<longleftrightarrow>
     l_target l = t \<and> l_type l \<in> set tys \<and> l_fun l = f \<and> l_capture l = c"

lemma is_entry_Nil: "\<not> is_entry t f c [] l"
  by (simp add: is_entry_def)

lemma is_entry_Cons: "is_entry t f c (a # tys) l \<longleftrightarrow> same_listener t a f c l \<or> is_entry t f c tys l"
  by (auto simp: is_entry_def same_listener_def)

lemma is_entry_entry: "is_entry t f c tys (entry t' f' c' ty) \<longleftrightarrow> t' = t \<and> f' = f \<and> c' = c \<and> ty \<in> set tys"
  by (auto simp: is_entry_def entry_def)

lemma remove_each_once:
  assumes "onceSupported (e_platform E)"
  shows "remove_each E t f c f tys w = w\<lparr>listeners := filter (\<lambda>l. \<not> is_entry t f c tys l) (listeners w)\<rparr>"
proof (induction tys arbitrary: w)
  case (Cons a tys)
  then show ?case using assms by (simp add: removeEventListener_def is_entry_Cons)
qed (simp add: is_entry_Nil)

lemma removeListener_once:
  assumes "onceSupported (e_platform E)"
  shows "listeners (removeListener_with E t ty (Some f) c w) =
    filter (\<lambda>l. \<not> is_entry t f c (split_spaces (trim ty)) l) (listeners w)"
  by (simp add: removeListener_with_def remove_each_once [OF assms])

section \<open>Binding and unbinding\<close>

text \<open>The listeners that \<open>bind\<close> adds, and the ones \<open>unbind\<close> takes away.\<close>

definition bound_entries :: "env \<Rightarrow> nat \<Rightarrow> world \<Rightarrow> handler listener list" where
  "bound_entries E k w =
     (let p = e_platform E; vw = Node (v_viewer w); cv = Node (v_canvas w);
          wheel = opt_on ''zoomable'' w \<and> opt_on ''zoomOnWheel'' w
      in [entry vw (HClick, k) False EVENT_CLICK, entry vw (HDragstart, k + 1) False EVENT_DRAG_START] @
         map (entry cv (HPointerdown, k + 2) False) (split_spaces (trim (EVENT_POINTER_DOWN p))) @
         map (entry Document (HPointermove, k + 3) False) (split_spaces (trim (EVENT_POINTER_MOVE p))) @
         map (entry Document (HPointerup, k + 4) False) (split_spaces (trim (EVENT_POINTER_UP p))) @
         [entry Document (HKeydown, k + 5) False EVENT_KEY_DOWN, entry Window (HResize, k + 6) False EVENT_RESIZE] @
         (if wheel then [entry vw (HWheel, k + 7) True EVENT_WHEEL] else []) @
         (if opt_on ''toggleOnDblclick'' w
          then [entry cv (HDblclick, if wheel then k + 8 else k + 7) False EVENT_DBLCLICK] else []))"

definition nothing_bound :: "world \<Rightarrow> bool" where
  "nothing_bound w \<longleftrightarrow>
     (\<forall>h \<in> {HClick, HDragstart, HPointerdown, HPointermove, HPointerup, HKeydown, HResize, HWheel, HDblclick}.
        unbound h w)"

lemma pointer_types [simp]:
  "distinct (split_spaces (trim (EVENT_POINTER_DOWN p)))"
  "distinct (split_spaces (trim (EVENT_POINTER_MOVE p)))"
  "distinct (split_spaces (trim (EVENT_POINTER_UP p)))"
proof -
  have "distinct (split_spaces (trim ''pointerdown''))" "distinct (split_spaces (trim ''touchstart''))"
    "distinct (split_spaces (trim ''mousedown''))" "distinct (split_spaces (trim ''pointermove''))"
    "distinct (split_spaces (trim ''touchmove''))" "distinct (split_spaces (trim ''mousemove''))"
    "distinct (split_spaces (trim ''pointerup pointercancel''))"
    "distinct (split_spaces (trim ''touchend touchcancel''))" "distinct (split_spaces (trim ''mouseup''))"
    by code_simp+
  then show "distinct (split_spaces (trim (EVENT_POINTER_DOWN p)))"
    "distinct (split_spaces (trim (EVENT_POINTER_MOVE p)))" "distinct (split_spaces (trim (EVENT_POINTER_UP p)))"
    unfolding EVENT_POINTER_DOWN_def EVENT_POINTER_MOVE_def EVENT_POINTER_UP_def
      EVENT_TOUCH_START_def EVENT_TOUCH_MOVE_def EVENT_TOUCH_END_def
    by (simp_all del: trim.simps)
qed

lemma single_type_distinct [simp]:
  "distinct (split_spaces (trim EVENT_CLICK))" "distinct (split_spaces (trim EVENT_WHEEL))"
  by (simp_all del: trim.simps)

lemma bind_run:
  assumes "nothing_bound w"
  shows "\<exists>w'. bind E w = (Next, w') \<and>
    listeners w' = listeners w @ bound_entries E (next_fun w) w \<and>
    v_viewer w' = v_viewer w \<and> v_canvas w' = v_canvas w \<and> options w' = options w \<and>
    onClick w' = Some (HClick, next_fun w) \<and> onDragStart w' = Some (HDragstart, next_fun w + 1) \<and>
    onPointerDown w' = Some (HPointerdown, next_fun w + 2) \<and>
    onPointerMove w' = Some (HPointermove, next_fun w + 3) \<and>
    onPointerUp w' = Some (HPointerup, next_fun w + 4) \<and>
    onKeyDown w' = Some (HKeydown, next_fun w + 5) \<and> onResize w' = Some (HResize, next_fun w + 6) \<and>
    (opt_on ''zoomable'' w \<and> opt_on ''zoomOnWheel'' w \<longrightarrow> onWheel w' = Some (HWheel, next_fun w + 7)) \<and>
    (opt_on ''toggleOnDblclick'' w \<longrightarrow> onDblclick w' = Some (HDblclick,
      if opt_on ''zoomable'' w \<and> opt_on ''zoomOnWheel'' w then next_fun w + 8 else next_fun w + 7))"
proof -
  have u: "\<forall>l \<in> set (listeners w). fst (l_fun l) \<notin> {HClick, HDragstart, HPointerdown, HPointermove,
      HPointerup, HKeydown, HResize, HWheel, HDblclick}"
    using assms by (auto simp: nothing_bound_def unbound_def)
  show ?thesis
    using u
    by (simp add: bind_def bind_one_run unbound_def entry_def js_run Let_def ball_Un opt_on_def opt_def
        bound_entries_def, blast)
qed

lemma filter_other:
  "\<forall>l \<in> set ls. fst (l_fun l) \<noteq> fst f \<Longrightarrow> filter (\<lambda>l. \<not> is_entry t f c tys l) ls = ls"
  by (auto simp: filter_id_conv is_entry_def)

lemma filter_entries:
  "filter (\<lambda>l. \<not> is_entry t f c tys l) (map (entry t f c) tys) = []"
  by (auto simp: filter_empty_conv is_entry_entry)

lemma filter_entry_list:
  "fst g \<noteq> fst f \<Longrightarrow> filter (\<lambda>l. \<not> is_entry t f c tys l) (map (entry t' g c') ty') = map (entry t' g c') ty'"
  by (auto simp: filter_id_conv is_entry_entry)

text \<open>
  C27: \<open>unbind\<close> takes back exactly the listeners \<open>bind\<close> has registered, on every kind of
  browser that removes \<open>once\<close> listeners itself and for every setting of the options.
\<close>

theorem unbind_undoes_bind:
  assumes "nothing_bound w" "onceSupported (e_platform E)"
  shows "\<exists>w'. bind E w = (Next, w') \<and> listeners (unbind E w') = listeners w \<and>
    length (listeners w) < length (listeners w')"
proof -
  obtain w' where w': "bind E w = (Next, w')"
    "listeners w' = listeners w @ bound_entries E (next_fun w) w"
    "v_viewer w' = v_viewer w" "v_canvas w' = v_canvas w" "options w' = options w"
    "onClick w' = Some (HClick, next_fun w)" "onDragStart w' = Some (HDragstart, next_fun w + 1)"
    "onPointerDown w' = Some (HPointerdown, next_fun w + 2)"
    "onPointerMove w' = Some (HPointermove, next_fun w + 3)"
    "onPointerUp w' = Some (HPointerup, next_fun w + 4)"
    "onKeyDown w' = Some (HKeydown, next_fun w + 5)" "onResize w' = Some (HResize, next_fun w + 6)"
    "opt_on ''zoomable'' w \<and> opt_on ''zoomOnWheel'' w \<longrightarrow> onWheel w' = Some (HWheel, next_fun w + 7)"
    "opt_on ''toggleOnDblclick'' w \<longrightarrow> onDblclick w' = Some (HDblclick,
      if opt_on ''zoomable'' w \<and> opt_on ''zoomOnWheel'' w then next_fun w + 8 else next_fun w + 7)"
    using bind_run [OF assms(1), of E] by blast
  have opts: "opt_on k w' = opt_on k w" for k using w'(5) by (simp add: opt_on_def opt_def)
  have old: "\<forall>l \<in> set (listeners w). fst (l_fun l) \<notin> {HClick, HDragstart, HPointerdown, HPointermove,
      HPointerup, HKeydown, HResize, HWheel, HDblclick}"
    using assms(1) by (auto simp: nothing_bound_def unbound_def)
  then have keep: "filter (\<lambda>l. \<not> is_entry t f c tys l) (listeners w) = listeners w"
    if "fst f \<in> {HClick, HDragstart, HPointerdown, HPointermove, HPointerup, HKeydown, HResize, HWheel, HDblclick}"
    for t f c tys using that by (intro filter_other) auto
  have "listeners (unbind E w') = listeners w"
    using w'(13, 14) assms(2)
    by (simp add: unbind_def Let_def removeListener_def removeListener_once w'(2-12) opts bound_entries_def
        keep filter_entries filter_entry_list is_entry_entry)
  moreover have "length (listeners w) < length (listeners w')"
    by (simp add: w'(2) bound_entries_def Let_def)
  ultimately show ?thesis using w'(1) by blast
qed

theorem unbind_undoes_bind_witness:
  "\<exists>w'. bind page_env (empty_page\<lparr>options := DEFAULTS\<rparr>) = (Next, w') \<and>
     listeners (unbind page_env w') = [] \<and> 0 < length (listeners w')"
  using unbind_undoes_bind [of "empty_page\<lparr>options := DEFAULTS\<rparr>" page_env]
  by (simp add: nothing_bound_def unbound_def empty_page_def page_env_def modern_platform_def
      onceSupported_def IS_BROWSER_def)

end
