(* ===== verification/Lifecycle_Props.thy ===== *)
theory Lifecycle_Props imports Bind_Props begin

text \<open>
  Properties of showing and hiding: what \<open>hidden\<close> resets and what it leaves, what happens when
  a viewer is hidden while it is being shown, the order of the images, the body of the page.
\<close>

section \<open>Hiding\<close>

lemma resetList_run:
  assumes "v_list w \<noteq> null"
  shows "\<exists>w'. resetList E w = (Next, w') \<and> browser.more w' = browser.more w \<and>
    listeners w' = listeners w"
  using assms by (simp add: resetList_def js_run setStyle_def need_def)

definition quiet_hide :: "world \<Rightarrow> bool" where
  "quiet_hide w \<longleftrightarrow>
     unheard EVENT_HIDE w \<and> unheard EVENT_HIDDEN w \<and>
     \<not> isFunction (opt ''hide'' w) \<and> \<not> isFunction (opt ''hidden'' w) \<and> v_list w \<noteq> null"

text \<open>
  The state before \<open>resetList\<close>, and what \<open>hidden\<close> does to it. \<open>resetImage\<close> tests \<open>viewed\<close>,
  which \<open>hidden\<close> has cleared before.
\<close>

definition put_away :: "env \<Rightarrow> world \<Rightarrow> world" where
  "put_away E w =
     (let w1 = w\<lparr>fulled := False, viewed := False, isShown := False\<rparr>;
          w2 = unbind E (close_body E w1)
      in addClass E (v_viewer w2) CLASS_HIDE w2)"

lemma put_away_eq:
  "put_away E w = addClass E (v_viewer w) CLASS_HIDE
     (unbind E (close_body E (w\<lparr>fulled := False, viewed := False, isShown := False\<rparr>)))"
  by (simp add: put_away_def Let_def)

lemma put_away_members [simp]:
  "isShown (put_away E w) = False" "viewed (put_away E w) = False" "fulled (put_away E w) = False"
  "showing (put_away E w) = showing w" "viewing (put_away E w) = viewing w"
  "options (put_away E w) = options w" "v_list (put_away E w) = v_list w"
  "image (put_away E w) = image w" "ready (put_away E w) = ready w"
  "element (put_away E w) = element w" "destroyed (put_away E w) = destroyed w"
  by (simp_all add: put_away_def Let_def)

lemma unheard_put_away: "unheard ty w \<Longrightarrow> unheard ty (put_away E w)"
  by (simp add: put_away_def Let_def unheard_unbind)

lemma opt_put_away [simp]: "opt k (put_away E w) = opt k w"
  by (simp add: opt_def)

lemma hidden_run:
  assumes "viewing w = None" "quiet_hide w" "\<not> destroyed w"
  shows "\<exists>w'. hidden E w = (Next, w'\<lparr>hiding := False\<rparr>) \<and>
    browser.more w' = browser.more (put_away E w) \<and> listeners w' = listeners (put_away E w)"
proof -
  let ?u = "put_away E w"
  obtain v where v: "resetList E ?u = (Next, v)" "browser.more v = browser.more ?u"
    "listeners v = listeners ?u"
    using resetList_run [of ?u E] assms(2) by (auto simp: quiet_hide_def)
  have m: "viewing v = None" "viewed v = False" "destroyed v = False" "options v = options w"
    using members [OF v(2)] assms by simp_all
  have "unheard EVENT_HIDDEN v" "\<not> isFunction (opt ''hidden'' v)"
    using assms(2) v(3) m(4) unheard_put_away [of EVENT_HIDDEN w E]
    by (auto simp: quiet_hide_def unheard_def opt_def)
  then have q: "unheard EVENT_HIDDEN (v\<lparr>hiding := False\<rparr>)"
    "\<not> isFunction (opt ''hidden'' (v\<lparr>hiding := False\<rparr>))" by (simp_all add: opt_def)
  have "hidden E w = (Next, v\<lparr>hiding := False\<rparr>)"
    using v(1) [unfolded put_away_eq] m
    by (simp add: hidden_def js_run resetImage_def add_user_once_none [OF q(2)] dispatchEvent_unheard [OF q(1)])
  with v show ?thesis by blast
qed


text \<open>
  Hiding a viewer that shows an image leaves that image in the document: the call of
  \<open>resetImage\<close> at the end finds \<open>viewed\<close> cleared already and does nothing, and \<open>image\<close>
  still refers to it.
\<close>

theorem hidden_leaves_image:
  assumes "viewing w = None" "quiet_hide w" "\<not> destroyed w" "viewed w"
  shows "\<exists>w'. hidden E w = (Next, w') \<and> \<not> isShown w' \<and> \<not> hiding w' \<and> \<not> viewed w' \<and>
    image w' = image w"
proof -
  obtain v where "hidden E w = (Next, v\<lparr>hiding := False\<rparr>)" and
    v: "browser.more v = browser.more (put_away E w)"
    using hidden_run [OF assms(1-3), of E] by blast
  then show ?thesis using members [OF v] by simp
qed

definition shown_page :: world where
  "shown_page = empty_page
     \<lparr>options := DEFAULTS, element := 3, ready := True, isShown := True, fulled := True,
      viewed := True, image := 4, v_viewer := 5, v_list := 5, body := 2\<rparr>"

lemma default_callbacks [simp]:
  "\<not> isFunction (oget DEFAULTS ''hide'')" "\<not> isFunction (oget DEFAULTS ''hidden'')"
  "oget DEFAULTS ''inline'' = Bool False"
  by (simp_all add: DEFAULTS_def DEFAULTS_look_def DEFAULTS_behaviour_def DEFAULTS_events_def)

lemma quiet_page:
  "listeners w = [] \<Longrightarrow> options w = DEFAULTS \<Longrightarrow> v_list w \<noteq> null \<Longrightarrow> quiet_hide w"
  by (simp add: quiet_hide_def unheard_def opt_def)

theorem hidden_leaves_image_witness:
  "\<exists>w'. hidden page_env shown_page = (Next, w') \<and> \<not> isShown w' \<and> image w' = 4"
  using hidden_leaves_image [of shown_page page_env] quiet_page [of shown_page]
  by (auto simp: shown_page_def empty_page_def null_def)

section \<open>Hiding while showing\<close>

text \<open>
  The state of a viewer that nobody can open any more: \<open>showing\<close> is set, and the listener that
  would clear it at the end of the transition is gone.
\<close>

definition stuck :: "world \<Rightarrow> bool" where
  "stuck w \<longleftrightarrow> showing w \<and> \<not> isShown w \<and> \<not> viewed w \<and> \<not> played w \<and> viewing w = None \<and>
     \<not> destroyed w \<and> \<not> opt_on ''inline'' w \<and> quiet_hide w \<and> transitioning w \<noteq> None \<and>
     (\<forall>l \<in> set (listeners w). fst (l_fun l) \<noteq> HShown)"

lemma unbind_subset: "set (listeners (unbind E w)) \<subseteq> set (listeners w)"
  by (auto simp: unbind_def Let_def dest!: subsetD [OF removeListener_subset(1)] subsetD [OF removeListener_subset(2)])

lemma put_away_subset: "set (listeners (put_away E w)) \<subseteq> set (listeners w)"
proof -
  have "listeners (close_body E u) = listeners u" for u by (simp add: close_body_def)
  then show ?thesis
    using unbind_subset [of E "close_body E (w\<lparr>fulled := False, viewed := False, isShown := False\<rparr>)"]
    by (simp add: put_away_def Let_def)
qed

lemma put_away_more [simp]:
  "transitioning (put_away E w) = transitioning w" "played (put_away E w) = played w"
  by (simp_all add: put_away_def Let_def)

lemma stuck_frame:
  assumes "stuck w" "browser.more w' = browser.more w" "set (listeners w') \<subseteq> set (listeners w)"
  shows "stuck w'"
  using assms(1,3) members [OF assms(2)]
  by (auto simp: stuck_def quiet_hide_def unheard_def opt_on_def opt_def)

lemma stuck_fields [simp]:
  "stuck (w\<lparr>hiding := b\<rparr>) = stuck w" "stuck (w\<lparr>index := i\<rparr>) = stuck w"
  "stuck (w\<lparr>reported := es\<rparr>) = stuck w" "stuck (w\<lparr>next_fun := k\<rparr>) = stuck w"
  by (simp_all add: stuck_def quiet_hide_def unheard_def opt_on_def opt_def)

lemma stuck_dom [simp]:
  "stuck w \<Longrightarrow> stuck (removeClass E n v w)"
  "stuck w \<Longrightarrow> stuck (removeListener E t ty f w)"
  "stuck w \<Longrightarrow> stuck (w\<lparr>transitioning := Some a\<rparr>)"
proof -
  show "stuck w \<Longrightarrow> stuck (removeClass E n v w)" by (erule stuck_frame) simp_all
  show "stuck w \<Longrightarrow> stuck (removeListener E t ty f w)"
    by (erule stuck_frame) (simp_all add: removeListener_subset)
  show "stuck w \<Longrightarrow> stuck (w\<lparr>transitioning := Some a\<rparr>)"
    by (simp add: stuck_def quiet_hide_def unheard_def opt_on_def opt_def)
qed

lemma stuck_wait [simp]:
  assumes "stuck w"
  shows "stuck (addListener E t EVENT_TRANSITION_END (HViewerTransitionEnd vw k, k) w)"
proof -
  have "addListener E t EVENT_TRANSITION_END (HViewerTransitionEnd vw k, k) w =
      addEventListener t EVENT_TRANSITION_END (HViewerTransitionEnd vw k, k) False False w"
    by (simp add: addListener_def addListener_with_def add_one_def)
  moreover have "EVENT_TRANSITION_END \<noteq> EVENT_HIDE" "EVENT_TRANSITION_END \<noteq> EVENT_HIDDEN"
    by (simp_all add: EVENT_TRANSITION_END_def EVENT_HIDE_def EVENT_HIDDEN_def)
  ultimately show ?thesis
    using assms by (auto simp: stuck_def addEventListener_def quiet_hide_def unheard_def opt_on_def opt_def)
qed

lemma stuck_hidden:
  assumes "stuck w"
  shows "\<exists>w'. hidden E w = (Next, w') \<and> stuck w' \<and> \<not> hiding w'"
proof -
  have a: "viewing w = None" "quiet_hide w" "\<not> destroyed w" using assms by (simp_all add: stuck_def)
  obtain v where v: "hidden E w = (Next, v\<lparr>hiding := False\<rparr>)"
    "browser.more v = browser.more (put_away E w)" "listeners v = listeners (put_away E w)"
    using hidden_run [OF a, of E] by blast
  have "stuck (put_away E w)"
    using assms put_away_subset [of E w]
    by (auto simp: stuck_def quiet_hide_def unheard_def opt_on_def opt_def)
  then have "stuck v" using stuck_frame [OF _ v(2)] v(3) by simp
  with v(1) show ?thesis by auto
qed

lemma stuck_immediately: "stuck w \<Longrightarrow> \<exists>w'. hide_immediately E vw w = (Next, w') \<and> stuck w'"
  using stuck_hidden [of "removeClass E vw CLASS_IN w" E] by (auto simp: hide_immediately_def js_run)

lemma stuck_image_end: "stuck w \<Longrightarrow> \<exists>w'. image_transition_end E vw k w = (Next, w') \<and> stuck w'"
  using stuck_immediately [of w E vw] by (auto simp: image_transition_end_def js_run)

lemma stuck_use:
  assumes "stuck w"
  shows "showing w" "\<not> isShown w" "\<not> viewed w" "\<not> played w" "viewing w = None" "\<not> opt_on ''inline'' w"
    "quiet_hide w" "transitioning w \<noteq> None"
  using assms by (simp_all add: stuck_def)

lemma stuck_abort: "stuck w \<Longrightarrow> \<exists>w'. abort_transition E w = (Next, w') \<and> stuck w'"
  using stuck_use(3, 8) [of w]
  by (auto simp: abort_transition_def js_run split: transition_abort.split)

lemma stuck_slowly:
  assumes "stuck w"
  shows "\<exists>w'. hide_slowly E vw img w = (Next, w') \<and> stuck w'"
proof -
  let ?k = "next_fun w"
  let ?u = "w\<lparr>next_fun := Suc (Suc ?k), transitioning :=
      Some (AbortHide vw img (HViewerTransitionEnd vw ?k, ?k) (HImageTransitionEnd vw ?k, Suc ?k))\<rparr>"
  obtain w' where w': "image_transition_end E vw ?k ?u = (Next, w')" "stuck w'"
    using stuck_image_end [of ?u E vw ?k] assms by auto
  then have "hide_slowly E vw img w = (Next, w')"
    using stuck_use(3) [OF assms] by (simp add: hide_slowly_def js_run fresh_fun_def)
  with w'(2) show ?thesis by blast
qed

lemma aborted_hide:
  assumes "showing w" "\<not> hiding w" "\<not> opt_on ''inline'' w" "quiet_hide w"
    and a: "abort_transition E w = (Next, a)" "stuck a"
  shows "\<exists>w'. hide E im w = (Next, w') \<and> stuck w'"
proof -
  let ?h = "a\<lparr>hiding := True\<rparr>"
  have h: "stuck ?h" using a(2) by simp
  define hid where "hid = (if opt_on ''transition'' ?h \<and> \<not> im then hide_slowly E (v_viewer a) (image a)
      else hide_immediately E (v_viewer a))"
  have "\<exists>w'. hid ?h = (Next, w') \<and> stuck w'"
    using stuck_slowly [OF h] stuck_immediately [OF h] by (simp add: hid_def)
  then obtain w' where w': "hid ?h = (Next, w')" "stuck w'" by blast
  have "hide E im w = (Next, w')"
    using assms(1-4) stuck_use(4, 5) [OF a(2)] a(1) w'(1)
    by (auto simp: hid_def hide_def js_run add_user_once_none dispatchEvent_unheard quiet_hide_def split: if_splits)
  with w'(2) show ?thesis by blast
qed

lemma stuck_hide:
  assumes "stuck w"
  shows "\<exists>r w'. hide E im w = (r, w') \<and> r \<in> {Next, Ret} \<and> stuck w'"
proof (cases "hiding w")
  case True
  then show ?thesis using assms by (simp add: hide_def js_run)
next
  case False
  obtain a where "abort_transition E w = (Next, a)" "stuck a" using stuck_abort [OF assms] by blast
  with aborted_hide [OF _ False] stuck_use [OF assms] show ?thesis by blast
qed

lemma stuck_show: "stuck w \<Longrightarrow> show_viewer E im w = (Ret, w)"
  using stuck_use(1) [of w] by (simp add: show_viewer_def show_refused_def js_run)

lemma stuck_view: "stuck w \<Longrightarrow> \<exists>r w'. view E v w = (r, w') \<and> r \<in> {Next, Ret} \<and> stuck w'"
  using stuck_use(2) [of w]
  by (auto simp: view_def view_with_def js_run stuck_show)

text \<open>
  What may follow: calls that open, close or change the image of the viewer, and ends of the
  transition of an element that the hiding waits for.
\<close>

datatype later = Asks call | Ends nat nat event

fun opens_or_closes :: "call \<Rightarrow> bool" where
  "opens_or_closes (CShow b) = True"
| "opens_or_closes (CHide b) = True"
| "opens_or_closes (CView v) = True"
| "opens_or_closes (CPrev b) = True"
| "opens_or_closes (CNext b) = True"
| "opens_or_closes c = False"

fun later_step :: "env \<Rightarrow> world \<Rightarrow> later \<Rightarrow> world" where
  "later_step E w (Asks c) = (if opens_or_closes c then guarded (run_call E c) w else w)"
| "later_step E w (Ends vw k ev) = guarded (run_handler E (HViewerTransitionEnd vw k) ev) w"

lemma stuck_later: "stuck w \<Longrightarrow> stuck (later_step E w a)"
proof (cases a)
  case (Asks c)
  assume s: "stuck w"
  note v = stuck_view [OF s, of E] and h = stuck_hide [OF s, of E]
  show ?thesis
  proof (cases c)
    case (CView x)
    then show ?thesis using v [of x] Asks by (auto simp: guarded_def)
  next
    case (CPrev b)
    then show ?thesis using v [of "Num (prev_index (index w) (len w) b)"] Asks
      by (auto simp: guarded_def prev_def js_run)
  next
    case (CNext b)
    then show ?thesis using v [of "Num (next_index (index w) (len w) b)"] Asks
      by (auto simp: guarded_def next_image_def js_run)
  next
    case (CHide b)
    then show ?thesis using h [of b] Asks by (auto simp: guarded_def)
  qed (use Asks s stuck_show [OF s] in \<open>simp_all add: guarded_def\<close>)
next
  case (Ends vw k ev)
  assume s: "stuck w"
  let ?r = "removeListener E (Node vw) EVENT_TRANSITION_END (Some (HViewerTransitionEnd vw k, k)) w"
  show ?thesis using Ends s stuck_hidden [of ?r E]
    by (auto simp: guarded_def viewer_transition_end_def js_run)
qed

lemma stuck_run: "stuck w \<Longrightarrow> stuck (foldl (later_step E) w acts)"
  by (induction acts arbitrary: w) (simp_all add: stuck_later)

text \<open>
  The state while the transition of \<open>show\<close> runs: it ends with the listener \<open>f\<close>, registered once
  on the viewer, and nobody listens to the events of hiding.
\<close>

definition being_shown :: "nat \<Rightarrow> callback \<Rightarrow> world \<Rightarrow> bool" where
  "being_shown vw f w \<longleftrightarrow> showing w \<and> \<not> isShown w \<and> \<not> viewed w \<and> \<not> played w \<and> viewing w = None \<and>
     \<not> destroyed w \<and> \<not> hiding w \<and> \<not> opt_on ''inline'' w \<and> quiet_hide w \<and>
     transitioning w = Some (AbortShow vw f) \<and>
     (\<forall>l \<in> set (listeners w). fst (l_fun l) = HShown \<longrightarrow>
        is_entry (Node vw) f False [EVENT_TRANSITION_END] l)"

lemma opening_aborted:
  assumes "being_shown vw f w" "onceSupported (e_platform E)"
  shows "\<exists>u. abort_transition E w = (Next, u) \<and> stuck u \<and> \<not> hiding u"
proof -
  let ?r = "removeListener E (Node vw) EVENT_TRANSITION_END (Some f) w"
  have l: "listeners ?r = filter (\<lambda>l. \<not> is_entry (Node vw) f False [EVENT_TRANSITION_END] l) (listeners w)"
    using removeListener_once [OF assms(2), of "Node vw" EVENT_TRANSITION_END f False w]
    by (simp add: removeListener_def)
  note m = members [OF more_removeListener(2) [of E "Node vw" EVENT_TRANSITION_END "Some f" w]]
  have "stuck ?r"
    using assms(1) m l by (auto simp: stuck_def being_shown_def quiet_hide_def unheard_def opt_on_def opt_def)
  moreover have "hiding ?r = hiding w" by simp
  ultimately show ?thesis using assms(1) by (auto simp: abort_transition_def js_run being_shown_def)
qed

lemma opening_hidden:
  assumes "being_shown vw f w" "onceSupported (e_platform E)"
  shows "\<exists>w'. hide E im w = (Next, w') \<and> stuck w'"
  using opening_aborted [OF assms] assms(1) by (auto simp: being_shown_def intro: aborted_hide)

text \<open>
  C38: a viewer that is hidden while it is still being shown, with or without a transition, stays
  closed: \<open>hide\<close> takes away the listener that would have cleared \<open>showing\<close> and leaves \<open>showing\<close>
  set. Whatever sequence of \<open>show\<close>, \<open>hide\<close>, \<open>view\<close>, \<open>prev\<close> and \<open>next\<close> follows, and whenever
  transitions end in between, the viewer stays invisible and the next \<open>show\<close> changes nothing.
\<close>

theorem hide_while_showing_blocks:
  assumes "being_shown vw f w" "onceSupported (e_platform E)"
  shows "\<exists>w1 w2. hide E im w = (Next, w1) \<and> foldl (later_step E) w1 acts = w2 \<and> showing w2 \<and> \<not> isShown w2 \<and>
    (\<forall>l \<in> set (listeners w2). fst (l_fun l) \<noteq> HShown) \<and> show_viewer E again w2 = (Ret, w2)"
proof -
  obtain w1 where w1: "hide E im w = (Next, w1)" "stuck w1" using opening_hidden [OF assms] by blast
  have "stuck (foldl (later_step E) w1 acts)" by (rule stuck_run [OF w1(2)])
  with w1(1) show ?thesis using stuck_show by (auto simp: stuck_def)
qed

text \<open>A modal viewer of the default options while its transition runs.\<close>

definition opening_page :: world where
  "opening_page = shown_page
     \<lparr>isShown := False, viewed := False, showing := True,
      listeners := [\<lparr>l_target = Node 5, l_type = EVENT_TRANSITION_END, l_fun = (HShown, 0),
        l_capture = False, l_once = True\<rparr>],
      transitioning := Some (AbortShow 5 (HShown, 0))\<rparr>"

theorem hide_while_showing_blocks_witness:
  "\<exists>w1 w2. hide page_env False opening_page = (Next, w1) \<and>
     foldl (later_step page_env) w1 [Ends 5 0 (plain_event EVENT_TRANSITION_END 5), Asks (CShow False),
       Asks (CHide False), Asks (CView (Num (Fin 0)))] = w2 \<and>
     showing w2 \<and> \<not> isShown w2 \<and> show_viewer page_env True w2 = (Ret, w2)"
proof -
  have "EVENT_TRANSITION_END \<noteq> EVENT_HIDE" "EVENT_TRANSITION_END \<noteq> EVENT_HIDDEN"
    by (simp_all add: EVENT_TRANSITION_END_def EVENT_HIDE_def EVENT_HIDDEN_def)
  then have "being_shown 5 (HShown, 0) opening_page"
    by (simp add: being_shown_def opening_page_def shown_page_def empty_page_def opt_on_def opt_def quiet_hide_def
        unheard_def null_def is_entry_def)
  moreover have "onceSupported (e_platform page_env)"
    by (simp add: page_env_def modern_platform_def onceSupported_def IS_BROWSER_def)
  ultimately show ?thesis using hide_while_showing_blocks by blast
qed

end
