(* ===== verification/Order_Props.thy ===== *)
theory Order_Props imports Sample_Page begin

text \<open>
  The order in which images appear: the previous and the next image, the slide show, the index
  after an update.
\<close>

section \<open>Previous and next\<close>

lemma next_index_loop: "i < n \<Longrightarrow> next_index (nnat i) n True = nnat (Suc i mod n)"
  by (cases "Suc i = n") (auto simp: next_index_def Let_def)

lemma prev_index_loop: "i < n \<Longrightarrow> prev_index (nnat i) n True = nnat ((i + n - 1) mod n)"
proof (cases i)
  case (Suc j)
  assume "i < n"
  then have "(i + n - 1) mod n = j" using Suc by (simp add: mod_if)
  then show ?thesis using Suc by (simp add: prev_index_def Let_def)
qed (simp add: prev_index_def Let_def of_nat_diff)

text \<open>
  With \<open>loop\<close> the next and the previous image are the neighbours on a circle of \<open>n\<close>
  images, without it the ends are kept; each undoes the other on the circle.
\<close>

theorem neighbours_on_circle:
  assumes "i < n"
  shows "next_index (nnat i) n True = nnat (Suc i mod n) \<and>
    prev_index (nnat i) n True = nnat ((i + n - 1) mod n) \<and>
    prev_index (next_index (nnat i) n True) n True = nnat i \<and>
    next_index (nnat i) n False = nnat (min (Suc i) (n - 1)) \<and>
    prev_index (nnat i) n False = nnat (i - 1)"
proof -
  have "Suc i mod n < n" using assms by simp
  moreover have "(Suc i mod n + n - 1) mod n = i"
    using assms by (cases "Suc i = n") auto
  ultimately have "prev_index (next_index (nnat i) n True) n True = nnat i"
    using assms by (simp add: next_index_loop prev_index_loop)
  moreover have "next_index (nnat i) n False = nnat (min (Suc i) (n - 1))"
    using assms by (cases "Suc i = n") (auto simp: next_index_def Let_def of_nat_diff min_def)
  moreover have "prev_index (nnat i) n False = nnat (i - 1)"
    by (cases i) (auto simp: prev_index_def Let_def)
  ultimately show ?thesis using assms by (simp add: next_index_loop prev_index_loop)
qed

theorem neighbours_on_circle_witness:
  "next_index (nnat 2) 3 True = nnat 0 \<and> prev_index (nnat 0) 3 True = nnat 2"
  using neighbours_on_circle [of 2 3] neighbours_on_circle [of 0 3] by simp

section \<open>The slide show\<close>

lemma next_slide_mod: "idx < length ss \<Longrightarrow> next_slide ss idx = Suc idx mod length ss"
  by (cases "Suc idx = length ss") (auto simp: next_slide_def)

lemma next_slide_iterate:
  "idx < length ss \<Longrightarrow> (next_slide ss ^^ k) idx = (idx + k) mod length ss"
proof (induction k)
  case (Suc k)
  then have "(idx + k) mod length ss < length ss" by (cases ss) auto
  with Suc show ?case by (simp add: next_slide_mod mod_Suc_eq)
qed simp

lemma hasClass_modern:
  "p_classList (e_platform E) \<Longrightarrow> n \<noteq> null \<Longrightarrow> v \<noteq> [] \<Longrightarrow>
   hasClass E w n v = (v \<in> set (n_classes (nodes w n)))"
  by (simp add: hasClass_def node_hasClass_def)

lemma classes_remove:
  "p_classList (e_platform E) \<Longrightarrow> n \<noteq> null \<Longrightarrow> v \<noteq> [] \<Longrightarrow>
   set (n_classes (nodes (removeClass E n v w) m)) =
     (if m = n then set (n_classes (nodes w m)) - {v} else set (n_classes (nodes w m)))"
  by (simp add: removeClass_def node_removeClass_def nodes_node_upd)

lemma classes_add:
  "p_classList (e_platform E) \<Longrightarrow> n \<noteq> null \<Longrightarrow> v \<noteq> [] \<Longrightarrow>
   set (n_classes (nodes (addClass E n v w) m)) =
     (if m = n then insert v (set (n_classes (nodes w m))) else set (n_classes (nodes w m)))"
  by (auto simp: addClass_def node_addClass_def nodes_node_upd)

lemma play_schedule_run:
  "\<exists>w'. play_schedule ss k w = (Next, w') \<and> nodes w' = nodes w \<and> options w' = options w \<and>
     playing w' = Some (next_timer w) \<and> next_timer w' = Suc (next_timer w) \<and>
     timers w' = timers w @ [\<lparr>tm_id = next_timer w, tm_delay = to_num (opt ''interval'' w), tm_task = TPlay ss k\<rparr>]"
  by (simp add: play_schedule_def js_run setTimeout_def Let_def)

text \<open>Of the slides exactly the one at \<open>idx\<close> is visible.\<close>

definition only_visible :: "env \<Rightarrow> nat list \<Rightarrow> nat \<Rightarrow> world \<Rightarrow> bool" where
  "only_visible E ss idx w \<longleftrightarrow>
     (\<forall>i < length ss. hasClass E w (ss ! i) CLASS_IN \<longleftrightarrow> i = idx)"

lemma only_visible_nodes: "nodes w' = nodes w \<Longrightarrow> only_visible E ss i w' = only_visible E ss i w"
  by (simp add: only_visible_def hasClass_def)

lemma play_tick_run:
  assumes "p_classList (e_platform E)" "distinct ss" "null \<notin> set ss" "idx < length ss"
    and "only_visible E ss idx w"
  shows "\<exists>w'. play_tick E ss idx w = (Next, w') \<and> only_visible E ss (next_slide ss idx) w' \<and>
    options w' = options w \<and> playing w' = Some (next_timer w) \<and> next_timer w' = Suc (next_timer w) \<and>
    timers w' = timers w @ [\<lparr>tm_id = next_timer w, tm_delay = to_num (opt ''interval'' w),
      tm_task = TPlay ss (next_slide ss idx)\<rparr>]"
proof -
  let ?j = "next_slide ss idx"
  have j: "?j < length ss" using assms(4) by (auto simp: next_slide_def)
  let ?u = "removeClass E (slide_at ss idx) CLASS_IN w"
  let ?v = "addClass E (slide_at ss ?j) CLASS_IN ?u"
  have n: "ss ! i \<noteq> null" if "i < length ss" for i using assms(3) that nth_mem by metis
  have eq: "ss ! a = ss ! b \<longleftrightarrow> a = b" if "a < length ss" "b < length ss" for a b
    using assms(2) that by (simp add: nth_eq_iff_index_eq)
  have cin: "CLASS_IN \<noteq> []" by (simp add: CLASS_IN_def)
  have vis: "only_visible E ss ?j ?v"
    unfolding only_visible_def
  proof (intro allI impI)
    fix i assume i: "i < length ss"
    have "hasClass E w (ss ! i) CLASS_IN \<longleftrightarrow> i = idx" using assms(5) i by (simp add: only_visible_def)
    then show "hasClass E ?v (ss ! i) CLASS_IN \<longleftrightarrow> i = ?j"
      using i j assms(1, 4) n eq cin
      by (simp add: hasClass_modern slide_at_def classes_add classes_remove)
  qed
  have same: "timers ?v = timers w" "next_timer ?v = next_timer w" "options ?v = options w"
    by (simp_all add: addClass_def removeClass_def node_upd_def)
  obtain w' where w': "play_schedule ss ?j ?v = (Next, w')" "nodes w' = nodes ?v" "options w' = options w"
    "playing w' = Some (next_timer w)" "next_timer w' = Suc (next_timer w)"
    "timers w' = timers w @ [\<lparr>tm_id = next_timer w, tm_delay = to_num (opt ''interval'' w), tm_task = TPlay ss ?j\<rparr>]"
    using play_schedule_run [of ss ?j ?v] same by (auto simp: opt_def)
  have "play_tick E ss idx w = play_schedule ss ?j ?v"
    by (simp add: play_tick_def Let_def upd_def split: prod.split outcome.split)
  then show ?thesis using w' vis by (auto simp: only_visible_nodes [OF w'(2)])
qed

text \<open>
  The pending timer whose identifier \<open>playing\<close> holds will show the slide after \<open>idx\<close>; and the
  state after the browser has fired the timer of \<open>playing\<close>, whatever that is. A timer that nobody
  has set again leaves nothing to fire.
\<close>

definition due :: "nat list \<Rightarrow> nat \<Rightarrow> world \<Rightarrow> bool" where
  "due ss idx w \<longleftrightarrow> timers_ok w \<and>
     (\<exists>tm \<in> set (timers w). playing w = Some (tm_id tm) \<and> tm_task tm = TPlay ss idx \<and>
        tm_delay tm = to_num (opt ''interval'' w))"

definition fire_playing :: "env \<Rightarrow> world \<Rightarrow> world" where
  "fire_playing E w =
     (case List.find (\<lambda>tm. playing w = Some (tm_id tm)) (timers w) of
        None \<Rightarrow> w
      | Some tm \<Rightarrow> guarded (run_task E (tm_task tm)) (drop_timer (tm_id tm) w))"

lemma find_due:
  assumes "timers_ok w" "tm \<in> set (timers w)" "playing w = Some (tm_id tm)"
  shows "List.find (\<lambda>tm. playing w = Some (tm_id tm)) (timers w) = Some tm"
proof -
  obtain u where u: "List.find (\<lambda>tm. playing w = Some (tm_id tm)) (timers w) = Some u"
    using assms(2, 3)
    by (cases "List.find (\<lambda>tm. playing w = Some (tm_id tm)) (timers w)") (auto simp: find_None_iff)
  then have "u \<in> set (timers w)" "tm_id u = tm_id tm" using assms(3) by (auto simp: find_Some_iff)
  then have "u = tm" using assms(1, 2) by (auto simp: timers_ok_def distinct_map inj_on_def)
  with u show ?thesis by simp
qed

lemma fire_one:
  assumes "p_classList (e_platform E)" "distinct ss" "null \<notin> set ss" "idx < length ss"
    and "only_visible E ss idx w" "due ss idx w"
  shows "only_visible E ss (next_slide ss idx) (fire_playing E w) \<and>
    due ss (next_slide ss idx) (fire_playing E w) \<and> step E w (fire_playing E w)"
proof -
  obtain tm where tm: "tm \<in> set (timers w)" "playing w = Some (tm_id tm)" "tm_task tm = TPlay ss idx"
    and ok: "timers_ok w" using assms(6) by (auto simp: due_def)
  let ?d = "drop_timer (tm_id tm) w"
  have vis: "only_visible E ss idx ?d"
    using assms(5) by (subst only_visible_nodes [of _ w]) (simp_all add: drop_timer_def)
  have okd: "timers_ok ?d" using ok by (auto simp: timers_ok_def drop_timer_def distinct_map_filter_of)
  obtain w' where w': "play_tick E ss idx ?d = (Next, w')" "only_visible E ss (next_slide ss idx) w'"
    "options w' = options ?d" "playing w' = Some (next_timer ?d)" "next_timer w' = Suc (next_timer ?d)"
    "timers w' = timers ?d @ [\<lparr>tm_id = next_timer ?d, tm_delay = to_num (opt ''interval'' ?d),
      tm_task = TPlay ss (next_slide ss idx)\<rparr>]"
    using play_tick_run [OF assms(1-4) vis] by blast
  have f: "fire_playing E w = w'"
    using find_due [OF ok tm(1, 2)] w'(1) tm(3) by (simp add: fire_playing_def guarded_def)
  have "step E w (guarded (run_task E (tm_task tm)) ?d)" by (rule step.timer [OF tm(1)])
  moreover have "due ss (next_slide ss idx) w'"
    using w'(3-6) okd by (auto simp: due_def timers_ok_def opt_def)
  ultimately show ?thesis using w' f tm(3) by (simp add: guarded_def)
qed

text \<open>
  C30: the slide show shows one slide at a time and never stops by itself: while the timer of
  \<open>playing\<close> is fired \<open>k\<close> times, each time the one the tick before has set, the visible slide moves
  \<open>k\<close> places round the circle, and the timer for the next place is pending with the interval of the
  options. The \<open>k\<close> firings are steps of the page.
\<close>

theorem slide_show_cycles:
  assumes "p_classList (e_platform E)" "distinct ss" "null \<notin> set ss" "idx < length ss"
    and "only_visible E ss idx w" "due ss idx w"
  shows "only_visible E ss ((idx + k) mod length ss) ((fire_playing E ^^ k) w) \<and>
    due ss ((idx + k) mod length ss) ((fire_playing E ^^ k) w) \<and> reachable E w ((fire_playing E ^^ k) w)"
proof (induction k)
  case 0
  then show ?case using assms by (simp add: reachable.start)
next
  case (Suc k)
  let ?i = "(idx + k) mod length ss"
  have i: "?i < length ss" using assms(4) by (cases ss) auto
  have "next_slide ss ?i = (idx + Suc k) mod length ss"
    using next_slide_mod [OF i] by (simp add: mod_Suc_eq)
  then show ?case using fire_one [OF assms(1-3) i] Suc.IH by (auto intro: reachable.more)
qed

definition slides_page :: world where
  "slides_page = empty_page
     \<lparr>nodes := page_nodes(4 := (page_img ''a.jpg'' (Fin 1) (Fin 1))\<lparr>n_classes := [CLASS_IN]\<rparr>),
      options := DEFAULTS, next_timer := 8, playing := Some 7,
      timers := [\<lparr>tm_id = 7, tm_delay = Fin 5000, tm_task = TPlay [4, 5] 0\<rparr>]\<rparr>"

theorem slide_show_cycles_witness:
  "only_visible page_env [4, 5] 1 ((fire_playing page_env ^^ 3) slides_page) \<and>
     due [4, 5] 1 ((fire_playing page_env ^^ 3) slides_page)"
proof -
  have "only_visible page_env [4, 5] 0 slides_page"
    by (auto simp: only_visible_def hasClass_def node_hasClass_def slides_page_def page_nodes_def
        page_img_def page_node_def blank_def page_env_def modern_platform_def empty_page_def null_def
        less_Suc_eq CLASS_IN_def)
  moreover have "due [4, 5] 0 slides_page"
    by (simp add: due_def timers_ok_def slides_page_def empty_page_def opt_def DEFAULTS_def
        DEFAULTS_look_def DEFAULTS_behaviour_def to_num_def)
  moreover have "p_classList (e_platform page_env)" by (simp add: page_env_def modern_platform_def)
  ultimately show ?thesis
    using slide_show_cycles [of page_env "[4, 5]" 0 slides_page 3] by (simp add: null_def numeral_3_eq_3 mod_Suc)
qed

section \<open>After an update\<close>

text \<open>
  The index that \<open>update\<close> views is the position of an image of the new list, and it is
  never behind the old one.
\<close>

lemma update_index_valid:
  assumes "0 < n"
  shows "\<exists>j. update_index (nnat i) c n = nnat j \<and> j < n \<and> j \<le> i"
proof -
  obtain m where n: "n = Suc m" using assms by (cases n) auto
  have "max (min (real i - real c) (real m)) 0 = real (min (i - c) m)"
  proof (cases "c \<le> i")
    case True
    then obtain d where "i = c + d" by (metis le_iff_add)
    then show ?thesis by simp
  qed simp
  then have "update_index (nnat i) c n = nnat (min (i - c) (n - 1))"
    by (simp add: update_index_def n)
  then show ?thesis using assms by (intro exI [of _ "min (i - c) (n - 1)"]) auto
qed

end
