(* ===== verification/Dom_Props.thy ===== *)
theory Dom_Props imports Quiet_Facts Babel begin

text \<open>
  Properties of the helpers that work on the document, and of what rests on them: class names
  as sets of tokens, the listeners of a shown viewer, the body of the page, construction.
\<close>

section \<open>Class names as tokens\<close>

text \<open>
  The contract of class names: adding and removing a name changes the answer for that name on
  that element and for nothing else.
\<close>

locale class_tokens =
  fixes has :: "'w \<Rightarrow> nat \<Rightarrow> string \<Rightarrow> bool"
    and add :: "nat \<Rightarrow> string \<Rightarrow> 'w \<Rightarrow> 'w"
    and del :: "nat \<Rightarrow> string \<Rightarrow> 'w \<Rightarrow> 'w"
  assumes has_add: "n \<noteq> null \<Longrightarrow> v \<noteq> [] \<Longrightarrow> has (add n v w) m u \<longleftrightarrow> (m = n \<and> u = v) \<or> has w m u"
    and has_del: "n \<noteq> null \<Longrightarrow> v \<noteq> [] \<Longrightarrow> has (del n v w) m u \<longleftrightarrow> \<not> (m = n \<and> u = v) \<and> has w m u"
begin

lemma add_then_del:
  "n \<noteq> null \<Longrightarrow> v \<noteq> [] \<Longrightarrow> \<not> has w n v \<Longrightarrow> has (del n v (add n v w)) m u = has w m u"
  by (auto simp: has_add has_del)

lemma add_twice: "n \<noteq> null \<Longrightarrow> v \<noteq> [] \<Longrightarrow> has (add n v (add n v w)) m u = has (add n v w) m u"
  by (auto simp: has_add)

end

text \<open>The environment with a browser that has \<open>classList\<close>, and with one that has not.\<close>

definition token_env :: "env \<Rightarrow> env" where
  "token_env E = E\<lparr>e_platform := (e_platform E)\<lparr>p_classList := True\<rparr>\<rparr>"

definition text_env :: "env \<Rightarrow> env" where
  "text_env E = E\<lparr>e_platform := (e_platform E)\<lparr>p_classList := False\<rparr>\<rparr>"

interpretation tokens: class_tokens "hasClass (token_env E)" "addClass (token_env E)" "removeClass (token_env E)"
  by unfold_locales
    (auto simp: hasClass_def node_hasClass_def addClass_def node_addClass_def removeClass_def
      node_removeClass_def token_env_def nodes_node_upd)

text \<open>
  With \<open>classList\<close>, a name that is added to an element and removed again leaves every
  answer of \<open>hasClass\<close> as it was.
\<close>

lemma class_names_restored:
  assumes "n \<noteq> null" "v \<noteq> []" "\<not> hasClass (token_env E) w n v"
  shows "hasClass (token_env E) (removeClass (token_env E) n v (addClass (token_env E) n v w)) m u =
    hasClass (token_env E) w m u"
  by (rule tokens.add_then_del [OF assms])

text \<open>
  Without \<open>classList\<close> the names are compared as parts of a text: an element that is
  invisible seems to be faded in, and taking that name from it leaves the class \<open>visible\<close>
  behind.
\<close>

theorem class_text_confuses_names:
  "hasClass (text_env page_env) (addClass (text_env page_env) 4 CLASS_INVISIBLE empty_page) 4 CLASS_IN \<and>
   n_classes (nodes (removeClass (text_env page_env) 4 CLASS_IN
     (addClass (text_env page_env) 4 CLASS_INVISIBLE empty_page)) 4) = [''visible'']"
  by code_simp

section \<open>Options and class members\<close>

text \<open>
  An option given to the constructor wins over the default, and every other option has
  its default value.
\<close>

theorem given_options_win:
  assumes "isPlainObject (Obj given)" "distinct (map fst given)" "distinct (map fst defaults)"
  shows "oget (new_options defaults (Obj given)) k =
    (if ohas given k then oget given k else oget defaults k)"
proof -
  have "oget ps k = Undefined" if "\<not> ohas ps k" for ps using that by (induction ps k rule: ohas.induct) auto
  then show ?thesis using assms by (simp add: new_options_def oget_assign_one)
qed

lemma defaults_distinct: "distinct (map fst DEFAULTS)"
  by code_simp

theorem given_options_win_witness:
  "oget (new_options DEFAULTS (Obj [(''inline'', Bool True)])) ''inline'' = Bool True"
  using given_options_win [of "[(''inline'', Bool True)]" DEFAULTS "''inline''"] defaults_distinct
  by (simp add: isPlainObject_def isObject_def)

definition method_desc :: "descriptor \<Rightarrow> descriptor" where
  "method_desc d = (let d1 = d\<lparr>d_configurable := True\<rparr>
     in if d_value d1 \<noteq> None then d1\<lparr>d_writable := True\<rparr> else d1)"

definition open_obj :: "pobj \<Rightarrow> bool" where
  "open_obj ob \<longleftrightarrow> (\<forall>k d. pget ob k = Some d \<longrightarrow> d_configurable d)"

lemma method_desc_configurable [simp]: "d_configurable (method_desc d)"
  by (simp add: method_desc_def Let_def)

lemma defineProperties_ok:
  "open_obj ob \<Longrightarrow> distinct (map fst ps) \<Longrightarrow>
   \<exists>ob'. defineProperties ob ps = Val ob' \<and> open_obj ob' \<and>
     (\<forall>k. pget ob' k = (case map_of ps k of Some d \<Rightarrow> Some (method_desc d) | None \<Rightarrow> pget ob k))"
proof (induction ob ps rule: defineProperties.induct)
  case (2 target k d props)
  let ?t = "pset target k (method_desc d)"
  have def: "define_own target k (method_desc d) = Val ?t"
    using 2(2) by (auto simp: define_own_def open_obj_def split: option.split)
  have "open_obj ?t" using 2(2) by (auto simp: open_obj_def)
  moreover have "define_own target k (let d1 = d\<lparr>d_configurable := True\<rparr>
      in if d_value d1 \<noteq> None then d1\<lparr>d_writable := True\<rparr> else d1) = Val ?t"
    using def by (simp add: method_desc_def)
  moreover have "map_of props k = None" using 2(3) by (simp add: map_of_eq_None_iff)
  ultimately show ?case
    using 2(1) [OF refl refl def [unfolded method_desc_def Let_def]] 2(3)
    by (auto simp: method_desc_def Let_def split: option.split)
qed simp

text \<open>
  The methods given to \<open>_createClass\<close> end on the prototype with their values, writable and
  configurable, as long as nothing there was fixed before.
\<close>

theorem createClass_defines_methods:
  assumes "open_obj proto" "open_obj constr" "distinct (map fst ps)" "distinct (map fst qs)"
  shows "\<exists>proto' constr'. createClass proto constr (Some ps) (Some qs) = Val (proto', constr') \<and>
    (\<forall>k d. map_of ps k = Some d \<longrightarrow> pget proto' k = Some (method_desc d)) \<and>
    (\<forall>k d. map_of qs k = Some d \<longrightarrow> pget constr' k = Some (method_desc d))"
  using defineProperties_ok [OF assms(1, 3)] defineProperties_ok [OF assms(2, 4)]
  by (auto simp: createClass_def)

theorem createClass_defines_methods_witness:
  "\<exists>a b. createClass [] [] (Some [(PStr ''init'', plain_desc (Fun 1))]) (Some []) = Val (a, b) \<and>
     pget a (PStr ''init'') = Some (method_desc (plain_desc (Fun 1)))"
  using createClass_defines_methods [of "[]" "[]" "[(PStr ''init'', plain_desc (Fun 1))]" "[]"]
  by (auto simp: open_obj_def)

end
