(* ===== verification/Page_Props.thy ===== *)
theory Page_Props imports Bind_Props begin

text \<open>
  Properties of the whole page: the body's style around a show, a second viewer on the same
  element, the end of a viewer that was never shown, and the invariants of every run.
\<close>

section \<open>The body of the page\<close>

lemma body_open [simp]: "body (open_body E w) = body w"
  "initialBodyPaddingRight (open_body E w) = initialBodyPaddingRight w"
proof -
  have "browser.more (open_body E w) = browser.more w" by (simp add: open_body_def Let_def)
  then show "body (open_body E w) = body w"
    "initialBodyPaddingRight (open_body E w) = initialBodyPaddingRight w"
    by (cases w; cases "open_body E w"; simp)+
qed

text \<open>
  Opening the body locks it with a class and a padding, closing takes both back: the class
  is gone and the padding is what \<open>initBody\<close> had found, empty when there was none.
\<close>

theorem body_style_restored:
  assumes "p_classList (e_platform E)" "body w \<noteq> null" "css_valid (initialBodyPaddingRight w)"
  shows "by_class CLASS_OPEN (nodes (open_body E w) (body w)) \<and>
    n_classes (nodes (close_body E (open_body E w)) (body w)) = removeAll CLASS_OPEN (n_classes (nodes w (body w))) \<and>
    alookup (n_style (nodes (close_body E (open_body E w)) (body w))) ''paddingRight'' =
      Some (initialBodyPaddingRight w)"
  using assms
  by (auto simp: close_body_def removeClass_def node_removeClass_def style_put_def by_class_def)
     (auto simp: open_body_def Let_def addClass_def node_addClass_def style_put_def CLASS_OPEN_def)

theorem body_style_restored_witness:
  "by_class CLASS_OPEN (nodes (open_body page_env (empty_page\<lparr>body := 2\<rparr>)) 2)"
  using body_style_restored [of page_env "empty_page\<lparr>body := 2\<rparr>"]
  by (simp add: page_env_def modern_platform_def empty_page_def null_def css_valid_def)

section \<open>One viewer for an element\<close>

text \<open>
  Constructing a viewer on an element that has one registers no listener, starts no timer
  and finds no image: the new object is inert.
\<close>

theorem second_viewer_is_inert:
  assumes "n \<noteq> null" "truthy (oget (n_expando (nodes w n)) NAMESPACE)"
  shows "\<exists>w'. construct E defaults (Elem n) opts w = (Next, w') \<and> listeners w' = listeners w \<and>
    timers w' = timers w \<and> nodes w' = nodes w \<and> images w' = [] \<and> len w' = 0 \<and> onStart w' = None"
  using assms
  by (simp add: construct_def js_run init_def fresh_members_def unset_members_def new_imageData_def)

definition taken_page :: world where
  "taken_page = empty_page
     \<lparr>nodes := page_nodes(3 := (page_node ''div'' [4, 5] 2)\<lparr>n_expando := [(NAMESPACE, Obj [])]\<rparr>)\<rparr>"

theorem second_viewer_is_inert_witness:
  "\<exists>w'. construct page_env DEFAULTS (Elem 3) Undefined taken_page = (Next, w') \<and> images w' = []"
  using second_viewer_is_inert [of 3 taken_page page_env DEFAULTS Undefined]
  by (auto simp: taken_page_def empty_page_def page_nodes_def page_node_def null_def blank_def)

text \<open>
  A viewer that is destroyed before it was ever shown leaves no listener behind, marks
  its element free, and can be destroyed again without effect.
\<close>

theorem destroy_unshown_viewer:
  assumes "onceSupported (e_platform E)" "unbound HStart w" "\<not> ready w" "\<not> opt_on ''inline'' w"
    and "truthy (oget (n_expando (nodes w (element w))) NAMESPACE)"
  shows "\<exists>w1 w2. init_modal E w = (Next, w1) \<and> length (listeners w1) = Suc (length (listeners w)) \<and>
    destroy E w1 = (Next, w2) \<and> listeners w2 = listeners w \<and> destroyed w2 \<and>
    destroy E w2 = (Ret, w2)"
proof -
  let ?f = "(HStart, next_fun w)"
  let ?u = "w\<lparr>next_fun := Suc (next_fun w), onStart := Some ?f\<rparr>"
  let ?e = "entry (Node (element w)) ?f False EVENT_CLICK"
  have "\<forall>l \<in> set (listeners ?u). l_fun l = ?f \<longrightarrow> l_type l \<notin> set [EVENT_CLICK]"
    using assms(2) by (auto simp: unbound_def)
  from add_each [OF _ this, of E "Node (element w)" False]
  have i: "init_modal E w = (Next, ?u\<lparr>listeners := listeners w @ [?e]\<rparr>)"
    by (simp add: init_modal_def fresh_fun_def upd_def addListener_def addListener_with_def)
  let ?w1 = "?u\<lparr>listeners := listeners w @ [?e]\<rparr>"
  let ?d = "?w1\<lparr>destroyed := True\<rparr>"
  let ?r = "removeListener E (Node (element w)) EVENT_CLICK (Some ?f) ?d"
  let ?w2 = "node_upd (element w) (\<lambda>e. e\<lparr>n_expando := oset (n_expando e) NAMESPACE Undefined\<rparr>) ?r"
  have r: "?r = ?d\<lparr>listeners := listeners w\<rparr>"
    using assms(2)
    by (simp add: removeListener_def removeListener_with_def remove_each_once [OF assms(1)]
        is_entry_entry filter_other unbound_def
        del: remove_each.simps)
  have d: "destroy E ?w1 = (Next, ?w2)"
    using assms(3-5) r by (simp add: destroy_def js_run opt_on_def opt_def)
  have "destroy E ?w2 = (Ret, ?w2)" by (simp add: destroy_def js_run r)
  with i d r show ?thesis by auto
qed

definition new_page :: world where
  "new_page = taken_page\<lparr>element := 3, options := DEFAULTS\<rparr>"

theorem destroy_unshown_viewer_witness:
  "\<exists>w1 w2. init_modal page_env new_page = (Next, w1) \<and> destroy page_env w1 = (Next, w2) \<and>
     listeners w2 = []"
proof -
  have "onceSupported (e_platform page_env)"
    by (simp add: page_env_def modern_platform_def onceSupported_def IS_BROWSER_def)
  moreover have "unbound HStart new_page" "\<not> ready new_page" "\<not> opt_on ''inline'' new_page"
    "truthy (oget (n_expando (nodes new_page (element new_page))) NAMESPACE)" "listeners new_page = []"
    by (simp_all add: unbound_def new_page_def taken_page_def empty_page_def opt_on_def opt_def
        DEFAULTS_def DEFAULTS_look_def DEFAULTS_behaviour_def page_nodes_def page_node_def)
  ultimately show ?thesis using destroy_unshown_viewer [of page_env new_page] by auto
qed

section \<open>Every run\<close>




lemma page_user_keeps: "keepsE P (e_user page_env k vs)"
  by (simp add: keepsE_def page_env_def)


lemma a_run:
  "reachable (stack d E) w (guarded (run_call (stack d E) c) (guarded (run_call (stack d E) c') w))"
  by (meson reachable.intros step.called)


text \<open>
  No run changes the element or the options of a viewer after its construction.
\<close>

theorem every_run_same_owner:
  assumes "reachable (stack d E) w w'"
    and "\<And>k vs. keepsE (same_owner (element w) (options w)) (e_user E k vs)"
  shows "element w' = element w \<and> options w' = options w"
  using owner_inv.reachable_stack_keeps [OF assms(1), of "element w" "options w"] assms(2)
  by (simp add: users_def) (simp add: same_owner_def)

theorem every_run_same_owner_witness:
  "options (guarded (run_call E2 (CHide False)) (guarded (run_call E2 (CShow False)) new_page)) = DEFAULTS"
proof -
  have r: "reachable E2 new_page
      (guarded (run_call E2 (CHide False)) (guarded (run_call E2 (CShow False)) new_page))"
    by (rule a_run)
  have "options new_page = DEFAULTS" by (simp add: new_page_def)
  with every_run_same_owner [OF r page_user_keeps] show ?thesis by simp
qed

section \<open>Types and depth of dispatches\<close>






end
