(* ===== verification/Viewing_Props.thy ===== *)
theory Viewing_Props imports Quiet_Facts Dragging begin

text \<open>
  The whole way of two operations on a page where nobody listens and transitions are off:
  zooming to a ratio, and the arrival of an image.
\<close>

section \<open>Zooming to a ratio\<close>

definition calm :: "world \<Rightarrow> bool" where
  "calm w \<longleftrightarrow> \<not> opt_on ''transition'' w \<and>
     (\<forall>k \<in> {''zoom'', ''zoomed'', ''viewed''}. \<not> isFunction (opt k w)) \<and>
     (\<forall>ty \<in> {EVENT_ZOOM, EVENT_ZOOMED, EVENT_VIEWED}. unheard ty w)"

lemma calm_same: "options w' = options w \<Longrightarrow> listeners w' = listeners w \<Longrightarrow> calm w' = calm w"
  by (simp add: calm_def opt_on_def opt_def unheard_def)


lemma set_idata_calm [simp]: "calm (set_idata r f w) = calm w"
  by (rule calm_same) (simp_all add: set_idata_def)

lemma node_upd_calm [simp]: "calm (node_upd n f w) = calm w"
  by (rule calm_same) simp_all

lemma field_calm [simp]:
  "calm (w\<lparr>zooming := b\<rparr>) = calm w" "calm (w\<lparr>viewed := b\<rparr>) = calm w"
  "calm (w\<lparr>viewing := v\<rparr>) = calm w" "calm (w\<lparr>imageInitializing := i\<rparr>) = calm w"
  by (rule calm_same; simp)+


lemma zoom_center_zooming [simp]: "zoom_center (w\<lparr>zooming := b\<rparr>) = zoom_center w"
  by (simp add: zoom_center_def fun_eq_iff)

lemma idata_fields [simp]:
  "idata (w\<lparr>zooming := b\<rparr>) = idata w" "idata (w\<lparr>viewed := b\<rparr>) = idata w"
  "idata (w\<lparr>viewing := v\<rparr>) = idata w" "idata (node_upd n f w) = idata w"
  by (simp_all add: idata_def node_upd_def)

lemma listeners_set_idata [simp]: "listeners (set_idata r f w) = listeners w"
  by (simp add: set_idata_def)




lemma calm_defaults [simp]:
  "oget DEFAULTS ''zoom'' = Null" "oget DEFAULTS ''zoomed'' = Null" "oget DEFAULTS ''viewed'' = Null"
  "oget DEFAULTS ''zoomable'' = Bool True" "oget DEFAULTS ''minZoomRatio'' = Num (Fin (1 / 100))"
  "oget DEFAULTS ''maxZoomRatio'' = Num (Fin 100)" "oget DEFAULTS ''movable'' = Bool True"
  "oget DEFAULTS ''loading'' = Bool True"
  by (simp_all add: DEFAULTS_def DEFAULTS_look_def DEFAULTS_behaviour_def DEFAULTS_events_def)



section \<open>The arrival of an image\<close>

lemma toggleClass_run [js_run]:
  "toggleClass E n v b w =
     (if v = [] then (Next, w)
      else if n = null then (Throw TypeError, w)
      else (Next, if b then addClass E n v w else removeClass E n v w))"
  by (simp add: toggleClass_def need_def upd_def)

lemma dom_calm [simp]: "calm (addClass E n v w) = calm w" "calm (removeClass E n v w) = calm w"
  by (rule calm_same; simp)+

lemma more_image [simp]:
  "idata (addClass E n v w) = idata w" "idata (removeClass E n v w) = idata w"
  "initialImageData (addClass E n v w) = initialImageData w"
  "initialImageData (removeClass E n v w) = initialImageData w"
  "initialImageData (node_upd n f w) = initialImageData w"
  "imageInitializing (addClass E n v w) = imageInitializing w"
  "imageInitializing (removeClass E n v w) = imageInitializing w"
  "imageInitializing (node_upd n f w) = imageInitializing w"
  by (simp_all add: addClass_def removeClass_def node_upd_def idata_def)





lemma nat_size_kept [simp]:
  "n_natW (nodes (removeClass E n v w) m) = n_natW (nodes w m)"
  "n_natH (nodes (removeClass E n v w) m) = n_natH (nodes w m)"
  by (auto simp: removeClass_def node_removeClass_def nodes_node_upd set_className_def)

lemma removeClass_more_fields [simp]:
  "v_canvas (removeClass E n v w) = v_canvas w" "viewerData (removeClass E n v w) = viewerData w"
  "imageData (removeClass E n v w) = imageData w" "idatas (removeClass E n v w) = idatas w"
  "timeout (removeClass E n v w) = timeout w" "next_node (removeClass E n v w) = next_node w"
  "opt_on k (removeClass E n v w) = opt_on k w" "index (removeClass E n v w) = index w"
  by (simp_all add: removeClass_def node_upd_def opt_on_def opt_def)





end
