(* ===== verification/Price.thy ===== *)
theory Price imports Shop_Main Js_Facts "HOL-Library.Signed_Division" begin

text \<open>
  Prices on the server, \<open>src/internal/order/price.go\<close>: amounts of money as text and as cents,
  the wholesale table, the pipeline from a unit price to the amount to be paid, and the test of
  a coupon. \<open>int\<close>, \<open>int64\<close> and \<open>Cents\<close> have 64 bits and wrap around; \<open>/\<close> and \<open>%\<close> truncate.
  An error is \<open>None\<close> where no caller reads which one it is. \<open>TrimSpace\<close> trims ASCII only.
\<close>

section \<open>Integers and text of Go\<close>

definition wrap64 :: "int \<Rightarrow> int" where
  "wrap64 x = (x + 2 ^ 63) mod 2 ^ 64 - 2 ^ 63"

definition max_int64 :: int where
  "max_int64 = 2 ^ 63 - 1"

text \<open>\<open>strconv.ParseInt(s, 10, 64)\<close> and \<open>strconv.Atoi\<close>: a sign, digits, nothing else, in range.\<close>

definition parse_int :: "string \<Rightarrow> int option" where
  "parse_int s =
     (let neg = (s \<noteq> [] \<and> hd s = CHR ''-'');
          ds = (if s \<noteq> [] \<and> (hd s = CHR ''-'' \<or> hd s = CHR ''+'') then tl s else s);
          n = int (digits_val ds)
      in if ds = [] \<or> \<not> list_all is_digit ds then None
         else if neg then (if n \<le> 2 ^ 63 then Some (- n) else None)
         else (if n < 2 ^ 63 then Some n else None))"

text \<open>\<open>strings.Cut\<close>: what stands before and after the first separator.\<close>

fun cut :: "char \<Rightarrow> string \<Rightarrow> (string \<times> string) option" where
  "cut c [] = None"
| "cut c (x # xs) = (if x = c then Some ([], xs) else map_option (\<lambda>(a, b). (x # a, b)) (cut c xs))"

section \<open>Money\<close>

definition maxCents :: int where
  "maxCents = 9999999999"

text \<open>The fraction cut to two digits and filled up with zeros.\<close>

definition two_places :: "string \<Rightarrow> string" where
  "two_places fr = (let f = take 2 fr in f @ replicate (2 - length f) (CHR ''0''))"

definition ParseYuan :: "string \<Rightarrow> int option" where
  "ParseYuan s0 =
     (let s = trim s0 in
      if s = [] then None
      else
        let neg = (hd s = CHR ''-'');
            t = (if neg then tl s else s);
            (whole, fr) = (case cut (CHR ''.'') t of Some (w, f) \<Rightarrow> (w, f) | None \<Rightarrow> (t, ''00''))
        in (case parse_int whole of
              None \<Rightarrow> None
            | Some w \<Rightarrow>
                (case parse_int (two_places fr) of
                   None \<Rightarrow> None
                 | Some f \<Rightarrow>
                     let c = wrap64 (w * 100 + f)
                     in Some (if neg then wrap64 (- c) else c))))"

definition Yuan :: "int \<Rightarrow> string" where
  "Yuan c =
     (let v = (if c < 0 then wrap64 (- c) else c)
      in (if c < 0 then ''-'' else []) @ int_to_str (v sdiv 100) @ ''.'' @
         int_to_str (v smod 100 sdiv 10) @ int_to_str (v smod 10))"

definition mul :: "int \<Rightarrow> int \<Rightarrow> int option" where
  "mul unit qty =
     (if qty < 0 \<or> unit < 0 then None
      else if qty = 0 \<or> unit = 0 then Some 0
      else if max_int64 sdiv unit < qty then None
      else let v = wrap64 (unit * qty) in if maxCents < v then None else Some v)"

section \<open>Wholesale\<close>

text \<open>A line \<open>quantity=unitPrice\<close> of the table; other lines are skipped.\<close>

definition tier_of :: "string \<Rightarrow> (int \<times> int) option" where
  "tier_of line0 =
     (let line = trim line0 in
      if line = [] then None
      else
        (case cut (CHR ''='') line of
           None \<Rightarrow> None
         | Some (n, p) \<Rightarrow>
             (case (parse_int (trim n), ParseYuan (trim p)) of
                (Some need, Some price) \<Rightarrow> if need \<le> 0 \<or> price \<le> 0 then None else Some (need, price)
              | _ \<Rightarrow> None)))"

definition take_tier :: "int \<Rightarrow> (int \<times> int) option \<Rightarrow> int \<times> int \<Rightarrow> (int \<times> int) option" where
  "take_tier qty best t =
     (if qty < fst t then best
      else
        (case best of
           None \<Rightarrow> Some t
         | Some (bestNeed, bestPrice) \<Rightarrow>
             if bestNeed < fst t \<or> (fst t = bestNeed \<and> snd t < bestPrice) then Some t else best))"

definition tiers :: "string \<Rightarrow> (int \<times> int) list" where
  "tiers raw = List.map_filter tier_of (split_text [CHR 0x0A] raw)"

text \<open>The loop over the lines.\<close>

definition best_tier :: "string \<Rightarrow> int \<Rightarrow> (int \<times> int) option" where
  "best_tier raw qty = foldl (take_tier qty) None (tiers raw)"

definition WholesaleOff :: "string \<Rightarrow> int \<Rightarrow> int \<Rightarrow> int" where
  "WholesaleOff raw qty unit =
     (if qty \<le> 0 \<or> raw = [] then 0
      else
        (case best_tier raw qty of
           None \<Rightarrow> 0
         | Some (need, best) \<Rightarrow>
             (case (mul unit qty, mul best qty) of
                (Some full, Some nxt) \<Rightarrow> if full \<le> nxt then 0 else wrap64 (full - nxt)
              | _ \<Rightarrow> 0)))"

section \<open>The quote\<close>

record quote =
  q_total :: int
  q_coupon :: int
  q_wholesale :: int
  q_actual :: int

definition coupon_cents :: "string \<Rightarrow> int" where
  "coupon_cents coupon =
     (if trim coupon \<noteq> [] then (case ParseYuan coupon of Some c \<Rightarrow> if 0 < c then c else 0 | None \<Rightarrow> 0)
      else 0)"

definition Quote :: "int \<Rightarrow> int \<Rightarrow> string \<Rightarrow> string \<Rightarrow> quote option" where
  "Quote unit qty0 coupon wholesaleRaw =
     (let qty = (if qty0 < 1 then 1 else qty0)
      in case mul unit qty of
           None \<Rightarrow> None
         | Some full \<Rightarrow>
             let wholesaleOff = WholesaleOff wholesaleRaw qty unit;
                 couponOff = coupon_cents coupon;
                 actual = wrap64 (wrap64 (full - couponOff) - wholesaleOff)
             in Some \<lparr>q_total = full, q_coupon = couponOff, q_wholesale = wholesaleOff,
                      q_actual = (if actual < 0 then 0 else actual)\<rparr>)"

datatype coupon_error = NoSuchCoupon | CouponUsed | CouponExhausted

definition TakeCoupon :: "int \<Rightarrow> int \<Rightarrow> int \<Rightarrow> nat \<Rightarrow> coupon_error option" where
  "TakeCoupon isOpen isUse uses rowsAffected =
     (if isOpen \<noteq> 1 then Some NoSuchCoupon
      else if isUse = 2 then Some CouponUsed
      else if uses \<le> 0 \<or> rowsAffected \<noteq> 1 then Some CouponExhausted
      else None)"

end
