(* ===== verification/Price_Props.thy ===== *)
theory Price_Props imports Price begin

text \<open>
  What the price pipeline promises: amounts survive being printed, the best tier of a wholesale
  table decides, the amount to be paid lies between nothing and the full price.
\<close>

section \<open>64 bits\<close>

lemma wrap64_id: "- (2 ^ 63) \<le> x \<Longrightarrow> x < 2 ^ 63 \<Longrightarrow> wrap64 x = x"
  by (simp add: wrap64_def)

lemma wrap64_range: "- (2 ^ 63) \<le> wrap64 x \<and> wrap64 x < 2 ^ 63"
  by (simp add: wrap64_def pos_mod_bound [of "2 ^ 64" "x + 2 ^ 63", simplified])

section \<open>Decimal text\<close>

lemma parse_int_digits:
  assumes "list_all is_digit s" "s \<noteq> []" "int (digits_val s) < 2 ^ 63"
  shows "parse_int s = Some (int (digits_val s))"
  using assms by (cases s) (auto simp: parse_int_def Let_def is_digit_not)

lemma parse_int_nat: "int n < 2 ^ 63 \<Longrightarrow> parse_int (nat_to_str n) = Some (int n)"
  using parse_int_digits [OF nat_to_str_digits nat_to_str_not_Nil, of n] by simp

lemma cut_after: "c \<notin> set w \<Longrightarrow> cut c (w @ c # f) = Some (w, f)"
  by (induction w) auto

lemma trim_id:
  assumes "s \<noteq> []" "\<not> is_space (hd s)" "\<not> is_space (last s)"
  shows "trim s = s"
proof -
  have d: "dropWhile is_space t = t" if "t \<noteq> []" "\<not> is_space (hd t)" for t
    using that by (cases t) auto
  show ?thesis using assms d [of s] d [of "rev s"] by (simp add: hd_rev)
qed

lemma small_digits: "nat_to_str d = [digit_char d]" if "d < 10"
  using that by (simp add: nat_to_str.simps [of d])

lemma tens: "n mod 100 div 10 < (10 :: nat)"
  by (rule less_mult_imp_div_less) simp

text \<open>What \<open>Yuan\<close> prints for an amount of \<open>n\<close> cents.\<close>

definition yuan_text :: "nat \<Rightarrow> string" where
  "yuan_text n = nat_to_str (n div 100) @ ''.'' @ [digit_char (n mod 100 div 10), digit_char (n mod 10)]"

lemma sdiv_nat: "0 \<le> v \<Longrightarrow> 0 < k \<Longrightarrow> v sdiv k = v div k" "0 \<le> v \<Longrightarrow> 0 < k \<Longrightarrow> v smod k = v mod k"
  for v k :: int
  by (auto simp: signed_divide_int_def signed_modulo_int_def sgn_if minus_div_mult_eq_mod [symmetric])

lemma int_to_str_nat: "int_to_str (int n) = nat_to_str n"
  by (simp add: int_to_str_def)

lemma Yuan_text:
  assumes "\<bar>c\<bar> < 2 ^ 63"
  shows "Yuan c = (if c < 0 then ''-'' else []) @ yuan_text (nat \<bar>c\<bar>)"
proof -
  define n where "n = nat \<bar>c\<bar>"
  have v: "(if c < 0 then wrap64 (- c) else c) = int n"
    using assms wrap64_id [of "- c"] by (auto simp: n_def)
  have "int n sdiv 100 = int (n div 100)" "int n smod 100 sdiv 10 = int (n mod 100 div 10)"
    "int n smod 10 = int (n mod 10)"
    by (simp_all add: sdiv_nat zdiv_int zmod_int)
  moreover have "n mod 100 div 10 < 10" by (rule tens)
  ultimately show ?thesis
    unfolding Yuan_def v Let_def by (simp add: int_to_str_nat yuan_text_def small_digits n_def)
qed

lemma two_digits_val: "a < 10 \<Longrightarrow> b < 10 \<Longrightarrow> parse_int [digit_char a, digit_char b] = Some (int (10 * a + b))"
  by (subst parse_int_digits) (simp_all add: digits_val_def)

lemma yuan_text_parts:
  "yuan_text n \<noteq> []" "hd (yuan_text n) \<noteq> CHR ''-''" "\<not> is_space (hd (yuan_text n))"
  "\<not> is_space (last (yuan_text n))"
  "cut (CHR ''.'') (yuan_text n) =
     Some (nat_to_str (n div 100), [digit_char (n mod 100 div 10), digit_char (n mod 10)])"
proof -
  obtain c cs where c: "nat_to_str (n div 100) = c # cs" "is_digit c" using nat_to_str_Cons by blast
  then show "yuan_text n \<noteq> []" "hd (yuan_text n) \<noteq> CHR ''-''" "\<not> is_space (hd (yuan_text n))"
    by (simp_all add: yuan_text_def is_digit_not)
  show "\<not> is_space (last (yuan_text n))" by (simp add: yuan_text_def is_digit_not)
  have "CHR ''.'' \<notin> set (nat_to_str (n div 100))"
    using nat_to_str_digits [of "n div 100"] is_digit_not(4) by (auto simp: list_all_iff)
  then show "cut (CHR ''.'') (yuan_text n) =
     Some (nat_to_str (n div 100), [digit_char (n mod 100 div 10), digit_char (n mod 10)])"
    by (simp add: yuan_text_def cut_after)
qed

lemma parts_add: "int (n div 100) * 100 + int (10 * (n mod 100 div 10) + n mod 10) = int n"
proof -
  have "n mod 100 mod 10 = n mod 10" by (simp add: mod_mod_cancel)
  moreover have "10 * (n mod 100 div 10) + n mod 100 mod 10 = n mod 100" by simp
  moreover have "n div 100 * 100 + n mod 100 = n" by simp
  ultimately have "n div 100 * 100 + (10 * (n mod 100 div 10) + n mod 10) = n" by presburger
  then show ?thesis by (metis of_nat_add of_nat_mult of_nat_numeral)
qed

lemma ParseYuan_Yuan:
  assumes "\<bar>c\<bar> < 2 ^ 63"
  shows "ParseYuan (Yuan c) = Some c"
proof -
  define n where "n = nat \<bar>c\<bar>"
  note parts = yuan_text_parts [of n]
  have n: "int n < 2 ^ 63" using assms by (simp add: n_def)
  have w: "parse_int (nat_to_str (n div 100)) = Some (int (n div 100))"
    by (intro parse_int_nat le_less_trans [OF _ n]) simp
  have "n mod 100 div 10 < 10" by (rule tens)
  then have f: "parse_int (two_places [digit_char (n mod 100 div 10), digit_char (n mod 10)]) =
      Some (int (10 * (n mod 100 div 10) + n mod 10))"
    by (simp add: two_places_def two_digits_val)
  have c: "wrap64 (int (n div 100) * 100 + int (10 * (n mod 100 div 10) + n mod 10)) = int n"
    unfolding parts_add using n by (intro wrap64_id) simp_all
  show ?thesis
  proof (cases "c < 0")
    case True
    then have "Yuan c = ''-'' @ yuan_text n" using Yuan_text [OF assms] by (simp add: n_def)
    moreover have "trim (''-'' @ yuan_text n) = ''-'' @ yuan_text n"
      using parts(1, 4) by (intro trim_id) (simp_all add: is_space_def)
    moreover have "wrap64 (- int n) = c" using True assms by (subst wrap64_id) (simp_all add: n_def)
    ultimately show ?thesis
      using w f c parts(5)
      by (simp add: ParseYuan_def Let_def del: trim.simps)
  next
    case False
    then have "Yuan c = yuan_text n" "int n = c" using Yuan_text [OF assms] by (simp_all add: n_def)
    moreover have "trim (yuan_text n) = yuan_text n" using parts by (intro trim_id)
    ultimately show ?thesis
      using w f c parts
      by (simp add: ParseYuan_def Let_def del: trim.simps)
  qed
qed

text \<open>
  An amount survives being printed and read, whatever its sign.
\<close>

theorem yuan_reads_back:
  assumes "\<bar>c\<bar> < 2 ^ 63"
  shows "ParseYuan (Yuan c) = Some c"
  by (rule ParseYuan_Yuan [OF assms])

theorem yuan_reads_back_witness: "ParseYuan (Yuan (-7)) = Some (-7) \<and> Yuan (-7) = ''-0.07''"
proof -
  have "Yuan (-7) = ''-0.07''" by code_simp
  then show ?thesis using yuan_reads_back [of "-7"] by simp
qed

section \<open>Multiplication that refuses\<close>

lemma div_less_mult: "k div u < q \<longleftrightarrow> k < u * q" if "0 < u" for k u q :: int
proof
  have k: "k = u * (k div u) + k mod u" "k mod u < u" "0 \<le> k mod u" using that by simp_all
  show "k < u * q" if "k div u < q"
  proof -
    have "u * (k div u + 1) \<le> u * q" using that \<open>0 < u\<close> by (intro mult_left_mono) simp_all
    then have "u * (k div u) + u \<le> u * q" by (simp add: distrib_left)
    with k show ?thesis by linarith
  qed
  show "k div u < q" if "k < u * q"
  proof (rule ccontr)
    assume "\<not> k div u < q"
    then have "u * q \<le> u * (k div u)" using \<open>0 < u\<close> by (intro mult_left_mono) simp_all
    with k that show False by linarith
  qed
qed

lemma mul_Some:
  assumes "unit < 2 ^ 63" "qty < 2 ^ 63"
  shows "mul unit qty = Some v \<longleftrightarrow> 0 \<le> unit \<and> 0 \<le> qty \<and> v = unit * qty \<and> v \<le> maxCents"
proof (cases "0 < unit \<and> 0 < qty")
  case True
  have "max_int64 sdiv unit < qty \<longleftrightarrow> max_int64 < unit * qty"
    using True by (simp add: sdiv_nat div_less_mult max_int64_def)
  moreover have "wrap64 (unit * qty) = unit * qty" if "unit * qty \<le> max_int64"
    using that True by (intro wrap64_id) (auto simp: max_int64_def intro: order_trans [of _ 0])
  ultimately show ?thesis using True by (auto simp: mul_def Let_def maxCents_def max_int64_def)
qed (auto simp: mul_def maxCents_def)

section \<open>The best tier\<close>

text \<open>\<open>t\<close> is decided against the tiers \<open>ts\<close>: the highest threshold, the lowest price at it.\<close>

definition best_of :: "int \<Rightarrow> (int \<times> int) set \<Rightarrow> (int \<times> int) option \<Rightarrow> bool" where
  "best_of qty ts t =
     (case t of
        None \<Rightarrow> \<forall>u \<in> ts. qty < fst u
      | Some u \<Rightarrow> u \<in> ts \<and> fst u \<le> qty \<and>
          (\<forall>v \<in> ts. fst v \<le> qty \<longrightarrow> fst v < fst u \<or> (fst v = fst u \<and> snd u \<le> snd v)))"

lemma take_tier_best: "best_of qty ts t \<Longrightarrow> best_of qty (insert u ts) (take_tier qty t u)"
proof (cases t)
  case (Some w)
  assume b: "best_of qty ts t"
  then have w: "w \<in> ts" "fst w \<le> qty"
    "\<And>v. v \<in> ts \<Longrightarrow> fst v \<le> qty \<Longrightarrow> fst v < fst w \<or> (fst v = fst w \<and> snd w \<le> snd v)"
    by (auto simp: Some best_of_def)
  show ?thesis
  proof (cases "fst u \<le> qty \<and> (fst w < fst u \<or> (fst u = fst w \<and> snd u < snd w))")
    case True
    then have "take_tier qty t u = Some u" by (auto simp: Some take_tier_def split: prod.split)
    moreover have "fst v < fst u \<or> (fst v = fst u \<and> snd u \<le> snd v)" if "v \<in> ts" "fst v \<le> qty" for v
      using w(3) [OF that] True by auto
    ultimately show ?thesis using True by (simp add: best_of_def)
  next
    case False
    then have "take_tier qty t u = Some w" by (auto simp: Some take_tier_def split: prod.split)
    with w False show ?thesis by (auto simp: best_of_def)
  qed
qed (auto simp: best_of_def take_tier_def)

lemma foldl_best: "best_of qty ts t \<Longrightarrow> best_of qty (ts \<union> set us) (foldl (take_tier qty) t us)"
proof (induction us arbitrary: ts t)
  case (Cons u us)
  from Cons.IH [OF take_tier_best [OF Cons.prems], of u] show ?case by simp
qed simp

lemma best_tier_best: "best_of qty (set (tiers raw)) (best_tier raw qty)"
  using foldl_best [of qty "{}" None "tiers raw"] by (simp add: best_tier_def best_of_def)

lemma parse_int_range: "parse_int s = Some n \<Longrightarrow> - (2 ^ 63) \<le> n \<and> n < 2 ^ 63"
  by (auto simp: parse_int_def Let_def split: if_splits)

lemma ParseYuan_range: "ParseYuan s = Some c \<Longrightarrow> - (2 ^ 63) \<le> c \<and> c < 2 ^ 63"
  using wrap64_range by (auto simp: ParseYuan_def Let_def split: if_splits option.splits prod.splits)

lemma tier_of_Some:
  assumes "tier_of l = Some t"
  shows "0 < fst t \<and> 0 < snd t \<and> snd t < 2 ^ 63"
proof -
  obtain q where "ParseYuan q = Some (snd t)" "0 < fst t" "0 < snd t"
    using assms by (auto simp: tier_of_def Let_def simp del: trim.simps split: if_splits option.splits)
  then show ?thesis using ParseYuan_range by blast
qed

lemma tier_positive: "t \<in> set (tiers raw) \<Longrightarrow> 0 < fst t \<and> 0 < snd t \<and> snd t < 2 ^ 63"
  using tier_of_Some by (fastforce simp: tiers_def map_filter_def)

section \<open>What a customer pays\<close>

text \<open>The price of one piece: that of the tier, if one is reached, and never more than the list price.\<close>

definition piece_price :: "string \<Rightarrow> int \<Rightarrow> int \<Rightarrow> int" where
  "piece_price raw qty unit =
     (case best_tier raw qty of None \<Rightarrow> unit | Some t \<Rightarrow> min unit (snd t))"

lemma WholesaleOff_pays:
  assumes "mul unit qty = Some v" "0 < qty" "qty < 2 ^ 63" "unit < 2 ^ 63"
  shows "v - WholesaleOff raw qty unit = piece_price raw qty unit * qty"
    "0 \<le> WholesaleOff raw qty unit \<and> WholesaleOff raw qty unit \<le> v"
proof -
  have v: "v = unit * qty" "v \<le> maxCents" "0 \<le> unit" using assms mul_Some [of unit qty v] by auto
  have empty: "best_tier raw qty = None" if "raw = []"
    using that by (simp add: best_tier_def tiers_def split_text_def map_filter_def tier_of_def)
  have "v - WholesaleOff raw qty unit = piece_price raw qty unit * qty \<and>
    0 \<le> WholesaleOff raw qty unit \<and> WholesaleOff raw qty unit \<le> v"
  proof (cases "best_tier raw qty")
    case None
    then show ?thesis using assms(2) v by (simp add: WholesaleOff_def piece_price_def)
  next
    case (Some t)
    then have "t \<in> set (tiers raw)" using best_tier_best [of qty raw] by (simp add: best_of_def)
    then have t: "0 < snd t" "snd t < 2 ^ 63" using tier_positive by auto
    have raw: "raw \<noteq> []" using Some empty by auto
    show ?thesis
    proof (cases "snd t < unit")
      case True
      then have le: "snd t * qty < unit * qty" using assms(2) by simp
      then have "snd t * qty \<le> maxCents" using v by linarith
      then have "mul (snd t) qty = Some (snd t * qty)"
        using t assms(2-4) mul_Some [of "snd t" qty "snd t * qty"] by simp
      moreover have "wrap64 (v - snd t * qty) = v - snd t * qty"
        using le v mult_pos_pos [OF t(1) assms(2)] by (intro wrap64_id; simp add: maxCents_def)
      ultimately show ?thesis
        using Some True le assms(1, 2) v(1) raw t(1)
        by (auto simp: WholesaleOff_def piece_price_def split: prod.split)
    next
      case False
      have "unit * qty \<le> snd t * qty" using False assms(2) by simp
      then have "unit * qty \<le> x" if "mul (snd t) qty = Some x" for x
        using that mul_Some [of "snd t" qty x] t(2) assms(3) by simp
      then have "WholesaleOff raw qty unit = 0"
        using assms(1) v(1) Some by (auto simp: WholesaleOff_def split: option.split prod.split)
      then show ?thesis using False v Some assms(2) by (simp add: piece_price_def)
    qed
  qed
  then show "v - WholesaleOff raw qty unit = piece_price raw qty unit * qty"
    "0 \<le> WholesaleOff raw qty unit \<and> WholesaleOff raw qty unit \<le> v" by auto
qed

lemma coupon_cents_range: "0 \<le> coupon_cents c \<and> coupon_cents c < 2 ^ 63"
  using ParseYuan_range [of c] by (auto simp: coupon_cents_def split: option.split)

lemma Quote_eq:
  assumes "unit < 2 ^ 63" "qty < 2 ^ 63" "n = max 1 qty"
  shows "Quote unit qty coupon raw =
     (if 0 \<le> unit \<and> unit * n \<le> maxCents
      then Some \<lparr>q_total = unit * n, q_coupon = coupon_cents coupon,
        q_wholesale = unit * n - piece_price raw n unit * n,
        q_actual = max 0 (piece_price raw n unit * n - coupon_cents coupon)\<rparr>
      else None)"
proof -
  have n: "(if qty < 1 then 1 else qty) = n" "0 < n" "n < 2 ^ 63" using assms by auto
  show ?thesis
  proof (cases "0 \<le> unit \<and> unit * n \<le> maxCents")
    case True
    then have mul: "mul unit n = Some (unit * n)" using mul_Some assms(1) n by auto
    note w = WholesaleOff_pays [OF mul n(2, 3) assms(1), of raw]
    have c: "0 \<le> coupon_cents coupon" "coupon_cents coupon < 2 ^ 63" using coupon_cents_range by auto
    have u: "0 \<le> unit * n" using True n by simp
    have "wrap64 (unit * n - coupon_cents coupon) = unit * n - coupon_cents coupon"
      using c u True by (intro wrap64_id) (auto simp: maxCents_def)
    moreover have "wrap64 (unit * n - coupon_cents coupon - WholesaleOff raw n unit) =
        unit * n - coupon_cents coupon - WholesaleOff raw n unit"
      using w(2) c u True by (intro wrap64_id) (auto simp: maxCents_def)
    moreover have "WholesaleOff raw n unit = unit * n - piece_price raw n unit * n" using w(1) by simp
    ultimately show ?thesis using True by (simp add: Quote_def n(1) mul max_def Let_def)
  next
    case False
    then have "mul unit n = None" using mul_Some [of unit n] assms(1) n by (cases "mul unit n") auto
    then show ?thesis using False by (auto simp: Quote_def n(1))
  qed
qed

text \<open>
  C26: the pipeline of prices, with its wrap-around arithmetic, is the exact one: a total, the price of
  the best tier, the coupon, never below zero; it refuses just when the total is negative or does
  not fit the column of the data base. The tier is the one with the highest threshold reached, in
  whatever order the table lists them.
\<close>

theorem quote_is_exact:
  assumes "unit < 2 ^ 63" "qty < 2 ^ 63" "n = max 1 qty"
  shows "Quote unit qty coupon raw =
     (if 0 \<le> unit \<and> unit * n \<le> maxCents
      then Some \<lparr>q_total = unit * n, q_coupon = coupon_cents coupon,
        q_wholesale = unit * n - piece_price raw n unit * n,
        q_actual = max 0 (piece_price raw n unit * n - coupon_cents coupon)\<rparr>
      else None) \<and> best_of n (set (tiers raw)) (best_tier raw n)"
  using Quote_eq [OF assms] best_tier_best by blast

definition demo_table :: string where
  "demo_table = ''10=8.50'' @ [CHR 0x0A] @ ''5=9'' @ [CHR 0x0A] @ ''free''"

theorem quote_is_exact_witness:
  "Quote 1000 7 ''5.00'' demo_table =
     Some \<lparr>q_total = 7000, q_coupon = 500, q_wholesale = 700, q_actual = 5800\<rparr>"
proof -
  have "piece_price demo_table 7 1000 = 900" "coupon_cents ''5.00'' = 500" by code_simp+
  then show ?thesis using quote_is_exact [of 1000 7 7 "''5.00''" demo_table] by (simp add: maxCents_def)
qed

lemma Quote_bounds:
  assumes "unit < 2 ^ 63" "qty < 2 ^ 63" "Quote unit qty coupon raw = Some q"
  shows "0 \<le> q_actual q \<and> q_actual q \<le> q_total q \<and> q_total q \<le> maxCents \<and>
    0 \<le> q_wholesale q \<and> q_wholesale q \<le> q_total q \<and> 0 \<le> q_coupon q"
proof -
  let ?n = "max 1 qty"
  have n: "0 < ?n" "?n < 2 ^ 63" using assms(2) by auto
  have q: "0 \<le> unit" "unit * ?n \<le> maxCents" "q = \<lparr>q_total = unit * ?n, q_coupon = coupon_cents coupon,
      q_wholesale = unit * ?n - piece_price raw ?n unit * ?n,
      q_actual = max 0 (piece_price raw ?n unit * ?n - coupon_cents coupon)\<rparr>"
    using Quote_eq [OF assms(1, 2) refl, of coupon raw] assms(3) by (auto split: if_splits)
  then have "mul unit ?n = Some (unit * ?n)" using mul_Some [OF assms(1) n(2)] n(1) by simp
  note w = WholesaleOff_pays [OF this n assms(1), of raw]
  have "0 \<le> piece_price raw ?n unit * ?n" "piece_price raw ?n unit * ?n \<le> unit * ?n" using w by linarith+
  with q(2) coupon_cents_range [of coupon] show ?thesis unfolding q(3) by simp
qed

text \<open>
  Whatever the table and the coupon say, the amount to be paid lies between nothing and the total, and
  the total within the column of the data base.
\<close>

theorem quote_in_bounds:
  assumes "unit < 2 ^ 63" "qty < 2 ^ 63" "Quote unit qty coupon raw = Some q"
  shows "0 \<le> q_actual q \<and> q_actual q \<le> q_total q \<and> q_total q \<le> maxCents \<and>
    0 \<le> q_wholesale q \<and> q_wholesale q \<le> q_total q \<and> 0 \<le> q_coupon q"
  by (rule Quote_bounds [OF assms])

theorem quote_in_bounds_witness:
  "\<exists>q. Quote 1000 7 ''900.00'' demo_table = Some q \<and> q_actual q = 0 \<and> 0 \<le> q_wholesale q"
proof -
  have p: "piece_price demo_table 7 1000 = 900" "coupon_cents ''900.00'' = 90000" by code_simp+
  let ?q = "\<lparr>q_total = 7000, q_coupon = 90000, q_wholesale = 700, q_actual = 0\<rparr>"
  have q: "Quote 1000 7 ''900.00'' demo_table = Some ?q"
    using Quote_eq [of 1000 7 7 "''900.00''" demo_table] p by (simp add: maxCents_def)
  then show ?thesis using quote_in_bounds [OF _ _ q] by (intro exI [of _ ?q]) simp
qed

text \<open>
  Text that is no amount is read as one: the sum of yuan and cents wraps around in 64 bits, and a second
  sign is accepted before the whole and before the fraction.
\<close>

theorem strange_amounts_are_read:
  "ParseYuan ''184467440737095516.20'' = Some 4 \<and> ParseYuan ''92233720368547758.08'' = Some (- (2 ^ 63)) \<and>
   ParseYuan ''1.-5'' = Some 95 \<and> ParseYuan ''--5'' = Some 500"
  by (intro conjI)
     (simp_all add: ParseYuan_def parse_int_def digits_val_def digit_val_def code_def is_digit_def is_space_def
      two_places_def wrap64_def Let_def)

end
