(* ===== verification/Limiter.thy ===== *)
theory Limiter imports Pay_Page Js_Facts begin

text \<open>
  The limits on requests, \<open>src/internal/httpx/limit.go\<close>: a table of counters by client address,
  fixed windows, one shared counter for new addresses while the table is full. Times and durations
  are nanoseconds; \<open>None\<close> is the zero time, which lies further back than any duration. Each call
  holds the mutex of the limiter, so calls are atomic.
\<close>

definition second :: int where "second = 10 ^ 9"

definition limitWindow :: int where "limitWindow = 5 * 60 * second"

definition limiterMaxIPs :: nat where "limiterMaxIPs = 20000"

record ipWindow =
  w_start :: int
  w_count :: nat

record ipLimiter =
  l_limit :: nat
  l_overflow :: nat
  l_window :: int
  l_max :: nat
  hits :: "(string \<times> ipWindow) list"
  spill_start :: "int option"
  spill_count :: nat
  lastSweep :: "int option"
  lastFull :: "int option"

definition newIPLimiter :: "nat \<Rightarrow> nat \<Rightarrow> int \<Rightarrow> ipLimiter" where
  "newIPLimiter cap ovf wnd =
     \<lparr>l_limit = cap, l_overflow = ovf, l_window = wnd, l_max = limiterMaxIPs, hits = [],
      spill_start = None, spill_count = 0, lastSweep = None, lastFull = None\<rparr>"

definition lookups_limiter :: ipLimiter where "lookups_limiter = newIPLimiter 30 300 limitWindow"

definition polls_limiter :: ipLimiter where "polls_limiter = newIPLimiter 120 0 limitWindow"

definition orders_limiter :: ipLimiter where "orders_limiter = newIPLimiter 10 100 limitWindow"

text \<open>\<open>now.Sub(t) >= d\<close>\<close>

definition elapsed :: "int \<Rightarrow> int option \<Rightarrow> int \<Rightarrow> bool" where
  "elapsed now t d = (case t of None \<Rightarrow> True | Some t0 \<Rightarrow> d \<le> now - t0)"

definition expired :: "int \<Rightarrow> ipLimiter \<Rightarrow> ipWindow \<Rightarrow> bool" where
  "expired now l w \<longleftrightarrow> elapsed now (Some (w_start w)) (l_window l)"

definition sweep :: "int \<Rightarrow> ipLimiter \<Rightarrow> ipLimiter" where
  "sweep now l =
     (if \<not> elapsed now (lastSweep l) second then l
      else l\<lparr>lastSweep := Some now, hits := filter (\<lambda>(k, w). \<not> expired now l w) (hits l)\<rparr>)"

text \<open>Writing the counter of a key, which the table may have already.\<close>

fun put_window :: "string \<Rightarrow> ipWindow \<Rightarrow> (string \<times> ipWindow) list \<Rightarrow> (string \<times> ipWindow) list" where
  "put_window k w [] = [(k, w)]"
| "put_window k w ((k', w') # hs) = (if k' = k then (k, w) # hs else (k', w') # put_window k w hs)"

text \<open>One request of the budget in the window \<open>w\<close> of \<open>key\<close>.\<close>

definition spend :: "string \<Rightarrow> ipWindow \<Rightarrow> ipLimiter \<Rightarrow> bool \<times> ipLimiter" where
  "spend key w l =
     (if l_limit l \<le> w_count w then (False, l\<lparr>hits := put_window key w (hits l)\<rparr>)
      else (True, l\<lparr>hits := put_window key (w\<lparr>w_count := Suc (w_count w)\<rparr>) (hits l)\<rparr>))"

text \<open>A new address while the table is full.\<close>

definition spilled :: "int \<Rightarrow> ipLimiter \<Rightarrow> bool \<times> ipLimiter" where
  "spilled now l0 =
     (let l = (if elapsed now (lastFull l0) (l_window l0) then l0\<lparr>lastFull := Some now\<rparr> else l0)
      in if l_overflow l = 0 then (True, l)
         else
           let l1 = (if elapsed now (spill_start l) (l_window l)
                     then l\<lparr>spill_start := Some now, spill_count := 0\<rparr> else l)
           in if l_overflow l1 \<le> spill_count l1 then (False, l1)
              else (True, l1\<lparr>spill_count := Suc (spill_count l1)\<rparr>))"

definition allow :: "string \<Rightarrow> int \<Rightarrow> ipLimiter \<Rightarrow> bool \<times> ipLimiter" where
  "allow key now l =
     (case map_of (hits l) key of
        Some w \<Rightarrow> spend key (if expired now l w then \<lparr>w_start = now, w_count = 0\<rparr> else w) l
      | None \<Rightarrow>
          let l1 = (if l_max l \<le> length (hits l) then sweep now l else l)
          in if l_max l1 \<le> length (hits l1) then spilled now l1
             else spend key \<lparr>w_start = now, w_count = 0\<rparr> l1)"

text \<open>
  The handlers around it: a request without a key is not counted. \<open>refused\<close> is the answer when
  there is no budget, \<open>next\<close> that of the handler behind.
\<close>

definition with_limit :: "'a \<Rightarrow> string \<Rightarrow> int \<Rightarrow> 'a \<Rightarrow> ipLimiter \<Rightarrow> 'a \<times> ipLimiter" where
  "with_limit refused key now next_answer l =
     (if key = [] then (next_answer, l)
      else let (ok, l') = allow key now l in (if ok then next_answer else refused, l'))"

definition too_many :: reply where
  "too_many = Reply False (Some (Obj [(''code'', Num (nnat 429))]))"

definition limitPolls :: "string \<Rightarrow> int \<Rightarrow> reply \<Rightarrow> ipLimiter \<Rightarrow> reply \<times> ipLimiter" where
  "limitPolls = with_limit too_many"

text \<open>A run: the requests with their keys and times, and the answers.\<close>

fun allow_run :: "(string \<times> int) list \<Rightarrow> ipLimiter \<Rightarrow> bool list \<times> ipLimiter" where
  "allow_run [] l = ([], l)"
| "allow_run ((k, t) # rs) l =
     (let (ok, l1) = allow k t l; (oks, l2) = allow_run rs l1 in (ok # oks, l2))"

end
