(* ===== verification/Limiter_Props.thy ===== *)
theory Limiter_Props imports Limiter "HOL-Library.Multiset" begin

text \<open>
  What the limiter promises: no client gets more than its budget in each window, however the table
  fills up and is swept, and a client that keeps to its budget is never refused, whatever others do.
\<close>

section \<open>The table\<close>

lemma map_of_put [simp]: "map_of (put_window k w hs) k' = (if k' = k then Some w else map_of hs k')"
  by (induction k w hs rule: put_window.induct) auto

lemma keys_put: "fst ` set (put_window k w hs) = insert k (fst ` set hs)"
  by (induction k w hs rule: put_window.induct) auto

lemma distinct_put: "distinct (map fst hs) \<Longrightarrow> distinct (map fst (put_window k w hs))"
proof (induction k w hs rule: put_window.induct)
  case (2 k w k' w' hs)
  then show ?case using keys_put [of k w hs] by auto
qed simp

lemma map_of_filter_None: "map_of hs k = None \<Longrightarrow> map_of (filter P hs) k = None"
  by (induction hs) auto

lemma map_of_filter_distinct:
  "distinct (map fst hs) \<Longrightarrow> map_of (filter (\<lambda>(k, w). P w) hs) k =
   (case map_of hs k of Some w \<Rightarrow> if P w then Some w else None | None \<Rightarrow> None)"
proof (induction hs)
  case (Cons h hs)
  obtain k' w' where h: "h = (k', w')" by (cases h)
  show ?case
  proof (cases "k' = k")
    case True
    then have "map_of hs k = None" using Cons.prems h by (auto simp: map_of_eq_None_iff)
    then show ?thesis using True h by (simp add: map_of_filter_None)
  qed (use Cons h in simp)
qed simp

definition same_limits :: "ipLimiter \<Rightarrow> ipLimiter \<Rightarrow> bool" where
  "same_limits l l' \<longleftrightarrow> l_limit l' = l_limit l \<and> l_overflow l' = l_overflow l \<and> l_window l' = l_window l \<and>
     l_max l' = l_max l"

lemma limits_allow: "same_limits l (snd (allow k t l))"
  by (auto simp: same_limits_def allow_def spend_def spilled_def sweep_def Let_def split: option.split)

text \<open>The table a request for a new key finds, after a sweep when the table was full.\<close>

definition swept :: "int \<Rightarrow> ipLimiter \<Rightarrow> ipLimiter" where
  "swept t l = (if l_max l \<le> length (hits l) then sweep t l else l)"

lemma swept_hits:
  assumes "distinct (map fst (hits l))"
  shows "distinct (map fst (hits (swept t l)))"
    "map_of (hits (swept t l)) k = Some w \<Longrightarrow> map_of (hits l) k = Some w"
    "map_of (hits l) k = Some w \<Longrightarrow> map_of (hits (swept t l)) k = None \<Longrightarrow> expired t l w"
    "map_of (hits l) k = None \<Longrightarrow> map_of (hits (swept t l)) k = None"
proof -
  have d: "distinct (map fst (filter P (hits l)))" for P using assms by (induction "hits l") (auto simp: distinct_map_filter)
  show "distinct (map fst (hits (swept t l)))" using assms d by (simp add: swept_def sweep_def)
  show "map_of (hits (swept t l)) k = Some w \<Longrightarrow> map_of (hits l) k = Some w"
    "map_of (hits l) k = Some w \<Longrightarrow> map_of (hits (swept t l)) k = None \<Longrightarrow> expired t l w"
    "map_of (hits l) k = None \<Longrightarrow> map_of (hits (swept t l)) k = None"
    using map_of_filter_distinct [OF assms, of "\<lambda>w. \<not> expired t l w" k]
    by (auto simp: swept_def sweep_def split: if_splits option.splits)
qed

lemma swept_fields [simp]:
  "l_limit (swept t l) = l_limit l" "l_overflow (swept t l) = l_overflow l" "l_window (swept t l) = l_window l"
  "l_max (swept t l) = l_max l" "spill_start (swept t l) = spill_start l" "spill_count (swept t l) = spill_count l"
  by (simp_all add: swept_def sweep_def)

lemma allow_swept:
  "allow k t l =
     (case map_of (hits l) k of
        Some w \<Rightarrow> spend k (if expired t l w then \<lparr>w_start = t, w_count = 0\<rparr> else w) l
      | None \<Rightarrow>
          if l_max l \<le> length (hits (swept t l)) then spilled t (swept t l)
          else spend k \<lparr>w_start = t, w_count = 0\<rparr> (swept t l))"
  by (simp add: allow_def swept_def Let_def sweep_def split: option.split)

section \<open>The answers to one client\<close>

definition answers :: "string \<Rightarrow> (string \<times> int) list \<Rightarrow> ipLimiter \<Rightarrow> bool list" where
  "answers k rs l = map snd (filter (\<lambda>(r, ok). fst r = k) (zip rs (fst (allow_run rs l))))"

definition times_of :: "string \<Rightarrow> (string \<times> int) list \<Rightarrow> int list" where
  "times_of k rs = map snd (filter (\<lambda>r. fst r = k) rs)"

lemma answers_Nil [simp]: "answers k [] l = []"
  by (simp add: answers_def)

lemma answers_Cons:
  "answers k ((k', t) # rs) l =
   (if k' = k then [fst (allow k' t l)] else []) @ answers k rs (snd (allow k' t l))"
  by (auto simp: answers_def Let_def split: prod.split)

lemma times_of_simps [simp]:
  "times_of k [] = []" "times_of k ((k', t) # rs) = (if k' = k then t # times_of k rs else times_of k rs)"
  by (simp_all add: times_of_def)

section \<open>A client that keeps to its budget\<close>

text \<open>No window of length \<open>W\<close> contains more than \<open>L\<close> of the times.\<close>

definition polite :: "nat \<Rightarrow> int \<Rightarrow> int list \<Rightarrow> bool" where
  "polite L W ts \<longleftrightarrow> (\<forall>x. length (filter (\<lambda>p. x \<le> p \<and> p < x + W) ts) \<le> L)"

text \<open>The counter of a client counts only requests it made since its window began.\<close>

definition honest :: "string \<Rightarrow> int list \<Rightarrow> ipLimiter \<Rightarrow> bool" where
  "honest k ps l \<longleftrightarrow> distinct (map fst (hits l)) \<and>
     (\<forall>w. map_of (hits l) k = Some w \<longrightarrow> w_count w \<le> length (filter (\<lambda>p. w_start w \<le> p) ps))"

lemma honest_swept: "honest k ps l \<Longrightarrow> honest k ps (swept t l)"
  using swept_hits by (auto simp: honest_def)

lemma honest_spend_other: "honest k ps l \<Longrightarrow> k' \<noteq> k \<Longrightarrow> honest k ps (snd (spend k' w l))"
  by (auto simp: honest_def spend_def distinct_put simp del: map_of_eq_Some_iff)

lemma spilled_hits [simp]: "hits (snd (spilled t l)) = hits l"
  by (simp add: spilled_def Let_def)

lemma honest_spilled: "honest k ps l \<Longrightarrow> honest k ps (snd (spilled t l))"
  by (simp add: honest_def)

lemma honest_more: "honest k ps l \<Longrightarrow> honest k (ps @ qs) l"
  by (fastforce simp: honest_def)

lemma honest_allow_other: "honest k ps l \<Longrightarrow> k' \<noteq> k \<Longrightarrow> honest k ps (snd (allow k' t l))"
  by (auto simp: allow_swept honest_spend_other honest_spilled honest_swept split: option.split)

lemma honest_spend:
  assumes "honest k ps l" "w_count w \<le> length (filter (\<lambda>p. w_start w \<le> p) ps)" "w_start w \<le> t" "w_count w < l_limit l"
  shows "fst (spend k w l) \<and> honest k (ps @ [t]) (snd (spend k w l))"
  using assms by (auto simp: honest_def spend_def distinct_put)

lemma polite_allow:
  assumes "honest k ps l" "\<forall>p \<in> set ps. p \<le> t" "polite (l_limit l) (l_window l) (ps @ t # ts)"
    "0 < l_window l" "l_overflow l = 0"
    and "\<forall>w. map_of (hits l) k = Some w \<longrightarrow> w_start w \<le> t"
  shows "fst (allow k t l) \<and> honest k (ps @ [t]) (snd (allow k t l))"
proof -
  have room: "n < l_limit l" if "n \<le> length (filter (\<lambda>p. s \<le> p) ps)" "s \<le> t" "t < s + l_window l" for n s
  proof -
    have "filter (\<lambda>p. s \<le> p) ps = filter (\<lambda>p. s \<le> p \<and> p < s + l_window l) ps"
      using assms(2) that(3) by (intro filter_cong) auto
    moreover have "length (filter (\<lambda>p. s \<le> p \<and> p < s + l_window l) (ps @ t # ts)) \<le> l_limit l"
      using assms(3) by (simp add: polite_def)
    ultimately show ?thesis using that by simp
  qed
  show ?thesis
  proof (cases "map_of (hits l) k")
    case None
    have "0 < l_limit l" using room [of 0 t] assms(4) by simp
    then show ?thesis
      using None honest_swept [OF assms(1), of t] honest_more [OF honest_swept [OF assms(1), of t], of "[t]"] assms(5)
        honest_spend [of k ps "swept t l" "\<lparr>w_start = t, w_count = 0\<rparr>" t]
      by (auto simp: allow_swept honest_spilled) (simp add: spilled_def)
  next
    case (Some w)
    let ?v = "if expired t l w then \<lparr>w_start = t, w_count = 0\<rparr> else w"
    have v: "w_count ?v \<le> length (filter (\<lambda>p. w_start ?v \<le> p) ps)" "w_start ?v \<le> t"
      "t < w_start ?v + l_window l"
      using Some assms(1, 4, 6) by (auto simp: honest_def expired_def elapsed_def)
    show ?thesis using honest_spend [OF assms(1) v(1, 2) room [OF v]] Some by (simp add: allow_swept)
  qed
qed

text \<open>Runs of requests at times that never go back.\<close>

lemma starts_allow:
  assumes "\<forall>w. map_of (hits l) k = Some w \<longrightarrow> w_start w \<le> t" "distinct (map fst (hits l))"
  shows "map_of (hits (snd (allow k' t l))) k = Some w \<Longrightarrow> w_start w \<le> t"
  using assms swept_hits(2) [OF assms(2), of t k]
  by (auto simp: allow_swept spend_def simp del: map_of_eq_Some_iff split: option.splits if_splits)

lemma limits_allow_eq [simp]:
  "l_limit (snd (allow k t l)) = l_limit l" "l_overflow (snd (allow k t l)) = l_overflow l"
  "l_window (snd (allow k t l)) = l_window l" "l_max (snd (allow k t l)) = l_max l"
  using limits_allow [of l k t] by (simp_all add: same_limits_def)

lemma polite_run:
  assumes "honest k ps l" "\<forall>p \<in> set ps. p \<le> now" "\<forall>w. map_of (hits l) k = Some w \<longrightarrow> w_start w \<le> now"
    and "sorted (now # map snd rs)" "polite (l_limit l) (l_window l) (ps @ times_of k rs)"
    and "0 < l_window l" "l_overflow l = 0"
  shows "\<forall>ok \<in> set (answers k rs l). ok"
  using assms
proof (induction rs arbitrary: ps l now)
  case (Cons r rs)
  obtain k' t where r: "r = (k', t)" by (cases r)
  have t: "now \<le> t" "sorted (t # map snd rs)" using Cons.prems(4) r by auto
  let ?l = "snd (allow k' t l)"
  have starts: "\<forall>w. map_of (hits l) k = Some w \<longrightarrow> w_start w \<le> t" using Cons.prems(3) t(1) by force
  have d: "distinct (map fst (hits l))" using Cons.prems(1) by (simp add: honest_def)
  have starts': "\<forall>w. map_of (hits ?l) k = Some w \<longrightarrow> w_start w \<le> t" using starts_allow [OF starts d] by blast
  have past: "\<forall>p \<in> set ps. p \<le> t" using Cons.prems(2) t(1) by force
  show ?case
  proof (cases "k' = k")
    case True
    have "fst (allow k t l) \<and> honest k (ps @ [t]) (snd (allow k t l))"
      using Cons.prems(5-7) r True by (intro polite_allow [OF Cons.prems(1) past _ _ _ starts]) simp_all
    with Cons.IH [of "ps @ [t]" ?l t] Cons.prems(5-7) r True t starts' past show ?thesis
      by (simp add: answers_Cons)
  next
    case False
    with Cons.IH [OF honest_allow_other [OF Cons.prems(1)] past starts' t(2)] Cons.prems(5-7) r
    show ?thesis by (simp add: answers_Cons)
  qed
qed simp

section \<open>Two pages of the cashier\<close>

definition spaced :: "int \<Rightarrow> int list \<Rightarrow> bool" where
  "spaced d ts \<longleftrightarrow> sorted_wrt (\<lambda>a b. a + d \<le> b) ts"

lemma spaced_window:
  assumes "spaced d ts" "0 < d" "\<forall>p \<in> set ts. x \<le> p \<and> p < x + W" "ts \<noteq> []"
  shows "(int (length ts) - 1) * d < W"
proof -
  have "hd ts + (int (length ts) - 1) * d \<le> last ts" using assms(4, 1)
  proof (induction ts rule: rev_nonempty_induct)
    case (snoc t ts)
    then have "hd ts + (int (length ts) - 1) * d \<le> last ts" "last ts + d \<le> t"
      by (simp_all add: spaced_def sorted_wrt_append)
    with snoc.hyps show ?case by (simp add: algebra_simps)
  qed (simp add: spaced_def)
  moreover have "x \<le> hd ts" "last ts < x + W" using assms(3, 4) by (cases ts; simp)+
  ultimately show ?thesis by linarith
qed

lemma spaced_filter: "spaced d ts \<Longrightarrow> spaced d (filter P ts)"
  by (simp add: spaced_def sorted_wrt_filter)

lemma spaced_count:
  assumes "spaced d ts" "0 < d" "W \<le> int n * d"
  shows "length (filter (\<lambda>p. x \<le> p \<and> p < x + W) ts) \<le> n"
proof (cases "filter (\<lambda>p. x \<le> p \<and> p < x + W) ts = []")
  case False
  have "(int (length (filter (\<lambda>p. x \<le> p \<and> p < x + W) ts)) - 1) * d < int n * d"
    using spaced_window [OF spaced_filter [OF assms(1)] assms(2) _ False, of x W] assms(3) by force
  then show ?thesis using assms(2) by (simp add: mult_less_cancel_right)
qed simp

lemma spaced_pages_answered:
  assumes "sorted (map snd rs)" "mset (times_of k rs) = mset (pa @ pb)"
    and "spaced (5 * second) pa" "spaced (5 * second) pb"
  shows "\<forall>ok \<in> set (answers k rs polls_limiter). ok"
proof (cases rs)
  case (Cons r rs')
  have fields: "l_limit polls_limiter = 120" "l_overflow polls_limiter = 0" "l_window polls_limiter = limitWindow"
    "hits polls_limiter = []"
    by (simp_all add: polls_limiter_def newIPLimiter_def)
  have "polite 120 limitWindow (times_of k rs)"
    unfolding polite_def
  proof
    fix x
    let ?P = "\<lambda>p. x \<le> p \<and> p < x + limitWindow"
    have W: "limitWindow \<le> int 60 * (5 * second)" "0 < 5 * second" by (simp_all add: limitWindow_def second_def)
    have "length (filter ?P (times_of k rs)) = length (filter ?P (pa @ pb))"
      using assms(2) by (metis mset_filter size_mset)
    moreover have "length (filter ?P pa) \<le> 60" "length (filter ?P pb) \<le> 60"
      using spaced_count [OF assms(3) W(2, 1)] spaced_count [OF assms(4) W(2, 1)] by blast+
    ultimately show "length (filter ?P (times_of k rs)) \<le> 120" by simp
  qed
  moreover have "sorted (snd r # map snd rs)" using assms(1) Cons by auto
  ultimately show ?thesis
    using polite_run [of k "[]" polls_limiter "snd r" rs] fields
    by (simp add: honest_def limitWindow_def second_def)
qed simp

text \<open>
  C32: two pages that wait for payments of one client and ask at least five seconds apart each are always
  answered, for as long as they like, whatever requests other clients send at the same time and
  however often they fill the table.
\<close>

theorem cashier_pages_never_refused:
  assumes "sorted (map snd rs)" "mset (times_of k rs) = mset (pa @ pb)"
    and "spaced (5 * second) pa" "spaced (5 * second) pb"
  shows "False \<notin> set (answers k rs polls_limiter)"
  using spaced_pages_answered [OF assms] by blast

theorem cashier_pages_never_refused_witness:
  "False \<notin> set (answers ''a'' [(''a'', 0), (''b'', 1), (''a'', 2), (''a'', 5 * second), (''a'', 2 + 5 * second)] polls_limiter)"
  by (rule cashier_pages_never_refused [where pa = "[0, 5 * second]" and pb = "[2, 2 + 5 * second]"])
     (simp_all add: spaced_def second_def)

section \<open>Nobody gets more than the budget\<close>

text \<open>
  \<open>t0\<close> is the beginning of a run. The windows of a key, and those of the shared counter, begin at
  least a window apart, so their number bounds what they have granted.
\<close>

definition bounded :: "int \<Rightarrow> int \<Rightarrow> ipLimiter \<Rightarrow> bool" where
  "bounded t0 now l \<longleftrightarrow> t0 \<le> now \<and> distinct (map fst (hits l)) \<and>
     (\<forall>k w. map_of (hits l) k = Some w \<longrightarrow> t0 \<le> w_start w \<and> w_start w \<le> now \<and> w_count w \<le> l_limit l) \<and>
     (\<forall>s. spill_start l = Some s \<longrightarrow> t0 \<le> s \<and> s \<le> now) \<and> spill_count l \<le> l_overflow l"

definition granted_tracked :: "int \<Rightarrow> int \<Rightarrow> string \<Rightarrow> ipLimiter \<Rightarrow> int" where
  "granted_tracked t0 now k l =
     (case map_of (hits l) k of
        Some w \<Rightarrow> int (l_limit l) * ((w_start w - t0) div l_window l) + int (w_count w)
      | None \<Rightarrow> int (l_limit l) * ((now - t0) div l_window l))"

definition granted_shared :: "int \<Rightarrow> ipLimiter \<Rightarrow> int" where
  "granted_shared t0 l =
     (case spill_start l of
        None \<Rightarrow> 0
      | Some s \<Rightarrow> int (l_overflow l) * ((s - t0) div l_window l) + int (spill_count l))"

lemma window_later:
  assumes "0 < W" "s + W \<le> t" "c \<le> L"
  shows "int L * ((s - t0) div W) + int c \<le> int L * ((t - t0) div W)"
proof -
  have "(s - t0 + W) div W \<le> (t - t0) div W" using assms by (intro zdiv_mono1) simp_all
  then have "(s - t0) div W + 1 \<le> (t - t0) div W" using assms(1) by simp
  then have "int L * ((s - t0) div W + 1) \<le> int L * ((t - t0) div W)" by (intro mult_left_mono) simp_all
  with assms(3) show ?thesis by (simp add: distrib_left)
qed

lemma window_mono: "0 < W \<Longrightarrow> now \<le> t \<Longrightarrow> int L * ((now - t0) div W) \<le> int L * ((t - t0) div W)"
  by (intro mult_left_mono zdiv_mono1) simp_all

lemma bounded_swept: "bounded t0 now l \<Longrightarrow> bounded t0 now (swept t l)"
  using swept_hits(1, 2) [of l] by (fastforce simp: bounded_def simp del: map_of_eq_Some_iff)

lemma granted_swept:
  assumes "bounded t0 now l" "0 < l_window l" "now \<le> t"
  shows "granted_tracked t0 now k l \<le> granted_tracked t0 t k (swept t l)"
proof (cases "map_of (hits l) k")
  case None
  then show ?thesis using swept_hits(4) [of l k t] assms window_mono
    by (simp add: granted_tracked_def bounded_def)
next
  case (Some w)
  show ?thesis
  proof (cases "map_of (hits (swept t l)) k")
    case None
    then have "w_start w + l_window l \<le> t" "w_count w \<le> l_limit l"
      using swept_hits(3) [OF _ Some None] assms(1) Some
      by (auto simp: bounded_def expired_def elapsed_def simp del: map_of_eq_Some_iff)
    then show ?thesis using window_later assms(2) Some None by (simp add: granted_tracked_def)
  next
    case (Some v)
    with \<open>map_of (hits l) k = Some w\<close> swept_hits(2) [of l t k v] assms(1)
    show ?thesis by (simp add: granted_tracked_def bounded_def del: map_of_eq_Some_iff)
  qed
qed

lemma bounded_spend:
  assumes "bounded t0 now l" "now \<le> t" "t0 \<le> w_start w" "w_start w \<le> t" "w_count w \<le> l_limit l"
  shows "bounded t0 t (snd (spend k w l))"
  using assms by (fastforce simp: bounded_def spend_def distinct_put simp del: map_of_eq_Some_iff)

lemma granted_spend:
  "granted_tracked t0 t k (snd (spend k' w l)) =
   (if k' = k then int (l_limit l) * ((w_start w - t0) div l_window l) + int (w_count w) +
      (if fst (spend k' w l) then 1 else 0)
    else granted_tracked t0 t k l)"
  "granted_shared t0 (snd (spend k' w l)) = granted_shared t0 l"
  by (auto simp: granted_tracked_def granted_shared_def spend_def split: option.split)

lemma granted_spilled:
  assumes "bounded t0 now l" "0 < l_window l" "now \<le> t" "0 < l_overflow l"
  shows "bounded t0 t (snd (spilled t l))"
    "granted_shared t0 l + (if fst (spilled t l) then 1 else 0) \<le> granted_shared t0 (snd (spilled t l))"
    "granted_tracked t0 t k (snd (spilled t l)) = granted_tracked t0 t k l"
proof -
  have b: "spill_count l \<le> l_overflow l" "\<And>s. spill_start l = Some s \<Longrightarrow> t0 \<le> s \<and> s \<le> now" "t0 \<le> t"
    using assms(1, 3) by (auto simp: bounded_def)
  show "bounded t0 t (snd (spilled t l))"
    using assms(1, 3) by (fastforce simp: bounded_def spilled_def Let_def simp del: map_of_eq_Some_iff)
  show "granted_tracked t0 t k (snd (spilled t l)) = granted_tracked t0 t k l"
    by (auto simp: granted_tracked_def spilled_def Let_def split: option.split)
  have "0 \<le> int (l_overflow l) * ((t - t0) div l_window l)" using b(3) assms(2) by (simp add: pos_imp_zdiv_nonneg_iff)
  then show "granted_shared t0 l + (if fst (spilled t l) then 1 else 0) \<le> granted_shared t0 (snd (spilled t l))"
    using b(1, 2) assms(4) window_later [OF assms(2), of _ t "spill_count l" "l_overflow l" t0]
    by (auto simp: granted_shared_def spilled_def Let_def elapsed_def split: option.split)
qed

lemma granted_allow:
  assumes b: "bounded t0 now l" and W: "0 < l_window l" and t: "now \<le> t" and o: "0 < l_overflow l"
  shows "bounded t0 t (snd (allow k' t l)) \<and>
    granted_tracked t0 now k l + granted_shared t0 l + (if k' = k \<and> fst (allow k' t l) then 1 else 0) \<le>
    granted_tracked t0 t k (snd (allow k' t l)) + granted_shared t0 (snd (allow k' t l))"
proof (cases "map_of (hits l) k'")
  case None
  let ?l = "swept t l" and ?w = "\<lparr>w_start = t, w_count = 0\<rparr>"
  note bs = bounded_swept [OF b, of t] and gs = granted_swept [OF b W t, of k]
  have shared: "granted_shared t0 ?l = granted_shared t0 l" by (auto simp: granted_shared_def split: option.split)
  show ?thesis
  proof (cases "l_max l \<le> length (hits ?l)")
    case True
    then show ?thesis
      using None granted_spilled(1, 2) [OF bs _ t] granted_spilled(3) [OF bs _ t, of k] gs shared W o by (auto simp: allow_swept split: if_splits)
  next
    case False
    have n: "map_of (hits ?l) k' = None" using None b swept_hits(4) by (simp add: bounded_def)
    have "bounded t0 t (snd (spend k' ?w ?l))" using b t by (intro bounded_spend [OF bs]) (auto simp: bounded_def)
    moreover have "granted_tracked t0 t k' ?l = int (l_limit l) * ((t - t0) div l_window l)"
      using n by (simp add: granted_tracked_def)
    ultimately show ?thesis using None False gs shared
      by (auto simp: allow_swept granted_spend)
  qed
next
  case (Some w)
  let ?v = "if expired t l w then \<lparr>w_start = t, w_count = 0\<rparr> else w"
  have w: "t0 \<le> w_start w" "w_start w \<le> now" "w_count w \<le> l_limit l"
    using b Some by (auto simp: bounded_def simp del: map_of_eq_Some_iff)
  have "bounded t0 t (snd (spend k' ?v l))" using b t w by (intro bounded_spend [OF b t]) (auto simp: bounded_def)
  moreover have "granted_tracked t0 now k' l \<le> int (l_limit l) * ((w_start ?v - t0) div l_window l) + int (w_count ?v)"
    using window_later [OF W _ w(3), of "w_start w" t t0] Some
    by (auto simp: granted_tracked_def expired_def elapsed_def)
  moreover have "granted_tracked t0 now k l \<le> granted_tracked t0 t k l"
    using window_mono [OF W t] by (auto simp: granted_tracked_def split: option.split)
  ultimately show ?thesis using Some by (auto simp: allow_swept granted_spend)
qed

lemma granted_run:
  assumes "bounded t0 now l" "0 < l_window l" "0 < l_overflow l" "sorted (now # map snd rs)"
  shows "granted_tracked t0 now k l + granted_shared t0 l + int (length (filter id (answers k rs l))) \<le>
    (int (l_limit l) + int (l_overflow l)) * ((last (now # map snd rs) - t0) div l_window l + 1)"
  using assms
proof (induction rs arbitrary: now l)
  case Nil
  have b: "t0 \<le> now" "\<And>w. map_of (hits l) k = Some w \<Longrightarrow> w_start w \<le> now \<and> w_count w \<le> l_limit l"
    "\<And>s. spill_start l = Some s \<Longrightarrow> s \<le> now" "spill_count l \<le> l_overflow l"
    using Nil.prems(1) by (auto simp: bounded_def simp del: map_of_eq_Some_iff)
  let ?q = "(now - t0) div l_window l"
  have q: "0 \<le> ?q" using b(1) Nil.prems(2) by (simp add: pos_imp_zdiv_nonneg_iff)
  have "granted_tracked t0 now k l \<le> int (l_limit l) * (?q + 1)"
  proof (cases "map_of (hits l) k")
    case (Some w)
    from window_mono [OF Nil.prems(2), of "w_start w" now "l_limit l" t0] b(2) [OF Some]
    show ?thesis by (simp add: granted_tracked_def Some distrib_left)
  qed (simp add: granted_tracked_def distrib_left)
  moreover have "granted_shared t0 l \<le> int (l_overflow l) * (?q + 1)"
  proof (cases "spill_start l")
    case (Some s)
    from window_mono [OF Nil.prems(2), of s now "l_overflow l" t0] b(3) [OF Some] b(4)
    show ?thesis by (simp add: granted_shared_def Some distrib_left)
  qed (use q in \<open>simp add: granted_shared_def\<close>)
  ultimately show ?case by (simp add: distrib_right)
next
  case (Cons r rs)
  obtain k' t where r: "r = (k', t)" by (cases r)
  have t: "now \<le> t" "sorted (t # map snd rs)" using Cons.prems(4) r by auto
  note step = granted_allow [OF Cons.prems(1, 2) t(1) Cons.prems(3), of k' k]
  from Cons.IH [of t "snd (allow k' t l)"] step Cons.prems(2, 3) t(2) show ?case
    by (auto simp: r answers_Cons split: if_splits)
qed

text \<open>
  A client gets at most the limit in each window that has begun, plus what new addresses may share
  while the table is full: filling the table or waiting for a sweep buys nobody a fresh budget.
\<close>

theorem budget_is_bounded:
  assumes "sorted (t0 # map snd rs)" "0 < L" "0 < ovf" "0 < W"
  shows "int (length (filter id (answers k rs (newIPLimiter L ovf W)))) \<le>
    (int L + int ovf) * ((last (t0 # map snd rs) - t0) div W + 1)"
proof -
  let ?l = "newIPLimiter L ovf W"
  have f: "l_limit ?l = L" "l_overflow ?l = ovf" "l_window ?l = W" by (simp_all add: newIPLimiter_def)
  have "bounded t0 t0 ?l" by (simp add: bounded_def newIPLimiter_def)
  moreover have "granted_tracked t0 t0 k ?l = 0" "granted_shared t0 ?l = 0"
    by (simp_all add: granted_tracked_def granted_shared_def newIPLimiter_def)
  ultimately show ?thesis using granted_run [of t0 t0 ?l rs k] assms f by simp
qed

theorem budget_is_bounded_witness:
  "length (filter id (answers ''a'' [(''a'', 0), (''a'', 1), (''a'', 7)] (newIPLimiter 1 1 5))) \<le> 4"
  using budget_is_bounded [of 0 "[(''a'', 0), (''a'', 1), (''a'', 7)]" 1 1 5 "''a''"] by simp

end
