(* ===== verification/Store.thy ===== *)
theory Store imports Price begin

text \<open>
  Orders, cards and coupons, \<open>src/internal/store/store.go\<close>: the tables that the operations read
  and write, the check-out, the settlement of a payment, the sweep of expired orders, the read of
  an order, and the owner's edit of an order (\<open>orderSave\<close> of \<open>src/internal/admin/sales.go\<close>).
  A transaction is one step: it takes the locks of its rows first, and what a rolled back one
  wrote is gone. Rows that another transaction has locked are the parameter \<open>held\<close>, which
  \<open>SKIP LOCKED\<close> skips. Times are microseconds, texts are UTF-8 bytes.
\<close>

section \<open>Tables\<close>

record good_row =
  g_id :: int
  g_name :: string
  g_price :: string
  g_stock :: int
  g_sales :: int
  g_limit :: int
  g_type :: int
  g_wholesale :: string
  g_other :: string
  g_open :: int
  g_deleted :: bool

record card_row =
  c_id :: int
  c_goods :: int
  c_text :: string
  c_loop :: int
  c_status :: int
  c_reserved :: "int option"
  c_deleted :: bool

text \<open>\<open>k_goods\<close> are the rows of \<open>coupons_goods\<close> that belong to the coupon.\<close>

record coupon_row =
  k_id :: int
  k_code :: string
  k_discount :: string
  k_uses :: int
  k_open :: int
  k_use :: int
  k_goods :: "int list"
  k_deleted :: bool

record pay_row =
  p_id :: int
  p_check :: string
  p_open :: int
  p_deleted :: bool

record order_row =
  o_id :: int
  o_sn :: string
  o_goods :: int
  o_coupon :: int
  o_title :: string
  o_type :: int
  o_price :: string
  o_amount :: int
  o_coupon_off :: string
  o_wholesale_off :: string
  o_total :: string
  o_actual :: string
  o_pwd :: string
  o_email :: string
  o_info :: string
  o_pay :: int
  o_ip :: string
  o_source :: string
  o_created :: int
  o_trade :: string
  o_status :: int
  o_ret_back :: int
  o_owed :: bool
  o_deleted :: bool

record database =
  goods :: "good_row list"
  cards :: "card_row list"
  coupons :: "coupon_row list"
  pays :: "pay_row list"
  orders :: "order_row list"
  next_order :: int

text \<open>\<open>UPDATE ... WHERE\<close>: the rows in question are replaced.\<close>

definition update_rows :: "('r \<Rightarrow> bool) \<Rightarrow> ('r \<Rightarrow> 'r) \<Rightarrow> 'r list \<Rightarrow> 'r list" where
  "update_rows P f rs = map (\<lambda>r. if P r then f r else r) rs"

definition in_int4 :: "int \<Rightarrow> bool" where
  "in_int4 n \<longleftrightarrow> - (2 ^ 31) \<le> n \<and> n < 2 ^ 31"

section \<open>Errors\<close>

text \<open>One constructor per text of a \<open>RuleError\<close>; \<open>DatabaseError\<close> is any other failure.\<close>

datatype store_error =
    BadAmount | BadEmail | NeedSearchPwd | ChoosePay | NoSuchGoods | GoodsClosed | OverLimit
  | OneLoopCard | PayUnavailable | TooManyUnpaid | ShortStock | CouponRefused coupon_error
  | FieldEmpty string | BadQuote | NothingToPay | OrderNotFound | AutoOnly | AmountMismatch
  | NotPayable | DatabaseError

text \<open>An error ends the operation: \<open>if err != nil { return ..., err }\<close>.\<close>

abbreviation and_then :: "'e + 'a \<Rightarrow> ('a \<Rightarrow> 'e + 'b) \<Rightarrow> 'e + 'b" where
  "and_then x k \<equiv> case_sum Inl k x"

definition guard :: "'e \<Rightarrow> bool \<Rightarrow> 'e + unit" where
  "guard e b = (if b then Inl e else Inr ())"

definition IsPaidShort :: "store_error \<Rightarrow> bool" where
  "IsPaidShort e \<longleftrightarrow> e = ShortStock"

definition IsNotFound :: "store_error \<Rightarrow> bool" where
  "IsNotFound e \<longleftrightarrow> e = OrderNotFound"

definition CashierChecks :: "string list" where
  "CashierChecks = [''wescan'', ''cldx'', ''usdt'']"

definition CashierReady :: "string \<Rightarrow> bool" where
  "CashierReady c \<longleftrightarrow> c \<in> set CashierChecks"

text \<open>A price that cannot be read is 0.\<close>

definition cents :: "string \<Rightarrow> int" where
  "cents s = (case ParseYuan s of Some c \<Rightarrow> c | None \<Rightarrow> 0)"

section \<open>Reading an order\<close>

record order_info =
  ID :: int
  SN :: string
  GoodsID :: int
  PayID :: int
  Amount :: int
  Type :: int
  Status :: int
  Title :: string
  Email :: string
  Info :: string
  SearchPwd :: string
  TradeNo :: string
  BuyIP :: string
  GoodsPrice :: int
  CouponOff :: int
  Wholesale :: int
  Total :: int
  Actual :: int
  Created :: int

definition order_of :: "order_row \<Rightarrow> order_info" where
  "order_of r =
     \<lparr>ID = o_id r, SN = o_sn r, GoodsID = o_goods r, PayID = o_pay r, Amount = o_amount r,
      Type = o_type r, Status = o_status r, Title = o_title r, Email = o_email r,
      Info = o_info r, SearchPwd = o_pwd r, TradeNo = o_trade r, BuyIP = o_ip r,
      GoodsPrice = cents (o_price r), CouponOff = cents (o_coupon_off r),
      Wholesale = cents (o_wholesale_off r), Total = cents (o_total r),
      Actual = cents (o_actual r), Created = o_created r\<rparr>"

text \<open>\<open>utf8 s\<close> says that \<open>s\<close> is valid UTF-8.\<close>

definition plausibleSN :: "(string \<Rightarrow> bool) \<Rightarrow> string \<Rightarrow> bool" where
  "plausibleSN utf8 sn \<longleftrightarrow> sn \<noteq> [] \<and> length sn \<le> 64 \<and> utf8 sn \<and> CHR 0x00 \<notin> set sn"

definition find_order :: "string \<Rightarrow> database \<Rightarrow> order_row option" where
  "find_order sn db = List.find (\<lambda>r. o_sn r = sn) (orders db)"

definition orderBySN :: "(string \<Rightarrow> bool) \<Rightarrow> database \<Rightarrow> string \<Rightarrow> store_error + order_info" where
  "orderBySN utf8 db sn =
     (if \<not> plausibleSN utf8 sn then Inl OrderNotFound
      else
        (case List.find (\<lambda>r. o_sn r = sn \<and> \<not> o_deleted r) (orders db) of
           None \<Rightarrow> Inl OrderNotFound
         | Some r \<Rightarrow> Inr (order_of r)))"

text \<open>The number of code points of a valid UTF-8 text, and \<open>unicode.IsControl\<close> among its bytes.\<close>

definition rune_count :: "string \<Rightarrow> nat" where
  "rune_count s = length (filter (\<lambda>c. \<not> (128 \<le> code c \<and> code c < 192)) s)"

fun has_control :: "string \<Rightarrow> bool" where
  "has_control [] = False"
| "has_control [c] = (code c < 32 \<or> code c = 127)"
| "has_control (c # d # s) =
     (code c < 32 \<or> code c = 127 \<or> (code c = 194 \<and> 128 \<le> code d \<and> code d < 160) \<or>
      has_control (d # s))"

definition plausibleOrderSN :: "(string \<Rightarrow> bool) \<Rightarrow> string \<Rightarrow> bool" where
  "plausibleOrderSN utf8 sn \<longleftrightarrow> sn \<noteq> [] \<and> utf8 sn \<and> rune_count sn \<le> 150 \<and> \<not> has_control sn"

definition OrderBySNChecked :: "(string \<Rightarrow> bool) \<Rightarrow> database \<Rightarrow> string \<Rightarrow> store_error + order_info" where
  "OrderBySNChecked utf8 db sn =
     (if \<not> plausibleOrderSN utf8 sn then Inl OrderNotFound
      else
        (case orderBySN utf8 db sn of
           Inr r \<Rightarrow> Inr r
         | Inl e \<Rightarrow>
             if \<not> IsNotFound e then Inl e
             else if \<exists>r\<in>set (orders db). o_sn r = sn \<and> \<not> o_deleted r then Inl DatabaseError
             else Inl e))"

section \<open>Check-out\<close>

text \<open>\<open>in_email_ok\<close>: \<open>mail.ParseAddress\<close> returns the email as it stands.\<close>

record CreateInput =
  in_gid :: int
  in_pay :: int
  in_amount :: int
  in_email :: string
  in_email_ok :: bool
  in_pwd :: string
  in_coupon :: string
  in_ip :: string
  in_source :: string
  in_extra :: "(string \<times> string) list"

record site =
  site_search_pwd :: bool
  site_expire_min :: int

definition minutes :: "int \<Rightarrow> int" where
  "minutes n = n * 60000000"

definition lower :: "string \<Rightarrow> string" where
  "lower = map to_lower"

definition unpaidQuota :: "int \<Rightarrow> string \<Rightarrow> string \<Rightarrow> int \<Rightarrow> database \<Rightarrow> store_error + unit" where
  "unpaidQuota now source email0 expireMin0 db =
     (let expireMin = (if expireMin0 \<le> 0 then 5 else expireMin0);
          email = lower email0;
          waiting = filter (\<lambda>r. o_status r = 1 \<and> \<not> o_deleted r \<and> now - minutes expireMin < o_created r)
                      (orders db);
          bySource = length (filter (\<lambda>r. o_source r = source) waiting);
          byEmail = length (filter (\<lambda>r. lower (o_email r) = email) waiting)
      in guard TooManyUnpaid ((source \<noteq> [] \<and> 5 \<le> bySource) \<or> 3 \<le> byEmail))"

text \<open>The cards of the order, or the stock of goods that are handed over by hand.\<close>

definition free_cards :: "int set \<Rightarrow> int \<Rightarrow> database \<Rightarrow> card_row list" where
  "free_cards held gid db =
     filter (\<lambda>c. c_goods c = gid \<and> c_status c = 1 \<and> c_reserved c = None \<and> \<not> c_deleted c \<and> c_id c \<notin> held)
       (sort_key c_id (cards db))"

definition take_stock :: "int \<Rightarrow> int \<Rightarrow> database \<Rightarrow> database option" where
  "take_stock gid n db =
     (if \<exists>g\<in>set (goods db). g_id g = gid \<and> n \<le> g_stock g
      then Some (db\<lparr>goods := update_rows (\<lambda>g. g_id g = gid \<and> n \<le> g_stock g) (\<lambda>g. g\<lparr>g_stock := g_stock g - n\<rparr>) (goods db)\<rparr>)
      else None)"

definition reserve :: "int set \<Rightarrow> good_row \<Rightarrow> int \<Rightarrow> database \<Rightarrow> store_error + (int list \<times> database)" where
  "reserve held g n db =
     (if g_type g = 1 then
        (let reserved = map c_id (take (nat n) (free_cards held (g_id g) db))
         in if int (length reserved) \<noteq> n then Inl ShortStock else Inr (reserved, db))
      else if \<not> in_int4 n then Inl DatabaseError
      else (case take_stock (g_id g) n db of None \<Rightarrow> Inl ShortStock | Some db' \<Rightarrow> Inr ([], db')))"

definition usable :: "int \<Rightarrow> coupon_row \<Rightarrow> bool" where
  "usable i k \<longleftrightarrow> k_id k = i \<and> 0 < k_uses k \<and> k_open k = 1 \<and> k_use k \<noteq> 2"

definition use_up :: "coupon_row \<Rightarrow> coupon_row" where
  "use_up k = k\<lparr>k_uses := k_uses k - 1\<rparr>"

definition redeem :: "string \<Rightarrow> int \<Rightarrow> database \<Rightarrow> store_error + (int \<times> string \<times> database)" where
  "redeem cp gid db =
     (if trim cp = [] then Inr (0, [], db)
      else
        (case List.find (\<lambda>k. k_code k = cp \<and> gid \<in> set (k_goods k) \<and> \<not> k_deleted k) (coupons db) of
           None \<Rightarrow> Inl (CouponRefused NoSuchCoupon)
         | Some k \<Rightarrow>
             (case TakeCoupon (k_open k) (k_use k) (k_uses k)
                     (length (filter (usable (k_id k)) (coupons db))) of
                Some e \<Rightarrow> Inl (CouponRefused e)
              | None \<Rightarrow> Inr (k_id k, k_discount k, db\<lparr>coupons := update_rows (usable (k_id k)) use_up (coupons db)\<rparr>))))"

text \<open>The buyer's answers to the questions of the goods, \<open>name=label=required\<close>.\<close>

definition answer_to :: "(string \<times> string) list \<Rightarrow> string \<Rightarrow> string" where
  "answer_to extra q = (case map_of extra q of Some v \<Rightarrow> v | None \<Rightarrow> [])"

fun answers_of :: "(string \<times> string) list \<Rightarrow> string list \<Rightarrow> string \<Rightarrow> store_error + string" where
  "answers_of extra [] info = Inr info"
| "answers_of extra (line # lines) info =
     (case split_text ''='' (trim line) of
        name # label # req # _ \<Rightarrow>
          (let val = answer_to extra name
           in if (req = ''1'' \<or> lower req = ''true'') \<and> trim val = [] then Inl (FieldEmpty label)
              else answers_of extra lines (info @ label @ '':'' @ val @ [CHR 0x0A]))
      | _ \<Rightarrow> answers_of extra lines info)"

definition buyer_info :: "good_row \<Rightarrow> (string \<times> string) list \<Rightarrow> store_error + string" where
  "buyer_info g extra =
     (if g_type g = 2 \<and> g_other g \<noteq> [] then answers_of extra (split_text [CHR 0x0A] (g_other g)) []
      else Inr [])"

definition new_order ::
  "int \<Rightarrow> string \<Rightarrow> int \<Rightarrow> CreateInput \<Rightarrow> good_row \<Rightarrow> int \<Rightarrow> string \<Rightarrow> quote \<Rightarrow> order_row" where
  "new_order now sn i inp g coupon info q =
     \<lparr>o_id = i, o_sn = sn, o_goods = g_id g, o_coupon = coupon, o_title = g_name g, o_type = g_type g,
      o_price = Yuan (cents (g_price g)), o_amount = in_amount inp,
      o_coupon_off = Yuan (q_coupon q), o_wholesale_off = Yuan (q_wholesale q),
      o_total = Yuan (q_total q), o_actual = Yuan (q_actual q), o_pwd = in_pwd inp,
      o_email = in_email inp, o_info = info, o_pay = in_pay inp, o_ip = in_ip inp,
      o_source = in_source inp, o_created = now, o_trade = [], o_status = 1, o_ret_back = 0,
      o_owed = False, o_deleted = False\<rparr>"

text \<open>The row, its number unique and its texts no longer than their columns; and the reservations.\<close>

definition fits :: "order_row \<Rightarrow> bool" where
  "fits r \<longleftrightarrow> rune_count (o_email r) \<le> 200 \<and> rune_count (o_pwd r) \<le> 200 \<and> rune_count (o_ip r) \<le> 50 \<and>
     rune_count (o_source r) \<le> 64"

definition insert_order :: "order_row \<Rightarrow> int list \<Rightarrow> database \<Rightarrow> store_error + database" where
  "insert_order r reserved db =
     (if \<not> in_int4 (o_amount r) \<or> o_sn r \<in> set (map o_sn (orders db)) \<or> \<not> fits r then Inl DatabaseError
      else Inr (db\<lparr>orders := orders db @ [r],
                   cards := (if o_type r = 1
                             then update_rows (\<lambda>c. c_id c \<in> set reserved) (\<lambda>c. c\<lparr>c_reserved := Some (o_id r)\<rparr>) (cards db)
                             else cards db),
                   next_order := next_order db + 1\<rparr>))"

definition find_good :: "int \<Rightarrow> database \<Rightarrow> store_error + good_row" where
  "find_good gid db =
     (case List.find (\<lambda>g. g_id g = gid \<and> \<not> g_deleted g) (goods db) of
        None \<Rightarrow> Inl NoSuchGoods | Some g \<Rightarrow> Inr g)"

definition loop_cards :: "int \<Rightarrow> database \<Rightarrow> nat" where
  "loop_cards gid db =
     length (filter (\<lambda>c. c_goods c = gid \<and> c_status c = 1 \<and> c_loop c = 1 \<and> \<not> c_deleted c) (cards db))"

definition pay_ready :: "int \<Rightarrow> database \<Rightarrow> bool" where
  "pay_ready i db =
     (case List.find (\<lambda>p. p_id p = i \<and> \<not> p_deleted p) (pays db) of
        None \<Rightarrow> False | Some p \<Rightarrow> p_open p = 1 \<and> CashierReady (p_check p))"

definition check_form :: "site \<Rightarrow> CreateInput \<Rightarrow> store_error + unit" where
  "check_form s inp =
     and_then (guard BadAmount (in_amount inp < 1)) (\<lambda>_.
     and_then (guard BadEmail (\<not> in_email_ok inp)) (\<lambda>_.
     and_then (guard NeedSearchPwd (site_search_pwd s \<and> trim (in_pwd inp) = [])) (\<lambda>_.
     guard ChoosePay (in_pay inp \<le> 0))))"

definition check_goods :: "CreateInput \<Rightarrow> good_row \<Rightarrow> database \<Rightarrow> store_error + unit" where
  "check_goods inp g db =
     and_then (guard GoodsClosed (g_open g \<noteq> 1)) (\<lambda>_.
     and_then (guard OverLimit (0 < g_limit g \<and> g_limit g < in_amount inp)) (\<lambda>_.
     and_then (guard OneLoopCard (0 < loop_cards (g_id g) db \<and> 1 < in_amount inp)) (\<lambda>_.
     guard PayUnavailable (\<not> pay_ready (in_pay inp) db))))"

definition quoted :: "CreateInput \<Rightarrow> good_row \<Rightarrow> string \<Rightarrow> store_error + quote" where
  "quoted inp g discount =
     (case Quote (cents (g_price g)) (in_amount inp) discount (g_wholesale g) of
        None \<Rightarrow> Inl BadQuote
      | Some q \<Rightarrow> if q_actual q \<le> 0 then Inl NothingToPay else Inr q)"

definition createOrder ::
  "int \<Rightarrow> string \<Rightarrow> int set \<Rightarrow> site \<Rightarrow> CreateInput \<Rightarrow> database \<Rightarrow> store_error + (order_info \<times> database)" where
  "createOrder now sn held s inp db =
     and_then (check_form s inp) (\<lambda>_.
     and_then (find_good (in_gid inp) db) (\<lambda>g.
     and_then (check_goods inp g db) (\<lambda>_.
     and_then (unpaidQuota now (in_source inp) (in_email inp) (site_expire_min s) db) (\<lambda>_.
     and_then (reserve held g (in_amount inp) db) (\<lambda>(reserved, db1).
     and_then (redeem (in_coupon inp) (g_id g) db1) (\<lambda>(coupon, discount, db2).
     and_then (buyer_info g (in_extra inp)) (\<lambda>info.
     and_then (quoted inp g discount) (\<lambda>q.
     let r = new_order now sn (next_order db) inp g coupon info q
     in and_then (insert_order r reserved db2) (\<lambda>db3. Inr (order_of r, db3))))))))))"

section \<open>Settlement\<close>

text \<open>The amount of an order is positive; its transaction number fits in 200 characters.\<close>

definition upd_order :: "int \<Rightarrow> (order_row \<Rightarrow> order_row) \<Rightarrow> database \<Rightarrow> database" where
  "upd_order i f db = db\<lparr>orders := update_rows (\<lambda>r. o_id r = i) f (orders db)\<rparr>"

text \<open>The coupon use that the sweep handed back is taken again, or marked as lost.\<close>

definition retake_coupon :: "order_row \<Rightarrow> database \<Rightarrow> int \<times> database" where
  "retake_coupon r db =
     (if 0 < o_coupon r \<and> o_ret_back r = 1 then
        (let P = (\<lambda>k. k_id k = o_coupon r \<and> 0 < k_uses k \<and> \<not> k_deleted k)
         in if length (filter P (coupons db)) = 1
            then (0, db\<lparr>coupons := update_rows P use_up (coupons db)\<rparr>) else (2, db))
      else (o_ret_back r, db))"

text \<open>The cards for the order: those reserved for it before the others.\<close>

definition picked :: "int set \<Rightarrow> order_row \<Rightarrow> database \<Rightarrow> card_row list" where
  "picked held r db =
     (let cs = filter (\<lambda>c. c_goods c = o_goods r \<and> c_status c = 1 \<and> \<not> c_deleted c \<and>
                           (c_reserved c = Some (o_id r) \<or> c_reserved c = None) \<and> c_id c \<notin> held)
                 (sort_key c_id (cards db))
      in take (nat (o_amount r))
           (filter (\<lambda>c. c_reserved c = Some (o_id r)) cs @ filter (\<lambda>c. c_reserved c = None) cs))"

definition hand_out :: "card_row list \<Rightarrow> card_row list \<Rightarrow> card_row list" where
  "hand_out picks =
     update_rows (\<lambda>c. c_id c \<in> set (map c_id picks))
       (\<lambda>c. if c_loop c = 0 then c\<lparr>c_status := 2, c_reserved := None\<rparr> else c\<lparr>c_reserved := None\<rparr>)"

definition release :: "int \<Rightarrow> int \<Rightarrow> card_row list \<Rightarrow> card_row list" where
  "release i gid =
     update_rows (\<lambda>c. c_reserved c = Some i \<and> c_goods c = gid \<and> c_status c = 1) (\<lambda>c. c\<lparr>c_reserved := None\<rparr>)"

fun join_lines :: "string list \<Rightarrow> string" where
  "join_lines [] = []"
| "join_lines [x] = x"
| "join_lines (x # y # zs) = x @ [CHR 0x0A] @ join_lines (y # zs)"

definition add_sales :: "int \<Rightarrow> int \<Rightarrow> database \<Rightarrow> database option" where
  "add_sales gid n db =
     (if \<exists>g\<in>set (goods db). g_id g = gid \<and> \<not> in_int4 (g_sales g + n) then None
      else Some (db\<lparr>goods := update_rows (\<lambda>g. g_id g = gid) (\<lambda>g. g\<lparr>g_sales := g_sales g + n\<rparr>) (goods db)\<rparr>))"

text \<open>The text of \<open>msgShortStock\<close>.\<close>

definition msgShortStock :: string where
  "msgShortStock = map char_of [229, 186, 147, 229, 173, 152, 228, 184, 141, 232, 182, 179 :: nat]"

definition short_row :: "string \<Rightarrow> int \<Rightarrow> order_row \<Rightarrow> order_row" where
  "short_row tradeNo retBack r =
     r\<lparr>o_status := 6,
       o_info := (if o_type r = 2 then msgShortStock @ [CHR 0x0A] @ o_info r else msgShortStock),
       o_trade := tradeNo, o_ret_back := retBack, o_owed := (o_type r = 2)\<rparr>"

text \<open>What a settlement answers: delivered, already settled, or an error; and the tables after it.\<close>

type_synonym settled = "(store_error + (bool \<times> bool)) \<times> database"

definition short :: "bool \<Rightarrow> string \<Rightarrow> int \<Rightarrow> order_row \<Rightarrow> database \<Rightarrow> database \<Rightarrow> settled" where
  "short redeliver tradeNo retBack r db0 db =
     (Inl ShortStock, if redeliver then db0 else upd_order (o_id r) (short_row tradeNo retBack) db)"

definition finish :: "order_row \<Rightarrow> database \<Rightarrow> database \<Rightarrow> settled" where
  "finish r db0 db =
     (case add_sales (o_goods r) (o_amount r) db of
        None \<Rightarrow> (Inl DatabaseError, db0) | Some db' \<Rightarrow> (Inr (True, False), db'))"

definition deliver_cards :: "int set \<Rightarrow> bool \<Rightarrow> string \<Rightarrow> order_row \<Rightarrow> database \<Rightarrow> settled" where
  "deliver_cards held redeliver tradeNo r db0 =
     (let (retBack, db) = retake_coupon r db0; picks = picked held r db
      in if o_amount r < 0 then (Inl DatabaseError, db0)
         else if int (length picks) \<noteq> o_amount r then short redeliver tradeNo retBack r db0 db
         else finish r db0
           (upd_order (o_id r)
              (\<lambda>r. r\<lparr>o_status := 4, o_info := join_lines (map c_text picks), o_trade := tradeNo, o_ret_back := retBack\<rparr>)
              (db\<lparr>cards := release (o_id r) (o_goods r) (hand_out picks (cards db))\<rparr>)))"

definition record_paid :: "bool \<Rightarrow> string \<Rightarrow> order_row \<Rightarrow> database \<Rightarrow> settled" where
  "record_paid redeliver tradeNo r db0 =
     (let (retBack, db) = retake_coupon r db0;
          paid = (\<lambda>db. finish r db0 (upd_order (o_id r) (\<lambda>r. r\<lparr>o_status := 2, o_trade := tradeNo, o_ret_back := retBack\<rparr>) db))
      in if o_status r = -1
         then (case take_stock (o_goods r) (o_amount r) db of
                 None \<Rightarrow> short redeliver tradeNo retBack r db0 db | Some db' \<Rightarrow> paid db')
         else paid db)"

definition settle :: "int set \<Rightarrow> string \<Rightarrow> int \<Rightarrow> string \<Rightarrow> bool \<Rightarrow> database \<Rightarrow> settled" where
  "settle held sn paid0 tradeNo0 redeliver db =
     (case find_order sn db of
        None \<Rightarrow> (Inl OrderNotFound, db)
      | Some r \<Rightarrow>
          (let want = cents (o_actual r);
               paid = (if redeliver then want else paid0);
               tradeNo = (if redeliver then (if o_trade r = [] then ''manual'' else o_trade r) else tradeNo0)
           in if redeliver \<and> o_status r \<noteq> 6 then (Inr (False, False), db)
              else if redeliver \<and> o_type r \<noteq> 1 then (Inl AutoOnly, db)
              else if paid \<noteq> want then (Inl AmountMismatch, db)
              else if o_status r = 4 \<or> o_status r = 2 \<or> o_status r = 3 then (Inr (False, True), db)
              else if o_status r \<noteq> 1 \<and> o_status r \<noteq> -1 \<and> o_status r \<noteq> 6 then (Inl NotPayable, db)
              else if o_type r \<noteq> 1 \<and> o_status r = 6 then (Inr (False, True), db)
              else if 200 < rune_count tradeNo then (Inl DatabaseError, db)
              else if o_type r = 1 then deliver_cards held redeliver tradeNo r db
              else record_paid redeliver tradeNo r db))"

definition Complete :: "int set \<Rightarrow> string \<Rightarrow> int \<Rightarrow> string \<Rightarrow> database \<Rightarrow> (store_error + bool) \<times> database" where
  "Complete held sn paid tradeNo db =
     (case settle held sn paid tradeNo False db of
        (Inl e, db') \<Rightarrow> (Inl e, db') | (Inr (_, already), db') \<Rightarrow> (Inr already, db'))"

definition Redeliver :: "int set \<Rightarrow> string \<Rightarrow> database \<Rightarrow> (store_error + bool) \<times> database" where
  "Redeliver held sn db =
     (case settle held sn 0 [] True db of
        (Inl e, db') \<Rightarrow> (Inl e, db') | (Inr (delivered, _), db') \<Rightarrow> (Inr delivered, db'))"

section \<open>Expired orders\<close>

definition give_back :: "int \<Rightarrow> database \<Rightarrow> database option" where
  "give_back coupon db =
     (if coupon \<le> 0 then Some db
      else if \<exists>k\<in>set (coupons db). k_id k = coupon \<and> \<not> in_int4 (k_uses k + 1) then None
      else Some (db\<lparr>coupons := update_rows (\<lambda>k. k_id k = coupon) (\<lambda>k. k\<lparr>k_uses := k_uses k + 1\<rparr>) (coupons db)\<rparr>))"

definition put_back :: "order_row \<Rightarrow> database \<Rightarrow> database option" where
  "put_back r db =
     (if o_type r \<noteq> 2 then Some db
      else if \<exists>g\<in>set (goods db). g_id g = o_goods r \<and> \<not> in_int4 (g_stock g + o_amount r) then None
      else Some (db\<lparr>goods := update_rows (\<lambda>g. g_id g = o_goods r) (\<lambda>g. g\<lparr>g_stock := g_stock g + o_amount r\<rparr>) (goods db)\<rparr>))"

definition unreserve :: "int \<Rightarrow> int \<Rightarrow> card_row list \<Rightarrow> card_row list" where
  "unreserve i gid = update_rows (\<lambda>c. c_reserved c = Some i \<and> c_goods c = gid) (\<lambda>c. c\<lparr>c_reserved := None\<rparr>)"

definition expireOne :: "int \<Rightarrow> int \<Rightarrow> database \<Rightarrow> database option" where
  "expireOne i coupon db =
     (case List.find (\<lambda>r. o_id r = i \<and> o_status r = 1) (orders db) of
        None \<Rightarrow> Some db
      | Some r \<Rightarrow>
          Option.bind
            (give_back coupon (upd_order i (\<lambda>r. r\<lparr>o_status := -1, o_ret_back := 1\<rparr>) db))
            (\<lambda>db. put_back r (db\<lparr>cards := unreserve i (o_goods r) (cards db)\<rparr>)))"

definition due :: "int \<Rightarrow> int \<Rightarrow> database \<Rightarrow> (int \<times> int) list" where
  "due now mins db =
     map (\<lambda>r. (o_id r, o_coupon r))
       (filter (\<lambda>r. o_status r = 1 \<and> o_ret_back r = 0 \<and> o_created r < now - minutes mins) (orders db))"

text \<open>The sweep stops at the first transaction that fails.\<close>

fun expire_all :: "(int \<times> int) list \<Rightarrow> database \<Rightarrow> database" where
  "expire_all [] db = db"
| "expire_all ((i, coupon) # rest) db =
     (case expireOne i coupon db of None \<Rightarrow> db | Some db' \<Rightarrow> expire_all rest db')"

definition ExpireDue :: "int \<Rightarrow> int \<Rightarrow> database \<Rightarrow> database" where
  "ExpireDue now mins db = expire_all (due now (if mins \<le> 0 then 5 else mins) db) db"

section \<open>The owner's edit of an order\<close>

record order_form =
  f_title :: string
  f_info :: string
  f_pwd :: string
  f_status :: int

datatype edit_error =
  NoSuchRecord | BadTitle | PwdTooLong | BadStatus | NoManualShort | ManualShortFailed
| StatusLocked | ManualShort

definition validOrderStatus :: "int \<Rightarrow> bool" where
  "validOrderStatus v \<longleftrightarrow> v \<in> {-1, 1, 2, 3, 4, 5, 6}"

definition manualToShort :: "int \<Rightarrow> int \<Rightarrow> int \<Rightarrow> bool" where
  "manualToShort typ frm to \<longleftrightarrow> typ = 2 \<and> to = 6 \<and> frm \<noteq> 6"

definition owesManualStock :: "int \<Rightarrow> int \<Rightarrow> bool \<Rightarrow> bool" where
  "owesManualStock typ frm owed \<longleftrightarrow> typ = 2 \<and> frm = 6 \<and> owed"

definition manualShortToFailed :: "int \<Rightarrow> int \<Rightarrow> int \<Rightarrow> bool" where
  "manualShortToFailed typ frm to \<longleftrightarrow> typ = 2 \<and> frm = 6 \<and> to = 5"

definition takesManualStock :: "int \<Rightarrow> int \<Rightarrow> int \<Rightarrow> bool" where
  "takesManualStock typ frm to \<longleftrightarrow> typ = 2 \<and> frm = 6 \<and> (to = 2 \<or> to = 3 \<or> to = 4)"

definition releasesReservations :: "int \<Rightarrow> int \<Rightarrow> int \<Rightarrow> bool" where
  "releasesReservations typ frm to \<longleftrightarrow>
     typ = 1 \<and> frm \<noteq> to \<and> (frm = 6 \<or> ((frm = 2 \<or> frm = 3) \<and> (to = 4 \<or> to = 5)))"

definition trim_prefix :: "string \<Rightarrow> string \<Rightarrow> string" where
  "trim_prefix p s = (if take (length p) s = p then drop (length p) s else s)"

definition stripShortMarker :: "string \<Rightarrow> string" where
  "stripShortMarker info =
     (if take (length msgShortStock) info \<noteq> msgShortStock then info
      else trim_prefix [CHR 0x0A] (trim_prefix [CHR 0x0D] (trim_prefix msgShortStock info)))"

fun normalize_newlines :: "string \<Rightarrow> string" where
  "normalize_newlines [] = []"
| "normalize_newlines [c] = (if c = CHR 0x0D then [CHR 0x0A] else [c])"
| "normalize_newlines (c # d # s) =
     (if c = CHR 0x0D \<and> d = CHR 0x0A then CHR 0x0A # normalize_newlines s
      else (if c = CHR 0x0D then CHR 0x0A else c) # normalize_newlines (d # s))"

definition normalizeNL :: "string \<Rightarrow> string" where
  "normalizeNL s = trim (normalize_newlines s)"

text \<open>Statuses that the owner may set by hand.\<close>

definition may_set :: "order_row \<Rightarrow> int \<Rightarrow> bool" where
  "may_set r to \<longleftrightarrow>
     to = o_status r \<or>
     ((o_status r = 2 \<or> o_status r = 3 \<or> ((o_status r = 5 \<or> o_status r = 6) \<and> o_trade r \<noteq> [])) \<and>
      (to = 2 \<or> to = 3 \<or> to = 4 \<or> to = 5 \<or> to = 6))"

definition check_edit :: "order_row \<Rightarrow> order_form \<Rightarrow> edit_error + unit" where
  "check_edit r f =
     and_then (guard BadTitle (trim (f_title f) = [] \<or> 200 < rune_count (trim (f_title f)))) (\<lambda>_.
     and_then (guard PwdTooLong (200 < rune_count (trim (f_pwd f)))) (\<lambda>_.
     and_then (guard BadStatus (\<not> validOrderStatus (f_status f))) (\<lambda>_.
     and_then (guard NoManualShort (manualToShort (o_type r) (o_status r) (f_status f))) (\<lambda>_.
     and_then (guard ManualShortFailed
       (owesManualStock (o_type r) (o_status r) (o_owed r) \<and>
        manualShortToFailed (o_type r) (o_status r) (f_status f))) (\<lambda>_.
     guard StatusLocked (\<not> may_set r (f_status f)))))))"

definition owed_row :: "bool \<Rightarrow> order_form \<Rightarrow> order_row \<Rightarrow> order_row" where
  "owed_row takes f r =
     r\<lparr>o_title := trim (f_title f),
       o_info := (if takes then stripShortMarker (normalizeNL (f_info f)) else normalizeNL (f_info f)),
       o_pwd := trim (f_pwd f), o_status := f_status f,
       o_owed := (if takes then False else o_owed r)\<rparr>"

definition orderSave :: "int \<Rightarrow> order_form \<Rightarrow> database \<Rightarrow> edit_error + database" where
  "orderSave i f db =
     (case List.find (\<lambda>r. o_id r = i \<and> \<not> o_deleted r) (orders db) of
        None \<Rightarrow> Inl NoSuchRecord
      | Some r \<Rightarrow>
          and_then (check_edit r f) (\<lambda>_.
          let takes = owesManualStock (o_type r) (o_status r) (o_owed r) \<and>
                      takesManualStock (o_type r) (o_status r) (f_status f);
              db1 = upd_order i (owed_row takes f) db
          in and_then
               (if takes then (case take_stock (o_goods r) (o_amount r) db1 of
                                 None \<Rightarrow> Inl ManualShort | Some db2 \<Rightarrow> Inr db2)
                else Inr db1)
               (\<lambda>db2. Inr (if releasesReservations (o_type r) (o_status r) (f_status f)
                           then db2\<lparr>cards := update_rows (\<lambda>c. c_reserved c = Some i \<and> c_status c = 1)
                                               (\<lambda>c. c\<lparr>c_reserved := None\<rparr>) (cards db2)\<rparr>
                           else db2))))"

end
