(* ===== verification/Store_Runs.thy ===== *)
theory Store_Runs imports Store Machines begin

text \<open>
  Runs of the shop: check-outs, notices of payments, deliveries by hand, expiring orders and
  edits in any order, and what every one of them keeps: numbers are unique, an unpaid order has
  its cards reserved, and no unpaid order has given its coupon back.
\<close>

section \<open>Runs\<close>

text \<open>
  One transaction each. \<open>ExpireOne i\<close> is a step of the sweep for an order that it listed
  earlier; the coupon that it listed is still the order's, as no operation changes it.
\<close>

datatype store_event =
    CheckOut int string "int set" site CreateInput
  | Notice "int set" string int string
  | Deliver "int set" string
  | ExpireOne int
  | Edit int order_form

fun store_step :: "store_event \<Rightarrow> database \<Rightarrow> database" where
  "store_step (CheckOut now sn held s inp) db =
     (case createOrder now sn held s inp db of Inl e \<Rightarrow> db | Inr (r, db') \<Rightarrow> db')"
| "store_step (Notice held sn paid tradeNo) db = snd (Complete held sn paid tradeNo db)"
| "store_step (Deliver held sn) db = snd (Redeliver held sn db)"
| "store_step (ExpireOne i) db =
     (case List.find (\<lambda>r. o_id r = i) (orders db) of
        None \<Rightarrow> db
      | Some r \<Rightarrow> (case expireOne i (o_coupon r) db of None \<Rightarrow> db | Some db' \<Rightarrow> db'))"
| "store_step (Edit i f) db = (case orderSave i f db of Inl e \<Rightarrow> db | Inr db' \<Rightarrow> db')"

abbreviation store_run :: "store_event list \<Rightarrow> database \<Rightarrow> database" where
  "store_run es db \<equiv> foldl (\<lambda>db e. store_step e db) db es"

section \<open>Rows\<close>

lemma update_Nil [simp]: "update_rows P f [] = []"
  by (simp add: update_rows_def)

lemma update_Cons [simp]: "update_rows P f (r # rs) = (if P r then f r else r) # update_rows P f rs"
  by (simp add: update_rows_def)

lemma map_update: "(\<And>r. h (f r) = h r) \<Longrightarrow> map h (update_rows P f rs) = map h rs"
  by (induction rs) auto

lemma in_update: "x \<in> set (update_rows P f rs) \<longleftrightarrow> (\<exists>r\<in>set rs. x = (if P r then f r else r))"
  by (auto simp: update_rows_def)

lemma all_update:
  "(\<forall>x\<in>set (update_rows P f rs). Q x) \<longleftrightarrow> (\<forall>r\<in>set rs. (P r \<longrightarrow> Q (f r)) \<and> (\<not> P r \<longrightarrow> Q r))"
  by (auto simp: update_rows_def)

lemma update_none: "\<forall>r\<in>set rs. \<not> P r \<Longrightarrow> update_rows P f rs = rs"
  by (induction rs) auto

lemma filter_update: "\<forall>r\<in>set rs. P r \<longrightarrow> \<not> Q r \<and> \<not> Q (f r) \<Longrightarrow> filter Q (update_rows P f rs) = filter Q rs"
  by (induction rs) auto

lemma other_rows: "distinct (map key (x # rs)) \<Longrightarrow> y \<in> set rs \<Longrightarrow> key y \<noteq> key x"
  by (metis distinct.simps(2) image_eqI list.map(2) list.set_map)

lemma sum_update:
  fixes h :: "'r \<Rightarrow> int"
  assumes "distinct (map key rs)" "r \<in> set rs" "P r" "\<forall>x\<in>set rs. P x \<longrightarrow> key x = key r"
  shows "sum_list (map h (update_rows P f rs)) = sum_list (map h rs) + h (f r) - h r"
  using assms
proof (induction rs)
  case (Cons x rs)
  show ?case
  proof (cases "x = r")
    case True
    then have "\<forall>y\<in>set rs. \<not> P y" using other_rows [OF Cons.prems(1)] Cons.prems(4) by auto
    then show ?thesis using True Cons.prems(3) by (simp add: update_none)
  next
    case False
    then have r: "r \<in> set rs" using Cons.prems(2) by simp
    then have "\<not> P x" using other_rows [OF Cons.prems(1) r] Cons.prems(4) by auto
    then show ?thesis using Cons.IH [OF _ r] Cons.prems by simp
  qed
qed simp

lemma key_unique: "distinct (map key rs) \<Longrightarrow> x \<in> set rs \<Longrightarrow> y \<in> set rs \<Longrightarrow> key x = key y \<Longrightarrow> x = y"
  by (meson distinct_map inj_onD)

lemma find_in: "List.find P rs = Some r \<Longrightarrow> r \<in> set rs \<and> P r"
  by (auto simp: find_Some_iff)

lemma find_of: "r \<in> set rs \<Longrightarrow> P r \<Longrightarrow> (\<And>x. x \<in> set rs \<Longrightarrow> P x \<Longrightarrow> x = r) \<Longrightarrow> List.find P rs = Some r"
  by (metis find_None_iff find_in option.exhaust)

lemma single_filter:
  assumes "distinct (map key rs)" "\<forall>x\<in>set rs. P x \<longrightarrow> key x = i"
  shows "length (filter P rs) = (if \<exists>x\<in>set rs. P x then 1 else 0)"
  using assms
proof (induction rs)
  case (Cons x rs)
  show ?case
  proof (cases "P x")
    case True
    then have "\<forall>y\<in>set rs. \<not> P y" using other_rows [OF Cons.prems(1)] Cons.prems(2) by auto
    then show ?thesis using True by (simp add: filter_False)
  next
    case False
    then show ?thesis using Cons by simp
  qed
qed simp

lemma and_then_Inr [simp]: "and_then x k = Inr y \<longleftrightarrow> (\<exists>a. x = Inr a \<and> k a = Inr y)"
  by (cases x) auto

lemma guard_Inr [simp]: "guard e b = Inr u \<longleftrightarrow> \<not> b"
  by (simp add: guard_def)

section \<open>What every operation keeps\<close>

definition row_ok :: "int \<Rightarrow> order_row \<Rightarrow> bool" where
  "row_ok n r \<longleftrightarrow> o_id r < n \<and> 1 \<le> o_amount r \<and> (o_type r = 1 \<or> o_type r = 2) \<and>
     (o_status r = 1 \<longrightarrow> o_ret_back r = 0) \<and> (o_owed r \<longrightarrow> o_type r = 2 \<and> o_status r = 6)"

definition orders_ok :: "int \<Rightarrow> order_row list \<Rightarrow> bool" where
  "orders_ok n os \<longleftrightarrow> distinct (map o_id os) \<and> distinct (map o_sn os) \<and> list_all (row_ok n) os"

definition cards_ok :: "int \<Rightarrow> card_row list \<Rightarrow> bool" where
  "cards_ok n cs \<longleftrightarrow> distinct (map c_id cs) \<and>
     list_all (\<lambda>c. case c_reserved c of None \<Rightarrow> True | Some i \<Rightarrow> i < n) cs"

definition goods_ok :: "good_row list \<Rightarrow> bool" where
  "goods_ok gs \<longleftrightarrow> distinct (map g_id gs) \<and> list_all (\<lambda>g. (g_type g = 1 \<or> g_type g = 2) \<and> 0 \<le> g_stock g) gs"

definition coupons_ok :: "coupon_row list \<Rightarrow> bool" where
  "coupons_ok ks \<longleftrightarrow> distinct (map k_id ks) \<and> list_all (\<lambda>k. 0 \<le> k_uses k) ks"

text \<open>The cards on sale that an order has reserved.\<close>

definition mine :: "order_row \<Rightarrow> card_row \<Rightarrow> bool" where
  "mine r c \<longleftrightarrow> c_reserved c = Some (o_id r) \<and> c_goods c = o_goods r \<and> c_status c = 1 \<and> \<not> c_deleted c"

definition held_but :: "int \<Rightarrow> order_row list \<Rightarrow> card_row list \<Rightarrow> bool" where
  "held_but i os cs \<longleftrightarrow>
     list_all (\<lambda>r. o_id r = i \<or> o_status r \<noteq> 1 \<or> o_type r \<noteq> 1 \<or> int (length (filter (mine r) cs)) = o_amount r) os"

definition held_ok :: "order_row list \<Rightarrow> card_row list \<Rightarrow> bool" where
  "held_ok os cs \<longleftrightarrow>
     list_all (\<lambda>r. o_status r \<noteq> 1 \<or> o_type r \<noteq> 1 \<or> int (length (filter (mine r) cs)) = o_amount r) os"

definition sound :: "database \<Rightarrow> bool" where
  "sound db \<longleftrightarrow> goods_ok (goods db) \<and> coupons_ok (coupons db) \<and> orders_ok (next_order db) (orders db) \<and>
     cards_ok (next_order db) (cards db) \<and> held_ok (orders db) (cards db)"

lemma soundI:
  "\<lbrakk>goods_ok (goods db); coupons_ok (coupons db); orders_ok (next_order db) (orders db);
    cards_ok (next_order db) (cards db); held_ok (orders db) (cards db)\<rbrakk> \<Longrightarrow> sound db"
  by (simp add: sound_def)

lemma soundD:
  assumes "sound db"
  shows "goods_ok (goods db)" "coupons_ok (coupons db)" "orders_ok (next_order db) (orders db)"
    "cards_ok (next_order db) (cards db)" "held_ok (orders db) (cards db)"
  using assms by (simp_all add: sound_def)

named_theorems kept

lemma goods_ok_update [kept]:
  assumes "goods_ok gs" "\<And>g. g_id (f g) = g_id g" "\<And>g. g_type (f g) = g_type g"
    "\<And>g. g \<in> set gs \<Longrightarrow> P g \<Longrightarrow> 0 \<le> g_stock g \<Longrightarrow> 0 \<le> g_stock (f g)"
  shows "goods_ok (update_rows P f gs)"
  using assms unfolding goods_ok_def by (auto simp: map_update list_all_iff all_update)

lemma coupons_ok_update [kept]:
  assumes "coupons_ok ks" "\<And>k. k_id (f k) = k_id k"
    "\<And>k. k \<in> set ks \<Longrightarrow> P k \<Longrightarrow> 0 \<le> k_uses k \<Longrightarrow> 0 \<le> k_uses (f k)"
  shows "coupons_ok (update_rows P f ks)"
  using assms unfolding coupons_ok_def by (auto simp: map_update list_all_iff all_update)

lemma orders_ok_update [kept]:
  assumes "orders_ok n os" "\<And>r. o_id (f r) = o_id r" "\<And>r. o_sn (f r) = o_sn r"
    "\<And>r. r \<in> set os \<Longrightarrow> o_id r = i \<Longrightarrow> row_ok n r \<Longrightarrow> row_ok n (f r)"
  shows "orders_ok n (update_rows (\<lambda>r. o_id r = i) f os)"
  using assms unfolding orders_ok_def by (auto simp: map_update list_all_iff all_update)

lemma cards_ok_update [kept]:
  assumes "cards_ok n cs" "\<And>c. c_id (f c) = c_id c" "\<And>c. P c \<Longrightarrow> c_reserved (f c) = None"
  shows "cards_ok n (update_rows P f cs)"
  using assms unfolding cards_ok_def by (auto simp: map_update list_all_iff all_update)

lemma held_but_of [kept]: "held_ok os cs \<Longrightarrow> held_but i os cs"
  by (auto simp: held_ok_def held_but_def list_all_iff)

lemma held_but_cards [kept]:
  assumes "held_but i os cs"
    "\<And>c j. c \<in> set cs \<Longrightarrow> P c \<Longrightarrow> c_reserved c = Some j \<Longrightarrow> j = i"
    "\<And>c. P c \<Longrightarrow> c_reserved (f c) = None"
  shows "held_but i os (update_rows P f cs)"
proof -
  have "filter (mine r) (update_rows P f cs) = filter (mine r) cs" if "o_id r \<noteq> i" for r
    by (rule filter_update) (use assms(2,3) that in \<open>auto simp: mine_def\<close>)
  then show ?thesis using assms(1) unfolding held_but_def list_all_iff by metis
qed

lemma mine_cong: "o_id r' = o_id r \<Longrightarrow> o_goods r' = o_goods r \<Longrightarrow> mine r' = mine r"
  by (auto simp: mine_def)

lemma held_ok_closed [kept]:
  assumes "held_but i os cs" "\<And>r. o_id r = i \<Longrightarrow> o_status (f r) \<noteq> 1"
  shows "held_ok (update_rows (\<lambda>r. o_id r = i) f os) cs"
  using assms unfolding held_ok_def held_but_def list_all_iff all_update by blast

section \<open>Check-out\<close>

declare trim.simps [simp del]

lemma take_stock_cases:
  assumes "take_stock gid n db = Some db'"
  obtains g where "g \<in> set (goods db)" "g_id g = gid" "n \<le> g_stock g"
    "db' = db\<lparr>goods := update_rows (\<lambda>g. g_id g = gid \<and> n \<le> g_stock g) (\<lambda>g. g\<lparr>g_stock := g_stock g - n\<rparr>) (goods db)\<rparr>"
  using assms unfolding take_stock_def by (auto split: if_splits)

lemma find_good_in:
  "find_good gid db = Inr g \<Longrightarrow> g \<in> set (goods db) \<and> g_id g = gid \<and> \<not> g_deleted g"
  by (auto simp: find_good_def find_Some_iff split: option.splits)

lemma createOrder_cases:
  assumes "createOrder now sn held s inp db = Inr (v, db')"
  obtains g reserved db1 coupon discount db2 info q where
    "check_form s inp = Inr ()" "find_good (in_gid inp) db = Inr g" "check_goods inp g db = Inr ()"
    "unpaidQuota now (in_source inp) (in_email inp) (site_expire_min s) db = Inr ()"
    "reserve held g (in_amount inp) db = Inr (reserved, db1)"
    "redeem (in_coupon inp) (g_id g) db1 = Inr (coupon, discount, db2)"
    "buyer_info g (in_extra inp) = Inr info" "quoted inp g discount = Inr q"
    "insert_order (new_order now sn (next_order db) inp g coupon info q) reserved db2 = Inr db'"
    "v = order_of (new_order now sn (next_order db) inp g coupon info q)"
  using assms unfolding createOrder_def Let_def by (auto split: prod.splits)

lemma check_form_amount: "check_form s inp = Inr u \<Longrightarrow> 1 \<le> in_amount inp"
  by (auto simp: check_form_def)

lemma sorted_cards:
  assumes "distinct (map c_id cs)"
  shows "distinct (map c_id (filter P (sort_key c_id cs)))"
  using assms by (auto simp: distinct_map intro: inj_on_subset)

text \<open>What is reserved: cards of the goods that are on sale and free.\<close>

definition free_ids :: "int \<Rightarrow> database \<Rightarrow> int list \<Rightarrow> bool" where
  "free_ids gid db ids \<longleftrightarrow> distinct ids \<and>
     (\<forall>i\<in>set ids. \<exists>c\<in>set (cards db). c_id c = i \<and> c_goods c = gid \<and> c_status c = 1 \<and>
        c_reserved c = None \<and> \<not> c_deleted c)"

lemma reserve_cases:
  assumes "reserve held g n db = Inr (reserved, db1)" "cards_ok k (cards db)"
  shows "if g_type g = 1 then db1 = db \<and> int (length reserved) = n \<and> free_ids (g_id g) db reserved
         else take_stock (g_id g) n db = Some db1 \<and> reserved = []"
proof (cases "g_type g = 1")
  case True
  let ?cs = "take (nat n) (free_cards held (g_id g) db)"
  have r: "reserved = map c_id ?cs" "db1 = db" "int (length reserved) = n"
    using assms(1) True by (auto simp: reserve_def Let_def split: if_splits)
  have "distinct (map c_id (free_cards held (g_id g) db))"
    using assms(2) by (simp add: free_cards_def cards_ok_def sorted_cards)
  then have "distinct reserved" by (simp add: r(1) take_map [symmetric])
  moreover have "\<exists>c\<in>set (cards db). c_id c = i \<and> c_goods c = g_id g \<and> c_status c = 1 \<and>
      c_reserved c = None \<and> \<not> c_deleted c" if "i \<in> set reserved" for i
    using that by (auto simp: r(1) free_cards_def dest!: in_set_takeD)
  ultimately show ?thesis using r True by (simp add: free_ids_def)
next
  case False
  then show ?thesis using assms(1) by (auto simp: reserve_def split: if_splits option.splits)
qed

lemma redeem_cases:
  assumes "redeem cp gid db = Inr (coupon, discount, db')"
  shows "(coupon = 0 \<and> db' = db) \<or>
     (\<exists>k\<in>set (coupons db). k_id k = coupon \<and> usable coupon k \<and> k_discount k = discount \<and>
        db' = db\<lparr>coupons := update_rows (usable coupon) use_up (coupons db)\<rparr>)"
proof (cases "trim cp = []")
  case True
  then show ?thesis using assms by (auto simp: redeem_def)
next
  case False
  with assms obtain k where
    k: "List.find (\<lambda>k. k_code k = cp \<and> gid \<in> set (k_goods k) \<and> \<not> k_deleted k) (coupons db) = Some k"
    "TakeCoupon (k_open k) (k_use k) (k_uses k) (length (filter (usable (k_id k)) (coupons db))) = None"
    "coupon = k_id k" "discount = k_discount k"
    "db' = db\<lparr>coupons := update_rows (usable coupon) use_up (coupons db)\<rparr>"
    by (auto simp: redeem_def split: option.splits)
  then have "k \<in> set (coupons db)" "usable coupon k"
    using find_in [OF k(1)] by (auto simp: usable_def TakeCoupon_def split: if_splits)
  with k show ?thesis by blast
qed

lemma count_ids:
  assumes "distinct (map key cs)" "distinct ids" "set ids \<subseteq> set (map key cs)"
  shows "length (filter (\<lambda>c. key c \<in> set ids) cs) = length ids"
proof -
  have "length (filter (\<lambda>c. key c \<in> set ids) cs) = length (filter (\<lambda>i. i \<in> set ids) (map key cs))"
    by (simp add: filter_map comp_def)
  also have "\<dots> = card (set (filter (\<lambda>i. i \<in> set ids) (map key cs)))"
    using assms(1) by (intro distinct_card [symmetric] distinct_filter)
  also have "set (filter (\<lambda>i. i \<in> set ids) (map key cs)) = set ids" using assms(3) by auto
  finally show ?thesis using assms(2) by (simp add: distinct_card)
qed

lemma filter_update_all:
  "\<forall>r\<in>set rs. (P r \<longrightarrow> Q (f r)) \<and> (\<not> P r \<longrightarrow> \<not> Q r) \<Longrightarrow> length (filter Q (update_rows P f rs)) = length (filter P rs)"
  by (induction rs) auto

lemma take_stock_goods:
  assumes "take_stock gid n db = Some db'" "goods_ok (goods db)" "0 \<le> n"
  shows "goods_ok (goods db')"
  using assms by (auto elim!: take_stock_cases intro!: kept)

lemma take_stock_rest:
  assumes "take_stock gid n db = Some db'"
  shows "cards db' = cards db" "coupons db' = coupons db" "orders db' = orders db"
    "next_order db' = next_order db" "pays db' = pays db"
  using assms by (auto elim: take_stock_cases)

text \<open>The tables before the row of the order is written.\<close>

lemma reserve_sound:
  assumes "reserve held g n db = Inr (reserved, db1)" "sound db" "1 \<le> n"
  shows "sound db1" "cards db1 = cards db" "orders db1 = orders db" "next_order db1 = next_order db"
    "coupons db1 = coupons db"
  using reserve_cases [OF assms(1) soundD(4) [OF assms(2)]] assms(2,3)
  by (auto simp: sound_def take_stock_rest take_stock_goods split: if_splits)

lemma redeem_sound:
  assumes "redeem cp gid db = Inr (coupon, discount, db')" "sound db"
  shows "sound db'" "cards db' = cards db" "orders db' = orders db" "next_order db' = next_order db"
    "goods db' = goods db"
  using redeem_cases [OF assms(1)] assms(2)
  by (auto simp: sound_def use_up_def usable_def intro!: coupons_ok_update)

lemma insert_order_cases:
  assumes "insert_order r reserved db = Inr db'"
  shows "o_sn r \<notin> set (map o_sn (orders db))" "orders db' = orders db @ [r]"
    "cards db' = (if o_type r = 1
       then update_rows (\<lambda>c. c_id c \<in> set reserved) (\<lambda>c. c\<lparr>c_reserved := Some (o_id r)\<rparr>) (cards db) else cards db)"
    "goods db' = goods db" "coupons db' = coupons db" "next_order db' = next_order db + 1"
  using assms by (auto simp: insert_order_def split: if_splits)

lemma free_row:
  assumes "cards_ok n (cards db)" "free_ids gid db ids" "c \<in> set (cards db)" "c_id c \<in> set ids"
  shows "c_goods c = gid" "c_status c = 1" "c_reserved c = None" "\<not> c_deleted c"
proof -
  obtain d where d: "d \<in> set (cards db)" "c_id d = c_id c" "c_goods d = gid" "c_status d = 1"
    "c_reserved d = None" "\<not> c_deleted d"
    using assms(2,4) unfolding free_ids_def by blast
  then have "d = c" using assms(1,3) key_unique [of c_id "cards db" d c] by (simp add: cards_ok_def)
  with d show "c_goods c = gid" "c_status c = 1" "c_reserved c = None" "\<not> c_deleted c" by auto
qed

lemma cards_below: "cards_ok n cs \<Longrightarrow> c \<in> set cs \<Longrightarrow> c_reserved c = Some j \<Longrightarrow> j < n"
  by (force simp: cards_ok_def list_all_iff split: option.splits)

lemma insert_held:
  assumes "sound db" "o_id r = next_order db" "o_type r = 1" "int (length ids) = o_amount r"
    "free_ids (o_goods r) db ids"
  defines "cs' \<equiv> update_rows (\<lambda>c. c_id c \<in> set ids) (\<lambda>c. c\<lparr>c_reserved := Some (o_id r)\<rparr>) (cards db)"
  shows "held_ok (orders db @ [r]) cs'" "cards_ok (next_order db + 1) cs'"
proof -
  note ok = soundD [OF assms(1)]
  note free = free_row [OF ok(4) assms(5)]
  have "filter (mine r') cs' = filter (mine r') (cards db)" if "r' \<in> set (orders db)" for r'
  proof -
    have "o_id r' < next_order db" using ok(3) that by (auto simp: orders_ok_def list_all_iff row_ok_def)
    then show ?thesis unfolding cs'_def using assms(2) free
      by (intro filter_update) (auto simp: mine_def)
  qed
  moreover have "length (filter (mine r) cs') = length (filter (\<lambda>c. c_id c \<in> set ids) (cards db))"
    unfolding cs'_def
    by (rule filter_update_all) (use free cards_below [OF ok(4)] assms(2) in \<open>fastforce simp: mine_def\<close>)
  moreover have "\<dots> = length ids"
    by (rule count_ids) (use ok(4) assms(5) in \<open>auto simp: cards_ok_def free_ids_def\<close>)
  ultimately show "held_ok (orders db @ [r]) cs'"
    using ok(5) assms(4) by (auto simp: held_ok_def list_all_iff)
  have "map c_id cs' = map c_id (cards db)" by (simp add: cs'_def map_update)
  moreover have "\<forall>c\<in>set cs'. \<forall>j. c_reserved c = Some j \<longrightarrow> j < next_order db + 1"
    using cards_below [OF ok(4)] assms(2) unfolding cs'_def all_update by force
  ultimately show "cards_ok (next_order db + 1) cs'"
    using ok(4) by (auto simp: cards_ok_def list_all_iff split: option.splits)
qed

lemma insert_sound:
  assumes "insert_order r ids db = Inr db'" "sound db" "o_id r = next_order db"
    "1 \<le> o_amount r" "o_type r = 1 \<or> o_type r = 2" "o_ret_back r = 0" "\<not> o_owed r"
    "o_type r = 1 \<Longrightarrow> int (length ids) = o_amount r \<and> free_ids (o_goods r) db ids"
  shows "sound db'"
proof (rule soundI)
  note ok = soundD [OF assms(2)] and ins = insert_order_cases [OF assms(1)]
  show "goods_ok (goods db')" "coupons_ok (coupons db')" using ok ins by simp_all
  have "o_id r \<notin> set (map o_id (orders db))"
    using ok(3) assms(3) by (auto simp: orders_ok_def list_all_iff row_ok_def)
  then show "orders_ok (next_order db') (orders db')"
    using ok(3) ins assms(3-7) by (auto simp: orders_ok_def list_all_iff row_ok_def)
  have weak: "cards_ok (next_order db + 1) (cards db)" "o_type r \<noteq> 1 \<Longrightarrow> held_ok (orders db @ [r]) (cards db)"
    using ok(4,5) by (auto simp: cards_ok_def held_ok_def list_all_iff split: option.splits)
  show "cards_ok (next_order db') (cards db')"
    using insert_held(2) [OF assms(2,3)] weak(1) assms(8) ins by auto
  show "held_ok (orders db') (cards db')"
    using insert_held(1) [OF assms(2,3)] weak(2) assms(8) ins by auto
qed

lemma createOrder_sound:
  assumes "createOrder now sn held s inp db = Inr (v, db')" "sound db"
  shows "sound db'"
  using assms(1)
proof (rule createOrder_cases)
  fix g reserved db1 coupon discount db2 info q
  let ?r = "new_order now sn (next_order db) inp g coupon info q"
  assume *: "check_form s inp = Inr ()" "find_good (in_gid inp) db = Inr g"
    "reserve held g (in_amount inp) db = Inr (reserved, db1)"
    "redeem (in_coupon inp) (g_id g) db1 = Inr (coupon, discount, db2)"
    "insert_order ?r reserved db2 = Inr db'"
  have n: "1 \<le> in_amount inp" using *(1) by (rule check_form_amount)
  note res = reserve_sound [OF *(3) assms(2) n]
  note red = redeem_sound [OF *(4) res(1)]
  have kind: "g_type g = 1 \<or> g_type g = 2"
    using find_good_in [OF *(2)] soundD(1) [OF assms(2)] by (auto simp: goods_ok_def list_all_iff)
  have "int (length reserved) = in_amount inp \<and> free_ids (g_id g) db2 reserved" if "g_type g = 1"
    using reserve_cases [OF *(3) soundD(4) [OF assms(2)]] that red res by (simp add: free_ids_def)
  then show "sound db'"
    using kind n red res by (intro insert_sound [OF *(5) red(1)]) (simp_all add: new_order_def)
qed

section \<open>Settlement\<close>

lemma find_order_in: "find_order sn db = Some r \<Longrightarrow> r \<in> set (orders db) \<and> o_sn r = sn"
  by (auto simp: find_order_def find_Some_iff)

lemma sound_row: "sound db \<Longrightarrow> r \<in> set (orders db) \<Longrightarrow> row_ok (next_order db) r"
  by (auto simp: sound_def orders_ok_def list_all_iff)

lemma row_unique: "sound db \<Longrightarrow> r \<in> set (orders db) \<Longrightarrow> s \<in> set (orders db) \<Longrightarrow> o_id s = o_id r \<Longrightarrow> s = r"
  by (meson key_unique orders_ok_def sound_def)

lemma card_unique: "sound db \<Longrightarrow> c \<in> set (cards db) \<Longrightarrow> d \<in> set (cards db) \<Longrightarrow> c_id d = c_id c \<Longrightarrow> d = c"
  by (meson key_unique cards_ok_def sound_def)

text \<open>A settlement that changes something delivers cards or records the payment.\<close>

lemma settle_cases:
  assumes "settle held sn paid tradeNo redeliver db = (x, db')"
  obtains "db' = db" "x \<noteq> Inr (True, False)"
  | r tr where "find_order sn db = Some r" "o_type r = 1" "o_status r = 1 \<or> o_status r = -1 \<or> o_status r = 6"
      "deliver_cards held redeliver tr r db = (x, db')"
  | r tr where "find_order sn db = Some r" "o_type r \<noteq> 1" "o_status r = 1 \<or> o_status r = -1" "\<not> redeliver"
      "record_paid redeliver tr r db = (x, db')"
  using assms unfolding settle_def Let_def by (auto split: option.splits if_splits)

lemma retake_cases:
  assumes "retake_coupon r db = (again, db1)" "sound db"
  obtains "again = o_ret_back r" "db1 = db" "o_coupon r \<le> 0 \<or> o_ret_back r \<noteq> 1"
  | k where "0 < o_coupon r" "o_ret_back r = 1" "again = 0" "k \<in> set (coupons db)" "k_id k = o_coupon r" "0 < k_uses k"
      "db1 = db\<lparr>coupons := update_rows (\<lambda>k. k_id k = o_coupon r \<and> 0 < k_uses k \<and> \<not> k_deleted k) use_up (coupons db)\<rparr>"
  | "0 < o_coupon r" "o_ret_back r = 1" "again = 2" "db1 = db"
proof (cases "0 < o_coupon r \<and> o_ret_back r = 1")
  case True
  let ?P = "\<lambda>k. k_id k = o_coupon r \<and> 0 < k_uses k \<and> \<not> k_deleted k"
  have "length (filter ?P (coupons db)) = (if \<exists>k\<in>set (coupons db). ?P k then 1 else 0)"
    by (rule single_filter [of k_id _ _ "o_coupon r"]) (use assms(2) in \<open>auto simp: sound_def coupons_ok_def\<close>)
  then have len: "(length (filter ?P (coupons db)) = 1) = (\<exists>k\<in>set (coupons db). ?P k)" by simp
  show ?thesis
  proof (cases "\<exists>k\<in>set (coupons db). ?P k")
    case ex: True
    then obtain k where "k \<in> set (coupons db)" "k_id k = o_coupon r" "0 < k_uses k" by blast
    then show ?thesis using True assms(1) that(2) len ex unfolding retake_coupon_def by simp
  next
    case False
    then show ?thesis using True assms(1) that(3) len unfolding retake_coupon_def by simp
  qed
next
  case False
  then show ?thesis using assms(1) that(1) by (auto simp: retake_coupon_def)
qed

lemma retake_sound:
  assumes "retake_coupon r db = (again, db1)" "sound db"
  shows "sound db1" "cards db1 = cards db" "orders db1 = orders db" "next_order db1 = next_order db"
    "goods db1 = goods db" "o_ret_back r = 0 \<Longrightarrow> again = 0"
  by (rule retake_cases [OF assms]; use assms(2) in
      \<open>auto simp: sound_def use_up_def intro!: coupons_ok_update\<close>)+

lemma add_sales_cases:
  assumes "add_sales gid n db = Some db'"
  shows "db' = db\<lparr>goods := update_rows (\<lambda>g. g_id g = gid) (\<lambda>g. g\<lparr>g_sales := g_sales g + n\<rparr>) (goods db)\<rparr>"
  using assms by (auto simp: add_sales_def split: if_splits)

lemma add_sales_sound: "add_sales gid n db = Some db' \<Longrightarrow> sound db \<Longrightarrow> sound db'"
  by (drule add_sales_cases) (auto simp: sound_def intro!: goods_ok_update)

text \<open>An order leaves the unpaid state, with cards that are its own or free.\<close>

lemma close_sound:
  assumes "sound db" "cards_ok (next_order db) cs" "held_but i (orders db) cs"
    "\<And>r. o_id (f r) = o_id r" "\<And>r. o_sn (f r) = o_sn r"
    "\<And>r. r \<in> set (orders db) \<Longrightarrow> o_id r = i \<Longrightarrow> row_ok (next_order db) r \<Longrightarrow> row_ok (next_order db) (f r)"
    "\<And>r. o_id r = i \<Longrightarrow> o_status (f r) \<noteq> 1"
  shows "sound (upd_order i f (db\<lparr>cards := cs\<rparr>))"
  using soundD [OF assms(1)] assms
  by (auto simp: upd_order_def intro!: soundI orders_ok_update held_ok_closed)

lemma upd_order_cards: "upd_order i f db = upd_order i f (db\<lparr>cards := cards db\<rparr>)"
  by simp

lemma short_sound:
  assumes "short redeliver tr again r db0 db = (x, db')" "sound db0" "sound db" "r \<in> set (orders db)"
  shows "sound db'"
proof -
  have "sound (upd_order (o_id r) (short_row tr again) db)"
    unfolding upd_order_cards [of _ _ db]
  proof (rule close_sound [OF assms(3)])
    show "cards_ok (next_order db) (cards db)" "held_but (o_id r) (orders db) (cards db)"
      using soundD [OF assms(3)] by (auto intro: kept)
  qed (auto simp: short_row_def row_ok_def)
  then show ?thesis using assms(1,2) by (auto simp: short_def split: if_splits)
qed

lemma finish_sound:
  assumes "finish r db0 db = (x, db')" "sound db0" "sound db"
  shows "sound db'"
  using assms add_sales_sound by (auto simp: finish_def split: option.splits)

text \<open>The cards that are handed out.\<close>

lemma picked_in:
  assumes "c \<in> set (picked held r db)"
  shows "c \<in> set (cards db)" "c_goods c = o_goods r" "c_status c = 1" "\<not> c_deleted c"
    "c_reserved c = Some (o_id r) \<or> c_reserved c = None" "c_id c \<notin> held"
  using assms unfolding picked_def Let_def by (auto dest!: in_set_takeD)

lemma distinct_parts:
  assumes "distinct (map key xs)" "\<And>x. P x \<Longrightarrow> \<not> Q x"
  shows "distinct (map key (filter P xs @ filter Q xs))"
  using assms(1)
proof (induction xs)
  case (Cons x xs)
  then have "key x \<notin> key ` set xs" by simp
  then have "key x \<notin> key ` set (filter P xs @ filter Q xs)" by auto
  then show ?case using Cons assms(2) [of x] by auto
qed simp

lemma picked_distinct:
  assumes "sound db"
  shows "distinct (map c_id (picked held r db))"
proof -
  have "distinct (map c_id (filter P (sort_key c_id (cards db))))" for P
    by (rule sorted_cards) (use assms in \<open>simp add: sound_def cards_ok_def\<close>)
  then show ?thesis unfolding picked_def Let_def take_map [symmetric]
    by (intro distinct_take distinct_parts) auto
qed

lemma hand_out_kept:
  assumes "sound db" "set ps \<subseteq> set (picked held r db)"
  shows "cards_ok (next_order db) (release (o_id r) gid (hand_out ps (cards db)))"
    "held_but (o_id r) (orders db) (release (o_id r) gid (hand_out ps (cards db)))"
proof -
  have mem: "c_reserved c = Some j \<Longrightarrow> j = o_id r" if c: "c \<in> set (cards db)" "c_id c \<in> c_id ` set ps" for c j
  proof -
    obtain d where d: "d \<in> set ps" "c_id c = c_id d" using c(2) by blast
    then have p: "d \<in> set (picked held r db)" using assms(2) by blast
    then have "c = d" using card_unique [OF assms(1) _ c(1)] picked_in(1) d(2) by blast
    then show "c_reserved c = Some j \<Longrightarrow> j = o_id r" using picked_in(5) [OF p] by auto
  qed
  note ok = soundD [OF assms(1)]
  show "cards_ok (next_order db) (release (o_id r) gid (hand_out ps (cards db)))"
    unfolding release_def hand_out_def using ok(4) by (intro cards_ok_update) auto
  have "held_but (o_id r) (orders db) (hand_out ps (cards db))"
    unfolding hand_out_def using held_but_of [OF ok(5)] mem by (intro held_but_cards) auto
  then show "held_but (o_id r) (orders db) (release (o_id r) gid (hand_out ps (cards db)))"
    unfolding release_def by (intro held_but_cards) auto
qed

lemma deliver_sound:
  assumes "deliver_cards held redeliver tr r db = (x, db')" "sound db" "r \<in> set (orders db)" "o_type r = 1"
  shows "sound db'"
proof -
  obtain again db1 where b: "retake_coupon r db = (again, db1)" by (cases "retake_coupon r db")
  note re = retake_sound [OF b assms(2)]
  have "o_type q = 1" if "q \<in> set (orders db1)" "o_id q = o_id r" for q
    using row_unique [OF assms(2,3)] that re(3) assms(4) by metis
  then have "sound (upd_order (o_id r)
      (\<lambda>q. q\<lparr>o_status := 4, o_info := join_lines (map c_text (picked held r db1)), o_trade := tr, o_ret_back := again\<rparr>)
      (db1\<lparr>cards := release (o_id r) (o_goods r) (hand_out (picked held r db1) (cards db1))\<rparr>))"
    by (intro close_sound [OF re(1)]) (use hand_out_kept [OF re(1), of _ held r] in \<open>auto simp: row_ok_def\<close>)
  then show ?thesis
    using assms b re short_sound [OF _ assms(2) re(1), of redeliver tr again r] finish_sound [OF _ assms(2)]
    by (auto simp: deliver_cards_def Let_def split: if_splits)
qed

lemma record_sound:
  assumes "record_paid redeliver tr r db = (x, db')" "sound db" "r \<in> set (orders db)" "o_type r \<noteq> 1"
    "o_status r = 1 \<or> o_status r = -1"
  shows "sound db'"
proof -
  obtain again db1 where b: "retake_coupon r db = (again, db1)" by (cases "retake_coupon r db")
  note re = retake_sound [OF b assms(2)]
  let ?f = "\<lambda>r. r\<lparr>o_status := 2, o_trade := tr, o_ret_back := again\<rparr>"
  have r: "row_ok (next_order db) r" by (rule sound_row [OF assms(2,3)])
  have paid: "sound (upd_order (o_id r) ?f d)"
    if d: "sound d" "orders d = orders db" "next_order d = next_order db" for d
    unfolding upd_order_cards [of _ _ d]
  proof (rule close_sound [OF d(1)])
    show "cards_ok (next_order d) (cards d)" "held_but (o_id r) (orders d) (cards d)"
      using soundD [OF d(1)] by (auto intro: kept)
    fix q
    assume "q \<in> set (orders d)" "o_id q = o_id r"
    then have "q = r" using row_unique [OF assms(2,3)] d(2) by simp
    then show "row_ok (next_order d) (?f q)" using r assms(5) d(3) by (auto simp: row_ok_def)
  qed auto
  have taken: "sound d \<and> orders d = orders db \<and> next_order d = next_order db"
    if "take_stock (o_goods r) (o_amount r) db1 = Some d" for d
    using that r re take_stock_goods [OF that] take_stock_rest [OF that] by (auto simp: sound_def row_ok_def)
  show ?thesis
    using assms b re short_sound [OF _ assms(2) re(1), of redeliver tr again r] finish_sound [OF _ assms(2) paid] taken
    by (auto simp: record_paid_def Let_def split: if_splits option.splits)
qed

lemma settle_sound:
  assumes "settle held sn paid tr redeliver db = (x, db')" "sound db"
  shows "sound db'"
  using assms(1)
proof (cases rule: settle_cases)
  case (2 r tr')
  then show ?thesis using deliver_sound [OF 2(4) assms(2)] find_order_in by blast
next
  case (3 r tr')
  then show ?thesis using record_sound [OF 3(5) assms(2)] find_order_in by blast
qed (use assms(2) in simp)

section \<open>Expiry and edits\<close>

lemma expireOne_cases:
  assumes "expireOne i coupon db = Some db'"
  obtains "db' = db" "\<forall>r\<in>set (orders db). o_id r = i \<longrightarrow> o_status r \<noteq> 1"
  | r db1 where "r \<in> set (orders db)" "o_id r = i" "o_status r = 1"
      "give_back coupon (upd_order i (\<lambda>r. r\<lparr>o_status := -1, o_ret_back := 1\<rparr>) db) = Some db1"
      "put_back r (db1\<lparr>cards := unreserve i (o_goods r) (cards db1)\<rparr>) = Some db'"
proof (cases "List.find (\<lambda>r. o_id r = i \<and> o_status r = 1) (orders db)")
  case None
  then have "db' = db" using assms by (simp add: expireOne_def)
  moreover have "\<forall>r\<in>set (orders db). o_id r = i \<longrightarrow> o_status r \<noteq> 1" using None by (auto simp: find_None_iff)
  ultimately show ?thesis by (rule that(1))
next
  case (Some r)
  then obtain db1 where "give_back coupon (upd_order i (\<lambda>r. r\<lparr>o_status := -1, o_ret_back := 1\<rparr>) db) = Some db1"
    "put_back r (db1\<lparr>cards := unreserve i (o_goods r) (cards db1)\<rparr>) = Some db'"
    using assms unfolding expireOne_def by (auto simp: bind_eq_Some_conv)
  then show ?thesis using that(2) find_in [OF Some] by blast
qed

lemma give_back_cases:
  assumes "give_back coupon db = Some db'"
  shows "if coupon \<le> 0 then db' = db
    else db' = db\<lparr>coupons := update_rows (\<lambda>k. k_id k = coupon) (\<lambda>k. k\<lparr>k_uses := k_uses k + 1\<rparr>) (coupons db)\<rparr>"
  using assms by (auto simp: give_back_def split: if_splits)

lemma put_back_cases:
  assumes "put_back r db = Some db'"
  shows "if o_type r \<noteq> 2 then db' = db
    else db' = db\<lparr>goods := update_rows (\<lambda>g. g_id g = o_goods r) (\<lambda>g. g\<lparr>g_stock := g_stock g + o_amount r\<rparr>) (goods db)\<rparr>"
  using assms by (auto simp: put_back_def split: if_splits)

lemma expireOne_sound:
  assumes "expireOne i coupon db = Some db'" "sound db"
  shows "sound db'"
  using assms(1)
proof (cases rule: expireOne_cases)
  case (2 r db1)
  note ok = soundD [OF assms(2)]
  let ?f = "\<lambda>r. r\<lparr>o_status := -1, o_ret_back := 1\<rparr>"
  let ?cs = "unreserve i (o_goods r) (cards db)"
  have c: "cards_ok (next_order db) ?cs" "held_but i (orders db) ?cs"
    unfolding unreserve_def
    by (rule cards_ok_update [OF ok(4)]; simp) (rule held_but_cards [OF held_but_of [OF ok(5)]]; simp)
  have "row_ok (next_order db) (?f q)" if "q \<in> set (orders db)" "o_id q = i" for q
    using sound_row [OF assms(2) that(1)] row_unique [OF assms(2) 2(1) that(1)] that(2) 2(2,3)
    by (auto simp: row_ok_def)
  then have s: "sound (upd_order i ?f (db\<lparr>cards := ?cs\<rparr>))"
    by (intro close_sound [OF assms(2) c]) auto
  have "1 \<le> o_amount r" using sound_row [OF assms(2) 2(1)] by (simp add: row_ok_def)
  then show ?thesis
    using s give_back_cases [OF 2(4)] put_back_cases [OF 2(5)]
    by (auto simp: sound_def upd_order_def split: if_splits intro!: goods_ok_update coupons_ok_update)
qed (use assms(2) in simp)

lemma orderSave_cases:
  assumes "orderSave i f db = Inr db'"
  obtains r takes db2 where "r \<in> set (orders db)" "o_id r = i" "check_edit r f = Inr ()"
    "takes \<longleftrightarrow> owesManualStock (o_type r) (o_status r) (o_owed r) \<and> takesManualStock (o_type r) (o_status r) (f_status f)"
    "if takes then take_stock (o_goods r) (o_amount r) (upd_order i (owed_row takes f) db) = Some db2
     else db2 = upd_order i (owed_row takes f) db"
    "db' = (if releasesReservations (o_type r) (o_status r) (f_status f)
            then db2\<lparr>cards := update_rows (\<lambda>c. c_reserved c = Some i \<and> c_status c = 1) (\<lambda>c. c\<lparr>c_reserved := None\<rparr>) (cards db2)\<rparr>
            else db2)"
proof (cases "List.find (\<lambda>r. o_id r = i \<and> \<not> o_deleted r) (orders db)")
  case None
  then show ?thesis using assms by (simp add: orderSave_def)
next
  case (Some r)
  then show ?thesis using assms that [of r] find_in [OF Some]
    unfolding orderSave_def Let_def by (auto split: if_splits option.splits)
qed

text \<open>What an edit can do to the status, by the type of the order.\<close>

lemma check_edit_status:
  assumes "check_edit r f = Inr u"
  shows "may_set r (f_status f)" "o_type r = 2 \<Longrightarrow> f_status f = 6 \<Longrightarrow> o_status r = 6"
    "o_type r = 2 \<Longrightarrow> o_status r = 6 \<Longrightarrow> o_owed r \<Longrightarrow> f_status f \<noteq> 5"
  using assms by (auto simp: check_edit_def manualToShort_def owesManualStock_def manualShortToFailed_def)

lemma held_ok_same:
  assumes "held_ok os cs"
    "\<And>r. r \<in> set os \<Longrightarrow> o_id r = i \<Longrightarrow> o_status (f r) = 1 \<Longrightarrow> o_status r = 1"
    "\<And>r. o_id (f r) = o_id r" "\<And>r. o_goods (f r) = o_goods r" "\<And>r. o_type (f r) = o_type r"
    "\<And>r. o_amount (f r) = o_amount r"
  shows "held_ok (update_rows (\<lambda>r. o_id r = i) f os) cs"
  using assms mine_cong [OF assms(3,4)] unfolding held_ok_def list_all_iff all_update by metis

lemma orderSave_sound:
  assumes "orderSave i f db = Inr db'" "sound db"
  shows "sound db'"
  using assms(1)
proof (rule orderSave_cases)
  fix r :: order_row and takes db2
  let ?g = "owed_row takes f"
  let ?R = "releasesReservations (o_type r) (o_status r) (f_status f)"
  let ?cs = "if ?R then update_rows (\<lambda>c. c_reserved c = Some i \<and> c_status c = 1) (\<lambda>c. c\<lparr>c_reserved := None\<rparr>) (cards db) else cards db"
  assume *: "r \<in> set (orders db)" "o_id r = i" "check_edit r f = Inr ()"
    "takes \<longleftrightarrow> owesManualStock (o_type r) (o_status r) (o_owed r) \<and> takesManualStock (o_type r) (o_status r) (f_status f)"
    "if takes then take_stock (o_goods r) (o_amount r) (upd_order i ?g db) = Some db2 else db2 = upd_order i ?g db"
    "db' = (if ?R
            then db2\<lparr>cards := update_rows (\<lambda>c. c_reserved c = Some i \<and> c_status c = 1) (\<lambda>c. c\<lparr>c_reserved := None\<rparr>) (cards db2)\<rparr>
            else db2)"
  note ok = soundD [OF assms(2)]
  note ed = check_edit_status [OF *(3)]
  have r: "row_ok (next_order db) r" by (rule sound_row [OF assms(2) *(1)])
  have uniq: "q = r" if "q \<in> set (orders db)" "o_id q = i" for q
    using row_unique [OF assms(2) *(1) that(1)] that(2) *(2) by simp
  have one: "f_status f = 1 \<Longrightarrow> o_status r = 1" using ed(1) by (auto simp: may_set_def)
  have owed: "f_status f = 6" if "o_owed r" "\<not> takes"
  proof -
    have "o_type r = 2" "o_status r = 6" using r that(1) by (simp_all add: row_ok_def)
    then show ?thesis using ed(1,3) that *(4) by (auto simp: may_set_def owesManualStock_def takesManualStock_def)
  qed
  have row: "row_ok (next_order db) (?g r)"
    using r one owed unfolding owed_row_def row_ok_def by simp
  have "orders_ok (next_order db) (update_rows (\<lambda>r. o_id r = i) ?g (orders db))"
    by (rule orders_ok_update [OF ok(3)]) (use row uniq in \<open>auto simp: owed_row_def\<close>)
  moreover have "cards_ok (next_order db) ?cs" by (auto intro: cards_ok_update [OF ok(4)] ok(4))
  moreover have "held_ok (update_rows (\<lambda>r. o_id r = i) ?g (orders db)) ?cs"
  proof (cases ?R)
    case True
    then have "f_status f \<noteq> 1" using ed(1) by (auto simp: releasesReservations_def may_set_def)
    moreover have "held_but i (orders db) ?cs"
      using True by (auto intro!: held_but_cards [OF held_but_of [OF ok(5)]])
    ultimately show ?thesis by (intro held_ok_closed) (simp_all add: owed_row_def)
  next
    case False
    have "o_status q = 1" if "q \<in> set (orders db)" "o_id q = i" "o_status (?g q) = 1" for q
      using uniq [OF that(1,2)] that(3) ed(1) by (auto simp: owed_row_def may_set_def)
    then have "held_ok (update_rows (\<lambda>r. o_id r = i) ?g (orders db)) (cards db)"
      by (intro held_ok_same [OF ok(5)]) (auto simp: owed_row_def)
    then show ?thesis using False by simp
  qed
  moreover have "goods_ok (goods db') \<and> coupons db' = coupons db \<and> next_order db' = next_order db \<and> cards db' = ?cs
      \<and> orders db' = update_rows (\<lambda>r. o_id r = i) ?g (orders db)"
    using *(5,6) ok(1) r take_stock_rest [of "o_goods r" "o_amount r" "upd_order i ?g db" db2]
      take_stock_goods [of "o_goods r" "o_amount r" "upd_order i ?g db" db2]
    by (auto simp: upd_order_def row_ok_def split: if_splits)
  ultimately show "sound db'" using ok(2) by (auto intro: soundI)
qed

section \<open>Every step\<close>

lemma snd_Complete: "snd (Complete held sn paid tr db) = snd (settle held sn paid tr False db)"
  by (auto simp: Complete_def split: prod.splits sum.splits)

lemma snd_Redeliver: "snd (Redeliver held sn db) = snd (settle held sn 0 [] True db)"
  by (auto simp: Redeliver_def split: prod.splits sum.splits)

lemma step_sound: "sound db \<Longrightarrow> sound (store_step e db)"
proof (cases e)
  case (CheckOut now sn held s inp)
  then show "sound db \<Longrightarrow> sound (store_step e db)"
    using createOrder_sound by (auto split: sum.splits)
next
  case (Notice held sn paid tr)
  then show "sound db \<Longrightarrow> sound (store_step e db)"
    using settle_sound [OF prod.collapse [symmetric]] by (simp add: snd_Complete)
next
  case (Deliver held sn)
  then show "sound db \<Longrightarrow> sound (store_step e db)"
    using settle_sound [OF prod.collapse [symmetric]] by (simp add: snd_Redeliver)
next
  case (ExpireOne i)
  then show "sound db \<Longrightarrow> sound (store_step e db)"
    using expireOne_sound by (auto split: option.splits)
next
  case (Edit i f)
  then show "sound db \<Longrightarrow> sound (store_step e db)"
    using orderSave_sound by (auto split: sum.splits)
qed

lemma run_sound: "sound db \<Longrightarrow> sound (store_run es db)"
  by (induction es arbitrary: db) (auto intro: step_sound)

end
