(* ===== verification/Store_Ledger.thy ===== *)
theory Store_Ledger imports Store_Runs begin

text \<open>
  The books of the shop: what is left of the stock of goods that are handed over by hand and of
  the uses of a coupon, against what the orders hold of them.
\<close>

section \<open>Books\<close>

text \<open>
  An order holds its stock unless it has expired, or was paid when the stock was short and has
  not taken any yet. It holds a use of its coupon unless the use was handed back or lost.
\<close>

definition stock_of :: "int \<Rightarrow> good_row list \<Rightarrow> int" where
  "stock_of gid gs = sum_list (map (\<lambda>g. if g_id g = gid then g_stock g else 0) gs)"

definition share :: "int \<Rightarrow> order_row \<Rightarrow> int" where
  "share gid r =
     (if o_goods r = gid \<and> o_type r = 2 \<and> o_status r \<noteq> -1 \<and> \<not> o_owed r then o_amount r else 0)"

definition taken_of :: "int \<Rightarrow> order_row list \<Rightarrow> int" where
  "taken_of gid os = sum_list (map (share gid) os)"

definition uses_of :: "int \<Rightarrow> coupon_row list \<Rightarrow> int" where
  "uses_of i ks = sum_list (map (\<lambda>k. if k_id k = i then k_uses k else 0) ks)"

definition use_of :: "int \<Rightarrow> order_row \<Rightarrow> int" where
  "use_of i r = (if o_coupon r = i \<and> o_ret_back r = 0 then 1 else 0)"

definition used_of :: "int \<Rightarrow> order_row list \<Rightarrow> int" where
  "used_of i os = sum_list (map (use_of i) os)"

definition stock_book :: "int \<Rightarrow> database \<Rightarrow> int" where
  "stock_book gid db = stock_of gid (goods db) + taken_of gid (orders db)"

definition coupon_book :: "int \<Rightarrow> database \<Rightarrow> int" where
  "coupon_book i db = uses_of i (coupons db) + used_of i (orders db)"

lemma stock_update:
  assumes "distinct (map g_id gs)" "g \<in> set gs" "P g" "\<forall>x\<in>set gs. P x \<longrightarrow> g_id x = g_id g" "g_id (f g) = g_id g"
  shows "stock_of gid (update_rows P f gs) = stock_of gid gs + (if g_id g = gid then g_stock (f g) - g_stock g else 0)"
  using sum_update [OF assms(1-4), of "\<lambda>g. if g_id g = gid then g_stock g else 0" f] assms(5)
  by (simp add: stock_of_def)

lemma uses_update:
  assumes "distinct (map k_id ks)" "k \<in> set ks" "P k" "\<forall>x\<in>set ks. P x \<longrightarrow> k_id x = k_id k" "k_id (f k) = k_id k"
  shows "uses_of i (update_rows P f ks) = uses_of i ks + (if k_id k = i then k_uses (f k) - k_uses k else 0)"
  using sum_update [OF assms(1-4), of "\<lambda>k. if k_id k = i then k_uses k else 0" f] assms(5)
  by (simp add: uses_of_def)

lemma orders_update:
  assumes "sound db" "r \<in> set (orders db)" "o_id r = i"
  shows "taken_of gid (update_rows (\<lambda>r. o_id r = i) f (orders db)) = taken_of gid (orders db) + share gid (f r) - share gid r"
    "used_of k (update_rows (\<lambda>r. o_id r = i) f (orders db)) = used_of k (orders db) + use_of k (f r) - use_of k r"
  unfolding taken_of_def used_of_def
  by (rule sum_update [of o_id]; use assms in \<open>simp add: sound_def orders_ok_def\<close>)+

lemma orders_append [simp]:
  "taken_of gid (os @ [r]) = taken_of gid os + share gid r" "used_of k (os @ [r]) = used_of k os + use_of k r"
  by (simp_all add: taken_of_def used_of_def)

lemma stock_take:
  assumes "take_stock gid n db = Some db'" "goods_ok (goods db)"
  shows "stock_of j (goods db') = stock_of j (goods db) - (if gid = j then n else 0)"
  using assms(1)
proof (rule take_stock_cases)
  fix g
  assume g: "g \<in> set (goods db)" "g_id g = gid" "n \<le> g_stock g"
    "db' = db\<lparr>goods := update_rows (\<lambda>g. g_id g = gid \<and> n \<le> g_stock g) (\<lambda>g. g\<lparr>g_stock := g_stock g - n\<rparr>) (goods db)\<rparr>"
  have "stock_of j (update_rows (\<lambda>g. g_id g = gid \<and> n \<le> g_stock g) (\<lambda>g. g\<lparr>g_stock := g_stock g - n\<rparr>) (goods db)) =
    stock_of j (goods db) + (if g_id g = j then g_stock (g\<lparr>g_stock := g_stock g - n\<rparr>) - g_stock g else 0)"
    by (rule stock_update) (use assms(2) g in \<open>auto simp: goods_ok_def\<close>)
  then show ?thesis using g by simp
qed

lemma stock_same:
  assumes "\<And>g. g_id (f g) = g_id g" "\<And>g. g_stock (f g) = g_stock g"
  shows "stock_of j (update_rows P f gs) = stock_of j gs"
  unfolding stock_of_def by (simp add: map_update assms)

lemma update_absent: "i \<notin> set (map key rs) \<Longrightarrow> update_rows (\<lambda>r. key r = i) f rs = rs"
  by (rule update_none) auto

lemma stock_put:
  assumes "put_back r db = Some db'" "goods_ok (goods db)" "j \<in> set (map g_id (goods db))"
  shows "stock_of j (goods db') = stock_of j (goods db) + (if o_type r = 2 \<and> o_goods r = j then o_amount r else 0)"
proof (cases "o_type r = 2 \<and> o_goods r \<in> set (map g_id (goods db))")
  case True
  then obtain g where g: "g \<in> set (goods db)" "g_id g = o_goods r" by auto
  have "stock_of j (update_rows (\<lambda>g. g_id g = o_goods r) (\<lambda>g. g\<lparr>g_stock := g_stock g + o_amount r\<rparr>) (goods db)) =
    stock_of j (goods db) + (if g_id g = j then g_stock (g\<lparr>g_stock := g_stock g + o_amount r\<rparr>) - g_stock g else 0)"
    by (rule stock_update) (use assms(2) g in \<open>auto simp: goods_ok_def\<close>)
  then show ?thesis using True g put_back_cases [OF assms(1)] by simp
next
  case False
  then show ?thesis using put_back_cases [OF assms(1)] assms(3)
    by (auto simp: update_absent split: if_splits)
qed

lemma uses_give:
  assumes "give_back coupon db = Some db'" "coupons_ok (coupons db)" "i \<in> set (map k_id (coupons db))" "0 < i"
  shows "uses_of i (coupons db') = uses_of i (coupons db) + (if coupon = i then 1 else 0)"
proof (cases "0 < coupon \<and> coupon \<in> set (map k_id (coupons db))")
  case True
  then obtain k where k: "k \<in> set (coupons db)" "k_id k = coupon" by auto
  have "uses_of i (update_rows (\<lambda>k. k_id k = coupon) (\<lambda>k. k\<lparr>k_uses := k_uses k + 1\<rparr>) (coupons db)) =
    uses_of i (coupons db) + (if k_id k = i then k_uses (k\<lparr>k_uses := k_uses k + 1\<rparr>) - k_uses k else 0)"
    by (rule uses_update) (use assms(2) k in \<open>auto simp: coupons_ok_def\<close>)
  then show ?thesis using True k give_back_cases [OF assms(1)] by simp
next
  case False
  then show ?thesis using give_back_cases [OF assms(1)] assms(3,4)
    by (auto simp: update_absent split: if_splits)
qed

lemma uses_take:
  assumes "coupons_ok ks" "k \<in> set ks" "P k" "\<forall>x\<in>set ks. P x \<longrightarrow> k_id x = k_id k"
  shows "uses_of i (update_rows P use_up ks) = uses_of i ks - (if k_id k = i then 1 else 0)"
proof -
  have "uses_of i (update_rows P use_up ks) = uses_of i ks + (if k_id k = i then k_uses (use_up k) - k_uses k else 0)"
    by (rule uses_update [OF _ assms(2-4)]) (use assms(1) in \<open>simp_all add: coupons_ok_def use_up_def\<close>)
  then show ?thesis by (simp add: use_up_def)
qed

section \<open>The operations\<close>

text \<open>The books that an operation keeps: of the goods \<open>gid\<close> and of the coupon \<open>i\<close>, which exist.\<close>

definition keeps_books :: "int \<Rightarrow> int \<Rightarrow> database \<Rightarrow> database \<Rightarrow> bool" where
  "keeps_books gid i db db' \<longleftrightarrow>
     map g_id (goods db') = map g_id (goods db) \<and> map k_id (coupons db') = map k_id (coupons db) \<and>
     (gid \<in> set (map g_id (goods db)) \<longrightarrow> stock_book gid db' = stock_book gid db) \<and>
     (0 < i \<and> i \<in> set (map k_id (coupons db)) \<longrightarrow> coupon_book i db' = coupon_book i db)"

lemma keeps_refl [simp]: "keeps_books gid i db db"
  by (simp add: keeps_books_def)

lemma take_stock_ids: "take_stock gid n db = Some db' \<Longrightarrow> map g_id (goods db') = map g_id (goods db)"
  by (auto elim!: take_stock_cases simp: map_update)

lemma put_back_ids: "put_back r db = Some db' \<Longrightarrow> map g_id (goods db') = map g_id (goods db)"
  by (drule put_back_cases) (auto simp: map_update split: if_splits)

lemma give_back_ids: "give_back c db = Some db' \<Longrightarrow> map k_id (coupons db') = map k_id (coupons db)"
  by (drule give_back_cases) (auto simp: map_update split: if_splits)

lemma createOrder_keeps:
  assumes "createOrder now sn held s inp db = Inr (v, db')" "sound db"
  shows "keeps_books gid i db db'"
  using assms(1)
proof (rule createOrder_cases)
  fix g reserved db1 coupon discount db2 info q
  let ?r = "new_order now sn (next_order db) inp g coupon info q"
  assume *: "check_form s inp = Inr ()" "find_good (in_gid inp) db = Inr g"
    "reserve held g (in_amount inp) db = Inr (reserved, db1)"
    "redeem (in_coupon inp) (g_id g) db1 = Inr (coupon, discount, db2)"
    "insert_order ?r reserved db2 = Inr db'"
  note ok = soundD [OF assms(2)]
  note res = reserve_sound [OF *(3) assms(2) check_form_amount [OF *(1)]]
  note red = redeem_sound [OF *(4) res(1)]
  note ins = insert_order_cases [OF *(5)]
  have kind: "g_type g = 1 \<or> g_type g = 2"
    using find_good_in [OF *(2)] ok(1) by (auto simp: goods_ok_def list_all_iff)
  have stock: "stock_of gid (goods db') = stock_of gid (goods db) - share gid ?r"
    "map g_id (goods db') = map g_id (goods db)"
    using reserve_cases [OF *(3) ok(4)] kind stock_take [OF _ ok(1), of "g_id g" "in_amount inp" db1 gid]
      take_stock_ids [of "g_id g" "in_amount inp" db db1] ins red
    by (auto simp: share_def new_order_def)
  have uses: "uses_of i (coupons db') = uses_of i (coupons db) - use_of i ?r \<and>
      map k_id (coupons db') = map k_id (coupons db)" if "0 < i"
    using redeem_cases [OF *(4)]
  proof
    assume "coupon = 0 \<and> db2 = db1"
    then show ?thesis using that ins res by (simp add: use_of_def new_order_def)
  next
    assume "\<exists>k\<in>set (coupons db1). k_id k = coupon \<and> usable coupon k \<and> k_discount k = discount \<and>
      db2 = db1\<lparr>coupons := update_rows (usable coupon) use_up (coupons db1)\<rparr>"
    then obtain k where k: "k \<in> set (coupons db)" "k_id k = coupon" "usable coupon k"
      "coupons db' = update_rows (usable coupon) use_up (coupons db)" using ins res by auto
    then have "uses_of i (coupons db') = uses_of i (coupons db) - (if k_id k = i then 1 else 0)"
      using uses_take [of "coupons db" k "usable coupon"] ok(2) k(1,2,3) by (simp add: usable_def)
    then show ?thesis using k by (simp add: use_of_def new_order_def map_update use_up_def)
  qed
  have "map k_id (coupons db') = map k_id (coupons db)"
    using redeem_cases [OF *(4)] ins res by (auto simp: map_update use_up_def)
  then show "keeps_books gid i db db'"
    using stock uses red(3) res(3) ins(2) by (simp add: keeps_books_def stock_book_def coupon_book_def)
qed

lemma retake_uses:
  assumes "retake_coupon r db = (again, db1)" "sound db" "0 < i" "o_coupon r' = o_coupon r" "o_ret_back r' = again"
  shows "uses_of i (coupons db1) + use_of i r' = uses_of i (coupons db) + use_of i r"
    "map k_id (coupons db1) = map k_id (coupons db)"
proof -
  have "uses_of i (coupons db1) + use_of i r' = uses_of i (coupons db) + use_of i r \<and>
    map k_id (coupons db1) = map k_id (coupons db)"
    using assms(1,2)
  proof (cases rule: retake_cases)
    case (2 k)
    let ?P = "\<lambda>k. k_id k = o_coupon r \<and> 0 < k_uses k \<and> \<not> k_deleted k"
    obtain k' where k': "k' \<in> set (coupons db)" "?P k'"
      using assms(1) 2 by (force simp: retake_coupon_def Let_def length_Suc_conv filter_eq_Cons_iff split: if_splits)
    have "uses_of i (update_rows ?P use_up (coupons db)) = uses_of i (coupons db) - (if k_id k' = i then 1 else 0)"
      by (rule uses_take [OF soundD(2) [OF assms(2)] k'(1)]) (use k'(2) in simp_all)
    then show ?thesis using 2 k' assms(4,5) by (simp add: use_of_def map_update use_up_def)
  qed (use assms(3-5) in \<open>auto simp: use_of_def\<close>)
  then show "uses_of i (coupons db1) + use_of i r' = uses_of i (coupons db) + use_of i r"
    "map k_id (coupons db1) = map k_id (coupons db)" by auto
qed

text \<open>One order changes, its coupon as \<open>retake_coupon\<close> says, and the stock against its share.\<close>

lemma close_keeps:
  assumes "retake_coupon r db = (again, db1)" "sound db" "r \<in> set (orders db)"
    "orders db' = update_rows (\<lambda>q. o_id q = o_id r) f (orders db)" "coupons db' = coupons db1"
    "map g_id (goods db') = map g_id (goods db)"
    "stock_of gid (goods db') + share gid (f r) = stock_of gid (goods db) + share gid r"
    "o_coupon (f r) = o_coupon r" "o_ret_back (f r) = again"
  shows "keeps_books gid i db db'"
  using assms retake_uses [OF assms(1,2) _ assms(8,9), of i] retake_uses(2) [OF assms(1,2) _ assms(8,9), of 1]
    orders_update(1) [OF assms(2,3) refl, of gid f] orders_update(2) [OF assms(2,3) refl, of i f]
  by (auto simp: keeps_books_def stock_book_def coupon_book_def)

lemma sales_stock:
  assumes "add_sales g n db = Some db'"
  shows "stock_of gid (goods db') = stock_of gid (goods db)" "map g_id (goods db') = map g_id (goods db)"
    "orders db' = orders db" "coupons db' = coupons db"
  using add_sales_cases [OF assms] by (simp_all add: stock_same map_update)

lemma finish_cases:
  assumes "finish r db0 db = (x, db')"
  obtains "db' = db0" "x = Inl DatabaseError"
  | "add_sales (o_goods r) (o_amount r) db = Some db'" "x = Inr (True, False)"
  using assms by (auto simp: finish_def split: option.splits)

lemma short_cases:
  assumes "short redeliver tr again r db0 db = (x, db')"
  obtains "db' = db0" "redeliver" | "db' = upd_order (o_id r) (short_row tr again) db" "\<not> redeliver"
  using assms by (auto simp: short_def split: if_splits)

lemma deliver_keeps:
  assumes "deliver_cards held redeliver tr r db = (x, db')" "sound db" "r \<in> set (orders db)" "o_type r = 1"
  shows "keeps_books gid i db db'"
proof -
  obtain again db1 where b: "retake_coupon r db = (again, db1)" by (cases "retake_coupon r db")
  note re = retake_sound [OF b assms(2)]
  let ?p = "picked held r db1"
  let ?f = "\<lambda>q. q\<lparr>o_status := 4, o_info := join_lines (map c_text ?p), o_trade := tr, o_ret_back := again\<rparr>"
  consider "db' = db" | "short redeliver tr again r db db1 = (x, db')"
    | "finish r db (upd_order (o_id r) ?f
        (db1\<lparr>cards := release (o_id r) (o_goods r) (hand_out ?p (cards db1))\<rparr>)) = (x, db')"
    using assms(1) b by (auto simp: deliver_cards_def Let_def split: if_splits)
  then show ?thesis
  proof cases
    case 2
    then show ?thesis
    proof (cases rule: short_cases)
      case 2
      then show ?thesis using re assms(4)
        by (intro close_keeps [OF b assms(2,3), where f = "short_row tr again"])
          (simp_all add: upd_order_def short_row_def share_def)
    qed simp
  next
    case 3
    then show ?thesis
    proof (cases rule: finish_cases)
      case 2
      from sales_stock [OF 2(1)] re assms(4) show ?thesis
        by (intro close_keeps [OF b assms(2,3), where f = ?f]) (simp_all add: upd_order_def share_def)
    qed simp
  qed simp
qed

lemma record_keeps:
  assumes "record_paid redeliver tr r db = (x, db')" "sound db" "r \<in> set (orders db)" "o_type r \<noteq> 1"
    "o_status r = 1 \<or> o_status r = -1"
  shows "keeps_books gid i db db'"
proof -
  obtain again db1 where b: "retake_coupon r db = (again, db1)" by (cases "retake_coupon r db")
  note re = retake_sound [OF b assms(2)]
  let ?f = "\<lambda>r. r\<lparr>o_status := 2, o_trade := tr, o_ret_back := again\<rparr>"
  have r: "o_type r = 2" "\<not> o_owed r" using sound_row [OF assms(2,3)] assms(4,5) by (auto simp: row_ok_def)
  have paid: "keeps_books gid i db d'"
    if d: "finish r db (upd_order (o_id r) ?f d) = (x, d')" "orders d = orders db" "coupons d = coupons db1"
      "map g_id (goods d) = map g_id (goods db)"
      "stock_of gid (goods d) + share gid (?f r) = stock_of gid (goods db) + share gid r" for d d'
    using d(1)
  proof (cases rule: finish_cases)
    case 2
    from sales_stock [OF 2(1)] d(2-) show ?thesis
      by (intro close_keeps [OF b assms(2,3), where f = ?f]) (simp_all add: upd_order_def)
  qed simp
  have "keeps_books gid i db d'" if "short redeliver tr again r db db1 = (x, d')" "o_status r = -1" for d'
    using that(1)
  proof (cases rule: short_cases)
    case 2
    then show ?thesis using re r that(2)
      by (intro close_keeps [OF b assms(2,3), where f = "short_row tr again"])
        (simp_all add: upd_order_def short_row_def share_def)
  qed simp
  moreover have "keeps_books gid i db d'"
    if t: "finish r db (upd_order (o_id r) ?f d) = (x, d')" "take_stock (o_goods r) (o_amount r) db1 = Some d"
      "o_status r = -1" for d d'
    by (rule paid [OF t(1)])
      (use re r t(3) take_stock_rest [OF t(2)] take_stock_ids [OF t(2)] stock_take [OF t(2), of gid] soundD(1) [OF re(1)]
        in \<open>simp_all add: share_def\<close>)
  moreover have "keeps_books gid i db d'" if "finish r db (upd_order (o_id r) ?f db1) = (x, d')" "o_status r = 1" for d'
    by (rule paid [OF that(1)]) (use re r that(2) in \<open>simp_all add: share_def\<close>)
  ultimately show ?thesis using assms(1,5) b
    by (auto simp: record_paid_def Let_def split: if_splits option.splits)
qed

lemma settle_keeps:
  assumes "settle held sn paid tr redeliver db = (x, db')" "sound db"
  shows "keeps_books gid i db db'"
  using assms(1)
proof (cases rule: settle_cases)
  case (2 r tr')
  then show ?thesis using deliver_keeps [OF 2(4) assms(2)] find_order_in by blast
next
  case (3 r tr')
  then show ?thesis using record_keeps [OF 3(5) assms(2)] find_order_in by blast
qed simp

lemma expireOne_keeps:
  assumes "expireOne j coupon db = Some db'" "sound db"
    "\<And>r. r \<in> set (orders db) \<Longrightarrow> o_id r = j \<Longrightarrow> coupon = o_coupon r"
  shows "keeps_books gid i db db'"
  using assms(1)
proof (cases rule: expireOne_cases)
  case (2 r db1)
  let ?f = "\<lambda>r. r\<lparr>o_status := -1, o_ret_back := 1\<rparr>"
  have r: "row_ok (next_order db) r" "coupon = o_coupon r" using sound_row [OF assms(2) 2(1)] assms(3) 2 by auto
  note ok = soundD [OF assms(2)]
  note put = put_back_cases [OF 2(5)] and give = give_back_cases [OF 2(4)]
  have g: "goods db1 = goods db" "orders db' = update_rows (\<lambda>r. o_id r = j) ?f (orders db)" "coupons db' = coupons db1"
    using give put by (auto simp: upd_order_def split: if_splits)
  have s: "stock_of gid (goods db') = stock_of gid (goods db) + share gid r" if "gid \<in> set (map g_id (goods db))"
    using stock_put [OF 2(5), of gid] g(1) ok(1) that r(1) 2(3) by (auto simp: share_def row_ok_def)
  have u: "uses_of i (coupons db') = uses_of i (coupons db) + use_of i r"
    if "0 < i" "i \<in> set (map k_id (coupons db))"
    using uses_give [OF 2(4), of i] g(3) ok(2) that r 2(3) by (simp add: upd_order_def use_of_def row_ok_def)
  have "share gid (?f r) = 0" "use_of i (?f r) = 0" by (simp_all add: share_def use_of_def)
  then show ?thesis
    using g s u orders_update(1) [OF assms(2) 2(1,2), of gid ?f] orders_update(2) [OF assms(2) 2(1,2), of i ?f]
      put_back_ids [OF 2(5)] give_back_ids [OF 2(4)]
    by (simp add: keeps_books_def stock_book_def coupon_book_def upd_order_def)
qed simp

lemma orderSave_keeps:
  assumes "orderSave j f db = Inr db'" "sound db"
  shows "keeps_books gid i db db'"
  using assms(1)
proof (rule orderSave_cases)
  fix r :: order_row and takes db2
  let ?g = "owed_row takes f"
  assume *: "r \<in> set (orders db)" "o_id r = j" "check_edit r f = Inr ()"
    "takes \<longleftrightarrow> owesManualStock (o_type r) (o_status r) (o_owed r) \<and> takesManualStock (o_type r) (o_status r) (f_status f)"
    "if takes then take_stock (o_goods r) (o_amount r) (upd_order j ?g db) = Some db2 else db2 = upd_order j ?g db"
    "db' = (if releasesReservations (o_type r) (o_status r) (f_status f)
            then db2\<lparr>cards := update_rows (\<lambda>c. c_reserved c = Some j \<and> c_status c = 1) (\<lambda>c. c\<lparr>c_reserved := None\<rparr>) (cards db2)\<rparr>
            else db2)"
  note ok = soundD [OF assms(2)]
  have d: "orders db' = update_rows (\<lambda>r. o_id r = j) ?g (orders db)" "coupons db' = coupons db" "goods db' = goods db2"
    using *(5,6) take_stock_rest [of "o_goods r" "o_amount r" "upd_order j ?g db" db2]
    by (auto simp: upd_order_def split: if_splits)
  have ids: "map g_id (goods db2) = map g_id (goods db)"
    using *(5) take_stock_ids [of "o_goods r" "o_amount r" "upd_order j ?g db" db2]
    by (auto simp: upd_order_def split: if_splits)
  have "stock_of gid (goods db2) + share gid (?g r) = stock_of gid (goods db) + share gid r"
  proof (cases takes)
    case True
    then have "o_type r = 2" "o_owed r" "f_status f \<noteq> -1"
      using *(4) by (auto simp: owesManualStock_def takesManualStock_def)
    then show ?thesis
      using True *(5) ok(1) stock_take [of "o_goods r" "o_amount r" "upd_order j ?g db" db2 gid]
      by (simp add: share_def owed_row_def upd_order_def)
  next
    case False
    have "f_status f = -1 \<longleftrightarrow> o_status r = -1"
      using check_edit_status(1) [OF *(3)] by (auto simp: may_set_def)
    then show ?thesis using False *(5) by (simp add: share_def owed_row_def upd_order_def)
  qed
  then show "keeps_books gid i db db'"
    using d ids orders_update(1) [OF assms(2) *(1,2), of gid ?g] orders_update(2) [OF assms(2) *(1,2), of i ?g]
    by (simp add: keeps_books_def stock_book_def coupon_book_def owed_row_def use_of_def)
qed

lemma step_keeps: "sound db \<Longrightarrow> keeps_books gid i db (store_step e db)"
proof (cases e)
  case (CheckOut now sn held s inp)
  then show "sound db \<Longrightarrow> keeps_books gid i db (store_step e db)"
    using createOrder_keeps by (auto split: sum.splits)
next
  case (Notice held sn paid tr)
  then show "sound db \<Longrightarrow> keeps_books gid i db (store_step e db)"
    using settle_keeps [OF prod.collapse [symmetric]] by (simp add: snd_Complete)
next
  case (Deliver held sn)
  then show "sound db \<Longrightarrow> keeps_books gid i db (store_step e db)"
    using settle_keeps [OF prod.collapse [symmetric]] by (simp add: snd_Redeliver)
next
  case (ExpireOne j)
  have "keeps_books gid i db db'"
    if s: "sound db" and r: "List.find (\<lambda>r. o_id r = j) (orders db) = Some r" and e: "expireOne j (o_coupon r) db = Some db'"
    for r db'
    using expireOne_keeps [OF e s] row_unique [OF s] find_in [OF r] by metis
  then show "sound db \<Longrightarrow> keeps_books gid i db (store_step e db)"
    using ExpireOne by (auto split: option.splits)
next
  case (Edit j f)
  then show "sound db \<Longrightarrow> keeps_books gid i db (store_step e db)"
    using orderSave_keeps by (auto split: sum.splits)
qed

section \<open>Runs keep the books\<close>

text \<open>Each book as a machine that no event moves, which the shop follows.\<close>

definition stock_books :: "int \<Rightarrow> int \<Rightarrow> database \<Rightarrow> bool" where
  "stock_books gid b db \<longleftrightarrow> sound db \<and> gid \<in> set (map g_id (goods db)) \<and> b = stock_book gid db"

definition coupon_books :: "int \<Rightarrow> int \<Rightarrow> database \<Rightarrow> bool" where
  "coupon_books i b db \<longleftrightarrow> sound db \<and> 0 < i \<and> i \<in> set (map k_id (coupons db)) \<and> b = coupon_book i db"

interpretation stock_ledger: simulation store_step "\<lambda>e b. b" "stock_books gid" "\<lambda>e. True" for gid
proof unfold_locales
  fix b db e
  assume "stock_books gid b db"
  then show "stock_books gid b (store_step e db)"
    using step_sound [of db e] step_keeps [of db gid 0 e] by (auto simp: stock_books_def keeps_books_def)
qed

interpretation coupon_ledger: simulation store_step "\<lambda>e b. b" "coupon_books i" "\<lambda>e. True" for i
proof unfold_locales
  fix b db e
  assume "coupon_books i b db"
  then show "coupon_books i b (store_step e db)"
    using step_sound [of db e] step_keeps [of db 0 i e] by (auto simp: coupon_books_def keeps_books_def)
qed

lemma no_move: "foldl (\<lambda>b e. b) b es = b"
  by (induction es) auto

lemma stock_of_nonneg: "goods_ok gs \<Longrightarrow> 0 \<le> stock_of gid gs"
  unfolding stock_of_def by (rule sum_list_nonneg) (auto simp: goods_ok_def list_all_iff)

lemma uses_of_nonneg: "coupons_ok ks \<Longrightarrow> 0 \<le> uses_of i ks"
  unfolding uses_of_def by (rule sum_list_nonneg) (auto simp: coupons_ok_def list_all_iff)

end
