(* ===== verification/Store_Sample.thy ===== *)
theory Store_Sample imports Store_Runs begin

text \<open>A small shop, on which the theorems about orders are tried out.\<close>

definition sample_goods :: "int \<Rightarrow> int \<Rightarrow> string \<Rightarrow> int \<Rightarrow> good_row" where
  "sample_goods i t price n =
     \<lparr>g_id = i, g_name = ''goods'', g_price = price, g_stock = n, g_sales = 0, g_limit = 0, g_type = t,
      g_wholesale = ''2=9.50'', g_other = [], g_open = 1, g_deleted = False\<rparr>"

definition sample_card :: "int \<Rightarrow> int \<Rightarrow> string \<Rightarrow> card_row" where
  "sample_card i gid t =
     \<lparr>c_id = i, c_goods = gid, c_text = t, c_loop = 0, c_status = 1, c_reserved = None, c_deleted = False\<rparr>"

text \<open>Goods 1 with three cards, goods 2 with five pieces, a coupon with two uses, a way to pay.\<close>

definition sample_shop :: database where
  "sample_shop =
     \<lparr>goods = [sample_goods 1 1 ''10.00'' 0, sample_goods 2 2 ''3.50'' 5],
      cards = [sample_card 13 1 ''CCC'', sample_card 11 1 ''AAA'', sample_card 12 1 ''BBB''],
      coupons = [\<lparr>k_id = 7, k_code = ''LESS'', k_discount = ''1.00'', k_uses = 2, k_open = 1, k_use = 1,
                  k_goods = [1, 2], k_deleted = False\<rparr>],
      pays = [\<lparr>p_id = 4, p_check = ''cldx'', p_open = 1, p_deleted = False\<rparr>],
      orders = [], next_order = 1\<rparr>"

definition sample_site :: site where
  "sample_site = \<lparr>site_search_pwd = False, site_expire_min = 5\<rparr>"

definition sample_input :: "int \<Rightarrow> int \<Rightarrow> string \<Rightarrow> CreateInput" where
  "sample_input gid n coupon =
     \<lparr>in_gid = gid, in_pay = 4, in_amount = n, in_email = ''a@b.c'', in_email_ok = True, in_pwd = [],
      in_coupon = coupon, in_ip = ''::1'', in_source = ''::'', in_extra = []\<rparr>"

abbreviation sample_buys :: "string \<Rightarrow> int \<Rightarrow> int \<Rightarrow> string \<Rightarrow> store_event" where
  "sample_buys sn gid n coupon \<equiv> CheckOut 1000 sn {} sample_site (sample_input gid n coupon)"

text \<open>Two cards with the coupon, three pieces that expire, two pieces.\<close>

definition sample_events :: "store_event list" where
  "sample_events =
     [sample_buys ''A1'' 1 2 ''LESS'', sample_buys ''A2'' 2 3 ''LESS'', ExpireOne 2, sample_buys ''A3'' 2 2 []]"

lemma sample_sound: "sound sample_shop"
  by code_simp

lemma sample_ids:
  "1 \<in> set (map g_id (goods sample_shop))" "2 \<in> set (map g_id (goods sample_shop))"
  "7 \<in> set (map k_id (coupons sample_shop))"
  by code_simp+

text \<open>The tables after these events, and an order in them.\<close>

definition sample_order :: "int \<Rightarrow> string \<Rightarrow> int \<Rightarrow> int \<Rightarrow> string list \<Rightarrow> order_row" where
  "sample_order i sn gid n texts =
     \<lparr>o_id = i, o_sn = sn, o_goods = gid, o_coupon = 7, o_title = ''goods'', o_type = gid, o_price = texts ! 0,
      o_amount = n, o_coupon_off = texts ! 1, o_wholesale_off = texts ! 2, o_total = texts ! 3,
      o_actual = texts ! 4, o_pwd = [], o_email = ''a@b.c'', o_info = [], o_pay = 4, o_ip = ''::1'',
      o_source = ''::'', o_created = 1000, o_trade = [], o_status = 1, o_ret_back = 0, o_owed = False,
      o_deleted = False\<rparr>"

definition sample_waiting :: order_row where
  "sample_waiting = sample_order 1 ''A1'' 1 2 [''10.00'', ''1.00'', ''1.00'', ''20.00'', ''18.00'']"

definition sample_later :: database where
  "sample_later = sample_shop
     \<lparr>goods := [sample_goods 1 1 ''10.00'' 0, sample_goods 2 2 ''3.50'' 3],
      cards := [sample_card 13 1 ''CCC'', sample_card 11 1 ''AAA''\<lparr>c_reserved := Some 1\<rparr>,
                sample_card 12 1 ''BBB''\<lparr>c_reserved := Some 1\<rparr>],
      coupons := map (\<lambda>k. k\<lparr>k_uses := 1\<rparr>) (coupons sample_shop),
      orders :=
        [sample_waiting,
         (sample_order 2 ''A2'' 2 3 [''3.50'', ''1.00'', ''0.00'', ''10.50'', ''9.50''])\<lparr>o_status := -1, o_ret_back := 1\<rparr>,
         (sample_order 3 ''A3'' 2 2 [''3.50'', ''0.00'', ''0.00'', ''7.00'', ''7.00''])\<lparr>o_coupon := 0\<rparr>],
      next_order := 4\<rparr>"

lemma sample_run: "store_run sample_events sample_shop = sample_later"
  by code_simp

lemma sample_later_sound: "sound sample_later"
  using run_sound [OF sample_sound] by (simp add: sample_run [symmetric])

lemma sample_waiting_in: "sample_waiting \<in> set (orders sample_later)"
  by (simp add: sample_later_def)

text \<open>The payment of the waiting order.\<close>

definition sample_paid :: "settled" where
  "sample_paid = settle {} ''A1'' 1800 ''t'' False sample_later"

lemma sample_paid_delivered: "fst sample_paid = Inr (True, False)"
  by code_simp

end
