(* ===== verification/Store_Props.thy ===== *)
theory Store_Props imports Store_Ledger Store_Sample Price_Props begin

text \<open>
  What the shop promises over any run of check-outs, notices, deliveries, expiries and edits:
  stock and coupon uses are never created or lost, an order moves along the statuses it may
  have, no card is sold twice, a buyer who pays an unpaid order in time gets the cards.
\<close>

section \<open>Stock and coupons\<close>

text \<open>
  C2: whatever the run, the stock of goods that are handed over by hand and the stock that orders
  hold make up what was there at first, and the stock never runs below zero: no sale, expiry,
  late payment or edit creates stock or loses any.
\<close>

theorem stock_is_conserved:
  assumes "sound db" "gid \<in> set (map g_id (goods db))"
  shows "stock_of gid (goods (store_run es db)) + taken_of gid (orders (store_run es db)) =
      stock_of gid (goods db) + taken_of gid (orders db) \<and>
    0 \<le> stock_of gid (goods (store_run es db))"
proof -
  have "stock_books gid (stock_book gid db) (store_run es db)"
    using stock_ledger.run_displays [of gid "stock_book gid db" db es] assms
    by (simp add: stock_books_def no_move list_all_iff)
  then show ?thesis using stock_of_nonneg [of "goods (store_run es db)" gid] soundD(1)
    by (auto simp: stock_books_def stock_book_def)
qed

theorem stock_is_conserved_witness:
  "stock_of 2 (goods sample_later) + taken_of 2 (orders sample_later) = 5 \<and>
   stock_of 2 (goods sample_later) = 3"
proof -
  have "stock_of 2 (goods sample_shop) = 5" "taken_of 2 (orders sample_shop) = 0" "stock_of 2 (goods sample_later) = 3"
    by code_simp+
  then show ?thesis using stock_is_conserved [OF sample_sound sample_ids(2), of sample_events]
    unfolding sample_run by simp
qed



section \<open>What a settlement does\<close>

text \<open>The row of an order with its cards, and of one whose payment is recorded.\<close>

definition delivered_row :: "card_row list \<Rightarrow> string \<Rightarrow> int \<Rightarrow> order_row \<Rightarrow> order_row" where
  "delivered_row ps tr again r =
     r\<lparr>o_status := 4, o_info := join_lines (map c_text ps), o_trade := tr, o_ret_back := again\<rparr>"

definition paid_row :: "string \<Rightarrow> int \<Rightarrow> order_row \<Rightarrow> order_row" where
  "paid_row tr again r = r\<lparr>o_status := 2, o_trade := tr, o_ret_back := again\<rparr>"

abbreviation set_order :: "order_row \<Rightarrow> (order_row \<Rightarrow> order_row) \<Rightarrow> order_row list \<Rightarrow> order_row list" where
  "set_order r f os \<equiv> update_rows (\<lambda>q. o_id q = o_id r) f os"

lemma picked_same: "cards db' = cards db \<Longrightarrow> picked held r db' = picked held r db"
  by (simp add: picked_def)

lemma deliver_cases:
  assumes "deliver_cards held redeliver tr r db = (x, db')" "sound db"
  obtains e where "db' = db" "x = Inl e"
  | again where "x = Inl ShortStock" "\<not> redeliver" "orders db' = set_order r (short_row tr again) (orders db)"
      "cards db' = cards db" "int (length (picked held r db)) \<noteq> o_amount r"
  | again where "x = Inr (True, False)" "int (length (picked held r db)) = o_amount r"
      "orders db' = set_order r (delivered_row (picked held r db) tr again) (orders db)"
      "cards db' = release (o_id r) (o_goods r) (hand_out (picked held r db) (cards db))"
proof -
  obtain again db1 where b: "retake_coupon r db = (again, db1)" by (cases "retake_coupon r db")
  note re = retake_sound [OF b assms(2)]
  let ?p = "picked held r db"
  let ?f = "\<lambda>q. q\<lparr>o_status := 4, o_info := join_lines (map c_text ?p), o_trade := tr, o_ret_back := again\<rparr>"
  have f: "delivered_row ?p tr again = ?f" by (auto simp: delivered_row_def)
  consider "db' = db" "\<exists>e. x = Inl e"
    | "short redeliver tr again r db db1 = (x, db')" "int (length ?p) \<noteq> o_amount r"
    | "finish r db (upd_order (o_id r) ?f
        (db1\<lparr>cards := release (o_id r) (o_goods r) (hand_out ?p (cards db1))\<rparr>)) = (x, db')"
      "int (length ?p) = o_amount r"
    using assms(1) b picked_same [OF re(2), of held r]
    by (auto simp: deliver_cards_def Let_def split: if_splits)
  then show ?thesis
  proof cases
    case 2
    have "x = Inl ShortStock" using 2(1) by (simp add: short_def)
    from 2(1) show ?thesis
    proof (cases rule: short_cases)
      case 2
      then show ?thesis using that(2) [of again] \<open>x = Inl ShortStock\<close> re \<open>int (length ?p) \<noteq> o_amount r\<close>
        by (simp add: upd_order_def)
    qed (use that(1) \<open>x = Inl ShortStock\<close> in auto)
  next
    case 3
    from 3(1) show ?thesis
    proof (cases rule: finish_cases)
      case 2
      then show ?thesis using that(3) [of again] 3(2) re f add_sales_cases [OF 2(1)]
        by (simp add: upd_order_def)
    qed (use that(1) in auto)
  qed (use that(1) in auto)
qed

lemma record_cases:
  assumes "record_paid redeliver tr r db = (x, db')" "sound db" "o_status r = 1 \<or> o_status r = -1"
  obtains e where "db' = db" "x = Inl e"
  | again where "x = Inl ShortStock" "\<not> redeliver" "orders db' = set_order r (short_row tr again) (orders db)"
      "cards db' = cards db" "o_status r = -1"
  | again where "x = Inr (True, False)" "orders db' = set_order r (paid_row tr again) (orders db)"
      "cards db' = cards db"
proof -
  obtain again db1 where b: "retake_coupon r db = (again, db1)" by (cases "retake_coupon r db")
  note re = retake_sound [OF b assms(2)]
  let ?f = "\<lambda>r. r\<lparr>o_status := 2, o_trade := tr, o_ret_back := again\<rparr>"
  have f: "paid_row tr again = ?f" by (auto simp: paid_row_def)
  consider "short redeliver tr again r db db1 = (x, db')" "o_status r = -1"
    | d where "finish r db (upd_order (o_id r) ?f d) = (x, db')" "orders d = orders db" "cards d = cards db"
    using assms(1,3) b re take_stock_rest [of "o_goods r" "o_amount r" db1]
    by (auto simp: record_paid_def Let_def split: if_splits option.splits)
  then show ?thesis
  proof cases
    case 1
    have "x = Inl ShortStock" using 1(1) by (simp add: short_def)
    from 1(1) show ?thesis
    proof (cases rule: short_cases)
      case 2
      then show ?thesis using that(2) [of again] \<open>x = Inl ShortStock\<close> \<open>o_status r = -1\<close> re
        by (simp add: upd_order_def)
    qed (use that(1) \<open>x = Inl ShortStock\<close> in auto)
  next
    case (2 d)
    from 2(1) show ?thesis
    proof (cases rule: finish_cases)
      case 2: 2
      then show ?thesis using that(3) [of again] \<open>orders d = orders db\<close> \<open>cards d = cards db\<close> f add_sales_cases [OF 2(1)]
        by (simp add: upd_order_def)
    qed (use that(1) in auto)
  qed
qed

section \<open>The statuses of an order\<close>

text \<open>
  1 waits for payment, -1 has expired, 2 is to be handled, 3 is being handled, 4 is done, 5 has
  failed, 6 was paid when the stock was short. Type 1 is delivered by the shop, type 2 by hand.
\<close>

inductive status_move :: "int \<Rightarrow> int \<Rightarrow> int \<Rightarrow> bool" where
  expires: "status_move t 1 (-1)"
| sold: "s \<in> {1, -1, 6} \<Longrightarrow> status_move 1 s 4"
| sold_short: "s \<in> {1, -1, 6} \<Longrightarrow> status_move 1 s 6"
| paid: "s \<in> {1, -1} \<Longrightarrow> status_move 2 s 2"
| paid_short: "status_move 2 (-1) 6"
| handled: "s \<in> {2, 3, 5, 6} \<Longrightarrow> s' \<in> {2, 3, 4, 5} \<Longrightarrow> status_move t s s'"
| reopened: "s \<in> {2, 3, 5, 6} \<Longrightarrow> status_move 1 s 6"

inductive_simps status_move_iff: "status_move t s s'"

text \<open>What never changes of an order.\<close>

definition same_order :: "order_row \<Rightarrow> order_row \<Rightarrow> bool" where
  "same_order r r' \<longleftrightarrow> o_id r' = o_id r \<and> o_sn r' = o_sn r \<and> o_goods r' = o_goods r \<and>
     o_coupon r' = o_coupon r \<and> o_type r' = o_type r \<and> o_amount r' = o_amount r \<and>
     o_actual r' = o_actual r \<and> o_email r' = o_email r \<and> o_pay r' = o_pay r \<and> o_created r' = o_created r"

definition advances :: "order_row \<Rightarrow> order_row \<Rightarrow> bool" where
  "advances r r' \<longleftrightarrow> same_order r r' \<and> (status_move (o_type r))\<^sup>*\<^sup>* (o_status r) (o_status r')"

lemma advances_refl [simp]: "advances r r"
  by (simp add: advances_def same_order_def)

lemma advances_trans: "advances r s \<Longrightarrow> advances s t \<Longrightarrow> advances r t"
  by (auto simp: advances_def same_order_def)

lemma advancesI:
  "same_order r r' \<Longrightarrow> o_status r' = o_status r \<or> status_move (o_type r) (o_status r) (o_status r') \<Longrightarrow> advances r r'"
  by (auto simp: advances_def)

definition orders_advance :: "database \<Rightarrow> database \<Rightarrow> bool" where
  "orders_advance db db' \<longleftrightarrow> (\<forall>r\<in>set (orders db). \<exists>r'\<in>set (orders db'). advances r r')"

lemma progress_same: "orders db' = orders db @ os \<Longrightarrow> orders_advance db db'"
  unfolding orders_advance_def using advances_refl by fastforce

lemma progress_at:
  assumes "orders db' = set_order r f (orders db)" "sound db" "r \<in> set (orders db)" "advances r (f r)"
  shows "orders_advance db db'"
  unfolding orders_advance_def
proof
  fix q
  assume q: "q \<in> set (orders db)"
  show "\<exists>r'\<in>set (orders db'). advances q r'"
  proof (cases "o_id q = o_id r")
    case True
    then have "q = r" using row_unique [OF assms(2,3) q] by simp
    then have "f r \<in> set (orders db')" using assms(1,3) by (auto simp: in_update)
    then show ?thesis using \<open>q = r\<close> assms(4) by blast
  next
    case False
    then have "q \<in> set (orders db')" using q assms(1) by (auto simp: in_update)
    then show ?thesis using advances_refl by blast
  qed
qed

lemma settle_progress:
  assumes "settle held sn paid tr redeliver db = (x, db')" "sound db"
  shows "orders_advance db db'"
  using assms(1)
proof (cases rule: settle_cases)
  case 1
  then show ?thesis by (auto intro: progress_same [of _ _ "[]"])
next
  case (2 r tr')
  have r: "r \<in> set (orders db)" using find_order_in [OF 2(1)] by simp
  from 2(4) assms(2) show ?thesis
  proof (cases rule: deliver_cases)
    case (2 again)
    then show ?thesis using \<open>o_type r = 1\<close> \<open>o_status r = 1 \<or> _\<close>
      by (intro progress_at [OF _ assms(2) r]) (auto intro!: advancesI simp: same_order_def short_row_def status_move_iff)
  next
    case (3 again)
    then show ?thesis using \<open>o_type r = 1\<close> \<open>o_status r = 1 \<or> _\<close>
      by (intro progress_at [OF _ assms(2) r]) (auto intro!: advancesI simp: same_order_def delivered_row_def status_move_iff)
  qed (auto intro: progress_same [of _ _ "[]"])
next
  case (3 r tr')
  have r: "r \<in> set (orders db)" using find_order_in [OF 3(1)] by simp
  have t: "o_type r = 2" using sound_row [OF assms(2) r] 3(2) by (auto simp: row_ok_def)
  from 3(5) assms(2) 3(3) show ?thesis
  proof (cases rule: record_cases)
    case (2 again)
    then show ?thesis using t
      by (intro progress_at [OF _ assms(2) r]) (auto intro!: advancesI simp: same_order_def short_row_def status_move_iff)
  next
    case (3 again)
    then show ?thesis using t \<open>o_status r = 1 \<or> _\<close>
      by (intro progress_at [OF _ assms(2) r]) (auto intro!: advancesI simp: same_order_def paid_row_def status_move_iff)
  qed (auto intro: progress_same [of _ _ "[]"])
qed

lemma createOrder_progress:
  assumes "createOrder now sn held s inp db = Inr (v, db')" "sound db"
  shows "orders_advance db db'"
  using assms(1)
proof (rule createOrder_cases)
  fix g reserved db1 coupon discount db2 info q
  assume *: "check_form s inp = Inr ()" "reserve held g (in_amount inp) db = Inr (reserved, db1)"
    "redeem (in_coupon inp) (g_id g) db1 = Inr (coupon, discount, db2)"
    "insert_order (new_order now sn (next_order db) inp g coupon info q) reserved db2 = Inr db'"
  note res = reserve_sound [OF *(2) assms(2) check_form_amount [OF *(1)]]
  note red = redeem_sound [OF *(3) res(1)]
  show "orders_advance db db'" using insert_order_cases(2) [OF *(4)] red(3) res(3) by (simp add: progress_same)
qed

lemma expireOne_progress:
  assumes "expireOne j coupon db = Some db'" "sound db"
  shows "orders_advance db db'"
  using assms(1)
proof (cases rule: expireOne_cases)
  case (2 r db1)
  let ?f = "\<lambda>r. r\<lparr>o_status := -1, o_ret_back := 1\<rparr>"
  have "orders db' = set_order r ?f (orders db)"
    using give_back_cases [OF 2(4)] put_back_cases [OF 2(5)] 2(2) by (auto simp: upd_order_def split: if_splits)
  then show ?thesis using 2(3)
    by (intro progress_at [OF _ assms(2) 2(1)]) (auto intro!: advancesI simp: same_order_def status_move_iff)
qed (auto intro: progress_same [of _ _ "[]"])

lemma orderSave_orders:
  assumes "orderSave j f db = Inr db'"
  obtains r takes where "r \<in> set (orders db)" "o_id r = j" "check_edit r f = Inr ()"
    "orders db' = set_order r (owed_row takes f) (orders db)"
    "cards db' = (if releasesReservations (o_type r) (o_status r) (f_status f)
       then update_rows (\<lambda>c. c_reserved c = Some j \<and> c_status c = 1) (\<lambda>c. c\<lparr>c_reserved := None\<rparr>) (cards db)
       else cards db)"
  using assms
proof (rule orderSave_cases)
  fix r :: order_row and takes db2
  assume *: "r \<in> set (orders db)" "o_id r = j" "check_edit r f = Inr ()"
    "if takes then take_stock (o_goods r) (o_amount r) (upd_order j (owed_row takes f) db) = Some db2
     else db2 = upd_order j (owed_row takes f) db"
    "db' = (if releasesReservations (o_type r) (o_status r) (f_status f)
            then db2\<lparr>cards := update_rows (\<lambda>c. c_reserved c = Some j \<and> c_status c = 1) (\<lambda>c. c\<lparr>c_reserved := None\<rparr>) (cards db2)\<rparr>
            else db2)"
  have "orders db2 = set_order r (owed_row takes f) (orders db) \<and> cards db2 = cards db"
    using *(2,4) take_stock_rest [of "o_goods r" "o_amount r" "upd_order j (owed_row takes f) db" db2]
    by (auto simp: upd_order_def split: if_splits)
  then show thesis using that [OF *(1-3), of takes] *(5) by auto
qed

lemma orderSave_progress:
  assumes "orderSave j f db = Inr db'" "sound db"
  shows "orders_advance db db'"
  using assms(1)
proof (rule orderSave_orders)
  fix r takes
  assume r: "r \<in> set (orders db)" "check_edit r f = Inr ()"
    and o: "orders db' = set_order r (owed_row takes f) (orders db)"
  have t: "o_type r = 1 \<or> o_type r = 2" using sound_row [OF assms(2) r(1)] by (simp add: row_ok_def)
  have "f_status f = o_status r \<or> status_move (o_type r) (o_status r) (f_status f)"
    using check_edit_status(1,2) [OF r(2)] t unfolding may_set_def status_move_iff by auto
  then show "orders_advance db db'"
    by (intro progress_at [OF o assms(2) r(1)] advancesI) (auto simp: same_order_def owed_row_def)
qed

lemma step_progress: "sound db \<Longrightarrow> orders_advance db (store_step e db)"
proof (cases e)
  case (CheckOut now sn held s inp)
  then show "sound db \<Longrightarrow> orders_advance db (store_step e db)"
    using createOrder_progress progress_same [of db db "[]"] by (auto split: sum.splits)
next
  case (Notice held sn paid tr)
  then show "sound db \<Longrightarrow> orders_advance db (store_step e db)"
    using settle_progress [OF prod.collapse [symmetric]] by (simp add: snd_Complete)
next
  case (Deliver held sn)
  then show "sound db \<Longrightarrow> orders_advance db (store_step e db)"
    using settle_progress [OF prod.collapse [symmetric]] by (simp add: snd_Redeliver)
next
  case (ExpireOne j)
  then show "sound db \<Longrightarrow> orders_advance db (store_step e db)"
    using expireOne_progress progress_same [of db db "[]"] by (auto split: option.splits)
next
  case (Edit j f)
  then show "sound db \<Longrightarrow> orders_advance db (store_step e db)"
    using orderSave_progress progress_same [of db db "[]"] by (auto split: sum.splits)
qed

lemma run_progress: "sound db \<Longrightarrow> orders_advance db (store_run es db)"
proof (induction es arbitrary: db)
  case (Cons e es)
  then have "orders_advance db (store_step e db)" "orders_advance (store_step e db) (store_run es (store_step e db))"
    using step_progress step_sound by blast+
  then show ?case unfolding orders_advance_def by (metis advances_trans foldl_Cons)
qed (simp add: progress_same [of _ _ "[]"])

text \<open>A status that the machine can reach from a paid one is a paid one, and 4 is the last one.\<close>

lemma moves_paid: "(status_move t)\<^sup>*\<^sup>* s s' \<Longrightarrow> 2 \<le> s \<Longrightarrow> 2 \<le> s'"
  by (induction rule: rtranclp_induct) (auto simp: status_move_iff)

lemma moves_done: "(status_move t)\<^sup>*\<^sup>* s s' \<Longrightarrow> s = 4 \<Longrightarrow> s' = 4"
  by (induction rule: rtranclp_induct) (auto simp: status_move_iff)

text \<open>
  C9: every order is still there after any run, with the same number, goods, coupon, amount and
  price, and its status has moved along the machine above: what is paid is never waiting for a
  payment again, and a delivered order stays delivered.
\<close>

theorem orders_follow_their_statuses:
  assumes "sound db" "r \<in> set (orders db)"
  shows "\<exists>r'\<in>set (orders (store_run es db)). same_order r r' \<and>
    (status_move (o_type r))\<^sup>*\<^sup>* (o_status r) (o_status r') \<and>
    (2 \<le> o_status r \<longrightarrow> 2 \<le> o_status r') \<and> (o_status r = 4 \<longrightarrow> o_status r' = 4)"
proof -
  obtain r' where r': "r' \<in> set (orders (store_run es db))" "advances r r'"
    using run_progress [OF assms(1)] assms(2) unfolding orders_advance_def by blast
  then show ?thesis using moves_paid moves_done unfolding advances_def by metis
qed

theorem orders_follow_their_statuses_witness:
  "\<exists>r. r \<in> set (orders (store_run [Notice {} ''A1'' 1800 ''t'', ExpireOne 1] sample_later)) \<and>
     same_order sample_waiting r \<and> (status_move 1)\<^sup>*\<^sup>* 1 (o_status r)"
proof -
  have "o_type sample_waiting = 1" "o_status sample_waiting = 1" by code_simp+
  then show ?thesis
    using orders_follow_their_statuses [OF sample_later_sound sample_waiting_in,
      of "[Notice {} ''A1'' 1800 ''t'', ExpireOne 1]"] by auto
qed

section \<open>Cards\<close>

text \<open>The cards that a step hands to a buyer, and those that a run hands out.\<close>

definition given :: "int set \<Rightarrow> string \<Rightarrow> settled \<Rightarrow> database \<Rightarrow> card_row list" where
  "given held sn res db =
     (case find_order sn db of
        None \<Rightarrow> []
      | Some r \<Rightarrow> if o_type r = 1 \<and> fst res = Inr (True, False) then picked held r db else [])"

fun handed :: "store_event \<Rightarrow> database \<Rightarrow> card_row list" where
  "handed (Notice held sn paid tr) db = given held sn (settle held sn paid tr False db) db"
| "handed (Deliver held sn) db = given held sn (settle held sn 0 [] True db) db"
| "handed e db = []"

fun handed_run :: "store_event list \<Rightarrow> database \<Rightarrow> card_row list" where
  "handed_run [] db = []"
| "handed_run (e # es) db = handed e db @ handed_run es (store_step e db)"

abbreviation single :: "card_row list \<Rightarrow> int list" where
  "single cs \<equiv> map c_id (filter (\<lambda>c. c_loop c = 0) cs)"

definition off_sale :: "database \<Rightarrow> int set" where
  "off_sale db = c_id ` {c \<in> set (cards db). c_status c \<noteq> 1}"

lemma off_sale_iff: "i \<in> off_sale db \<longleftrightarrow> (\<exists>c\<in>set (cards db). c_id c = i \<and> c_status c \<noteq> 1)"
  by (auto simp: off_sale_def)

text \<open>No card comes back on sale.\<close>

definition status_kept :: "card_row list \<Rightarrow> card_row list \<Rightarrow> bool" where
  "status_kept cs cs' \<longleftrightarrow>
     (\<forall>c\<in>set cs. c_status c \<noteq> 1 \<longrightarrow> (\<exists>c'\<in>set cs'. c_id c' = c_id c \<and> c_status c' \<noteq> 1))"

lemma status_kept_refl: "status_kept cs cs"
  by (auto simp: status_kept_def)

lemma status_kept_update:
  assumes "\<And>c. c_id (f c) = c_id c" "\<And>c. c_status c \<noteq> 1 \<Longrightarrow> c_status (f c) \<noteq> 1"
  shows "status_kept cs (update_rows P f cs)"
  unfolding status_kept_def
proof clarify
  fix c
  assume c: "c \<in> set cs" "c_status c \<noteq> 1"
  have "(if P c then f c else c) \<in> set (update_rows P f cs)" using c(1) by (auto simp: in_update)
  moreover have "c_id (if P c then f c else c) = c_id c" "c_status (if P c then f c else c) \<noteq> 1"
    using assms c(2) by auto
  ultimately show "\<exists>c'\<in>set (update_rows P f cs). c_id c' = c_id c \<and> c_status c' \<noteq> 1" by blast
qed

lemma status_kept_trans: "status_kept a b \<Longrightarrow> status_kept b c \<Longrightarrow> status_kept a c"
  unfolding status_kept_def by metis

lemma status_kept_off: "status_kept (cards db) (cards db') \<Longrightarrow> off_sale db \<subseteq> off_sale db'"
  unfolding status_kept_def off_sale_iff subset_iff by metis

lemma hand_out_status:
  "status_kept cs (release i gid (hand_out ps cs))"
  unfolding release_def hand_out_def
  by (rule status_kept_trans [of _ "update_rows P f cs" for P f]; rule status_kept_update) auto

lemma settle_status:
  assumes "settle held sn paid tr redeliver db = (x, db')" "sound db"
  shows "status_kept (cards db) (cards db')"
  using assms(1)
proof (cases rule: settle_cases)
  case (2 r tr')
  from 2(4) assms(2) show ?thesis
    by (cases rule: deliver_cases) (simp_all add: hand_out_status status_kept_refl)
next
  case (3 r tr')
  from 3(5) assms(2) 3(3) show ?thesis
    by (cases rule: record_cases) (simp_all add: status_kept_refl)
qed (simp add: status_kept_refl)

lemma createOrder_status:
  assumes "createOrder now sn held s inp db = Inr (v, db')" "sound db"
  shows "status_kept (cards db) (cards db')"
  using assms(1)
proof (rule createOrder_cases)
  fix g reserved db1 coupon discount db2 info q
  assume *: "check_form s inp = Inr ()" "reserve held g (in_amount inp) db = Inr (reserved, db1)"
    "redeem (in_coupon inp) (g_id g) db1 = Inr (coupon, discount, db2)"
    "insert_order (new_order now sn (next_order db) inp g coupon info q) reserved db2 = Inr db'"
  note res = reserve_sound [OF *(2) assms(2) check_form_amount [OF *(1)]]
  note red = redeem_sound [OF *(3) res(1)]
  show "status_kept (cards db) (cards db')"
    using insert_order_cases(3) [OF *(4)] red(2) res(2) status_kept_refl status_kept_update by auto
qed

lemma expireOne_status:
  assumes "expireOne j coupon db = Some db'"
  shows "status_kept (cards db) (cards db')"
  using assms
proof (cases rule: expireOne_cases)
  case (2 r db1)
  have "cards db' = unreserve j (o_goods r) (cards db)"
    using give_back_cases [OF 2(4)] put_back_cases [OF 2(5)] by (auto simp: upd_order_def split: if_splits)
  then show ?thesis by (auto simp: unreserve_def intro: status_kept_update)
qed (simp add: status_kept_refl)

lemma orderSave_status:
  assumes "orderSave j f db = Inr db'"
  shows "status_kept (cards db) (cards db')"
  using assms by (rule orderSave_orders) (auto simp: status_kept_refl intro: status_kept_update)

lemma step_status: "sound db \<Longrightarrow> status_kept (cards db) (cards (store_step e db))"
proof (cases e)
  case (CheckOut now sn held s inp)
  then show "sound db \<Longrightarrow> status_kept (cards db) (cards (store_step e db))"
    using createOrder_status by (auto simp: status_kept_refl split: sum.splits)
next
  case (Notice held sn paid tr)
  then show "sound db \<Longrightarrow> status_kept (cards db) (cards (store_step e db))"
    using settle_status [OF prod.collapse [symmetric]] by (simp add: snd_Complete)
next
  case (Deliver held sn)
  then show "sound db \<Longrightarrow> status_kept (cards db) (cards (store_step e db))"
    using settle_status [OF prod.collapse [symmetric]] by (simp add: snd_Redeliver)
next
  case (ExpireOne j)
  then show "sound db \<Longrightarrow> status_kept (cards db) (cards (store_step e db))"
    using expireOne_status by (auto simp: status_kept_refl split: option.splits)
next
  case (Edit j f)
  then show "sound db \<Longrightarrow> status_kept (cards db) (cards (store_step e db))"
    using orderSave_status by (auto simp: status_kept_refl split: sum.splits)
qed

lemma settle_delivers:
  assumes "settle held sn paid tr redeliver db = (Inr (True, False), db')" "sound db"
    "find_order sn db = Some r" "o_type r = 1"
  obtains tr' again where "int (length (picked held r db)) = o_amount r"
    "orders db' = set_order r (delivered_row (picked held r db) tr' again) (orders db)"
    "cards db' = release (o_id r) (o_goods r) (hand_out (picked held r db) (cards db))"
  using assms(1)
proof (cases rule: settle_cases)
  case (2 r' tr')
  then have "deliver_cards held redeliver tr' r db = (Inr (True, False), db')" using assms(3) by simp
  then show ?thesis using assms(2) by (cases rule: deliver_cases) (use that in auto)
qed (use assms(3,4) in auto)

lemma given_off_sale:
  assumes "settle held sn paid tr redeliver db = (x, db')" "sound db" "c \<in> set (given held sn (x, db') db)"
    "c_loop c = 0"
  shows "c_id c \<notin> off_sale db" "c_id c \<in> off_sale db'"
proof -
  obtain r where r: "find_order sn db = Some r" "o_type r = 1" "x = Inr (True, False)"
    "c \<in> set (picked held r db)"
    using assms(3) by (cases "find_order sn db") (auto simp: given_def split: if_splits)
  note p = picked_in [OF r(4)]
  show "c_id c \<notin> off_sale db" using card_unique [OF assms(2) p(1)] p(3) by (auto simp: off_sale_iff)
  from assms(1) [unfolded r(3)] assms(2) r(1,2) show "c_id c \<in> off_sale db'"
  proof (rule settle_delivers)
    fix tr' again
    assume o: "cards db' = release (o_id r) (o_goods r) (hand_out (picked held r db) (cards db))"
    have "c\<lparr>c_status := 2, c_reserved := None\<rparr> \<in> set (cards db')"
      unfolding o release_def hand_out_def in_update
      using p(1) r(4) assms(4) by (intro bexI [of _ "c\<lparr>c_status := 2, c_reserved := None\<rparr>"]) (auto simp: in_update)
    then show ?thesis unfolding off_sale_iff by (rule bexI [rotated]) simp
  qed
qed

lemma given_distinct: "sound db \<Longrightarrow> distinct (single (given held sn res db))"
  using picked_distinct [of db held]
  by (cases "find_order sn db") (auto simp: given_def distinct_map intro: inj_on_subset)

lemma handed_facts:
  assumes "sound db"
  shows "distinct (single (handed e db))" "set (single (handed e db)) \<inter> off_sale db = {}"
    "set (single (handed e db)) \<subseteq> off_sale (store_step e db)"
proof -
  have "distinct (single (handed e db)) \<and> set (single (handed e db)) \<inter> off_sale db = {} \<and>
    set (single (handed e db)) \<subseteq> off_sale (store_step e db)"
  proof (cases e)
    case (Notice held sn paid tr)
    then show ?thesis
      using given_distinct [OF assms] given_off_sale [OF prod.collapse [symmetric] assms, of _ held sn paid tr False]
      by (auto simp: snd_Complete)
  next
    case (Deliver held sn)
    then show ?thesis
      using given_distinct [OF assms] given_off_sale [OF prod.collapse [symmetric] assms, of _ held sn 0 "[]" True]
      by (auto simp: snd_Redeliver)
  qed simp_all
  then show "distinct (single (handed e db))" "set (single (handed e db)) \<inter> off_sale db = {}"
    "set (single (handed e db)) \<subseteq> off_sale (store_step e db)" by auto
qed

lemma handed_run_facts:
  "sound db \<Longrightarrow> distinct (single (handed_run es db)) \<and> set (single (handed_run es db)) \<inter> off_sale db = {}"
proof (induction es arbitrary: db)
  case (Cons e es)
  note IH = Cons.IH [OF step_sound [OF Cons.prems, of e]]
  have "off_sale db \<subseteq> off_sale (store_step e db)" by (rule status_kept_off [OF step_status [OF Cons.prems]])
  then show ?case using IH handed_facts [OF Cons.prems, of e]
    unfolding handed_run.simps filter_append map_append distinct_append set_append foldl_Cons by blast
qed simp

text \<open>
  C3: whatever the order of check-outs, payments, repeated notices, deliveries by hand, expiries and
  edits, a card that is sold once is handed to one buyer once.
\<close>

theorem no_card_is_sold_twice:
  assumes "sound db"
  shows "distinct (map c_id (filter (\<lambda>c. c_loop c = 0) (handed_run es db)))"
  using handed_run_facts [OF assms] by blast

theorem no_card_is_sold_twice_witness:
  "distinct (map c_id (filter (\<lambda>c. c_loop c = 0)
      (handed_run [Notice {} ''A1'' 1800 ''t'', Notice {} ''A1'' 1800 ''t'', Deliver {} ''A1''] sample_later))) \<and>
   map c_text (handed_run [Notice {} ''A1'' 1800 ''t''] sample_later) = [''AAA'', ''BBB'']"
proof -
  have "map c_text (handed_run [Notice {} ''A1'' 1800 ''t''] sample_later) = [''AAA'', ''BBB'']" by code_simp
  then show ?thesis using no_card_is_sold_twice [OF sample_later_sound] by blast
qed

end
