(* ===== verification/Store_Deals.thy ===== *)
theory Store_Deals imports Store_Props begin

text \<open>
  Deals: what a buyer is owed. An unpaid order has its cards reserved, so its payment in time is
  delivered with them; a check-out asks for the quote and can be paid at once; a payment of the
  exact amount is recorded, whenever it arrives, and nothing else is.
\<close>

section \<open>The reserved cards\<close>

lemma picked_own:
  assumes "sound db" "r \<in> set (orders db)" "o_status r = 1" "o_type r = 1"
    "\<forall>c\<in>set (cards db). mine r c \<longrightarrow> c_id c \<notin> held"
  shows "int (length (picked held r db)) = o_amount r" "\<forall>c\<in>set (picked held r db). mine r c"
proof -
  let ?cs = "sort_key c_id (cards db)"
  let ?P = "\<lambda>c. c_goods c = o_goods r \<and> c_status c = 1 \<and> \<not> c_deleted c \<and>
    (c_reserved c = Some (o_id r) \<or> c_reserved c = None) \<and> c_id c \<notin> held"
  let ?B = "filter (\<lambda>c. c_reserved c = None) (filter ?P ?cs)"
  have own: "filter (\<lambda>c. c_reserved c = Some (o_id r)) (filter ?P ?cs) = filter (mine r) ?cs"
    unfolding filter_filter by (rule filter_cong) (use assms(5) in \<open>auto simp: mine_def\<close>)
  have n: "int (length (filter (mine r) ?cs)) = o_amount r"
    using assms(1-4) by (auto simp: sound_def held_ok_def list_all_iff filter_sort)
  then have "nat (o_amount r) = length (filter (mine r) ?cs)" by linarith
  then have "picked held r db = filter (mine r) ?cs"
    unfolding picked_def Let_def own by simp
  then show "int (length (picked held r db)) = o_amount r" "\<forall>c\<in>set (picked held r db). mine r c"
    using n by simp_all
qed

definition room_for_sale :: "database \<Rightarrow> order_row \<Rightarrow> bool" where
  "room_for_sale db r \<longleftrightarrow> list_all (\<lambda>g. in_int4 (g_sales g + o_amount r)) (goods db)"

lemma finish_room:
  assumes "room_for_sale db r" "goods db1 = goods db \<or> take_stock gid n db = Some db1"
  obtains d where "finish r db0 (db1\<lparr>orders := os, cards := cs\<rparr>) = (Inr (True, False), d)"
proof -
  have "g_sales g \<in> g_sales ` set (goods db)" if "g \<in> set (goods db1)" for g
    using assms(2) that by (auto simp: in_update elim!: take_stock_cases)
  then have "\<not> (\<exists>g\<in>set (goods db1). g_id g = o_goods r \<and> \<not> in_int4 (g_sales g + o_amount r))"
    using assms(1) unfolding room_for_sale_def list_all_iff by (metis imageE)
  then show ?thesis using that by (auto simp: finish_def add_sales_def)
qed

lemma row_eqs:
  "(\<lambda>r. r\<lparr>o_status := 4, o_info := join_lines (map c_text ps), o_trade := tr, o_ret_back := again\<rparr>) = delivered_row ps tr again"
  "(\<lambda>r. r\<lparr>o_status := 2, o_trade := tr, o_ret_back := again\<rparr>) = paid_row tr again"
  by (auto simp: delivered_row_def paid_row_def)

text \<open>The row of an order after a payment that was in time.\<close>

definition in_time_row :: "int set \<Rightarrow> string \<Rightarrow> database \<Rightarrow> order_row \<Rightarrow> order_row" where
  "in_time_row held tr db r =
     (if o_type r = 1 then delivered_row (picked held r db) tr 0 r else paid_row tr 0 r)"

lemma settle_in_time:
  assumes "sound db" "r \<in> set (orders db)" "o_status r = 1"
    "\<forall>c\<in>set (cards db). mine r c \<longrightarrow> c_id c \<notin> held" "room_for_sale db r" "rune_count tr \<le> 200"
  obtains db' where "settle held (o_sn r) (cents (o_actual r)) tr False db = (Inr (True, False), db')"
    "in_time_row held tr db r \<in> set (orders db')"
proof -
  have row: "row_ok (next_order db) r" by (rule sound_row [OF assms(1,2)])
  have find: "find_order (o_sn r) db = Some r"
    unfolding find_order_def
    by (rule find_of [OF assms(2)]) (use assms(1,2) key_unique [of o_sn "orders db"] in \<open>auto simp: sound_def orders_ok_def\<close>)
  have again: "retake_coupon r db = (0, db)" using row assms(3) by (simp add: retake_coupon_def row_ok_def)
  have split: "upd_order (o_id r) f (db\<lparr>cards := cs\<rparr>) = db\<lparr>orders := set_order r f (orders db), cards := cs\<rparr>" for f cs
    by (simp add: upd_order_def)
  have member: "f r \<in> set (set_order r f (orders db))" for f using assms(2) by (auto simp: in_update)
  show ?thesis
  proof (cases "o_type r = 1")
    case True
    note own = picked_own [OF assms(1,2,3) True assms(4)]
    let ?f = "delivered_row (picked held r db) tr 0"
    let ?cs = "release (o_id r) (o_goods r) (hand_out (picked held r db) (cards db))"
    obtain d where d: "finish r db (db\<lparr>orders := set_order r ?f (orders db), cards := ?cs\<rparr>) = (Inr (True, False), d)"
      using finish_room [OF assms(5)] by blast
    have "deliver_cards held False tr r db = (Inr (True, False), d)"
      using again own(1) d row split [of ?f ?cs] by (auto simp: deliver_cards_def Let_def row_eqs row_ok_def)
    then have s: "settle held (o_sn r) (cents (o_actual r)) tr False db = (Inr (True, False), d)"
      using find assms(3,6) True by (simp add: settle_def)
    have "orders d = set_order r ?f (orders db)" using d
      by (cases rule: finish_cases) (auto simp: add_sales_def split: if_splits)
    then show ?thesis using that [OF s] member [of ?f] True by (simp add: in_time_row_def)
  next
    case False
    let ?f = "paid_row tr 0"
    obtain d where d: "finish r db (db\<lparr>orders := set_order r ?f (orders db), cards := cards db\<rparr>) = (Inr (True, False), d)"
      using finish_room [OF assms(5)] by blast
    have "record_paid False tr r db = (Inr (True, False), d)"
      using again d assms(3) split [of ?f "cards db"] by (auto simp: record_paid_def Let_def row_eqs)
    then have s: "settle held (o_sn r) (cents (o_actual r)) tr False db = (Inr (True, False), d)"
      using find assms(3,6) False by (simp add: settle_def)
    have "orders d = set_order r ?f (orders db)" using d
      by (cases rule: finish_cases) (auto simp: add_sales_def split: if_splits)
    then show ?thesis using that [OF s] member [of ?f] False by (simp add: in_time_row_def)
  qed
qed

text \<open>
  C4: after any run, an order that still waits for its payment is delivered when the payment comes:
  no other order can have taken its cards, and type 1 hands out exactly as many cards as were
  ordered, all of them reserved for this order. The payment is for the exact amount, the cards
  are not locked by another transaction at that moment, and the counter of sales has room.
\<close>

theorem payment_in_time_is_delivered:
  assumes "sound db" "r \<in> set (orders (store_run es db))" "o_status r = 1"
    "\<forall>c\<in>set (cards (store_run es db)). mine r c \<longrightarrow> c_id c \<notin> held"
    "room_for_sale (store_run es db) r" "rune_count tr \<le> 200"
  shows "\<exists>db'. settle held (o_sn r) (cents (o_actual r)) tr False (store_run es db) = (Inr (True, False), db') \<and>
    in_time_row held tr (store_run es db) r \<in> set (orders db') \<and>
    (o_type r = 1 \<longrightarrow> int (length (picked held r (store_run es db))) = o_amount r \<and>
       (\<forall>c\<in>set (picked held r (store_run es db)). mine r c))"
  using settle_in_time [OF run_sound [OF assms(1)] assms(2-6)]
    picked_own [OF run_sound [OF assms(1)] assms(2,3) _ assms(4)] by metis

theorem payment_in_time_is_delivered_witness:
  "\<exists>db'. settle {} ''A1'' 1800 ''t'' False sample_later = (Inr (True, False), db') \<and>
     in_time_row {} ''t'' sample_later sample_waiting \<in> set (orders db')"
proof -
  have "o_status sample_waiting = 1" "room_for_sale sample_later sample_waiting" "rune_count ''t'' \<le> 200"
    "o_sn sample_waiting = ''A1''" "cents (o_actual sample_waiting) = 1800"
    by code_simp+
  then show ?thesis
    using payment_in_time_is_delivered [of sample_later sample_waiting "[]" "{}" "''t''"]
      sample_later_sound sample_waiting_in by auto
qed

section \<open>Notices\<close>

text \<open>
  C20: a notice that changes anything is for the exact price of an order that waits for it, has
  expired or is short of stock; it writes the transaction number to this order, and every other
  order stays as it is.
\<close>

theorem only_exact_payments_settle:
  assumes "sound db" "settle held sn paid tr False db = (x, db')" "db' \<noteq> db"
  shows "\<exists>r\<in>set (orders db). o_sn r = sn \<and> paid = cents (o_actual r) \<and> o_status r \<in> {1, -1, 6} \<and>
    (\<exists>r'\<in>set (orders db'). same_order r r' \<and> o_trade r' = tr \<and> o_status r' \<in> {2, 4, 6}) \<and>
    filter (\<lambda>q. o_sn q \<noteq> sn) (orders db') = filter (\<lambda>q. o_sn q \<noteq> sn) (orders db)"
proof -
  obtain r where r: "find_order sn db = Some r"
    using assms(2,3) by (auto simp: settle_def split: option.splits)
  have in_r: "r \<in> set (orders db)" "o_sn r = sn" using find_order_in [OF r] by auto
  have "paid = cents (o_actual r) \<and> o_status r \<in> {1, -1, 6}"
    using assms(2,3) r by (auto simp: settle_def Let_def split: if_splits)
  moreover obtain f where f: "orders db' = set_order r f (orders db)" "same_order r (f r)" "o_trade (f r) = tr"
    "o_status (f r) \<in> {2, 4, 6}" "\<And>q. o_sn (f q) = o_sn q"
  proof (cases "o_type r = 1")
    case True
    then have "deliver_cards held False tr r db = (x, db')"
      using assms(2,3) r by (auto simp: settle_def Let_def split: if_splits)
    then show ?thesis using assms(1)
    proof (cases rule: deliver_cases)
      case (2 again)
      then show ?thesis using that [of "short_row tr again"] by (simp add: short_row_def same_order_def)
    next
      case (3 again)
      then show ?thesis using that [of "delivered_row (picked held r db) tr again"] by (simp add: delivered_row_def same_order_def)
    qed (use assms(3) in simp)
  next
    case False
    then have rec: "record_paid False tr r db = (x, db')" "o_status r = 1 \<or> o_status r = -1"
      using assms(2,3) r by (auto simp: settle_def Let_def split: if_splits)
    from rec(1) assms(1) rec(2) show ?thesis
    proof (cases rule: record_cases)
      case (2 again)
      then show ?thesis using that [of "short_row tr again"] by (simp add: short_row_def same_order_def)
    next
      case (3 again)
      then show ?thesis using that [of "paid_row tr again"] by (simp add: paid_row_def same_order_def)
    qed (use assms(3) in simp)
  qed
  moreover have "filter (\<lambda>q. o_sn q \<noteq> sn) (orders db') = filter (\<lambda>q. o_sn q \<noteq> sn) (orders db)"
    unfolding f(1)
    by (rule filter_update) (use f(5) in_r row_unique [OF assms(1) in_r(1)] in auto)
  moreover have "f r \<in> set (orders db')" using f(1) in_r(1) by (auto simp: in_update)
  ultimately show ?thesis using in_r by blast
qed

theorem only_exact_payments_settle_witness:
  "\<exists>r. r \<in> set (orders (snd sample_paid)) \<and> o_trade r = ''t'' \<and> o_id r = 1 \<and>
     o_sn r = ''A1'' \<and> snd sample_paid \<noteq> sample_later"
proof -
  obtain x db' where p: "settle {} ''A1'' 1800 ''t'' False sample_later = (x, db')" by fastforce
  have "map o_status (orders (snd sample_paid)) \<noteq> map o_status (orders sample_later)"
    "\<forall>r\<in>set (orders sample_later). o_sn r = ''A1'' \<longrightarrow> o_id r = 1" by code_simp+
  moreover from this(1) have "db' \<noteq> sample_later" using p by (auto simp: sample_paid_def)
  ultimately show ?thesis
    using only_exact_payments_settle [OF sample_later_sound p] p by (auto simp: sample_paid_def same_order_def)
qed




section \<open>Check-outs\<close>

definition discount_of :: "string \<Rightarrow> int \<Rightarrow> database \<Rightarrow> string" where
  "discount_of cp gid db =
     (if trim cp = [] then []
      else (case List.find (\<lambda>k. k_code k = cp \<and> gid \<in> set (k_goods k) \<and> \<not> k_deleted k) (coupons db) of
              None \<Rightarrow> [] | Some k \<Rightarrow> k_discount k))"

lemma redeem_discount:
  "redeem cp gid db = Inr (coupon, discount, db') \<Longrightarrow> discount = discount_of cp gid db"
  by (auto simp: redeem_def discount_of_def split: option.splits if_splits)

lemma cents_range: "- (2 ^ 63) \<le> cents s \<and> cents s < 2 ^ 63"
  using ParseYuan_range [of s] by (auto simp: cents_def split: option.splits)

lemma cents_Yuan: "\<bar>c\<bar> < 2 ^ 63 \<Longrightarrow> cents (Yuan c) = c"
  by (simp add: cents_def ParseYuan_Yuan)

lemma createOrder_quote:
  assumes "createOrder now sn held s inp db = Inr (v, db')" "sound db"
  obtains g q r where "find_good (in_gid inp) db = Inr g"
    "Quote (cents (g_price g)) (in_amount inp) (discount_of (in_coupon inp) (g_id g) db) (g_wholesale g) = Some q"
    "0 < q_actual q" "v = order_of r" "orders db' = orders db @ [r]" "o_sn r = sn" "o_status r = 1"
    "cents (o_actual r) = q_actual q" "cents (o_total r) = q_total q" "q_actual q \<le> maxCents"
    "o_amount r = in_amount inp" "o_email r = in_email inp" "o_source r = in_source inp" "o_created r = now"
    "\<not> o_deleted r" "sn \<notin> set (map o_sn (orders db))"
  using assms(1)
proof (rule createOrder_cases)
  fix g reserved db1 coupon discount db2 info q
  let ?r = "new_order now sn (next_order db) inp g coupon info q"
  assume *: "check_form s inp = Inr ()" "find_good (in_gid inp) db = Inr g"
    "reserve held g (in_amount inp) db = Inr (reserved, db1)"
    "redeem (in_coupon inp) (g_id g) db1 = Inr (coupon, discount, db2)" "quoted inp g discount = Inr q"
    "insert_order ?r reserved db2 = Inr db'" "v = order_of ?r"
  note res = reserve_sound [OF *(3) assms(2) check_form_amount [OF *(1)]]
  note red = redeem_sound [OF *(4) res(1)]
  have "in_amount inp < 2 ^ 63" using *(6) by (auto simp: insert_order_def new_order_def in_int4_def split: if_splits)
  moreover have Q: "Quote (cents (g_price g)) (in_amount inp) discount (g_wholesale g) = Some q" "0 < q_actual q"
    using *(5) by (auto simp: quoted_def split: option.splits if_splits)
  ultimately have b: "0 \<le> q_actual q" "q_actual q \<le> q_total q" "q_total q \<le> maxCents"
    using Quote_bounds [OF conjunct2 [OF cents_range] _ Q(1)] by auto
  then have "cents (Yuan (q_actual q)) = q_actual q" "cents (Yuan (q_total q)) = q_total q"
    by (auto intro!: cents_Yuan simp: maxCents_def)
  moreover have "discount = discount_of (in_coupon inp) (g_id g) db"
    using redeem_discount [OF *(4)] res(5) by (simp add: discount_of_def)
  ultimately show thesis
    using that [of g q ?r] *(2,7) Q b insert_order_cases(1,2) [OF *(6)] red(3) res(3) by (simp add: new_order_def)
qed

text \<open>
  C22: a check-out that succeeds asks for what the price table, the amount and the coupon give, more
  than nothing and no more than the column holds; a look-up by its number finds that order; and
  the payment of what it asks for, made at once, is delivered.
\<close>

theorem new_order_can_be_paid:
  assumes "sound db" "createOrder now sn held s inp db = Inr (v, db')" "plausibleSN utf8 sn"
    "list_all (\<lambda>g. in_int4 (g_sales g + in_amount inp)) (goods db')" "rune_count tr \<le> 200"
  shows "(\<exists>g q. find_good (in_gid inp) db = Inr g \<and>
      Quote (cents (g_price g)) (in_amount inp) (discount_of (in_coupon inp) (g_id g) db) (g_wholesale g) = Some q \<and>
      Actual v = q_actual q \<and> Total v = q_total q \<and> 0 < Actual v \<and> Actual v \<le> maxCents) \<and>
    orderBySN utf8 db' sn = Inr v \<and> Status v = 1 \<and>
    (\<exists>d. settle {} sn (Actual v) tr False db' = (Inr (True, False), d))"
  using assms(2,1)
proof (rule createOrder_quote)
  fix g q r
  assume g: "find_good (in_gid inp) db = Inr g"
    "Quote (cents (g_price g)) (in_amount inp) (discount_of (in_coupon inp) (g_id g) db) (g_wholesale g) = Some q"
    "0 < q_actual q" "q_actual q \<le> maxCents"
    and r: "v = order_of r" "orders db' = orders db @ [r]" "o_sn r = sn" "o_status r = 1"
    "cents (o_actual r) = q_actual q" "cents (o_total r) = q_total q" "o_amount r = in_amount inp"
    "\<not> o_deleted r" "sn \<notin> set (map o_sn (orders db))"
  have s: "sound db'" by (rule createOrder_sound [OF assms(2,1)])
  have m: "r \<in> set (orders db')" by (simp add: r(2))
  obtain d where "settle {} sn (cents (o_actual r)) tr False db' = (Inr (True, False), d)"
    using settle_in_time [OF s m r(4) _ _ assms(5), of "{}"] assms(4) r(3,7) by (auto simp: room_for_sale_def)
  moreover have "List.find (\<lambda>r. o_sn r = sn \<and> \<not> o_deleted r) (orders db') = Some r"
    by (rule find_of [OF m]) (use r(2,3,8,9) in \<open>auto simp: rev_image_eqI\<close>)
  then have "orderBySN utf8 db' sn = Inr v" using assms(3) r(1) by (simp add: orderBySN_def)
  ultimately show ?thesis using g r by (auto simp: order_of_def)
qed

theorem new_order_can_be_paid_witness:
  "\<exists>v db' d. createOrder 1000 ''A1'' {} sample_site (sample_input 1 2 ''LESS'') sample_shop = Inr (v, db') \<and>
     0 < Actual v \<and> settle {} ''A1'' (Actual v) ''t'' False db' = (Inr (True, False), d)"
proof -
  let ?c = "createOrder 1000 ''A1'' {} sample_site (sample_input 1 2 ''LESS'') sample_shop"
  have c: "\<not> isl ?c" "list_all (\<lambda>g. in_int4 (g_sales g + in_amount (sample_input 1 2 ''LESS''))) (goods (snd (projr ?c)))"
    "plausibleSN (\<lambda>s. True) ''A1''" "rune_count ''t'' \<le> 200"
    by code_simp+
  then obtain v db' where v: "?c = Inr (v, db')" by (cases ?c) auto
  then have "list_all (\<lambda>g. in_int4 (g_sales g + in_amount (sample_input 1 2 ''LESS''))) (goods db')" using c(2) by simp
  from new_order_can_be_paid [OF sample_sound v c(3) this c(4)] v show ?thesis by blast
qed

section \<open>Unpaid orders\<close>

definition waits :: "int \<Rightarrow> int \<Rightarrow> order_row \<Rightarrow> bool" where
  "waits now mins r \<longleftrightarrow> o_status r = 1 \<and> \<not> o_deleted r \<and> now - minutes mins < o_created r"

definition waiting_of :: "int \<Rightarrow> int \<Rightarrow> (order_row \<Rightarrow> bool) \<Rightarrow> database \<Rightarrow> nat" where
  "waiting_of now mins P db = length (filter (\<lambda>r. waits now mins r \<and> P r) (orders db))"

definition within_quota :: "int \<Rightarrow> int \<Rightarrow> database \<Rightarrow> bool" where
  "within_quota now mins db \<longleftrightarrow>
     (\<forall>email. waiting_of now mins (\<lambda>r. lower (o_email r) = email) db \<le> 3) \<and>
     (\<forall>source. source \<noteq> [] \<longrightarrow> waiting_of now mins (\<lambda>r. o_source r = source) db \<le> 5)"

text \<open>Check-outs in the order of their times, under one setting of the time to pay.\<close>

fun in_order :: "int \<Rightarrow> int \<Rightarrow> store_event list \<Rightarrow> bool" where
  "in_order mins t [] = True"
| "in_order mins t (CheckOut now sn held s inp # es) =
     (t \<le> now \<and> site_expire_min s = mins \<and> in_order mins now es)"
| "in_order mins t (e # es) = in_order mins t es"

fun last_time :: "int \<Rightarrow> store_event list \<Rightarrow> int" where
  "last_time t [] = t"
| "last_time t (CheckOut now sn held s inp # es) = last_time now es"
| "last_time t (e # es) = last_time t es"

lemma length_filter_update:
  "(\<And>r. r \<in> set rs \<Longrightarrow> P r \<Longrightarrow> Q (f r) \<Longrightarrow> Q r) \<Longrightarrow> length (filter Q (update_rows P f rs)) \<le> length (filter Q rs)"
proof (induction rs)
  case (Cons r rs)
  have "length (filter Q (update_rows P f rs)) \<le> length (filter Q rs)" by (rule Cons.IH) (use Cons.prems in auto)
  then show ?case using Cons.prems [of r] by auto
qed simp

text \<open>No order starts to wait again.\<close>

definition no_new :: "database \<Rightarrow> database \<Rightarrow> bool" where
  "no_new db db' \<longleftrightarrow>
     (\<exists>P f. orders db' = update_rows P f (orders db) \<and>
        (\<forall>r\<in>set (orders db). P r \<and> o_status (f r) = 1 \<longrightarrow>
           o_status r = 1 \<and> o_deleted (f r) = o_deleted r \<and> o_created (f r) = o_created r \<and>
           o_email (f r) = o_email r \<and> o_source (f r) = o_source r))"

lemma no_newI:
  assumes "orders db' = update_rows P f (orders db)"
    "\<And>r. r \<in> set (orders db) \<Longrightarrow> P r \<Longrightarrow> o_status (f r) = 1 \<Longrightarrow>
       o_status r = 1 \<and> o_deleted (f r) = o_deleted r \<and> o_created (f r) = o_created r \<and>
       o_email (f r) = o_email r \<and> o_source (f r) = o_source r"
  shows "no_new db db'"
  using assms unfolding no_new_def by blast

lemma no_new_refl: "orders db' = orders db \<Longrightarrow> no_new db db'"
  by (rule no_newI [of _ "\<lambda>r. False" id]) (simp_all add: update_none)

lemma no_new_quota:
  assumes "no_new db db'" "within_quota now mins db"
  shows "within_quota now mins db'"
proof -
  obtain P f where o: "orders db' = update_rows P f (orders db)"
    "\<forall>r\<in>set (orders db). P r \<and> o_status (f r) = 1 \<longrightarrow>
       o_status r = 1 \<and> o_deleted (f r) = o_deleted r \<and> o_created (f r) = o_created r \<and>
       o_email (f r) = o_email r \<and> o_source (f r) = o_source r"
    using assms(1) unfolding no_new_def by blast
  have "waiting_of now mins (\<lambda>r. lower (o_email r) = email) db' \<le> waiting_of now mins (\<lambda>r. lower (o_email r) = email) db"
    "waiting_of now mins (\<lambda>r. o_source r = source) db' \<le> waiting_of now mins (\<lambda>r. o_source r = source) db"
    for email source
    unfolding waiting_of_def o(1) by (rule length_filter_update; use o(2) in \<open>auto simp: waits_def\<close>)+
  then show ?thesis using assms(2) unfolding within_quota_def by (meson order_trans)
qed

lemma settle_no_new:
  assumes "settle held sn paid tr redeliver db = (x, db')" "sound db"
  shows "no_new db db'"
  using assms(1)
proof (cases rule: settle_cases)
  case (2 r tr')
  from 2(4) assms(2) show ?thesis
    by (cases rule: deliver_cases)
      (auto intro: no_new_refl no_newI simp: short_row_def delivered_row_def)
next
  case (3 r tr')
  from 3(5) assms(2) 3(3) show ?thesis
    by (cases rule: record_cases) (auto intro: no_new_refl no_newI simp: short_row_def paid_row_def)
qed (simp add: no_new_refl)

lemma expireOne_no_new:
  assumes "expireOne j coupon db = Some db'"
  shows "no_new db db'"
  using assms
proof (cases rule: expireOne_cases)
  case (2 r db1)
  have "orders db' = update_rows (\<lambda>r. o_id r = j) (\<lambda>r. r\<lparr>o_status := -1, o_ret_back := 1\<rparr>) (orders db)"
    using give_back_cases [OF 2(4)] put_back_cases [OF 2(5)] by (auto simp: upd_order_def split: if_splits)
  then show ?thesis by (rule no_newI) simp
qed (simp add: no_new_refl)

lemma orderSave_no_new:
  assumes "orderSave j f db = Inr db'" "sound db"
  shows "no_new db db'"
  using assms(1)
proof (rule orderSave_orders)
  fix r takes
  assume r: "r \<in> set (orders db)" "check_edit r f = Inr ()"
    and o: "orders db' = set_order r (owed_row takes f) (orders db)"
  show "no_new db db'"
  proof (rule no_newI [OF o])
    fix q
    assume "q \<in> set (orders db)" "o_id q = o_id r" "o_status (owed_row takes f q) = 1"
    moreover from this have "q = r" using row_unique [OF assms(2) r(1)] by blast
    ultimately show "o_status q = 1 \<and> o_deleted (owed_row takes f q) = o_deleted q \<and>
        o_created (owed_row takes f q) = o_created q \<and> o_email (owed_row takes f q) = o_email q \<and>
        o_source (owed_row takes f q) = o_source q"
      using check_edit_status(1) [OF r(2)] by (auto simp: owed_row_def may_set_def)
  qed
qed

lemma step_no_new:
  assumes "sound db" "\<And>now sn held s inp. e \<noteq> CheckOut now sn held s inp"
  shows "no_new db (store_step e db)"
proof (cases e)
  case (Notice held sn paid tr)
  then show ?thesis using settle_no_new [OF prod.collapse [symmetric] assms(1)] by (simp add: snd_Complete)
next
  case (Deliver held sn)
  then show ?thesis using settle_no_new [OF prod.collapse [symmetric] assms(1)] by (simp add: snd_Redeliver)
next
  case (ExpireOne j)
  then show ?thesis using expireOne_no_new by (auto simp: no_new_refl split: option.splits)
next
  case (Edit j f)
  then show ?thesis using orderSave_no_new [OF _ assms(1)] by (auto simp: no_new_refl split: sum.splits)
qed (use assms(2) in blast)

lemma quota_later:
  assumes "within_quota t mins db" "t \<le> now"
  shows "within_quota now mins db"
proof -
  have "length (filter (\<lambda>r. waits now mins r \<and> P r) os) \<le> length (filter (\<lambda>r. waits t mins r \<and> P r) os)" for P os
    by (induction os) (use assms(2) in \<open>auto simp: waits_def\<close>)
  then show ?thesis using assms(1) unfolding within_quota_def waiting_of_def by (meson order_trans)
qed

lemma createOrder_quota:
  assumes "createOrder now sn held s inp db = Inr (v, db')" "sound db" "0 < site_expire_min s"
    "within_quota now (site_expire_min s) db"
  shows "within_quota now (site_expire_min s) db'"
proof -
  have quota: "unpaidQuota now (in_source inp) (in_email inp) (site_expire_min s) db = Inr ()"
    using assms(1) by (rule createOrder_cases)
  obtain r where r: "orders db' = orders db @ [r]" "o_email r = in_email inp" "o_source r = in_source inp"
    using assms(1,2) by (rule createOrder_quote) blast
  let ?n = "\<lambda>P. waiting_of now (site_expire_min s) P db"
  have room: "?n (\<lambda>q. lower (o_email q) = lower (o_email r)) < 3"
    "o_source r \<noteq> [] \<Longrightarrow> ?n (\<lambda>q. o_source q = o_source r) < 5"
    using quota assms(3) r(2,3)
    by (auto simp: unpaidQuota_def Let_def waiting_of_def waits_def filter_filter conj_commute conj_left_commute)
  have add: "waiting_of now (site_expire_min s) P db' \<le> (if P r then Suc (?n P) else ?n P)" for P
    using r(1) by (simp add: waiting_of_def)
  show ?thesis
    unfolding within_quota_def
  proof (intro conjI allI impI)
    fix email
    show "waiting_of now (site_expire_min s) (\<lambda>r. lower (o_email r) = email) db' \<le> 3"
      using add [of "\<lambda>r. lower (o_email r) = email"] room(1) assms(4)
      by (cases "lower (o_email r) = email") (auto simp: within_quota_def intro: order_trans)
    fix source :: string
    assume "source \<noteq> []"
    then show "waiting_of now (site_expire_min s) (\<lambda>r. o_source r = source) db' \<le> 5"
      using add [of "\<lambda>r. o_source r = source"] room(2) assms(4)
      by (cases "o_source r = source") (auto simp: within_quota_def intro: order_trans)
  qed
qed

lemma run_quota:
  "sound db \<Longrightarrow> 0 < mins \<Longrightarrow> within_quota t mins db \<Longrightarrow> in_order mins t es \<Longrightarrow>
   within_quota (last_time t es) mins (store_run es db)"
proof (induction es arbitrary: t db)
  case (Cons e es)
  have s: "sound (store_step e db)" by (rule step_sound [OF Cons.prems(1)])
  show ?case
  proof (cases "\<exists>now sn held s inp. e = CheckOut now sn held s inp")
    case True
    then obtain now sn held si inp where e: "e = CheckOut now sn held si inp" by blast
    with Cons.prems(4) have now: "t \<le> now" "site_expire_min si = mins" "in_order mins now es" by simp_all
    have "within_quota now mins (store_step e db)"
      using quota_later [OF Cons.prems(3) now(1)] createOrder_quota [of now sn held si inp db] Cons.prems(1,2) now(2)
      by (auto simp: e split: sum.splits)
    then show ?thesis using Cons.IH [OF s Cons.prems(2) _ now(3)] by (simp add: e)
  next
    case False
    then have "no_new db (store_step e db)" by (intro step_no_new [OF Cons.prems(1)]) blast
    then have "within_quota t mins (store_step e db)" by (rule no_new_quota [OF _ Cons.prems(3)])
    moreover have "in_order mins t es \<and> last_time t (e # es) = last_time t es"
      using False Cons.prems(4) by (cases e) auto
    ultimately show ?thesis using Cons.IH [OF s Cons.prems(2)] by simp
  qed
qed simp

text \<open>
  C23: however check-outs, payments, expiries and edits follow one another, nobody holds stock with more
  than three unpaid orders of one email, written in any case, or five of one address, that have not
  expired: an order that is paid or has expired never waits again.
\<close>

theorem unpaid_orders_stay_limited:
  assumes "sound db" "0 < mins" "within_quota t mins db" "in_order mins t es"
  shows "length (filter (\<lambda>r. waits (last_time t es) mins r \<and> lower (o_email r) = email) (orders (store_run es db))) \<le> 3 \<and>
    (source \<noteq> [] \<longrightarrow>
     length (filter (\<lambda>r. waits (last_time t es) mins r \<and> o_source r = source) (orders (store_run es db))) \<le> 5)"
  using run_quota [OF assms] unfolding within_quota_def waiting_of_def by blast

theorem unpaid_orders_stay_limited_witness:
  "length (filter (\<lambda>r. waits 1000 5 r \<and> lower (o_email r) = ''a@b.c'') (orders sample_later)) \<le> 3 \<and>
   length (filter (\<lambda>r. waits 1000 5 r \<and> o_source r = ''::'') (orders sample_later)) = 2"
proof -
  have o: "orders sample_shop = []" by (simp add: sample_shop_def)
  have q: "within_quota 1000 5 sample_shop" unfolding within_quota_def waiting_of_def o by simp
  have t: "in_order 5 1000 sample_events" "last_time 1000 sample_events = 1000"
    "length (filter (\<lambda>r. waits 1000 5 r \<and> o_source r = ''::'') (orders sample_later)) = 2" by code_simp+
  from unpaid_orders_stay_limited [OF sample_sound _ q t(1), of "''a@b.c''"] t(2,3) show ?thesis
    unfolding sample_run by simp
qed

end
