(* ===== verification/Cashier_Sync.thy ===== *)
theory Cashier_Sync imports Store Pay_Page begin

text \<open>
  How a question of the waiting page settles an order: \<open>poll\<close> of
  \<open>src/internal/httpx/server.go\<close> reads the order, asks the wallet and the USDT service about it
  (\<open>syncCldxOrder\<close> of \<open>cldx.go\<close>, \<open>syncUSDTOrder\<close> of \<open>usdt.go\<close>), which may complete it, and
  answers with a code. What the services answer, what was locked for the order when its payment
  page was opened, and the rows that other transactions hold are parameters.
\<close>

section \<open>Transaction numbers\<close>

text \<open>\<open>^[A-Za-z0-9._@-]{1,150}$\<close>\<close>

definition cldxPayer :: "string \<Rightarrow> bool" where
  "cldxPayer s \<longleftrightarrow> 1 \<le> length s \<and> length s \<le> 150 \<and>
     list_all (\<lambda>c. is_upper c \<or> is_lower c \<or> is_digit c \<or> c \<in> {CHR ''.'', CHR ''_'', CHR ''@'', CHR ''-''}) s"

definition cldxTradeNo :: "string \<Rightarrow> string \<Rightarrow> string \<times> bool" where
  "cldxTradeNo sn sender0 =
     (let base = ''cldx:'' @ sn; sender = trim sender0
      in if sender = [] then (base, True)
         else if \<not> cldxPayer sender then (base, False)
         else (base @ '':'' @ sender, True))"

text \<open>The shape of \<open>newSN\<close>.\<close>

definition validSN :: "string \<Rightarrow> bool" where
  "validSN sn \<longleftrightarrow> length sn = 16 \<and>
     list_all (\<lambda>c. is_digit c \<or> c \<in> set ''ABCDEF'') sn"

section \<open>Services\<close>

record receipt =
  r_paid :: bool
  r_amount :: int
  r_refunded :: int
  r_from :: string

text \<open>
  \<open>cldx_minor\<close> is the locked quote (None: the read failed, 0: no quote), \<open>usdt_no\<close> the number of
  the locked invoice (None: there is none, or the read failed); an answer is None when the
  service or its cache gave an error.
\<close>

record services =
  cldx_enabled :: bool
  cldx_minor :: "int option"
  cldx_receipt :: "receipt option"
  usdt_enabled :: bool
  usdt_no :: "string option"
  usdt_receipt :: "receipt option"

definition channel :: "int \<Rightarrow> database \<Rightarrow> string option" where
  "channel i db = map_option p_check (List.find (\<lambda>p. p_id p = i \<and> \<not> p_deleted p) (pays db))"

definition open_order :: "order_info \<Rightarrow> bool" where
  "open_order v \<longleftrightarrow> Status v = 1 \<or> Status v = -1"

definition syncCldxOrder ::
  "(string \<Rightarrow> bool) \<Rightarrow> int set \<Rightarrow> services \<Rightarrow> order_info \<Rightarrow> database \<Rightarrow> order_info \<times> database" where
  "syncCldxOrder utf8 held sv v db =
     (if \<not> cldx_enabled sv \<or> \<not> open_order v \<or> channel (PayID v) db \<noteq> Some ''cldx'' then (v, db)
      else
        (case (cldx_minor sv, cldx_receipt sv) of
           (Some want, Some item) \<Rightarrow>
             if want \<le> 0 \<or> \<not> r_paid item \<or> r_refunded item \<noteq> 0 \<or> r_amount item \<noteq> want then (v, db)
             else
               (case Complete held (SN v) (Actual v) (fst (cldxTradeNo (SN v) (r_from item))) db of
                  (Inl e, db') \<Rightarrow> (v, db')
                | (Inr already, db') \<Rightarrow>
                    (case OrderBySNChecked utf8 db' (SN v) of Inl e \<Rightarrow> (v, db') | Inr nxt \<Rightarrow> (nxt, db')))
         | _ \<Rightarrow> (v, db)))"

definition has_prefix :: "string \<Rightarrow> string \<Rightarrow> bool" where
  "has_prefix s p \<longleftrightarrow> take (length p) s = p"

definition syncUSDTOrder ::
  "(string \<Rightarrow> bool) \<Rightarrow> int set \<Rightarrow> services \<Rightarrow> order_info \<Rightarrow> database \<Rightarrow> order_info \<times> database" where
  "syncUSDTOrder utf8 held sv v db =
     (if \<not> usdt_enabled sv \<or> \<not> open_order v \<or> channel (PayID v) db \<noteq> Some ''usdt'' then (v, db)
      else
        (case (usdt_no sv, usdt_receipt sv) of
           (Some no, Some item) \<Rightarrow>
             if \<not> has_prefix no (''shop-'' @ SN v @ ''-'') \<or> \<not> r_paid item \<or> r_amount item \<noteq> Actual v then (v, db)
             else
               (case Complete held (SN v) (Actual v) (''usdt:'' @ r_from item) db of (res, db') \<Rightarrow>
                  if (case res of Inl e \<Rightarrow> \<not> IsPaidShort e | Inr already \<Rightarrow> False) then (v, db')
                   else (case OrderBySNChecked utf8 db' (SN v) of Inl e \<Rightarrow> (v, db') | Inr fresh \<Rightarrow> (fresh, db')))
         | _ \<Rightarrow> (v, db)))"

section \<open>The question\<close>

definition synced_order ::
  "(string \<Rightarrow> bool) \<Rightarrow> int set \<Rightarrow> services \<Rightarrow> order_info \<Rightarrow> database \<Rightarrow> order_info \<times> database" where
  "synced_order utf8 held sv v db =
     (if open_order v then
        (case syncCldxOrder utf8 held sv v db of (v1, db1) \<Rightarrow> syncUSDTOrder utf8 held sv v1 db1)
      else (v, db))"

definition code_of :: "int \<Rightarrow> nat" where
  "code_of s = (if s = -1 then 400001 else if s = 1 then 400000
                else if s \<noteq> 2 \<and> s \<noteq> 3 \<and> s \<noteq> 4 then 400002 else 200)"

definition poll_order ::
  "(string \<Rightarrow> bool) \<Rightarrow> int set \<Rightarrow> services \<Rightarrow> string \<Rightarrow> database \<Rightarrow> nat \<times> database" where
  "poll_order utf8 held sv sn db =
     (case OrderBySNChecked utf8 db sn of
        Inl e \<Rightarrow> (pollLookupFailed (if IsNotFound e then NoSuchOrder else LookupError), db)
      | Inr v0 \<Rightarrow> (case synced_order utf8 held sv v0 db of (v, db') \<Rightarrow> (code_of (Status v), db')))"

end
