(* ===== verification/Sync_Props.thy ===== *)
theory Sync_Props imports Cashier_Sync Store_Deals Pay_Props begin

text \<open>
  From the wallet to the page: a payment that the wallet reports completes the order when the page
  asks next, and the page opens the order.
\<close>

section \<open>Look-ups\<close>

lemma rune_count_le: "rune_count s \<le> length s"
  by (simp add: rune_count_def)

lemma hex_char_code:
  assumes "is_digit c \<or> c \<in> set ''ABCDEF''"
  shows "32 \<le> code c \<and> code c < 127"
  using assms by (auto simp: is_digit_def code_def)

lemma no_control: "list_all (\<lambda>c. 32 \<le> code c \<and> code c < 127) s \<Longrightarrow> \<not> has_control s"
  by (induction s rule: has_control.induct) auto

lemma validSN_plausible:
  assumes "validSN sn" "enc sn"
  shows "plausibleSN enc sn" "plausibleOrderSN enc sn"
proof -
  have c: "list_all (\<lambda>c. 32 \<le> code c \<and> code c < 127) sn" and n: "length sn = 16"
    using assms(1) hex_char_code by (auto simp: validSN_def list_all_iff)
  have "CHR 0x00 \<notin> set sn" using c by (auto simp: list_all_iff code_def)
  then show "plausibleSN enc sn" using assms(2) n by (auto simp: plausibleSN_def)
  show "plausibleOrderSN enc sn"
    using assms(2) n no_control [OF c] rune_count_le [of sn] by (auto simp: plausibleOrderSN_def)
qed

lemma look_up:
  assumes "sound db" "r \<in> set (orders db)" "\<not> o_deleted r" "plausibleSN enc (o_sn r)" "plausibleOrderSN enc (o_sn r)"
  shows "OrderBySNChecked enc db (o_sn r) = Inr (order_of r)"
proof -
  have "List.find (\<lambda>q. o_sn q = o_sn r \<and> \<not> o_deleted q) (orders db) = Some r"
    by (rule find_of) (use assms(1-3) key_unique [of o_sn "orders db"] in \<open>auto simp: sound_def orders_ok_def\<close>)
  then show ?thesis using assms(4,5) by (simp add: OrderBySNChecked_def orderBySN_def)
qed

section \<open>From the wallet to the page\<close>

definition wallet_paid :: "services \<Rightarrow> receipt \<Rightarrow> bool" where
  "wallet_paid sv item \<longleftrightarrow> cldx_enabled sv \<and> cldx_receipt sv = Some item \<and> r_paid item \<and> r_refunded item = 0 \<and>
     0 < r_amount item \<and> cldx_minor sv = Some (r_amount item)"

lemma tradeNo_short: "length sn \<le> 44 \<Longrightarrow> rune_count (fst (cldxTradeNo sn sender)) \<le> 200"
  using rune_count_le [of "fst (cldxTradeNo sn sender)"]
  by (auto simp: cldxTradeNo_def Let_def cldxPayer_def split: if_splits)

text \<open>The answer of the server and what the page makes of it.\<close>

definition code_reply :: "nat \<Rightarrow> reply" where
  "code_reply n = Reply True (Some (Obj [(''code'', Num (nnat n))]))"

lemma poll_order_served:
  "\<exists>synced l. code_reply (fst (poll_order enc held sv sn db)) = served synced l"
proof (cases "OrderBySNChecked enc db sn")
  case (Inl e)
  then have "code_reply (fst (poll_order enc held sv sn db)) =
      served id (if IsNotFound e then NoSuchOrder else LookupError)"
    by (simp add: code_reply_def served_def poll_order_def poll_def)
  then show ?thesis by blast
next
  case (Inr v)
  then have "code_reply (fst (poll_order enc held sv sn db)) =
      served (\<lambda>s. Status (fst (synced_order enc held sv v db))) (OrderWith (Status v))"
    by (auto simp: code_reply_def served_def poll_order_def poll_def code_of_def Let_def synced_order_def
        open_order_def split: prod.split)
  then show ?thesis by blast
qed

lemma synced_wallet:
  assumes "sound db" "r \<in> set (orders db)" "\<not> o_deleted r" "o_status r = 1" "validSN (o_sn r)" "enc (o_sn r)"
    "\<forall>c\<in>set (cards db). mine r c \<longrightarrow> c_id c \<notin> held" "room_for_sale db r"
    "channel (o_pay r) db = Some ''cldx''" "wallet_paid sv item"
  obtains d r' where "poll_order enc held sv (o_sn r) db = (200, d)" "r' \<in> set (orders d)"
    "r' = in_time_row held (fst (cldxTradeNo (o_sn r) (r_from item))) db r"
proof -
  let ?tr = "fst (cldxTradeNo (o_sn r) (r_from item))"
  let ?r = "in_time_row held ?tr db r"
  have pl: "plausibleSN enc (o_sn r)" "plausibleOrderSN enc (o_sn r)"
    using validSN_plausible assms(5,6) by blast+
  have n: "length (o_sn r) \<le> 44" using assms(5) by (simp add: validSN_def)
  obtain d where d: "settle held (o_sn r) (cents (o_actual r)) ?tr False db = (Inr (True, False), d)" "?r \<in> set (orders d)"
    using settle_in_time [OF assms(1,2,4,7,8) tradeNo_short [OF n]] by blast
  have sd: "sound d" by (rule settle_sound [OF d(1) assms(1)])
  have keep: "o_sn ?r = o_sn r" "o_deleted ?r = o_deleted r" "o_status ?r = 4 \<or> o_status ?r = 2"
    by (auto simp: in_time_row_def delivered_row_def paid_row_def)
  have again: "OrderBySNChecked enc d (o_sn r) = Inr (order_of ?r)"
    using look_up [OF sd d(2)] keep assms(3) pl by simp
  have v: "Status (order_of r) = 1" "PayID (order_of r) = o_pay r" "SN (order_of r) = o_sn r"
    "Actual (order_of r) = cents (o_actual r)" "Status (order_of ?r) = o_status ?r"
    using assms(4) by (simp_all add: order_of_def)
  have "syncCldxOrder enc held sv (order_of r) db = (order_of ?r, d)"
    using assms(9,10) d(1) again v by (simp add: syncCldxOrder_def open_order_def wallet_paid_def Complete_def)
  moreover have "syncUSDTOrder enc held sv (order_of ?r) d = (order_of ?r, d)"
    using keep(3) v(5) by (auto simp: syncUSDTOrder_def open_order_def)
  ultimately have "synced_order enc held sv (order_of r) db = (order_of ?r, d)"
    using v(1) by (simp add: synced_order_def open_order_def)
  then have "poll_order enc held sv (o_sn r) db = (200, d)"
    using look_up [OF assms(1-3) pl] keep(3) v(5) by (auto simp: poll_order_def code_of_def)
  then show ?thesis using that d(2) by blast
qed

text \<open>
  C5: after any run of the shop, when the wallet reports the locked amount for an order that still
  waits, the next question of a page that still asks is answered that it is paid, the order then
  has its cards and the transaction number of the wallet, and the page opens it and asks no more.
\<close>

theorem wallet_payment_opens_the_page:
  assumes "sound db" "r \<in> set (orders (store_run es db))" "\<not> o_deleted r" "o_status r = 1"
    "validSN (o_sn r)" "enc (o_sn r)" "channel (o_pay r) (store_run es db) = Some ''cldx''" "wallet_paid sv item"
    "\<forall>c\<in>set (cards (store_run es db)). mine r c \<longrightarrow> c_id c \<notin> held" "room_for_sale (store_run es db) r"
    "polling w" "state w \<noteq> None"
  shows "\<exists>n d w'. poll_order enc held sv (o_sn r) (store_run es db) = (n, d) \<and>
    in_time_row held (fst (cldxTradeNo (o_sn r) (r_from item))) (store_run es db) r \<in> set (orders d) \<and>
    cashier_run k (o_sn r) [Tick, Answered (code_reply n)] w = Some w' \<and>
    location w' = Some (detail_url (o_sn r)) \<and> \<not> polling w'"
proof -
  obtain d r' where d: "poll_order enc held sv (o_sn r) (store_run es db) = (200, d)" "r' \<in> set (orders d)"
    "r' = in_time_row held (fst (cldxTradeNo (o_sn r) (r_from item))) (store_run es db) r"
    using synced_wallet [of "store_run es db" r enc held sv item] run_sound [OF assms(1)] assms by blast
  obtain w' where w': "cashier_run k (o_sn r) [Tick, Answered (code_reply 200)] w = Some w'"
    using assms(11) by (simp split: option.splits)
  have "says k (code_reply 200) 200" "200 \<in> finals k" by (simp_all add: says_def code_reply_def finals_def)
  then have "location w' = Some (detail_url (o_sn r))" "\<not> polling w'"
    using run_settles [OF w' assms(12)] by (auto simp: settles_def)
  then show ?thesis using d w' by blast
qed

definition sample_services :: services where
  "sample_services =
     \<lparr>cldx_enabled = True, cldx_minor = Some 500,
      cldx_receipt = Some \<lparr>r_paid = True, r_amount = 500, r_refunded = 0, r_from = ''bob''\<rparr>,
      usdt_enabled = False, usdt_no = None, usdt_receipt = None\<rparr>"

text \<open>The sample order under a number as the shop makes them.\<close>

definition sample_number :: string where
  "sample_number = ''00A1B2C3D4E5F607''"

definition sample_later' :: database where
  "sample_later' = store_run [sample_buys sample_number 1 2 ''LESS''] sample_shop"

theorem wallet_payment_opens_the_page_witness:
  "\<exists>n d w. poll_order (\<lambda>s. True) {} sample_services sample_number sample_later' = (n, d) \<and>
     cashier_run Cldx sample_number [Tick, Answered (code_reply n)] (cashier_ready (Some NothingYet) (Some True)) = Some w \<and>
     location w = Some (detail_url sample_number)"
proof -
  let ?r = "hd (orders sample_later')"
  have r: "orders sample_later' \<noteq> []" "o_deleted ?r = False" "o_status ?r = 1" "validSN (o_sn ?r)" "o_sn ?r = sample_number"
    "channel (o_pay ?r) sample_later' = Some ''cldx''" "room_for_sale sample_later' ?r"
    by code_simp+
  let ?item = "\<lparr>r_paid = True, r_amount = 500, r_refunded = 0, r_from = ''bob''\<rparr>"
  have w: "wallet_paid sample_services ?item"
    by (simp add: wallet_paid_def sample_services_def)
  have "sound sample_later'" unfolding sample_later'_def by (rule run_sound [OF sample_sound])
  moreover have "?r \<in> set (orders sample_later')" using r(1) by simp
  moreover have "polling (cashier_ready (Some NothingYet) (Some True))"
    "state (cashier_ready (Some NothingYet) (Some True)) \<noteq> None" by (simp_all add: cashier_ready_def)
  ultimately have "\<exists>n d w'. poll_order (\<lambda>s. True) {} sample_services (o_sn ?r) (store_run [] sample_later') = (n, d) \<and>
      in_time_row {} (fst (cldxTradeNo (o_sn ?r) (r_from ?item))) (store_run [] sample_later') ?r \<in> set (orders d) \<and>
      cashier_run Cldx (o_sn ?r) [Tick, Answered (code_reply n)] (cashier_ready (Some NothingYet) (Some True)) = Some w' \<and>
      location w' = Some (detail_url (o_sn ?r)) \<and> \<not> polling w'"
    using r w by (intro wallet_payment_opens_the_page) simp_all
  then show ?thesis unfolding r(5) foldl_Nil by blast
qed

section \<open>Late payments and long numbers\<close>









text \<open>
  C40: an order number of more than 64 bytes, which the column and the check of the poll allow, is
  never found: the page is told to wait for as long as it asks, although the order may be paid.
\<close>

theorem long_order_numbers_wait_for_ever:
  assumes "r \<in> set (orders db)" "\<not> o_deleted r" "64 < length (o_sn r)" "plausibleOrderSN enc (o_sn r)"
  shows "poll_order enc held sv (o_sn r) db = (400000, db)"
proof -
  have "orderBySN enc db (o_sn r) = Inl OrderNotFound"
    using assms(3) by (simp add: orderBySN_def plausibleSN_def)
  then have "OrderBySNChecked enc db (o_sn r) = Inl DatabaseError"
    using assms(1,2,4) by (auto simp: OrderBySNChecked_def IsNotFound_def)
  then show ?thesis by (simp add: poll_order_def pollLookupFailed_def IsNotFound_def)
qed

definition imported :: database where
  "imported = sample_later\<lparr>orders := [sample_waiting\<lparr>o_sn := replicate 65 (CHR ''7''), o_status := 4\<rparr>]\<rparr>"

theorem long_order_numbers_wait_for_ever_witness:
  "poll_order (\<lambda>s. True) {} sample_services (replicate 65 (CHR ''7'')) imported = (400000, imported)"
proof -
  let ?r = "sample_waiting\<lparr>o_sn := replicate 65 (CHR ''7''), o_status := 4\<rparr>"
  have "o_deleted ?r = False" "plausibleOrderSN (\<lambda>s. True) (o_sn ?r)" by code_simp+
  then show ?thesis
    using long_order_numbers_wait_for_ever [of ?r imported "\<lambda>s. True" "{}" sample_services] by (simp add: imported_def)
qed

end
