(* ===== verification/Tables.thy ===== *)
theory Tables imports Main begin

text \<open>
  Go's maps as lists of pairs without a key twice: what is found after entries are dropped, deleted or put.
\<close>

definition unique_keys :: "('k \<times> 'v) list \<Rightarrow> bool" where
  "unique_keys xs \<longleftrightarrow> distinct (map fst xs)"

lemma unique_Nil [simp]: "unique_keys []"
  by (simp add: unique_keys_def)

lemma unique_filter [simp, intro]: "unique_keys xs \<Longrightarrow> unique_keys (filter keep xs)"
  by (simp add: unique_keys_def distinct_map_filter)

lemma unique_put [simp]: "unique_keys xs \<Longrightarrow> unique_keys ((k, v) # filter (\<lambda>x. fst x \<noteq> k) xs)"
  by (auto simp: unique_keys_def distinct_map_filter)

lemma found_after_delete [simp]: "map_of (filter (\<lambda>x. fst x \<noteq> k) xs) j = (if j = k then None else map_of xs j)"
  by (induction xs) auto

lemma found_in_rest:
  "unique_keys rs \<Longrightarrow> (map_of (filter keep rs) j = Some v) = (map_of rs j = Some v \<and> keep (j, v))"
  by (auto simp: unique_keys_def map_of_eq_Some_iff distinct_map_filter)

lemma found_or_dropped:
  assumes "unique_keys rs" "map_of rs j = Some v"
  shows "map_of (filter keep rs) j = (if keep (j, v) then Some v else None)"
proof (cases "keep (j, v)")
  case True
  then show ?thesis using found_in_rest [OF assms(1)] assms(2) by simp
next
  case False
  then have "map_of (filter keep rs) j \<noteq> Some w" for w using found_in_rest [OF assms(1), of keep] assms(2) by force
  then show ?thesis using False by (meson not_Some_eq)
qed

lemma not_found_in_rest: "map_of rs j = None \<Longrightarrow> map_of (filter keep rs) j = None"
  by (induction rs) auto

lemma counted_after_delete:
  "unique_keys xs \<Longrightarrow> map_of xs k = Some v \<Longrightarrow>
     length (filter P xs) = length (filter P (filter (\<lambda>x. fst x \<noteq> k) xs)) + (if P (k, v) then 1 else 0)"
proof (induction xs)
  case (Cons x xs)
  show ?case
  proof (cases "fst x = k")
    case True
    have "k \<notin> fst ` set xs" using Cons.prems(1) True by (simp add: unique_keys_def)
    then have "fst y \<noteq> k" if "y \<in> set xs" for y using that by (metis image_eqI)
    then have "filter (\<lambda>x. fst x \<noteq> k) xs = xs" by (simp add: filter_id_conv)
    moreover have "x = (k, v)" using True Cons.prems(2) by (cases x) simp
    ultimately show ?thesis by simp
  next
    case False
    then show ?thesis using Cons by (cases x) (simp add: unique_keys_def)
  qed
qed simp

end
