(* ===== verification/Site_Cache.thy ===== *)
theory Site_Cache imports Machines begin

text \<open>
  The settings of the shop and their cache, \<open>Site\<close>, \<open>SiteOK\<close>, \<open>loadSite\<close>, \<open>InvalidateSite\<close> and
  \<open>PutSetting\<close> of \<open>src/internal/store/store.go\<close>. Calls run at the same time: between the locked
  parts of \<open>SiteOK\<close>, and between the write of a setting and the drop of the cache, anything else may
  happen. \<open>fmt.Sscan\<close> of an integer is the parameter \<open>scan\<close>; times are nanoseconds; the count of
  the generations does not wrap around.
\<close>

section \<open>Reading the settings\<close>

record site_settings =
  s_title :: string
  s_logo :: string
  s_text_logo :: string
  s_keywords :: string
  s_description :: string
  s_notice :: string
  s_footer :: string
  s_language :: string
  s_search_pwd :: bool
  s_expire_min :: int

type_synonym setting_rows = "(string \<times> string) list"

text \<open>The query fails, the connection breaks after some rows, or all rows are read.\<close>

datatype settings_read = QueryFailed | BrokenAfter nat | Complete_read

definition setting :: "setting_rows \<Rightarrow> string \<Rightarrow> string" where
  "setting m key = (case map_of m key of Some v \<Rightarrow> v | None \<Rightarrow> [])"

definition or_default :: "setting_rows \<Rightarrow> string \<Rightarrow> string \<Rightarrow> string" where
  "or_default m key dst = (if setting m key \<noteq> [] then setting m key else dst)"

definition site_of :: "(string \<Rightarrow> int option) \<Rightarrow> setting_rows \<Rightarrow> site_settings" where
  "site_of scan m =
     (let e = setting m ''order_expire_time'';
          n = (if e \<noteq> [] then (case scan e of Some n \<Rightarrow> n | None \<Rightarrow> 5) else 5)
      in \<lparr>s_title = or_default m ''title'' ''Dufaka-Go'', s_logo = or_default m ''img_logo'' [],
          s_text_logo = or_default m ''text_logo'' ''Dufaka-Go'', s_keywords = or_default m ''keywords'' [],
          s_description = or_default m ''description'' [], s_notice = or_default m ''notice'' [],
          s_footer = or_default m ''footer'' [], s_language = or_default m ''language'' ''zh_CN'',
          s_search_pwd = (setting m ''is_open_search_pwd'' = ''1''),
          s_expire_min = (if n \<le> 0 then 5 else n)\<rparr>)"

definition loadSite :: "(string \<Rightarrow> int option) \<Rightarrow> settings_read \<Rightarrow> setting_rows \<Rightarrow> site_settings \<times> bool" where
  "loadSite scan r rows =
     (case r of
        QueryFailed \<Rightarrow> (site_of scan [], False)
      | BrokenAfter n \<Rightarrow> (site_of scan (take n rows), False)
      | Complete_read \<Rightarrow> (site_of scan rows, True))"

section \<open>The cache\<close>

text \<open>A call that has found no valid entry and noted the generation, and one that has read the table.\<close>

datatype site_call = Begun nat | Loaded nat site_settings bool

text \<open>\<open>sc_saving\<close> are the calls of \<open>PutSetting\<close> between their write and their invalidation.\<close>

record site_cache =
  sc_table :: setting_rows
  sc_cached :: site_settings
  sc_expires :: "int option"
  sc_gen :: nat
  sc_calls :: "nat \<Rightarrow> site_call option"
  sc_saving :: "nat list"

definition siteCacheTTL :: int where
  "siteCacheTTL = 10 * 10 ^ 9"

definition valid_entry :: "int \<Rightarrow> site_cache \<Rightarrow> bool" where
  "valid_entry now s \<longleftrightarrow> (case sc_expires s of None \<Rightarrow> False | Some t \<Rightarrow> now < t)"

definition InvalidateSite :: "site_cache \<Rightarrow> site_cache" where
  "InvalidateSite s =
     s\<lparr>sc_gen := Suc (sc_gen s), sc_expires := None,
       sc_cached := \<lparr>s_title = [], s_logo = [], s_text_logo = [], s_keywords = [], s_description = [], s_notice = [],
         s_footer = [], s_language = [], s_search_pwd = False, s_expire_min = 0\<rparr>\<rparr>"

fun put_row :: "string \<Rightarrow> string \<Rightarrow> setting_rows \<Rightarrow> setting_rows" where
  "put_row k v [] = [(k, v)]"
| "put_row k v ((k', v') # rows) = (if k' = k then (k, v) # rows else (k', v') # put_row k v rows)"

text \<open>
  \<open>Enter\<close> is the first locked part of \<open>SiteOK\<close>, \<open>Load\<close> reads the table, \<open>Leave\<close> is the second
  locked part. \<open>Commit\<close> is the write of \<open>PutSetting\<close>, \<open>Drop\<close> its invalidation;
  \<open>Refused\<close> is a \<open>PutSetting\<close> whose write failed, or an invalidation by itself.
\<close>

datatype cache_event =
  Enter nat int | Load nat settings_read | Leave nat int | Commit nat string string | Drop nat | Refused

fun cache_step :: "(string \<Rightarrow> int option) \<Rightarrow> cache_event \<Rightarrow> site_cache \<Rightarrow> site_cache" where
  "cache_step scan (Enter i now) s =
     (if valid_entry now s then s else s\<lparr>sc_calls := (sc_calls s)(i := Some (Begun (sc_gen s)))\<rparr>)"
| "cache_step scan (Load i r) s =
     (case sc_calls s i of
        Some (Begun g) \<Rightarrow>
          (case loadSite scan r (sc_table s) of
             (v, ok) \<Rightarrow> s\<lparr>sc_calls := (sc_calls s)(i := Some (Loaded g v ok))\<rparr>)
      | _ \<Rightarrow> s)"
| "cache_step scan (Leave i now) s =
     (case sc_calls s i of
        Some (Loaded g v ok) \<Rightarrow>
          (let s1 = (if ok \<and> sc_gen s = g then s\<lparr>sc_cached := v, sc_expires := Some (now + siteCacheTTL)\<rparr> else s)
           in s1\<lparr>sc_calls := (sc_calls s)(i := None)\<rparr>)
      | _ \<Rightarrow> s)"
| "cache_step scan (Commit i k v) s = s\<lparr>sc_table := put_row k v (sc_table s), sc_saving := i # sc_saving s\<rparr>"
| "cache_step scan (Drop i) s =
     (if i \<in> set (sc_saving s) then InvalidateSite (s\<lparr>sc_saving := remove1 i (sc_saving s)\<rparr>) else s)"
| "cache_step scan Refused s = InvalidateSite s"

text \<open>What \<open>SiteOK\<close> returns in an event that ends it.\<close>

definition cache_answer :: "cache_event \<Rightarrow> site_cache \<Rightarrow> (site_settings \<times> bool) option" where
  "cache_answer e s =
     (case e of
        Enter i now \<Rightarrow> if valid_entry now s then Some (sc_cached s, True) else None
      | Leave i now \<Rightarrow> (case sc_calls s i of Some (Loaded g v ok) \<Rightarrow> Some (v, ok) | _ \<Rightarrow> None)
      | _ \<Rightarrow> None)"

definition new_cache :: "setting_rows \<Rightarrow> site_cache" where
  "new_cache rows =
     \<lparr>sc_table = rows,
      sc_cached = \<lparr>s_title = [], s_logo = [], s_text_logo = [], s_keywords = [], s_description = [], s_notice = [],
        s_footer = [], s_language = [], s_search_pwd = False, s_expire_min = 0\<rparr>,
      sc_expires = None, sc_gen = 0, sc_calls = (\<lambda>_. None), sc_saving = []\<rparr>"

text \<open>The state after some events, and the contents the table had from the first state on.\<close>

fun cache_run :: "(string \<Rightarrow> int option) \<Rightarrow> site_cache \<Rightarrow> cache_event list \<Rightarrow> site_cache" where
  "cache_run scan s [] = s"
| "cache_run scan s (e # es) = cache_run scan (cache_step scan e s) es"

fun tables :: "(string \<Rightarrow> int option) \<Rightarrow> site_cache \<Rightarrow> cache_event list \<Rightarrow> setting_rows list" where
  "tables scan s [] = [sc_table s]"
| "tables scan s (e # es) = sc_table s # tables scan (cache_step scan e s) es"

section \<open>Generations\<close>

fun generation_of :: "site_call \<Rightarrow> nat" where
  "generation_of (Begun g) = g"
| "generation_of (Loaded g v ok) = g"

text \<open>No call knows a generation that is still to come.\<close>

definition noted :: "site_cache \<Rightarrow> bool" where
  "noted s \<longleftrightarrow> (\<forall>c \<in> ran (sc_calls s). generation_of c \<le> sc_gen s)"

lemma ran_upd: "c \<in> ran (m(i := x)) \<Longrightarrow> x = Some c \<or> c \<in> ran m"
  by (auto simp: ran_def split: if_splits)

lemma noted_calls:
  assumes "noted s" "\<And>c. x = Some c \<Longrightarrow> generation_of c \<le> sc_gen s"
    and "sc_calls s' = (sc_calls s)(i := x)" "sc_gen s' = sc_gen s"
  shows "noted s'"
  using assms by (auto simp: noted_def dest: ran_upd)

lemma noted_drop: "noted s \<Longrightarrow> noted (InvalidateSite s)"
  by (auto simp: noted_def InvalidateSite_def intro: le_SucI)

lemma noted_step: "noted s \<Longrightarrow> noted (cache_step scan e s)"
proof (cases e)
  case (Enter i now)
  then show "noted s \<Longrightarrow> noted (cache_step scan e s)"
    by (auto intro: noted_calls [where x = "Some (Begun (sc_gen s))"])
next
  case (Load i r)
  then show "noted s \<Longrightarrow> noted (cache_step scan e s)"
    by (auto simp: ranI noted_def intro: noted_calls split: option.splits site_call.splits prod.splits dest!: ran_upd)
      (metis ranI generation_of.simps(1))
next
  case (Leave i now)
  then show "noted s \<Longrightarrow> noted (cache_step scan e s)"
    by (auto simp: Let_def intro: noted_calls [where x = None] split: option.splits site_call.splits)
next
  case (Commit i k v)
  then show "noted s \<Longrightarrow> noted (cache_step scan e s)" by (simp add: noted_def)
next
  case (Drop i)
  then show "noted s \<Longrightarrow> noted (cache_step scan e s)"
    using noted_drop [of "s\<lparr>sc_saving := remove1 i (sc_saving s)\<rparr>"] by (auto simp: noted_def)
next
  case Refused
  then show "noted s \<Longrightarrow> noted (cache_step scan e s)" by (simp add: noted_drop)
qed

interpretation generations: simulation "cache_step scan" "\<lambda>e a. a" "\<lambda>a. noted" "\<lambda>e. True" for scan
  by unfold_locales (rule noted_step)

lemma cache_run_foldl: "cache_run scan s es = foldl (\<lambda>s e. cache_step scan e s) s es"
  by (induction es arbitrary: s) simp_all

lemma noted_run: "noted (cache_run scan (new_cache rows) es)"
  using generations.run_displays [where s = "new_cache rows" and es = es]
  by (simp add: cache_run_foldl list_all_iff noted_def new_cache_def)

section \<open>No save is hidden\<close>

text \<open>
  \<open>fresh scan g i T s\<close>: what is cached, what call \<open>i\<close> has read, and what any call that knows the
  generation \<open>g\<close> or a later one has read, are the settings of a table of \<open>T\<close>.
\<close>

definition fresh :: "(string \<Rightarrow> int option) \<Rightarrow> nat \<Rightarrow> nat \<Rightarrow> setting_rows set \<Rightarrow> site_cache \<Rightarrow> bool" where
  "fresh scan g i T s \<longleftrightarrow>
     sc_table s \<in> T \<and> g \<le> sc_gen s \<and> (sc_expires s \<noteq> None \<longrightarrow> sc_cached s \<in> site_of scan ` T) \<and>
     (\<forall>c. sc_calls s i = Some c \<longrightarrow> g \<le> generation_of c) \<and>
     (\<forall>j g' v. sc_calls s j = Some (Loaded g' v True) \<longrightarrow> g \<le> g' \<longrightarrow> v \<in> site_of scan ` T)"

lemma fresh_more:
  assumes "fresh scan g i T s" "T \<subseteq> T'"
  shows "fresh scan g i T' s"
proof -
  have "site_of scan ` T \<subseteq> site_of scan ` T'" using assms(2) by blast
  then show ?thesis using assms unfolding fresh_def by blast
qed

lemma fresh_drop:
  assumes "noted s" "sc_calls s i = None"
  shows "fresh scan (Suc (sc_gen s)) i {sc_table s} (InvalidateSite s)"
proof -
  have "generation_of c \<le> sc_gen s" if "sc_calls s j = Some c" for j c
    using assms(1) that by (auto simp: noted_def ran_def)
  from this [of _ "Loaded _ _ _"] show ?thesis using assms(2)
    by (fastforce simp: fresh_def InvalidateSite_def)
qed

lemma fresh_invalidated: "fresh scan g i T s \<Longrightarrow> fresh scan g i T (InvalidateSite s)"
  by (auto simp: fresh_def InvalidateSite_def intro: le_SucI)

lemma fresh_step: "fresh scan g i T s \<Longrightarrow> fresh scan g i (insert (sc_table (cache_step scan e s)) T) (cache_step scan e s)"
proof (cases e)
  case (Enter j now)
  then show ?thesis if "fresh scan g i T s" using that by (auto simp: fresh_def)
next
  case (Load j r)
  then show ?thesis if "fresh scan g i T s" using that
    by (auto simp: fresh_def loadSite_def split: option.splits site_call.splits settings_read.splits)
next
  case (Leave j now)
  then show ?thesis if "fresh scan g i T s" using that
    by (auto simp: fresh_def Let_def split: option.splits site_call.splits)
next
  case (Commit j k v)
  then show ?thesis if "fresh scan g i T s" using that by (auto simp: fresh_def)
next
  case (Drop j)
  have "fresh scan g i T (s\<lparr>sc_saving := is\<rparr>)" if "fresh scan g i T s" for "is"
    using that by (simp add: fresh_def)
  then have "fresh scan g i T (cache_step scan e s)" if "fresh scan g i T s"
    using that Drop fresh_invalidated by simp
  then show ?thesis if "fresh scan g i T s" using that by (auto intro: fresh_more)
next
  case Refused
  then show ?thesis if "fresh scan g i T s" using that
    by (auto intro: fresh_more fresh_invalidated)
qed

lemma tables_hold_first: "sc_table s \<in> set (tables scan s es)"
  by (cases es) simp_all

lemma fresh_run: "fresh scan g i T s \<Longrightarrow> fresh scan g i (T \<union> set (tables scan s es)) (cache_run scan s es)"
proof (induction es arbitrary: s T)
  case Nil
  then show ?case by (auto intro: fresh_more)
next
  case (Cons e es)
  from Cons.IH [OF fresh_step [OF Cons.prems, of e]] show ?case
    using tables_hold_first [of "cache_step scan e s" scan es] by (auto simp: insert_absorb intro: fresh_more)
qed

lemma fresh_answer:
  assumes f: "fresh scan g i T s" and "e = Enter i now \<or> e = Leave i now" and a: "cache_answer e s = Some (v, True)"
  shows "v \<in> site_of scan ` T"
  using assms(2)
proof
  assume "e = Enter i now"
  then show ?thesis using a f
    by (auto simp: fresh_def cache_answer_def valid_entry_def split: if_splits option.splits)
next
  assume "e = Leave i now"
  then obtain g' where c: "sc_calls s i = Some (Loaded g' v True)"
    using a by (auto simp: cache_answer_def split: option.splits site_call.splits)
  moreover have "g \<le> g'" using f c by (auto simp: fresh_def)
  ultimately show ?thesis using f unfolding fresh_def by blast
qed

text \<open>
  C24: However calls and saves overlap, once a save has ended no call that begins later is answered
  with what was there before: its answer, from the cache or read anew, is what the table says at
  the end of the save or at some later time.\<close>

theorem saved_settings_are_seen:
  assumes "j \<in> set (sc_saving (cache_run scan (new_cache rows) es))" "sc_calls (cache_run scan (new_cache rows) es) i = None"
    and "s = cache_step scan (Drop j) (cache_run scan (new_cache rows) es)"
    and "e = Enter i now \<or> e = Leave i now" "cache_answer e (cache_run scan s es') = Some (v, True)"
  shows "\<exists>rows' \<in> set (tables scan s es'). v = site_of scan rows'"
proof -
  let ?before = "cache_run scan (new_cache rows) es"
  let ?ready = "?before\<lparr>sc_saving := remove1 j (sc_saving ?before)\<rparr>"
  have "noted ?ready" using noted_run [of scan rows es] by (simp add: noted_def)
  then have "fresh scan (Suc (sc_gen ?before)) i {sc_table s} s"
    using fresh_drop [of ?ready i scan] assms(1-3) by (simp add: InvalidateSite_def)
  from fresh_run [OF this, of es']
  have "fresh scan (Suc (sc_gen ?before)) i (set (tables scan s es')) (cache_run scan s es')"
    using tables_hold_first [of s scan es'] by (simp add: insert_absorb)
  from fresh_answer [OF this assms(4,5)] show ?thesis by blast
qed

text \<open>
  A call has read the old title when a save comes between; it ends before the next call begins, and
  that call reads the new title.
\<close>

definition overlapping :: "cache_event list" where
  "overlapping = [Enter 1 0, Load 1 Complete_read, Commit 9 ''title'' ''new'']"

definition later_calls :: "cache_event list" where
  "later_calls = [Leave 1 5, Enter 3 6, Load 3 Complete_read, Leave 3 7]"

definition before_save :: site_cache where
  "before_save = cache_run (\<lambda>t. None) (new_cache [(''title'', ''old'')]) overlapping"

definition after_save :: site_cache where
  "after_save = cache_step (\<lambda>t. None) (Drop 9) before_save"

definition after_calls :: site_cache where
  "after_calls = cache_run (\<lambda>t. None) after_save later_calls"

theorem saved_settings_are_seen_witness:
  "cache_answer (Enter 2 8) after_calls = Some (sc_cached after_calls, True) \<and> s_title (sc_cached after_calls) = ''new''"
proof
  have "valid_entry 8 after_calls" by code_simp
  then show a: "cache_answer (Enter 2 8) after_calls = Some (sc_cached after_calls, True)"
    by (simp add: cache_answer_def)
  have "9 \<in> set (sc_saving before_save)" "sc_calls before_save 2 = None" by code_simp+
  from saved_settings_are_seen [OF this [unfolded before_save_def] refl _ a
      [unfolded after_calls_def after_save_def before_save_def]]
  obtain rows where r: "rows \<in> set (tables (\<lambda>t. None) after_save later_calls)" "sc_cached after_calls = site_of (\<lambda>t. None) rows"
    unfolding after_calls_def after_save_def before_save_def by blast
  have "\<forall>rows \<in> set (tables (\<lambda>t. None) after_save later_calls). s_title (site_of (\<lambda>t. None) rows) = ''new''" by code_simp
  with r show "s_title (sc_cached after_calls) = ''new''" by simp
qed

end
