(* ===== verification/Poll_Rota.thy ===== *)
theory Poll_Rota imports Complex_Main "HOL-Library.Product_Lexorder" "HOL-Library.Option_ord" begin

text \<open>
  The rota of the orders whose payment the background pass asks the wallet about:
  \<open>WaitingSNs\<close>, \<open>MarkCldxPolled\<close> and \<open>LockCldxQuote\<close> of \<open>src/internal/store/cldx.go\<close>, and the
  pass \<open>SyncCldx\<close> of \<open>src/internal/httpx/cldx.go\<close>. The tables are reduced to the columns these
  statements read and write; times are seconds. The quotient by which the two halves of
  the rota are merged is a rational: two quotients are equal as doubles just when they are equal.
\<close>

section \<open>Columns\<close>

record rota_row =
  w_id :: int
  w_sn :: string
  w_pay :: int
  w_status :: int
  w_minor :: "int option"
  w_expires :: "int option"
  w_polled :: "int option"
  w_deleted :: bool

definition CldxLateWindow :: int where "CldxLateWindow = 24 * 3600"
definition cldxPollLimit :: nat where "cldxPollLimit = 200"
definition cldxLiveShare :: nat where "cldxLiveShare = 160"
definition cldxLateShare :: nat where "cldxLateShare = cldxPollLimit - cldxLiveShare"

definition MarkCldxPolled :: "string \<Rightarrow> int \<Rightarrow> rota_row list \<Rightarrow> rota_row list" where
  "MarkCldxPolled sn t rows = map (\<lambda>r. if w_sn r = sn then r\<lparr>w_polled := Some t\<rparr> else r) rows"

definition coalesce :: "'a option \<Rightarrow> 'a \<Rightarrow> 'a option" where
  "coalesce a b = (case a of None \<Rightarrow> Some b | Some x \<Rightarrow> Some x)"

text \<open>None: no row is returned, which is an error.\<close>

definition LockCldxQuote ::
  "string \<Rightarrow> int \<Rightarrow> int \<Rightarrow> rota_row list \<Rightarrow> (int \<times> int) option \<times> rota_row list" where
  "LockCldxQuote sn minor expires rows =
     (let rows' = map (\<lambda>r. if w_sn r = sn \<and> w_status r = 1
                       then r\<lparr>w_minor := coalesce (w_minor r) minor, w_expires := coalesce (w_expires r) expires\<rparr> else r) rows
      in (case List.find (\<lambda>r. w_sn r = sn \<and> w_status r = 1) rows' of
            Some r \<Rightarrow> Some (the (w_minor r), the (w_expires r))
          | None \<Rightarrow> None, rows'))"

section \<open>The rota\<close>

text \<open>
  \<open>ch i\<close> is the \<open>pay_check\<close> of the channel \<open>i\<close>. Least recently asked first, never asked before
  all others, then by identifier.
\<close>

definition poll_key :: "rota_row \<Rightarrow> int option \<times> int" where
  "poll_key r = (w_polled r, w_id r)"

definition in_bucket :: "(int \<Rightarrow> string option) \<Rightarrow> string \<Rightarrow> int \<Rightarrow> rota_row \<Rightarrow> bool" where
  "in_bucket ch check st r \<longleftrightarrow> ch (w_pay r) = Some check \<and> w_status r = st \<and> w_minor r \<noteq> None \<and> \<not> w_deleted r"

definition in_window :: "int \<Rightarrow> rota_row \<Rightarrow> bool" where
  "in_window now r \<longleftrightarrow> (case w_expires r of None \<Rightarrow> False | Some t \<Rightarrow> now - CldxLateWindow < t)"

definition live_rows :: "(int \<Rightarrow> string option) \<Rightarrow> string \<Rightarrow> rota_row list \<Rightarrow> rota_row list" where
  "live_rows ch check rows = take cldxPollLimit (sort_key poll_key (filter (in_bucket ch check 1) rows))"

definition late_rows :: "(int \<Rightarrow> string option) \<Rightarrow> string \<Rightarrow> int \<Rightarrow> rota_row list \<Rightarrow> rota_row list" where
  "late_rows ch check now rows =
     take cldxPollLimit (sort_key poll_key (filter (\<lambda>r. in_bucket ch check (-1) r \<and> in_window now r) rows))"

text \<open>\<open>row_number\<close> counts from 1; what is left of a share falls to the other half.\<close>

definition numbered :: "nat \<Rightarrow> nat \<Rightarrow> nat \<Rightarrow> rota_row list \<Rightarrow> ((rat \<times> nat \<times> nat) \<times> string) list" where
  "numbered bucket share kept rs =
     map (\<lambda>(rn, r). ((of_nat (rn - 1) / of_nat share, bucket, rn), w_sn r))
       (filter (\<lambda>(rn, r). rn \<le> kept) (List.enumerate 1 rs))"

definition WaitingSNs :: "(int \<Rightarrow> string option) \<Rightarrow> string \<Rightarrow> int \<Rightarrow> rota_row list \<Rightarrow> string list" where
  "WaitingSNs ch check now rows =
     (let live = live_rows ch check rows; late = late_rows ch check now rows;
          live_kept = max cldxLiveShare (cldxPollLimit - min (length late) cldxLateShare);
          late_kept = max cldxLateShare (cldxPollLimit - min (length live) cldxLiveShare)
      in map snd (sort_key fst (numbered 0 cldxLiveShare live_kept live @ numbered 1 cldxLateShare late_kept late)))"

section \<open>Passes\<close>

text \<open>
  What happens to the table: a new order, the quote of a payment page, an order that expires, one
  that is paid, finished or given up by hand, a question by a page, and a pass of the background. A
  pass that begins at \<open>now\<close> starts on the first \<open>k\<close> numbers before its time is over; \<open>ok sn\<close> says
  that the wallet was asked, which can fail when the order cannot be read. \<open>mark sn\<close> is when
  the mark is written.
\<close>

datatype rota_event =
    Fresh rota_row | Quote_locked string int int | Order_expired int | Order_left int int
  | Page_asks string int | Pass int nat "string \<Rightarrow> bool" "string \<Rightarrow> int"

definition asked_by :: "(int \<Rightarrow> string option) \<Rightarrow> rota_event \<Rightarrow> rota_row list \<Rightarrow> string list" where
  "asked_by ch e rows =
     (case e of
        Pass now k ok mark \<Rightarrow> filter ok (take k (WaitingSNs ch ''cldx'' now rows))
      | Page_asks sn t \<Rightarrow> [sn]
      | _ \<Rightarrow> [])"

fun rota_step :: "(int \<Rightarrow> string option) \<Rightarrow> rota_event \<Rightarrow> rota_row list \<Rightarrow> rota_row list" where
  "rota_step ch (Fresh r) rows =
     (if w_id r \<in> w_id ` set rows \<or> w_sn r \<in> w_sn ` set rows \<or> w_status r \<noteq> 1 \<or> w_polled r \<noteq> None then rows else rows @ [r])"
| "rota_step ch (Quote_locked sn minor expires) rows = snd (LockCldxQuote sn minor expires rows)"
| "rota_step ch (Order_expired i) rows =
     map (\<lambda>r. if w_id r = i \<and> w_status r = 1 then r\<lparr>w_status := -1\<rparr> else r) rows"
| "rota_step ch (Order_left i st) rows =
     map (\<lambda>r. if w_id r = i \<and> st \<noteq> 1 \<and> st \<noteq> -1 then r\<lparr>w_status := st\<rparr> else r) rows"
| "rota_step ch (Page_asks sn t) rows = MarkCldxPolled sn t rows"
| "rota_step ch (Pass now k ok mark) rows =
     foldl (\<lambda>rows sn. MarkCldxPolled sn (mark sn) rows) rows
       (filter ok (take k (WaitingSNs ch ''cldx'' now rows)))"

fun rota_run :: "(int \<Rightarrow> string option) \<Rightarrow> rota_row list \<Rightarrow> rota_event list \<Rightarrow> rota_row list" where
  "rota_run ch rows [] = rows"
| "rota_run ch rows (e # es) = rota_run ch (rota_step ch e rows) es"

fun asked_in :: "(int \<Rightarrow> string option) \<Rightarrow> rota_row list \<Rightarrow> rota_event list \<Rightarrow> string list" where
  "asked_in ch rows [] = []"
| "asked_in ch rows (e # es) = asked_by ch e rows @ asked_in ch (rota_step ch e rows) es"

end
