(* ===== verification/Rota.thy ===== *)
theory Rota imports Main begin

text \<open>
  What the rotas of the server share: a queue from which each pass takes some of those who were asked
  least recently, while others may come in ahead.
\<close>

section \<open>The front of a sorted list\<close>

text \<open>When all of the first \<open>p\<close> are in \<open>S\<close> and \<open>x\<close> is not, \<open>p\<close> elements of \<open>S\<close> come before \<open>x\<close>.\<close>

lemma front_of_sorted:
  fixes f :: "'a \<Rightarrow> 'b :: linorder"
  assumes "distinct rows" "x \<in> set rows" "P x" "x \<notin> S"
    and "\<And>r. r \<in> set rows \<Longrightarrow> P r \<Longrightarrow> f r = f x \<Longrightarrow> r = x"
    and "\<And>r. r \<in> set (take p (sort_key f (filter P rows))) \<Longrightarrow> r \<in> S"
  shows "p \<le> length (filter (\<lambda>r. P r \<and> f r < f x \<and> r \<in> S) rows)"
proof -
  let ?s = "sort_key f (filter P rows)"
  have "x \<in> set ?s" "x \<notin> set (take p ?s)" using assms(2-4) assms(6) [of x] by auto
  then have d: "x \<in> set (drop p ?s)" by (metis Un_iff append_take_drop_id set_append)
  then have len: "p < length ?s" by (metis drop_all empty_iff empty_set not_le)
  have "sorted (map f (take p ?s @ drop p ?s))" by simp
  then have le: "f r \<le> f x" if "r \<in> set (take p ?s)" for r
    using d that unfolding map_append sorted_append by auto
  have "set (take p ?s) \<subseteq> set (filter (\<lambda>r. P r \<and> f r < f x \<and> r \<in> S) rows)"
  proof
    fix r assume r: "r \<in> set (take p ?s)"
    have m: "r \<in> set rows" "P r" using in_set_takeD [OF r] by simp_all
    have "f r \<noteq> f x" using assms(5) [OF m] assms(6) [OF r] assms(4) by auto
    then show "r \<in> set (filter (\<lambda>r. P r \<and> f r < f x \<and> r \<in> S) rows)" using m le [OF r] assms(6) [OF r] by auto
  qed
  then have "card (set (take p ?s)) \<le> card (set (filter (\<lambda>r. P r \<and> f r < f x \<and> r \<in> S) rows))"
    by (rule card_mono [rotated]) simp
  moreover have "card (set (take p ?s)) = p" using len assms(1) by (simp add: distinct_card)
  ultimately show ?thesis using card_length le_trans by metis
qed

lemma filter_shorter:
  assumes "\<And>x. x \<in> set xs \<Longrightarrow> P x \<Longrightarrow> Q x"
  shows "length (filter P xs) \<le> length (filter Q xs)"
  using assms by (induction xs) (auto simp: le_SucI)

section \<open>Nobody starves\<close>

fun asked_along :: "('e \<Rightarrow> 's \<Rightarrow> 's) \<Rightarrow> ('e \<Rightarrow> 's \<Rightarrow> bool) \<Rightarrow> 's \<Rightarrow> 'e list \<Rightarrow> bool" where
  "asked_along move asks s [] \<longleftrightarrow> False"
| "asked_along move asks s (e # es) \<longleftrightarrow> asks e s \<or> asked_along move asks (move e s) es"

text \<open>
  The contract of a rota for one of its members: \<open>ahead\<close> counts those before it, a pass that does not
  reach it takes \<open>p\<close> of them away, and another event brings in at most one, when it is \<open>late\<close>.
\<close>

locale fair_rota =
  fixes move :: "'e \<Rightarrow> 's \<Rightarrow> 's" and asks :: "'e \<Rightarrow> 's \<Rightarrow> bool" and ahead :: "'s \<Rightarrow> nat"
    and fine :: "'s \<Rightarrow> bool" and may :: "'e \<Rightarrow> bool" and pass :: "'e \<Rightarrow> bool" and late :: "'e \<Rightarrow> bool" and p :: nat
  assumes fine_stays: "fine s \<Longrightarrow> may e \<Longrightarrow> \<not> asks e s \<Longrightarrow> fine (move e s)"
    and pass_takes: "fine s \<Longrightarrow> may e \<Longrightarrow> \<not> asks e s \<Longrightarrow> pass e \<Longrightarrow> ahead (move e s) + p \<le> ahead s"
    and other_brings: "fine s \<Longrightarrow> may e \<Longrightarrow> \<not> asks e s \<Longrightarrow> \<not> pass e \<Longrightarrow> ahead (move e s) \<le> ahead s + (if late e then 1 else 0)"
begin

lemma asked_in_the_end:
  assumes "fine s" "list_all may es" "ahead s + length (filter (\<lambda>e. late e \<and> \<not> pass e) es) < p * length (filter pass es)"
  shows "asked_along move asks s es"
  using assms
proof (induction es arbitrary: s)
  case (Cons e es)
  show ?case
  proof (cases "asks e s")
    case False
    have may: "may e" "list_all may es" using Cons.prems(2) by simp_all
    have "ahead (move e s) + length (filter (\<lambda>e. late e \<and> \<not> pass e) es) < p * length (filter pass es)"
      using pass_takes [OF Cons.prems(1) may(1) False] other_brings [OF Cons.prems(1) may(1) False] Cons.prems(3)
      by (cases "pass e") (auto split: if_splits)
    from Cons.IH [OF fine_stays [OF Cons.prems(1) may(1) False] may(2) this] show ?thesis by simp
  qed simp
qed simp

end

end
