(* ===== verification/Rota_Props.thy ===== *)
theory Rota_Props imports Rota Poll_Rota begin

text \<open>
  Nobody starves in the rota: the place of an order in it, how the orders ahead of
  a late one grow fewer from pass to pass, and that it is asked about in the end.
\<close>

section \<open>The place in a sorted list\<close>

lemma early_in_sorted:
  assumes "x \<in> set xs" "length (filter (\<lambda>y. f y \<le> f x) xs) \<le> n"
  shows "x \<in> set (take n (sort_key f xs))"
proof (rule ccontr)
  let ?ys = "sort_key f xs"
  assume n: "x \<notin> set (take n ?ys)"
  have "x \<in> set ?ys" using assms(1) by simp
  then have d: "x \<in> set (drop n ?ys)" using n by (metis Un_iff append_take_drop_id set_append)
  then have len: "n < length ?ys" by (metis drop_all empty_iff empty_set not_le)
  have s: "sorted (map f (take n ?ys @ drop n ?ys))" by simp
  then have "f y \<le> f x" if "y \<in> set (take n ?ys)" for y
    using d that unfolding map_append sorted_append by auto
  then have "filter (\<lambda>y. f y \<le> f x) (take n ?ys) = take n ?ys" by (simp add: filter_id_conv)
  moreover have "x \<in> set (filter (\<lambda>y. f y \<le> f x) (drop n ?ys))" using d by simp
  then have "0 < length (filter (\<lambda>y. f y \<le> f x) (drop n ?ys))" by (rule length_pos_if_in_set)
  moreover have "length (filter (\<lambda>y. f y \<le> f x) ?ys) = length (filter (\<lambda>y. f y \<le> f x) (take n ?ys)) + length (filter (\<lambda>y. f y \<le> f x) (drop n ?ys))"
    by (metis append_take_drop_id filter_append length_append)
  moreover have "length (filter (\<lambda>y. f y \<le> f x) ?ys) = length (filter (\<lambda>y. f y \<le> f x) xs)"
    by (metis filter_sort length_sort)
  ultimately show False using assms(2) len by simp
qed

lemma few_numbers: "length (filter (\<lambda>(i, r). i \<le> m) (List.enumerate (Suc n) rs)) \<le> m - n"
proof (induction rs arbitrary: n)
  case (Cons r rs)
  from Cons.IH [of "Suc n"] show ?case by (auto simp: case_prod_unfold)
qed simp

lemma numbered_few:
  assumes "\<And>rn sn. 1 \<le> rn \<Longrightarrow> P ((of_nat (rn - 1) / of_nat share, bucket, rn), sn) \<Longrightarrow> rn \<le> m"
  shows "length (filter P (numbered bucket share kept rs)) \<le> m"
proof -
  let ?e = "List.enumerate 1 rs"
  have "length (filter P (numbered bucket share kept rs)) \<le> length (filter (\<lambda>(i, r). i \<le> m) ?e)"
    unfolding numbered_def length_filter_map filter_filter
    using assms by (intro filter_shorter) (auto simp: in_set_enumerate_eq)
  also have "\<dots> \<le> m" using few_numbers [of m 0 rs] by simp
  finally show ?thesis .
qed

lemma early_late:
  assumes "i < length (late_rows ch check now rows)" "i < cldxLateShare" "5 * i + 2 \<le> k"
  shows "w_sn (late_rows ch check now rows ! i) \<in> set (take k (WaitingSNs ch check now rows))"
proof -
  let ?late = "late_rows ch check now rows" and ?live = "live_rows ch check rows"
  let ?m = "max cldxLiveShare (cldxPollLimit - min (length ?late) cldxLateShare)"
  let ?n = "max cldxLateShare (cldxPollLimit - min (length ?live) cldxLiveShare)"
  let ?a = "numbered 0 cldxLiveShare ?m ?live" and ?b = "numbered 1 cldxLateShare ?n ?late"
  let ?x = "((of_nat i / of_nat cldxLateShare, 1, Suc i), w_sn (?late ! i)) :: (rat \<times> nat \<times> nat) \<times> string"
  have "(Suc i, ?late ! i) \<in> set (List.enumerate 1 ?late)"
    using assms(1) by (simp add: in_set_enumerate_eq)
  then have x: "?x \<in> set (?a @ ?b)" using assms(2) by (force simp: numbered_def image_iff)
  have live: "length (filter (\<lambda>y. fst y \<le> fst ?x) ?a) \<le> 4 * i + 1"
    by (rule numbered_few) (auto simp: cldxLateShare_def cldxLiveShare_def cldxPollLimit_def field_simps of_nat_diff)
  have late: "length (filter (\<lambda>y. fst y \<le> fst ?x) ?b) \<le> Suc i"
    by (rule numbered_few) (auto simp: cldxLateShare_def cldxLiveShare_def cldxPollLimit_def field_simps of_nat_diff)
  have "length (filter (\<lambda>y. fst y \<le> fst ?x) (?a @ ?b)) \<le> k" using live late assms(3) by simp
  from early_in_sorted [OF x this] have "w_sn (?late ! i) \<in> snd ` set (take k (sort_key fst (?a @ ?b)))" by force
  then show ?thesis by (simp add: WaitingSNs_def Let_def take_map)
qed

section \<open>Quotes\<close>

text \<open>
  The first quote of an order is the one that counts: whoever asks again, with whatever amount and
  deadline, is given the first, and nothing changes.
\<close>

theorem first_quote_wins:
  assumes "LockCldxQuote sn minor expires rows = (Some q, rows')"
  shows "LockCldxQuote sn minor' expires' rows' = (Some q, rows')"
proof -
  let ?f = "\<lambda>r. if w_sn r = sn \<and> w_status r = 1
    then r\<lparr>w_minor := coalesce (w_minor r) minor, w_expires := coalesce (w_expires r) expires\<rparr> else r"
  let ?g = "\<lambda>r. if w_sn r = sn \<and> w_status r = 1
    then r\<lparr>w_minor := coalesce (w_minor r) minor', w_expires := coalesce (w_expires r) expires'\<rparr> else r"
  have rows': "rows' = map ?f rows" using assms by (auto simp: LockCldxQuote_def Let_def)
  have "coalesce (coalesce a b) c = coalesce a b" for a and b c :: int by (simp add: coalesce_def split: option.splits)
  then have g: "map ?g rows' = rows'" by (simp add: rows')
  have "(case List.find (\<lambda>r. w_sn r = sn \<and> w_status r = 1) rows' of
      Some r \<Rightarrow> Some (the (w_minor r), the (w_expires r)) | None \<Rightarrow> None) = Some q"
    using assms by (auto simp: LockCldxQuote_def Let_def)
  then show ?thesis unfolding LockCldxQuote_def Let_def g by simp
qed

text \<open>An order nobody waits for any more gets no quote, and a page that asks for one gets an error.\<close>

theorem closed_order_gets_no_quote:
  assumes "\<forall>r \<in> set rows. w_sn r = sn \<longrightarrow> w_status r \<noteq> 1"
  shows "LockCldxQuote sn minor expires rows = (None, rows)"
proof -
  have same: "map (\<lambda>r. if w_sn r = sn \<and> w_status r = 1
      then r\<lparr>w_minor := coalesce (w_minor r) minor, w_expires := coalesce (w_expires r) expires\<rparr> else r) rows = rows"
    using assms by (intro map_idI) auto
  have "List.find (\<lambda>r. w_sn r = sn \<and> w_status r = 1) rows = None"
    using assms by (auto simp: find_None_iff)
  then show ?thesis unfolding LockCldxQuote_def Let_def same by simp
qed

section \<open>Orders ahead\<close>

text \<open>The late orders in the window that have been asked about before \<open>x\<close>, or at the same time and are older.\<close>

definition ahead_of :: "(int \<Rightarrow> string option) \<Rightarrow> int \<Rightarrow> rota_row \<Rightarrow> rota_row \<Rightarrow> bool" where
  "ahead_of ch start x r \<longleftrightarrow> in_bucket ch ''cldx'' (-1) r \<and> in_window start r \<and> poll_key r < poll_key x"

definition ahead :: "(int \<Rightarrow> string option) \<Rightarrow> int \<Rightarrow> rota_row \<Rightarrow> rota_row list \<Rightarrow> nat" where
  "ahead ch start x rows = length (filter (ahead_of ch start x) rows)"

definition rota_keyed :: "rota_row list \<Rightarrow> bool" where
  "rota_keyed rows \<longleftrightarrow> distinct (map w_id rows) \<and> distinct (map w_sn rows)"

lemma rota_keyed_map: "(\<And>r. w_id (f r) = w_id r \<and> w_sn (f r) = w_sn r) \<Longrightarrow> rota_keyed (map f rows) = rota_keyed rows"
  by (simp add: rota_keyed_def o_def)

lemma rota_keyed_same_id: "rota_keyed rows \<Longrightarrow> r \<in> set rows \<Longrightarrow> r' \<in> set rows \<Longrightarrow> w_id r = w_id r' \<Longrightarrow> r = r'"
  by (auto simp: rota_keyed_def distinct_map inj_on_def)

lemma rota_keyed_same_sn: "rota_keyed rows \<Longrightarrow> r \<in> set rows \<Longrightarrow> r' \<in> set rows \<Longrightarrow> w_sn r = w_sn r' \<Longrightarrow> r = r'"
  by (auto simp: rota_keyed_def distinct_map inj_on_def)

definition marked :: "string set \<Rightarrow> (string \<Rightarrow> int) \<Rightarrow> rota_row list \<Rightarrow> rota_row list" where
  "marked S mark rows = map (\<lambda>r. if w_sn r \<in> S then r\<lparr>w_polled := Some (mark (w_sn r))\<rparr> else r) rows"

lemma mark_one: "MarkCldxPolled sn (mark sn) rows = marked {sn} mark rows"
  by (simp add: MarkCldxPolled_def marked_def)

lemma mark_all: "foldl (\<lambda>rows sn. MarkCldxPolled sn (mark sn) rows) rows sns = marked (set sns) mark rows"
proof (induction sns arbitrary: rows)
  case Nil
  then show ?case by (simp add: marked_def)
next
  case (Cons sn sns)
  then show ?case by (auto simp: mark_one marked_def)
qed

lemma rota_keyed_step: "rota_keyed rows \<Longrightarrow> rota_keyed (rota_step ch e rows)"
proof (cases e)
  case (Fresh r)
  then show "rota_keyed rows \<Longrightarrow> rota_keyed (rota_step ch e rows)" by (auto simp: rota_keyed_def)
next
  case (Pass now k ok mark)
  then show "rota_keyed rows \<Longrightarrow> rota_keyed (rota_step ch e rows)"
    by (simp add: mark_all marked_def rota_keyed_map)
qed (simp_all add: LockCldxQuote_def Let_def MarkCldxPolled_def rota_keyed_map)

lemma in_bucket_polled [simp]: "in_bucket ch check st (r\<lparr>w_polled := t\<rparr>) = in_bucket ch check st r"
  by (simp add: in_bucket_def)

lemma in_window_polled [simp]: "in_window now (r\<lparr>w_polled := t\<rparr>) = in_window now r"
  by (simp add: in_window_def)

text \<open>An order that is asked about goes behind \<open>x\<close>.\<close>

lemma asked_goes_behind:
  assumes "\<And>sn. sn \<in> S \<Longrightarrow> w_polled x < Some (mark sn)"
  shows "ahead ch start x (marked S mark rows) = length (filter (\<lambda>r. ahead_of ch start x r \<and> w_sn r \<notin> S) rows)"
proof -
  have "ahead_of ch start x (if w_sn r \<in> S then r\<lparr>w_polled := Some (mark (w_sn r))\<rparr> else r)
      \<longleftrightarrow> ahead_of ch start x r \<and> w_sn r \<notin> S" for r
    using assms [of "w_sn r"] by (auto simp: ahead_of_def poll_key_def)
  then show ?thesis by (simp add: ahead_def marked_def filter_map o_def)
qed

lemma ahead_map:
  assumes "\<And>r. r \<in> set rows \<Longrightarrow> ahead_of ch start x (f r) \<Longrightarrow> ahead_of ch start x r"
  shows "ahead ch start x (map f rows) \<le> ahead ch start x rows"
  unfolding ahead_def length_filter_map using assms by (intro filter_shorter) auto

text \<open>An order that expires may come in ahead of \<open>x\<close>, but only this one.\<close>

lemma ahead_expire:
  assumes "rota_keyed rows"
  shows "ahead ch start x (map (\<lambda>r. if w_id r = i \<and> w_status r = 1 then r\<lparr>w_status := -1\<rparr> else r) rows)
    \<le> Suc (ahead ch start x rows)"
  using assms
proof (induction rows)
  case Nil
  then show ?case by (simp add: ahead_def)
next
  case (Cons a rows)
  let ?f = "\<lambda>r. if w_id r = i \<and> w_status r = 1 then r\<lparr>w_status := -1\<rparr> else r"
  show ?case
  proof (cases "w_id a = i")
    case True
    then have "w_id r \<noteq> i" if "r \<in> set rows" for r using Cons.prems that True
      unfolding rota_keyed_def by (metis distinct.simps(2) image_eqI list.simps(9) set_map)
    then have "map ?f rows = rows" by (intro map_idI) simp
    then show ?thesis by (simp add: ahead_def)
  next
    case False
    then show ?thesis using Cons by (simp add: ahead_def rota_keyed_def)
  qed
qed

section \<open>A late order is asked about\<close>

text \<open>
  What may happen meanwhile: a pass manages the first \<open>5 * p - 3\<close> orders, in the window of \<open>x\<close>;
  marks are later than the one \<open>x\<close> has; and \<open>x\<close> itself does not leave.
\<close>

fun attends :: "nat \<Rightarrow> int \<Rightarrow> rota_row \<Rightarrow> rota_event \<Rightarrow> bool" where
  "attends p start x (Pass now k ok mark) \<longleftrightarrow>
     5 * p - 3 \<le> k \<and> (\<forall>sn. ok sn \<and> w_polled x < Some (mark sn)) \<and> start \<le> now \<and> in_window now x"
| "attends p start x (Page_asks sn t) \<longleftrightarrow> w_polled x < Some t"
| "attends p start x (Order_left i st) \<longleftrightarrow> i \<noteq> w_id x"
| "attends p start x e \<longleftrightarrow> True"

fun is_pass :: "rota_event \<Rightarrow> bool" where
  "is_pass (Pass now k ok mark) \<longleftrightarrow> True"
| "is_pass e \<longleftrightarrow> False"

fun is_expiry :: "rota_event \<Rightarrow> bool" where
  "is_expiry (Order_expired i) \<longleftrightarrow> True"
| "is_expiry e \<longleftrightarrow> False"

lemma late_front:
  assumes "rota_keyed rows" "x \<in> set rows" "in_bucket ch ''cldx'' (-1) x" "in_window now x" "start \<le> now"
    and "\<And>i. i < length (late_rows ch ''cldx'' now rows) \<Longrightarrow> i < p \<Longrightarrow> w_sn (late_rows ch ''cldx'' now rows ! i) \<in> S"
    and "w_sn x \<notin> S" "p \<le> 40"
  shows "p \<le> length (filter (\<lambda>r. ahead_of ch start x r \<and> w_sn r \<in> S) rows)"
proof -
  let ?P = "\<lambda>r. in_bucket ch ''cldx'' (-1) r \<and> in_window now r"
  let ?S = "sort_key poll_key (filter ?P rows)"
  have late: "late_rows ch ''cldx'' now rows = take 200 ?S" by (simp add: late_rows_def cldxPollLimit_def)
  have front: "w_sn r \<in> S" if "r \<in> set (take p ?S)" for r
  proof -
    from that obtain i where "i < length ?S" "i < p" "r = ?S ! i" by (auto simp: in_set_conv_nth)
    then show ?thesis using assms(6) [of i] assms(8) by (simp add: late)
  qed
  have "p \<le> length (filter (\<lambda>r. ?P r \<and> poll_key r < poll_key x \<and> r \<in> {r. w_sn r \<in> S}) rows)"
  proof (rule front_of_sorted)
    show "distinct rows" using assms(1) by (simp add: rota_keyed_def distinct_map)
    show "r = x" if "r \<in> set rows" "poll_key r = poll_key x" for r
      using that rota_keyed_same_id [OF assms(1) that(1) assms(2)] by (simp add: poll_key_def)
    show "r \<in> {r. w_sn r \<in> S}" if "r \<in> set (take p ?S)" for r using front that by simp
  qed (use assms(2-4,7) in simp_all)
  also have "\<dots> \<le> length (filter (\<lambda>r. ahead_of ch start x r \<and> w_sn r \<in> S) rows)"
    using assms(5) by (intro filter_shorter) (auto simp: ahead_of_def in_window_def split: option.splits)
  finally show ?thesis .
qed

lemma pass_shortens:
  assumes "rota_keyed rows" "x \<in> set rows" "in_bucket ch ''cldx'' (-1) x" "p \<le> 40" "is_pass e" "attends p start x e"
    and "w_sn x \<notin> set (asked_by ch e rows)"
  shows "ahead ch start x (rota_step ch e rows) + p \<le> ahead ch start x rows"
proof -
  obtain now k ok mark where e: "e = Pass now k ok mark" using assms(5) by (cases e) auto
  let ?S = "set (asked_by ch e rows)"
  have a: "asked_by ch e rows = take k (WaitingSNs ch ''cldx'' now rows)"
    using assms(6) by (simp add: asked_by_def e)
  then have step: "rota_step ch e rows = marked ?S mark rows"
    using assms(6) by (simp add: e mark_all)
  have "w_sn (late_rows ch ''cldx'' now rows ! i) \<in> ?S"
    if "i < length (late_rows ch ''cldx'' now rows)" "i < p" for i
  proof -
    have "5 * p - 3 \<le> k" using assms(6) by (simp add: e)
    then have "5 * i + 2 \<le> k" using that(2) by arith
    moreover have "i < cldxLateShare"
      using that(2) assms(4) by (simp add: cldxLateShare_def cldxPollLimit_def cldxLiveShare_def)
    ultimately show ?thesis unfolding a by (intro early_late [OF that(1)])
  qed
  then have "p \<le> length (filter (\<lambda>r. ahead_of ch start x r \<and> w_sn r \<in> ?S) rows)"
    using assms(6) unfolding e attends.simps by (intro late_front [OF assms(1-3) _ _ _ assms(7) [unfolded e] assms(4)]) blast+
  moreover have "ahead ch start x (rota_step ch e rows) = length (filter (\<lambda>r. ahead_of ch start x r \<and> w_sn r \<notin> ?S) rows)"
    unfolding step using assms(6) by (intro asked_goes_behind) (simp add: e)
  moreover have "ahead ch start x rows = length (filter (\<lambda>r. ahead_of ch start x r \<and> w_sn r \<in> ?S) rows)
      + length (filter (\<lambda>r. ahead_of ch start x r \<and> w_sn r \<notin> ?S) rows)"
    using sum_length_filter_compl [of "\<lambda>r. w_sn r \<in> ?S" "filter (ahead_of ch start x) rows"]
    by (simp add: ahead_def conj_commute)
  ultimately show ?thesis by simp
qed

lemma step_lengthens:
  assumes "rota_keyed rows" "attends p start x e" "\<not> is_pass e"
  shows "ahead ch start x (rota_step ch e rows) \<le> ahead ch start x rows + (if is_expiry e then 1 else 0)"
proof (cases e)
  case (Fresh r)
  then show ?thesis by (simp add: ahead_def ahead_of_def in_bucket_def)
next
  case (Quote_locked sn minor expires)
  have "ahead ch start x (map (\<lambda>r. if w_sn r = sn \<and> w_status r = 1
      then r\<lparr>w_minor := coalesce (w_minor r) minor, w_expires := coalesce (w_expires r) expires\<rparr> else r) rows) \<le> ahead ch start x rows"
    by (rule ahead_map) (auto simp: ahead_of_def in_bucket_def split: if_splits)
  then show ?thesis by (simp add: Quote_locked LockCldxQuote_def Let_def)
next
  case (Order_expired i)
  then show ?thesis using ahead_expire [OF assms(1)] by simp
next
  case (Order_left i st)
  have "ahead ch start x (map (\<lambda>r. if w_id r = i \<and> st \<noteq> 1 \<and> st \<noteq> -1 then r\<lparr>w_status := st\<rparr> else r) rows)
      \<le> ahead ch start x rows"
    by (rule ahead_map) (auto simp: ahead_of_def in_bucket_def split: if_splits)
  then show ?thesis by (simp add: Order_left)
next
  case (Page_asks sn t)
  have "ahead ch start x (marked {sn} (\<lambda>_. t) rows) \<le> ahead ch start x rows"
    using assms(2) asked_goes_behind [of "{sn}" x "\<lambda>_. t" ch start rows]
    by (simp add: Page_asks) (simp add: ahead_def, rule filter_shorter, simp)
  then show ?thesis using mark_one [of sn "\<lambda>_. t" rows] by (simp add: Page_asks)
next
  case (Pass now k ok mark)
  then show ?thesis using assms(3) by simp
qed

lemma not_asked_stays:
  assumes "x \<in> set rows" "w_status x = -1" "attends p start x e" "w_sn x \<notin> set (asked_by ch e rows)"
  shows "x \<in> set (rota_step ch e rows)"
proof (cases e)
  case (Pass now k ok mark)
  then show ?thesis using assms by (force simp: mark_all marked_def asked_by_def image_iff)
qed (use assms in \<open>force simp: LockCldxQuote_def Let_def MarkCldxPolled_def asked_by_def image_iff\<close>)+

interpretation late_rota: fair_rota "rota_step ch" "\<lambda>e rows. w_sn x \<in> set (asked_by ch e rows)" "ahead ch start x"
  "\<lambda>rows. rota_keyed rows \<and> x \<in> set rows \<and> in_bucket ch ''cldx'' (-1) x \<and> p \<le> 40" "attends p start x" is_pass is_expiry p
  for ch x start p
proof
  fix rows e
  assume fine: "rota_keyed rows \<and> x \<in> set rows \<and> in_bucket ch ''cldx'' (-1) x \<and> p \<le> 40"
    and may: "attends p start x e" "w_sn x \<notin> set (asked_by ch e rows)"
  have "x \<in> set (rota_step ch e rows)" using fine may by (intro not_asked_stays) (auto simp: in_bucket_def)
  then show "rota_keyed (rota_step ch e rows) \<and> x \<in> set (rota_step ch e rows) \<and> in_bucket ch ''cldx'' (-1) x \<and> p \<le> 40"
    using fine rota_keyed_step by blast
  show "ahead ch start x (rota_step ch e rows) + p \<le> ahead ch start x rows" if "is_pass e"
    using pass_shortens fine may that by blast
  show "ahead ch start x (rota_step ch e rows) \<le> ahead ch start x rows + (if is_expiry e then 1 else 0)" if "\<not> is_pass e"
    using step_lengthens fine may(1) that by blast
qed

lemma cldx_asked_along:
  "asked_along (rota_step ch) (\<lambda>e rows. sn \<in> set (asked_by ch e rows)) rows es \<longleftrightarrow> sn \<in> set (asked_in ch rows es)"
  by (induction es arbitrary: rows) simp_all

text \<open>
  C8: No late payment is starved, however many orders wait and whatever else happens: an
  expired order is asked about as soon as the passes that manage \<open>5 * p - 3\<close> orders each have
  gone through the orders ahead of it and those that expired meanwhile, \<open>p\<close> by \<open>p\<close>.\<close>

theorem late_payments_are_asked_about:
  assumes "rota_keyed rows" "x \<in> set rows" "in_bucket ch ''cldx'' (-1) x" "p \<le> 40"
    and "list_all (attends p start x) es"
    and "ahead ch start x rows + length (filter is_expiry es) < p * length (filter is_pass es)"
  shows "w_sn x \<in> set (asked_in ch rows es)"
proof -
  have "length (filter (\<lambda>e. is_expiry e \<and> \<not> is_pass e) es) \<le> length (filter is_expiry es)"
    by (rule filter_shorter) simp
  then have "asked_along (rota_step ch) (\<lambda>e rows. w_sn x \<in> set (asked_by ch e rows)) rows es"
    using assms by (intro late_rota.asked_in_the_end [where start = start and p = p]) auto
  then show ?thesis by (simp add: cldx_asked_along)
qed

text \<open>Two late orders and one that still may be paid, all of them paid by wallet; each pass manages two orders.\<close>

definition sample_row :: "int \<Rightarrow> string \<Rightarrow> int \<Rightarrow> int option \<Rightarrow> rota_row" where
  "sample_row i sn st t = \<lparr>w_id = i, w_sn = sn, w_pay = 1, w_status = st, w_minor = Some 5,
     w_expires = Some 1000, w_polled = t, w_deleted = False\<rparr>"

definition sample_rota :: "rota_row list" where
  "sample_rota = [sample_row 1 ''A'' 1 None, sample_row 2 ''B'' (-1) (Some 10), sample_row 3 ''C'' (-1) (Some 40)]"

definition sample_passes :: "rota_event list" where
  "sample_passes = [Pass 2000 2 (\<lambda>_. True) (\<lambda>_. 2001), Fresh (sample_row 4 ''D'' 1 None),
     Order_expired 1, Pass 2030 2 (\<lambda>_. True) (\<lambda>_. 2031), Pass 2060 2 (\<lambda>_. True) (\<lambda>_. 2061)]"

theorem late_payments_are_asked_about_witness:
  "''C'' \<in> set (asked_in (\<lambda>_. Some ''cldx'') sample_rota sample_passes)"
proof -
  let ?x = "sample_row 3 ''C'' (-1) (Some 40)" and ?ch = "\<lambda>_. Some ''cldx''"
  have "ahead ?ch 2000 ?x sample_rota + length (filter is_expiry sample_passes) < 1 * length (filter is_pass sample_passes)"
    by (simp add: ahead_def ahead_of_def sample_rota_def sample_passes_def sample_row_def poll_key_def
        in_bucket_def in_window_def CldxLateWindow_def)
  moreover have "list_all (attends 1 2000 ?x) sample_passes"
    by (simp add: sample_passes_def sample_row_def in_window_def CldxLateWindow_def)
  ultimately show ?thesis
    using late_payments_are_asked_about [of sample_rota ?x ?ch 1 2000 sample_passes]
    by (simp add: rota_keyed_def sample_rota_def sample_row_def in_bucket_def)
qed

end
