(* ===== verification/Receipts.thy ===== *)
theory Receipts imports Tables begin

text \<open>
  The questions to the wallet about one order, shared by all who ask: \<open>receiptThrottle\<close> of
  \<open>src/internal/httpx/cldx.go\<close>. Callers and fetches run at the same time; each event below is
  one part under the lock. An entry is an object of its own that outlives its place in the
  table. The wallet's answer is of any type; times are nanoseconds.
\<close>

section \<open>State\<close>

datatype fetch_error = Wallet_error | Canceled | Panicked

text \<open>\<open>en_flying\<close>: the channel \<open>done\<close> is there; \<open>en_sn\<close> is the number its fetch was started with.\<close>

record 'a receipt_entry =
  en_sn :: string
  en_flying :: bool
  en_at :: int
  en_answer :: "(fetch_error + 'a) option"

datatype rc_caller = Waits string nat | Leads nat

record 'a receipt_throttle =
  rc_last :: "(string \<times> nat) list"
  rc_entries :: "nat \<Rightarrow> 'a receipt_entry option"
  rc_next :: nat
  rc_callers :: "nat \<Rightarrow> rc_caller option"

definition receiptWindow :: int where "receiptWindow = 10 * 10 ^ 9"

definition newReceiptThrottle :: "'a receipt_throttle" where
  "newReceiptThrottle = \<lparr>rc_last = [], rc_entries = (\<lambda>_. None), rc_next = 0, rc_callers = (\<lambda>_. None)\<rparr>"

definition delete_last :: "string \<Rightarrow> (string \<times> nat) list \<Rightarrow> (string \<times> nat) list" where
  "delete_last sn xs = filter (\<lambda>x. fst x \<noteq> sn) xs"

definition last_entry :: "'a receipt_throttle \<Rightarrow> string \<Rightarrow> 'a receipt_entry option" where
  "last_entry t sn = (case map_of (rc_last t) sn of None \<Rightarrow> None | Some i \<Rightarrow> rc_entries t i)"

section \<open>Operations\<close>

definition in_flight :: "'a receipt_throttle \<Rightarrow> nat \<Rightarrow> bool" where
  "in_flight t i \<longleftrightarrow> (case rc_entries t i of None \<Rightarrow> False | Some e \<Rightarrow> en_flying e)"

definition in_cache :: "int \<Rightarrow> 'a receipt_entry \<Rightarrow> bool" where
  "in_cache now e \<longleftrightarrow> \<not> en_flying e \<and> now - en_at e < receiptWindow"

text \<open>The caller has to start a fetch: there is no entry, or an old one.\<close>

definition must_fetch :: "string \<Rightarrow> int \<Rightarrow> 'a receipt_throttle \<Rightarrow> bool" where
  "must_fetch sn now t \<longleftrightarrow>
     (case last_entry t sn of None \<Rightarrow> True | Some e \<Rightarrow> \<not> in_cache now e \<and> \<not> en_flying e)"

definition start_fetch :: "nat \<Rightarrow> string \<Rightarrow> 'a receipt_throttle \<Rightarrow> 'a receipt_throttle" where
  "start_fetch c sn t =
     t\<lparr>rc_entries := (rc_entries t)(rc_next t := Some \<lparr>en_sn = sn, en_flying = True, en_at = 0, en_answer = None\<rparr>),
       rc_last := (sn, rc_next t) # delete_last sn (rc_last t),
       rc_callers := (rc_callers t)(c := Some (Leads (rc_next t))), rc_next := Suc (rc_next t)\<rparr>"

text \<open>One round of the loop of \<open>get\<close> by the caller \<open>c\<close>.\<close>

definition get_round :: "nat \<Rightarrow> string \<Rightarrow> int \<Rightarrow> 'a receipt_throttle \<Rightarrow> 'a receipt_throttle" where
  "get_round c sn now t =
     (if must_fetch sn now t then start_fetch c sn t
      else
        (case map_of (rc_last t) sn of
           Some i \<Rightarrow> t\<lparr>rc_callers := (rc_callers t)(c := if in_flight t i then Some (Waits sn i) else None)\<rparr>
         | None \<Rightarrow> t))"

definition prune :: "int \<Rightarrow> 'a receipt_throttle \<Rightarrow> 'a receipt_throttle" where
  "prune now t =
     (if length (rc_last t) \<le> 4096 then t
      else t\<lparr>rc_last := filter (\<lambda>(k, i). case rc_entries t i of None \<Rightarrow> False
        | Some e \<Rightarrow> \<not> (\<not> en_flying e \<and> receiptWindow \<le> now - en_at e)) (rc_last t)\<rparr>)"

definition set_entry :: "nat \<Rightarrow> 'a receipt_entry \<Rightarrow> 'a receipt_throttle \<Rightarrow> 'a receipt_throttle" where
  "set_entry i e t = t\<lparr>rc_entries := (rc_entries t)(i := Some e)\<rparr>"

text \<open>The deferred end of \<open>lead\<close>: an answer that says nothing about the wallet is dropped.\<close>

definition dropped_answer :: "fetch_error + 'a \<Rightarrow> bool" where
  "dropped_answer r \<longleftrightarrow> (case r of Inl e \<Rightarrow> e = Canceled \<or> e = Panicked | Inr a \<Rightarrow> False)"

definition lead_ends :: "nat \<Rightarrow> int \<Rightarrow> fetch_error + 'a \<Rightarrow> 'a receipt_throttle \<Rightarrow> 'a receipt_throttle" where
  "lead_ends i now r t =
     (case rc_entries t i of
        None \<Rightarrow> t
      | Some e \<Rightarrow>
          if \<not> en_flying e then t
          else if map_of (rc_last t) (en_sn e) \<noteq> Some i then set_entry i (e\<lparr>en_answer := Some r, en_flying := False\<rparr>) t
          else if dropped_answer r then
            set_entry i (e\<lparr>en_answer := Some r, en_flying := False\<rparr>) (t\<lparr>rc_last := delete_last (en_sn e) (rc_last t)\<rparr>)
          else
            set_entry i (e\<lparr>en_answer := Some r, en_at := now, en_flying := False\<rparr>)
              (prune now (set_entry i (e\<lparr>en_answer := Some r, en_at := now\<rparr>) t)))"

definition forget :: "string \<Rightarrow> 'a receipt_throttle \<Rightarrow> 'a receipt_throttle" where
  "forget sn t = t\<lparr>rc_last := delete_last sn (rc_last t)\<rparr>"

section \<open>Events\<close>

text \<open>
  \<open>Get_receipt\<close> is a caller who enters the loop, \<open>Wakes\<close> one who waited for a fetch of another
  and goes round again, \<open>Takes\<close> the leader who reads the result, \<open>Gives_up\<close> a caller whose context
  has ended, \<open>Lead_ends\<close> the end of a fetch.
\<close>

datatype 'a rc_event =
    Get_receipt nat string int | Wakes nat int | Lead_ends nat int "fetch_error + 'a"
  | Takes nat | Gives_up nat | Forgets string

fun rc_step :: "'a rc_event \<Rightarrow> 'a receipt_throttle \<Rightarrow> 'a receipt_throttle" where
  "rc_step (Get_receipt c sn now) t = get_round c sn now t"
| "rc_step (Wakes c now) t =
     (case rc_callers t c of
        Some (Waits sn i) \<Rightarrow> if in_flight t i then t else get_round c sn now t
      | _ \<Rightarrow> t)"
| "rc_step (Lead_ends i now r) t = lead_ends i now r t"
| "rc_step (Takes c) t =
     (case rc_callers t c of
        Some (Leads i) \<Rightarrow> if in_flight t i then t else t\<lparr>rc_callers := (rc_callers t)(c := None)\<rparr>
      | _ \<Rightarrow> t)"
| "rc_step (Gives_up c) t = t\<lparr>rc_callers := (rc_callers t)(c := None)\<rparr>"
| "rc_step (Forgets sn) t = forget sn t"

text \<open>What a caller is told, and whether it was the one who asked the wallet.\<close>

definition round_answer :: "string \<Rightarrow> int \<Rightarrow> 'a receipt_throttle \<Rightarrow> (fetch_error + 'a) option" where
  "round_answer sn now t =
     (case last_entry t sn of None \<Rightarrow> None | Some e \<Rightarrow> if in_cache now e then en_answer e else None)"

fun rc_told :: "'a rc_event \<Rightarrow> 'a receipt_throttle \<Rightarrow> (string \<times> (fetch_error + 'a) \<times> bool) option" where
  "rc_told (Get_receipt c sn now) t = map_option (\<lambda>a. (sn, a, False)) (round_answer sn now t)"
| "rc_told (Wakes c now) t =
     (case rc_callers t c of
        Some (Waits sn i) \<Rightarrow> if in_flight t i then None else map_option (\<lambda>a. (sn, a, False)) (round_answer sn now t)
      | _ \<Rightarrow> None)"
| "rc_told (Takes c) t =
     (case rc_callers t c of
        Some (Leads i) \<Rightarrow>
          (case rc_entries t i of
             None \<Rightarrow> None
           | Some e \<Rightarrow> if en_flying e then None else map_option (\<lambda>a. (en_sn e, a, True)) (en_answer e))
      | _ \<Rightarrow> None)"
| "rc_told e t = None"

text \<open>When a fetch for the number \<open>sn\<close> begins.\<close>

fun rc_begins :: "string \<Rightarrow> 'a rc_event \<Rightarrow> 'a receipt_throttle \<Rightarrow> int option" where
  "rc_begins sn (Get_receipt c k now) t = (if k = sn \<and> must_fetch sn now t then Some now else None)"
| "rc_begins sn (Wakes c now) t =
     (case rc_callers t c of
        Some (Waits k i) \<Rightarrow> if \<not> in_flight t i \<and> k = sn \<and> must_fetch sn now t then Some now else None
      | _ \<Rightarrow> None)"
| "rc_begins sn e t = None"

fun fetches :: "string \<Rightarrow> 'a receipt_throttle \<Rightarrow> 'a rc_event list \<Rightarrow> int list" where
  "fetches sn t [] = []"
| "fetches sn t (e # es) =
     (case rc_begins sn e t of None \<Rightarrow> [] | Some now \<Rightarrow> [now]) @ fetches sn (rc_step e t) es"

fun rc_time :: "'a rc_event \<Rightarrow> int option" where
  "rc_time (Get_receipt c k now) = Some now"
| "rc_time (Wakes c now) = Some now"
| "rc_time (Lead_ends i now r) = Some now"
| "rc_time e = None"

section \<open>The wallet is spared\<close>

definition rc_ok :: "'a receipt_throttle \<Rightarrow> bool" where
  "rc_ok t \<longleftrightarrow> unique_keys (rc_last t) \<and>
     (\<forall>(k, i) \<in> set (rc_last t). i < rc_next t \<and> (\<exists>e. rc_entries t i = Some e \<and> en_sn e = k))"

text \<open>
  After a fetch that began at \<open>s\<close>: its entry is in the table, under way or not older than \<open>s\<close>, or
  the window is over.
\<close>

definition rests :: "string \<Rightarrow> int \<Rightarrow> int \<Rightarrow> 'a receipt_throttle \<Rightarrow> bool" where
  "rests sn now s t \<longleftrightarrow> s \<le> now \<and>
     (s + receiptWindow \<le> now \<or> (\<exists>e. last_entry t sn = Some e \<and> (en_flying e \<or> s \<le> en_at e)))"

text \<open>Nobody forgets \<open>sn\<close>, and no fetch panics or is cancelled.\<close>

fun undisturbed :: "string \<Rightarrow> 'a rc_event \<Rightarrow> bool" where
  "undisturbed sn (Forgets k) \<longleftrightarrow> k \<noteq> sn"
| "undisturbed sn (Lead_ends i now r) \<longleftrightarrow> \<not> dropped_answer r"
| "undisturbed sn e \<longleftrightarrow> True"

lemma map_of_delete [simp]: "map_of (delete_last k xs) sn = (if sn = k then None else map_of xs sn)"
  by (simp add: delete_last_def)

lemma last_entry_callers [simp]: "last_entry (t\<lparr>rc_callers := cs\<rparr>) sn = last_entry t sn"
  by (simp add: last_entry_def split: option.splits)

lemma last_entry_delete [simp]:
  "last_entry (t\<lparr>rc_last := delete_last k (rc_last t)\<rparr>) sn = (if sn = k then None else last_entry t sn)"
  by (simp add: last_entry_def split: option.splits)

lemma last_entry_start:
  assumes "rc_ok t"
  shows "last_entry (start_fetch c k t) sn =
    (if sn = k then Some \<lparr>en_sn = k, en_flying = True, en_at = 0, en_answer = None\<rparr> else last_entry t sn)"
  using assms by (auto simp: last_entry_def start_fetch_def rc_ok_def split: option.splits dest!: map_of_SomeD)

lemma last_entry_set:
  "last_entry (set_entry i e t) sn = (if map_of (rc_last t) sn = Some i then Some e else last_entry t sn)"
  by (auto simp: last_entry_def set_entry_def split: option.splits)

lemma last_entry_prune:
  assumes "rc_ok t" "last_entry t sn = Some e"
  shows "last_entry (prune now t) sn = Some e
    \<or> last_entry (prune now t) sn = None \<and> \<not> en_flying e \<and> receiptWindow \<le> now - en_at e"
proof (cases "length (rc_last t) \<le> 4096")
  case False
  let ?keep = "\<lambda>(k, i). case rc_entries t i of None \<Rightarrow> False
    | Some e \<Rightarrow> \<not> (\<not> en_flying e \<and> receiptWindow \<le> now - en_at e)"
  let ?rs = "filter ?keep (rc_last t)"
  have p: "prune now t = t\<lparr>rc_last := ?rs\<rparr>" using False by (simp add: prune_def)
  obtain i where i: "map_of (rc_last t) sn = Some i" "rc_entries t i = Some e"
    using assms(2) by (auto simp: last_entry_def split: option.splits)
  have d: "unique_keys (rc_last t)" using assms(1) by (simp add: rc_ok_def)
  show ?thesis using found_or_dropped [OF d i(1), of ?keep] by (simp add: p last_entry_def i(2))
qed (simp add: prune_def assms(2))

lemma rc_ok_new: "rc_ok newReceiptThrottle"
  by (simp add: rc_ok_def newReceiptThrottle_def)

lemma rc_ok_start: "rc_ok t \<Longrightarrow> rc_ok (start_fetch c k t)"
  by (force simp: rc_ok_def start_fetch_def delete_last_def less_Suc_eq)

lemma rc_ok_fewer:
  assumes "rc_ok t" "rc_last t' = filter P (rc_last t)" "rc_entries t' = rc_entries t" "rc_next t' = rc_next t"
  shows "rc_ok t'"
  using assms by (auto simp: rc_ok_def)

lemma rc_ok_set: "rc_ok t \<Longrightarrow> rc_entries t i = Some e0 \<Longrightarrow> en_sn e = en_sn e0 \<Longrightarrow> rc_ok (set_entry i e t)"
  by (force simp: rc_ok_def set_entry_def)

lemma rc_ok_prune: "rc_ok t \<Longrightarrow> rc_ok (prune now t)"
  by (cases "length (rc_last t) \<le> 4096") (auto simp: prune_def intro: rc_ok_fewer)

lemma entries_prune [simp]: "rc_entries (prune now t) = rc_entries t"
  by (simp add: prune_def)

lemma rc_ok_round: "rc_ok t \<Longrightarrow> rc_ok (get_round c sn now t)"
  by (auto simp: get_round_def rc_ok_start split: option.splits) (simp_all add: rc_ok_def)

lemma rc_ok_end: "rc_ok t \<Longrightarrow> rc_ok (lead_ends i now r t)"
proof (cases "rc_entries t i")
  case (Some e)
  assume t: "rc_ok t"
  have a: "rc_ok (set_entry i (e\<lparr>en_answer := Some r, en_flying := False\<rparr>) t)"
    by (rule rc_ok_set [OF t Some]) simp
  have "rc_ok (t\<lparr>rc_last := delete_last (en_sn e) (rc_last t)\<rparr>)"
    by (rule rc_ok_fewer [OF t]) (simp_all add: delete_last_def)
  then have b: "rc_ok (set_entry i (e\<lparr>en_answer := Some r, en_flying := False\<rparr>) (t\<lparr>rc_last := delete_last (en_sn e) (rc_last t)\<rparr>))"
    by (rule rc_ok_set [where ?e0.0 = e]) (simp_all add: Some)
  have "rc_ok (prune now (set_entry i (e\<lparr>en_answer := Some r, en_at := now\<rparr>) t))"
    by (intro rc_ok_prune rc_ok_set [OF t Some]) simp
  then have c: "rc_ok (set_entry i (e\<lparr>en_answer := Some r, en_at := now, en_flying := False\<rparr>)
      (prune now (set_entry i (e\<lparr>en_answer := Some r, en_at := now\<rparr>) t)))"
    by (rule rc_ok_set [where ?e0.0 = "e\<lparr>en_answer := Some r, en_at := now\<rparr>"]) (simp_all add: set_entry_def)
  show ?thesis using t a b c by (simp add: lead_ends_def Some)
qed (simp add: lead_ends_def)

lemma rc_ok_step: "rc_ok t \<Longrightarrow> rc_ok (rc_step e t)"
proof (cases e)
  case (Forgets sn)
  assume t: "rc_ok t"
  show ?thesis unfolding Forgets rc_step.simps forget_def
    by (rule rc_ok_fewer [OF t]) (simp_all add: delete_last_def)
qed (auto simp: rc_ok_round rc_ok_end split: option.splits rc_caller.splits, auto simp: rc_ok_def)

lemma begins:
  assumes "rc_begins sn e t = Some f"
  shows "must_fetch sn f t \<and> rc_time e = Some f \<and> (\<exists>c. rc_step e t = start_fetch c sn t)"
proof (cases e)
  case (Get_receipt c k now)
  then show ?thesis using assms by (auto simp: get_round_def split: if_splits)
next
  case (Wakes c now)
  then show ?thesis using assms by (auto simp: get_round_def split: if_splits option.splits rc_caller.splits)
qed (use assms in simp_all)

lemma no_time_no_fetch: "rc_time e = None \<Longrightarrow> rc_begins sn e t = None"
  by (cases e) simp_all

lemma rests_later: "rests sn now s t \<Longrightarrow> now \<le> now' \<Longrightarrow> rests sn now' s t"
  by (auto simp: rests_def)

lemma rests_begins:
  assumes "rests sn now s t" "must_fetch sn f t" "now \<le> f"
  shows "s + receiptWindow \<le> f"
  using assms by (auto simp: rests_def must_fetch_def in_cache_def)

lemma rests_started: "rc_ok t \<Longrightarrow> rests sn f f (start_fetch c sn t)"
  by (simp add: rests_def last_entry_start)

lemma rests_same: "rests sn now s t \<Longrightarrow> last_entry t' sn = last_entry t sn \<Longrightarrow> rests sn now s t'"
  by (simp add: rests_def)

text \<open>A round of the loop for another number, or one that finds an entry.\<close>

lemma last_entry_round:
  assumes "rc_ok t" "k \<noteq> sn \<or> \<not> must_fetch sn now t"
  shows "last_entry (get_round c k now t) sn = last_entry t sn"
  using assms by (auto simp: get_round_def last_entry_start split: option.splits)

lemma rests_prune:
  assumes "rc_ok t" "rests sn now s t"
  shows "rests sn now s (prune now t)"
proof (cases "s + receiptWindow \<le> now")
  case True
  then show ?thesis using assms(2) by (simp add: rests_def)
next
  case False
  then obtain e where e: "last_entry t sn = Some e" "en_flying e \<or> s \<le> en_at e" "s \<le> now"
    using assms(2) by (auto simp: rests_def)
  from last_entry_prune [OF assms(1) e(1), of now] show ?thesis
    using e False by (auto simp: rests_def)
qed

lemma rests_set:
  assumes "rests sn now s t" "map_of (rc_last t) sn = Some i \<Longrightarrow> en_flying e \<or> s \<le> en_at e"
  shows "rests sn now s (set_entry i e t)"
  using assms by (auto simp: rests_def last_entry_set)

lemma rests_end:
  assumes "rc_ok t" "rests sn now s t" "\<not> dropped_answer r"
  shows "rests sn now s (lead_ends i now r t)"
proof (cases "rc_entries t i")
  case (Some e)
  have le: "s \<le> now" using assms(2) by (simp add: rests_def)
  show ?thesis
  proof (cases "en_flying e \<and> map_of (rc_last t) (en_sn e) = Some i")
    case True
    have "rc_ok (set_entry i (e\<lparr>en_answer := Some r, en_at := now\<rparr>) t)" by (rule rc_ok_set [OF assms(1) Some]) simp
    moreover have "rests sn now s (set_entry i (e\<lparr>en_answer := Some r, en_at := now\<rparr>) t)"
      by (rule rests_set [OF assms(2)]) (simp add: le)
    ultimately have "rests sn now s (prune now (set_entry i (e\<lparr>en_answer := Some r, en_at := now\<rparr>) t))"
      by (rule rests_prune)
    then have "rests sn now s (set_entry i (e\<lparr>en_answer := Some r, en_at := now, en_flying := False\<rparr>)
        (prune now (set_entry i (e\<lparr>en_answer := Some r, en_at := now\<rparr>) t)))"
      by (rule rests_set) (simp add: le)
    then show ?thesis using True assms(3) Some by (simp add: lead_ends_def)
  next
    case False
    have "map_of (rc_last t) (en_sn e) = Some i" if "map_of (rc_last t) sn = Some i"
      using assms(1) map_of_SomeD [OF that] Some that by (force simp: rc_ok_def)
    then show ?thesis using False assms(2) Some
      by (auto simp: lead_ends_def intro: rests_set)
  qed
qed (simp add: lead_ends_def assms(2))

lemma rests_step:
  assumes "rc_ok t" "rests sn now s t" "undisturbed sn e" "rc_begins sn e t = None" "rc_time e = None \<or> rc_time e = Some now"
  shows "rests sn now s (rc_step e t)"
proof (cases e)
  case (Get_receipt c k f)
  then show ?thesis using assms rests_same [OF assms(2) last_entry_round [OF assms(1)]]
    by (auto split: if_splits)
next
  case (Wakes c f)
  then show ?thesis using assms rests_same [OF assms(2) last_entry_round [OF assms(1)]]
    by (auto split: if_splits option.splits rc_caller.splits)
next
  case (Lead_ends i f r)
  then show ?thesis using assms rests_end [OF assms(1,2)] by simp
next
  case (Takes c)
  then show ?thesis using assms(2) by (auto intro: rests_same split: option.splits rc_caller.splits)
next
  case (Gives_up c)
  then show ?thesis using assms(2) by (auto intro: rests_same)
next
  case (Forgets k)
  then show ?thesis using assms(2,3) by (auto simp: forget_def intro: rests_same)
qed

fun rc_times :: "'a rc_event list \<Rightarrow> int list" where
  "rc_times [] = []"
| "rc_times (e # es) = (case rc_time e of None \<Rightarrow> [] | Some now \<Rightarrow> [now]) @ rc_times es"

lemma fetches_after:
  assumes "rc_ok t" "rests sn now s t" "sorted (now # rc_times es)" "list_all (undisturbed sn) es"
  shows "sorted_wrt (\<lambda>a b. a + receiptWindow \<le> b) (s # fetches sn t es)"
  using assms
proof (induction es arbitrary: t now s)
  case Nil
  then show ?case by simp
next
  case (Cons e es)
  define f where "f = (case rc_time e of None \<Rightarrow> now | Some f \<Rightarrow> f)"
  have f: "now \<le> f" "sorted (f # rc_times es)" "rc_time e = None \<or> rc_time e = Some f"
    using Cons.prems(3) by (auto simp: f_def split: option.splits)
  have undisturbed: "undisturbed sn e" "list_all (undisturbed sn) es" using Cons.prems(4) by simp_all
  have r: "rests sn f s t" by (rule rests_later [OF Cons.prems(2) f(1)])
  show ?case
  proof (cases "rc_begins sn e t")
    case None
    from rests_step [OF Cons.prems(1) r undisturbed(1) None f(3)]
    show ?thesis using Cons.IH [OF rc_ok_step [OF Cons.prems(1)] _ f(2) undisturbed(2)] None by simp
  next
    case (Some b)
    from begins [OF Some] obtain c where c: "must_fetch sn b t" "rc_time e = Some b" "rc_step e t = start_fetch c sn t"
      by blast
    then have "b = f" using f(3) by simp
    have "rests sn f f (rc_step e t)" unfolding c(3) by (rule rests_started [OF Cons.prems(1)])
    from Cons.IH [OF rc_ok_step [OF Cons.prems(1)] this f(2) undisturbed(2)]
    have rest: "sorted_wrt (\<lambda>a b. a + receiptWindow \<le> b) (f # fetches sn (rc_step e t) es)" .
    moreover have first: "s + receiptWindow \<le> f" using rests_begins [OF Cons.prems(2) c(1)] f(1) \<open>b = f\<close> by simp
    ultimately show ?thesis using Some \<open>b = f\<close> by (auto simp: receiptWindow_def)
  qed
qed

section \<open>Answers that are shared\<close>

text \<open>The ends of fetches: number, time, answer.\<close>

fun rc_ends :: "'a rc_event \<Rightarrow> 'a receipt_throttle \<Rightarrow> (string \<times> int \<times> (fetch_error + 'a)) option" where
  "rc_ends (Lead_ends i now r) t =
     (case rc_entries t i of None \<Rightarrow> None | Some e \<Rightarrow> if en_flying e then Some (en_sn e, now, r) else None)"
| "rc_ends e t = None"

fun history :: "'a receipt_throttle \<Rightarrow> 'a rc_event list \<Rightarrow> (string \<times> int \<times> (fetch_error + 'a)) set" where
  "history t [] = {}"
| "history t (e # es) = set_option (rc_ends e t) \<union> history (rc_step e t) es"

fun rc_run :: "'a receipt_throttle \<Rightarrow> 'a rc_event list \<Rightarrow> 'a receipt_throttle" where
  "rc_run t [] = t"
| "rc_run t (e # es) = rc_run (rc_step e t) es"

text \<open>What the table holds for a number, and is not under way, is the end of a fetch for this number.\<close>

definition recorded :: "(string \<times> int \<times> (fetch_error + 'a)) set \<Rightarrow> 'a receipt_throttle \<Rightarrow> bool" where
  "recorded H t \<longleftrightarrow> rc_ok t \<and>
     (\<forall>sn e a. last_entry t sn = Some e \<longrightarrow> \<not> en_flying e \<longrightarrow> en_answer e = Some a \<longrightarrow> (sn, en_at e, a) \<in> H)"

lemma recorded_fewer:
  assumes "recorded H t" "rc_ok t'" "\<And>sn e. last_entry t' sn = Some e \<Longrightarrow> en_flying e \<or> last_entry t sn = Some e"
  shows "recorded H t'"
  using assms unfolding recorded_def by blast

lemma recorded_round: "recorded H t \<Longrightarrow> recorded H (get_round c k now t)"
proof (rule recorded_fewer)
  assume t: "recorded H t"
  then show "rc_ok (get_round c k now t)" by (simp add: recorded_def rc_ok_round)
  show "last_entry (get_round c k now t) sn = Some e \<Longrightarrow> en_flying e \<or> last_entry t sn = Some e" for sn e
    using t by (auto simp: recorded_def get_round_def last_entry_start split: if_splits option.splits)
qed

lemma last_prune:
  "rc_ok t \<Longrightarrow> map_of (rc_last (prune now t)) sn = Some i \<Longrightarrow> map_of (rc_last t) sn = Some i"
  by (auto simp: prune_def rc_ok_def found_in_rest split: if_splits option.splits)

lemma own_entry: "rc_ok t \<Longrightarrow> rc_entries t i = Some e \<Longrightarrow> map_of (rc_last t) sn = Some i \<Longrightarrow> en_sn e = sn"
  by (force simp: rc_ok_def dest!: map_of_SomeD)

lemma last_entry_end:
  assumes "rc_ok t" "rc_entries t i = Some e" "en_flying e" "last_entry (lead_ends i now r t) sn = Some e'"
  shows "last_entry t sn = Some e' \<or> en_sn e = sn \<and> en_at e' = now \<and> en_answer e' = Some r"
proof (cases "map_of (rc_last t) (en_sn e) \<noteq> Some i \<or> dropped_answer r")
  case True
  show ?thesis
  proof (cases "map_of (rc_last t) sn = Some i")
    case i: True
    then have "en_sn e = sn" by (rule own_entry [OF assms(1,2)])
    then show ?thesis using True assms(2-4) i by (simp add: lead_ends_def last_entry_set)
  next
    case False
    then show ?thesis using True assms(2-4) by (auto simp: lead_ends_def last_entry_set split: if_splits)
  qed
next
  case False
  let ?t = "set_entry i (e\<lparr>en_answer := Some r, en_at := now\<rparr>) t"
  have t': "rc_ok ?t" by (rule rc_ok_set [OF assms(1,2)]) simp
  have l: "last_entry (set_entry i (e\<lparr>en_answer := Some r, en_at := now, en_flying := False\<rparr>) (prune now ?t)) sn = Some e'"
    using False assms by (simp add: lead_ends_def)
  then obtain j where j: "map_of (rc_last (prune now ?t)) sn = Some j" by (auto simp: last_entry_def set_entry_def split: option.splits)
  from last_prune [OF t' j] have m: "map_of (rc_last t) sn = Some j" by (simp add: set_entry_def)
  have "en_sn e = sn" if "j = i" using own_entry [OF assms(1,2)] m that by simp
  then show ?thesis using m using l j by (auto simp: last_entry_def set_entry_def split: if_splits)
qed

lemma recorded_end:
  assumes "recorded H t"
  shows "recorded (set_option (rc_ends (Lead_ends i now r) t) \<union> H) (lead_ends i now r t)"
proof (cases "\<exists>e. rc_entries t i = Some e \<and> en_flying e")
  case True
  then obtain e where e: "rc_entries t i = Some e" "en_flying e" by blast
  have ok: "rc_ok t" using assms by (simp add: recorded_def)
  let ?H = "insert (en_sn e, now, r) H"
  have "(sn, en_at e', a) \<in> ?H"
    if "last_entry (lead_ends i now r t) sn = Some e'" "\<not> en_flying e'" "en_answer e' = Some a" for sn e' a
    using last_entry_end [OF ok e that(1)] assms that(2,3) unfolding recorded_def by force
  then have "recorded ?H (lead_ends i now r t)" using rc_ok_end [OF ok] by (simp add: recorded_def)
  then show ?thesis by (simp add: e)
next
  case False
  then show ?thesis using assms by (auto simp: lead_ends_def split: option.splits)
qed

lemma recorded_step: "recorded H t \<Longrightarrow> recorded (set_option (rc_ends e t) \<union> H) (rc_step e t)"
proof (cases e)
  case (Lead_ends i now r)
  then show "recorded H t \<Longrightarrow> ?thesis" using recorded_end by simp
next
  case (Get_receipt c k now)
  then show "recorded H t \<Longrightarrow> ?thesis" using recorded_round by simp
next
  case (Wakes c now)
  then show "recorded H t \<Longrightarrow> ?thesis" using recorded_round by (auto split: option.splits rc_caller.splits)
next
  case (Forgets k)
  assume t: "recorded H t"
  have "rc_ok (rc_step e t)" using rc_ok_step t by (auto simp: recorded_def)
  then have "recorded H (rc_step e t)"
    by (rule recorded_fewer [OF t]) (auto simp: Forgets forget_def split: if_splits)
  then show ?thesis by (simp add: Forgets)
next
  case (Takes c)
  assume t: "recorded H t"
  have "rc_ok (rc_step e t)" using rc_ok_step t by (auto simp: recorded_def)
  then have "recorded H (rc_step e t)"
    by (rule recorded_fewer [OF t]) (auto simp: Takes split: option.splits rc_caller.splits if_splits)
  then show ?thesis by (simp add: Takes)
next
  case (Gives_up c)
  assume t: "recorded H t"
  have "rc_ok (rc_step e t)" using rc_ok_step t by (auto simp: recorded_def)
  then have "recorded H (rc_step e t)"
    by (rule recorded_fewer [OF t]) (auto simp: Gives_up)
  then show ?thesis by (simp add: Gives_up)
qed

lemma recorded_run: "recorded H t \<Longrightarrow> recorded (H \<union> history t es) (rc_run t es)"
proof (induction es arbitrary: H t)
  case (Cons e es)
  from Cons.IH [OF recorded_step [OF Cons.prems, of e]] show ?case by (simp add: Un_ac)
qed simp

text \<open>An answer that a caller shares is what the wallet said about this order less than a window ago.\<close>

theorem shared_answers_are_recent:
  assumes "e = Get_receipt c k now \<or> e = Wakes c now" "rc_told e (rc_run newReceiptThrottle es) = Some (sn, a, b)"
  shows "\<exists>end. (sn, end, a) \<in> history newReceiptThrottle es \<and> now - end < receiptWindow \<and> \<not> b"
proof -
  have "recorded {} (newReceiptThrottle :: 'a receipt_throttle)"
    using rc_ok_new by (simp add: recorded_def last_entry_def newReceiptThrottle_def)
  from recorded_run [OF this, of es] have "recorded (history newReceiptThrottle es) (rc_run newReceiptThrottle es)" by simp
  moreover have "round_answer sn now (rc_run newReceiptThrottle es) = Some a \<and> \<not> b"
    using assms by (auto split: option.splits rc_caller.splits if_splits)
  ultimately show ?thesis
    by (auto simp: round_answer_def recorded_def in_cache_def split: option.splits if_splits)
qed

section \<open>Spaced questions\<close>

text \<open>
  C25: However many pages, tabs and passes ask about an order, and in whatever order callers come,
  wait, wake and give up, questions to the wallet about it begin at least a window apart, as
  long as its entry is not forgotten and no fetch panics.\<close>

theorem wallet_calls_are_spaced:
  assumes "sorted (rc_times es)" "list_all (undisturbed sn) es"
  shows "sorted_wrt (\<lambda>a b. a + receiptWindow \<le> b) (fetches sn newReceiptThrottle es)"
proof (cases "rc_times es")
  case Nil
  have "fetches sn t es = []" for t :: "'a receipt_throttle"
    using Nil by (induction es arbitrary: t) (auto simp: no_time_no_fetch split: option.splits)
  then show ?thesis by simp
next
  case (Cons now nows)
  have "rests sn now (now - receiptWindow) newReceiptThrottle"
    by (simp add: rests_def receiptWindow_def)
  from fetches_after [OF rc_ok_new this, of es] show ?thesis using assms Cons by simp
qed

text \<open>Two tabs ask at the same time, a third in the window, a fourth after it.\<close>

definition four_tabs :: "nat rc_event list" where
  "four_tabs = [Get_receipt 1 ''A'' 0, Get_receipt 2 ''A'' 1, Lead_ends 0 5 (Inr 7), Takes 1, Wakes 2 6,
     Get_receipt 3 ''A'' 9, Get_receipt 4 ''A'' (20 * 10 ^ 9)]"

theorem wallet_calls_are_spaced_witness:
  "fetches ''A'' newReceiptThrottle four_tabs = [0, 20 * 10 ^ 9]
     \<and> sorted_wrt (\<lambda>a b. a + receiptWindow \<le> b) (fetches ''A'' newReceiptThrottle four_tabs)"
proof
  show "fetches ''A'' newReceiptThrottle four_tabs = [0, 20 * 10 ^ 9]" by code_simp
  have "sorted (rc_times four_tabs)" "list_all (undisturbed ''A'') four_tabs" by code_simp+
  then show "sorted_wrt (\<lambda>a b. a + receiptWindow \<le> b) (fetches ''A'' newReceiptThrottle four_tabs)"
    by (rule wallet_calls_are_spaced)
qed

text \<open>
  The entry of an order that is forgotten while a fetch is under way makes room for a second one: the
  first tab gets its answer and completes the order so slowly that a second tab asks the wallet
  again, then it forgets the entry of the second tab, and a third tab asks as well.
\<close>

definition slow_completion :: "nat rc_event list" where
  "slow_completion = [Get_receipt 1 ''A'' 0, Lead_ends 0 5 (Inr 7), Takes 1,
     Get_receipt 2 ''A'' (11 * 10 ^ 9), Forgets ''A'', Get_receipt 3 ''A'' (12 * 10 ^ 9)]"

theorem forgetting_doubles_fetches:
  "in_flight (rc_run newReceiptThrottle slow_completion) 1 \<and> in_flight (rc_run newReceiptThrottle slow_completion) 2
   \<and> fetches ''A'' newReceiptThrottle slow_completion = [0, 11 * 10 ^ 9, 12 * 10 ^ 9]"
  by code_simp

end
