(* ===== verification/Login.thy ===== *)
theory Login imports Store Tables begin

text \<open>
  The log-in to the administration, \<open>src/internal/admin/auth.go\<close>: the counters of attempts by client
  address and of failures by account, and the handler \<open>login\<close>. Requests run at the same time: the
  parts of a request under the lock of the counters, and its read of the account, are events of
  their own. Times are nanoseconds, \<open>None\<close> is the zero time. Parameters: \<open>agrees\<close>, the
  comparison of a password with a hash, \<open>limiter_key\<close>, which groups client addresses, and whether a
  text is UTF-8. The counter of the calls does not wrap around.
\<close>

section \<open>The counters\<close>

definition loginMaxFails :: nat where "loginMaxFails = 5"
definition loginUnknownMaxFails :: nat where "loginUnknownMaxFails = 50"
definition loginUserMaxFails :: nat where "loginUserMaxFails = 20"
definition loginWindow :: int where "loginWindow = 15 * 60 * 10 ^ 9"
definition loginBlock :: int where "loginBlock = 15 * 60 * 10 ^ 9"
definition loginUserDelay :: int where "loginUserDelay = 2 * 10 ^ 9"
definition loginMaxUser :: nat where "loginMaxUser = 120"
definition loginMaxKeys :: nat where "loginMaxKeys = 10000"
definition loginFullSweepGap :: int where "loginFullSweepGap = 10 ^ 9"
definition loginSweepEvery :: nat where "loginSweepEvery = 256"

record loginFails =
  lf_count :: nat
  lf_first :: int
  lf_blocked :: "int option"

record loginLimiter =
  ll_fails :: "(string \<times> loginFails) list"
  ll_calls :: nat
  ll_swept :: "int option"

definition new_login_limiter :: loginLimiter where
  "new_login_limiter = \<lparr>ll_fails = [], ll_calls = 0, ll_swept = None\<rparr>"

definition locked_out :: "int \<Rightarrow> loginFails \<Rightarrow> bool" where
  "locked_out now f \<longleftrightarrow> (case lf_blocked f of None \<Rightarrow> False | Some t \<Rightarrow> now < t)"

definition login_expired :: "int \<Rightarrow> loginFails \<Rightarrow> bool" where
  "login_expired now f \<longleftrightarrow> \<not> locked_out now f \<and> (lf_count f = 0 \<or> loginWindow < now - lf_first f)"

definition login_sweep :: "int \<Rightarrow> loginLimiter \<Rightarrow> loginLimiter" where
  "login_sweep now l = l\<lparr>ll_fails := filter (\<lambda>(k, f). \<not> login_expired now f) (ll_fails l)\<rparr>"

definition drop_key :: "string \<Rightarrow> loginLimiter \<Rightarrow> loginLimiter" where
  "drop_key key l = l\<lparr>ll_fails := filter (\<lambda>x. fst x \<noteq> key) (ll_fails l)\<rparr>"

definition put_key :: "string \<Rightarrow> loginFails \<Rightarrow> loginLimiter \<Rightarrow> loginLimiter" where
  "put_key key f l = l\<lparr>ll_fails := (key, f) # filter (\<lambda>x. fst x \<noteq> key) (ll_fails l)\<rparr>"

definition fails_of :: "loginLimiter \<Rightarrow> string \<Rightarrow> loginFails option" where
  "fails_of l key = map_of (ll_fails l) key"

definition swept_if_due :: "int \<Rightarrow> loginLimiter \<Rightarrow> loginLimiter" where
  "swept_if_due now l =
     (if (case ll_swept l of None \<Rightarrow> True | Some t \<Rightarrow> loginFullSweepGap \<le> now - t)
      then login_sweep now (l\<lparr>ll_swept := Some now\<rparr>) else l)"

definition reserveMax :: "string \<Rightarrow> nat \<Rightarrow> int \<Rightarrow> loginLimiter \<Rightarrow> bool \<times> loginLimiter" where
  "reserveMax key cap now l0 =
     (let l1 = l0\<lparr>ll_calls := Suc (ll_calls l0)\<rparr>;
          l2 = (if ll_calls l1 mod loginSweepEvery = 0 then login_sweep now l1 else l1);
          l3 = (case fails_of l2 key of Some f \<Rightarrow> if login_expired now f then drop_key key l2 else l2 | None \<Rightarrow> l2)
      in case fails_of l3 key of
           None \<Rightarrow>
             let l4 = (if loginMaxKeys \<le> length (ll_fails l3) then swept_if_due now l3 else l3)
             in if loginMaxKeys \<le> length (ll_fails l4) then (False, l4)
                else (True, put_key key \<lparr>lf_count = 1, lf_first = now, lf_blocked = None\<rparr> l4)
         | Some f \<Rightarrow>
             if locked_out now f then (False, l3)
             else if cap \<le> lf_count f
             then (False, put_key key \<lparr>lf_count = 0, lf_first = now, lf_blocked = Some (now + loginBlock)\<rparr> l3)
             else (True, put_key key (f\<lparr>lf_count := Suc (lf_count f)\<rparr>) l3))"

definition release_login :: "string \<Rightarrow> int \<Rightarrow> loginLimiter \<Rightarrow> loginLimiter" where
  "release_login key now l =
     (case fails_of l key of
        None \<Rightarrow> l
      | Some f \<Rightarrow>
          let f' = f\<lparr>lf_count := lf_count f - 1\<rparr>
          in if login_expired now f' then drop_key key l else put_key key f' l)"

definition slow_login :: "string \<Rightarrow> int \<Rightarrow> loginLimiter \<Rightarrow> bool" where
  "slow_login key now l =
     (case fails_of l key of
        None \<Rightarrow> False
      | Some f \<Rightarrow> \<not> login_expired now f \<and> loginUserMaxFails \<le> lf_count f)"

definition fail_login :: "string \<Rightarrow> int \<Rightarrow> loginLimiter \<Rightarrow> loginLimiter" where
  "fail_login key now l =
     (let f = (case fails_of l key of
                 None \<Rightarrow> \<lparr>lf_count = 0, lf_first = now, lf_blocked = None\<rparr>
               | Some f \<Rightarrow> if login_expired now f then \<lparr>lf_count = 0, lf_first = now, lf_blocked = None\<rparr> else f)
      in put_key key (f\<lparr>lf_count := Suc (lf_count f)\<rparr>) l)"

definition clear_login :: "string list \<Rightarrow> loginLimiter \<Rightarrow> loginLimiter" where
  "clear_login keys l = foldl (\<lambda>l k. drop_key k l) l keys"

section \<open>Requests\<close>

text \<open>\<open>q_client\<close> is the address of the client and whether it is known.\<close>

record login_request =
  q_user :: string
  q_pass :: string
  q_client :: "string \<times> bool"

definition loginIPKey :: "(string \<Rightarrow> string) \<Rightarrow> string \<times> bool \<Rightarrow> string \<times> bool" where
  "loginIPKey limiter_key client =
     (if snd client then (''ip:'' @ limiter_key (fst client), True) else (''ip:unknown'', False))"

definition validLoginUser :: "(string \<Rightarrow> bool) \<Rightarrow> string \<Rightarrow> bool" where
  "validLoginUser utf8 user \<longleftrightarrow> user \<noteq> [] \<and> utf8 user \<and> CHR 0x00 \<notin> set user \<and> rune_count user \<le> loginMaxUser"

datatype account_read = Read_failed | No_account | Account int string string

datatype login_answer =
    Fields_missing | Login_wrong | No_database | No_session_key | Login_blocked | Login_db_error
  | Logged_in int string

text \<open>
  A request after its reservation, and after the read of its account; the number is the
  time before which it does not go on while its client is there.
\<close>

datatype login_stage = Reserved | Looked_up "(int \<times> string \<times> string) option" int

record login_call =
  lc_request :: login_request
  lc_stage :: login_stage

record login_state =
  lg_limiter :: loginLimiter
  lg_calls :: "(nat \<times> login_call) list"

definition end_call :: "nat \<Rightarrow> login_state \<Rightarrow> login_state" where
  "end_call c s = s\<lparr>lg_calls := filter (\<lambda>x. fst x \<noteq> c) (lg_calls s)\<rparr>"

definition call_key :: "(string \<Rightarrow> string) \<Rightarrow> login_call \<Rightarrow> string" where
  "call_key limiter_key r = fst (loginIPKey limiter_key (q_client (lc_request r)))"

definition user_key :: "login_call \<Rightarrow> string" where
  "user_key r = ''user:'' @ trim (q_user (lc_request r))"

definition bcryptCompare :: "(string \<Rightarrow> string \<Rightarrow> bool) \<Rightarrow> string \<Rightarrow> string \<Rightarrow> bool" where
  "bcryptCompare agrees hash plain \<longleftrightarrow> hash \<noteq> [] \<and> plain \<noteq> [] \<and> agrees hash plain"

definition checkLogin ::
  "(string \<Rightarrow> string \<Rightarrow> bool) \<Rightarrow> (int \<times> string \<times> string) option \<Rightarrow> string \<Rightarrow> bool" where
  "checkLogin agrees account plain =
     (case account of None \<Rightarrow> False | Some (i, hash, name) \<Rightarrow> bcryptCompare agrees hash plain)"

text \<open>
  \<open>Login_begins c q now db key\<close>: a request up to its reservation; \<open>db\<close> and \<open>key\<close> say whether there
  is a data base and a key for sessions. \<open>Login_reads\<close> is the read of the account and what follows up
  to the pause, \<open>Login_checks\<close> the rest; \<open>gone\<close> says that the client has closed the connection, which ends the pause.
\<close>

datatype login_event =
    Login_begins nat login_request int bool bool | Login_reads nat account_read int | Login_checks nat int bool

definition refusal :: "(string \<Rightarrow> bool) \<Rightarrow> login_request \<Rightarrow> bool \<Rightarrow> bool \<Rightarrow> login_answer option" where
  "refusal utf8 q db key =
     (let user = trim (q_user q) in
      if \<not> validLoginUser utf8 user \<or> q_pass q = [] then
        Some (if user = [] \<or> q_pass q = [] then Fields_missing else Login_wrong)
      else if \<not> db then Some No_database
      else if \<not> key then Some No_session_key
      else None)"

definition login_begins ::
  "(string \<Rightarrow> bool) \<Rightarrow> (string \<Rightarrow> string) \<Rightarrow> nat \<Rightarrow> login_request \<Rightarrow> int \<Rightarrow> bool \<Rightarrow> bool \<Rightarrow> login_state
     \<Rightarrow> login_answer option \<times> login_state" where
  "login_begins utf8 limiter_key c q now db key s =
     (case refusal utf8 q db key of
        Some a \<Rightarrow> (Some a, s)
      | None \<Rightarrow>
          case loginIPKey limiter_key (q_client q) of (ipKey, known) \<Rightarrow>
          case reserveMax ipKey (if known then loginMaxFails else loginUnknownMaxFails) now (lg_limiter s) of (ok, l) \<Rightarrow>
            if \<not> ok then (Some Login_blocked, s\<lparr>lg_limiter := l\<rparr>)
            else (None, s\<lparr>lg_limiter := l, lg_calls := (c, \<lparr>lc_request = q, lc_stage = Reserved\<rparr>) # lg_calls s\<rparr>))"

definition login_reads ::
  "(string \<Rightarrow> string) \<Rightarrow> nat \<Rightarrow> login_call \<Rightarrow> account_read \<Rightarrow> int \<Rightarrow> login_state \<Rightarrow> login_answer option \<times> login_state" where
  "login_reads limiter_key c r res now s =
     (case res of
        Read_failed \<Rightarrow>
          (Some Login_db_error, end_call c (s\<lparr>lg_limiter := release_login (call_key limiter_key r) now (lg_limiter s)\<rparr>))
      | No_account \<Rightarrow>
          (None, (end_call c s)\<lparr>lg_calls := (c, r\<lparr>lc_stage := Looked_up None now\<rparr>) # lg_calls (end_call c s)\<rparr>)
      | Account i hash name \<Rightarrow>
          let ready = (if slow_login (user_key r) now (lg_limiter s) then now + loginUserDelay else now) in
          (None, (end_call c s)\<lparr>lg_calls := (c, r\<lparr>lc_stage := Looked_up (Some (i, hash, name)) ready\<rparr>) # lg_calls (end_call c s)\<rparr>))"

definition login_checks ::
  "(string \<Rightarrow> string \<Rightarrow> bool) \<Rightarrow> (string \<Rightarrow> string) \<Rightarrow> nat \<Rightarrow> login_call \<Rightarrow> (int \<times> string \<times> string) option \<Rightarrow> int
     \<Rightarrow> login_state \<Rightarrow> login_answer option \<times> login_state" where
  "login_checks agrees limiter_key c r account now s =
     (if \<not> checkLogin agrees account (q_pass (lc_request r)) then
        (Some Login_wrong,
         end_call c (if account \<noteq> None then s\<lparr>lg_limiter := fail_login (user_key r) now (lg_limiter s)\<rparr> else s))
      else
        (case the account of (i, hash, name) \<Rightarrow>
           (Some (Logged_in i (if trim name = [] then trim (q_user (lc_request r)) else name)),
            end_call c (s\<lparr>lg_limiter :=
              clear_login (if snd (q_client (lc_request r)) then [call_key limiter_key r, user_key r] else [user_key r])
                (lg_limiter s)\<rparr>))))"

text \<open>An event that does not fit, of a request that is not there or not that far, does nothing.\<close>

definition login_step ::
  "(string \<Rightarrow> bool) \<Rightarrow> (string \<Rightarrow> string \<Rightarrow> bool) \<Rightarrow> (string \<Rightarrow> string) \<Rightarrow> login_event \<Rightarrow> login_state
     \<Rightarrow> login_answer option \<times> login_state" where
  "login_step utf8 agrees limiter_key e s =
     (case e of
        Login_begins c q now db key \<Rightarrow>
          if map_of (lg_calls s) c \<noteq> None then (None, s) else login_begins utf8 limiter_key c q now db key s
      | Login_reads c res now \<Rightarrow>
          (case map_of (lg_calls s) c of
             Some r \<Rightarrow> (if lc_stage r = Reserved then login_reads limiter_key c r res now s else (None, s))
           | None \<Rightarrow> (None, s))
      | Login_checks c now gone \<Rightarrow>
          (case map_of (lg_calls s) c of
             Some r \<Rightarrow>
               (case lc_stage r of
                  Looked_up account ready \<Rightarrow>
                    if now < ready \<and> \<not> gone then (None, s) else login_checks agrees limiter_key c r account now s
                | Reserved \<Rightarrow> (None, s))
           | None \<Rightarrow> (None, s)))"

end
