(* ===== verification/Login_Props.thy ===== *)
theory Login_Props imports Login begin

text \<open>
  Guessing at the password is bounded: the counter of one address through all that may happen to it,
  the requests of a whole run, and that nobody else can use up the attempts of an address.
\<close>

section \<open>The counter of one address\<close>

text \<open>
  \<open>n\<close> attempts were used since \<open>start\<close>: at most \<open>cap\<close> in each of \<open>m\<close> windows that are over, and the rest
  is on the counter.
\<close>

definition on_budget :: "nat \<Rightarrow> int \<Rightarrow> int \<Rightarrow> nat \<Rightarrow> loginFails option \<Rightarrow> bool" where
  "on_budget cap start now n f \<longleftrightarrow>
     (\<exists>m. case f of
            None \<Rightarrow> start + int m * loginWindow \<le> now \<and> n \<le> cap * m
          | Some g \<Rightarrow>
              (case lf_blocked g of
                 None \<Rightarrow> start + int m * loginWindow \<le> lf_first g \<and> lf_first g \<le> now \<and>
                   n \<le> cap * m + lf_count g \<and> lf_count g \<le> cap
               | Some t \<Rightarrow> lf_count g = 0 \<and> start + int m * loginWindow \<le> t \<and> t \<le> now + loginBlock \<and> n \<le> cap * m))"

lemma on_budget_later: "on_budget cap start now n f \<Longrightarrow> now \<le> now' \<Longrightarrow> on_budget cap start now' n f"
  unfolding on_budget_def by (elim exE, rule exI) (auto split: option.splits)

lemma on_budget_total:
  assumes "on_budget cap start now n f"
  shows "n \<le> cap * (1 + nat ((now - start) div loginWindow))"
proof -
  consider (blocked) m where "start + int m * loginWindow \<le> now + loginWindow" "n \<le> cap * m"
    | (counting) m where "start + int m * loginWindow \<le> now" "n \<le> cap * Suc m"
    using assms by (force simp: on_budget_def loginBlock_def loginWindow_def split: option.splits)
  then show ?thesis
  proof cases
    case (blocked m)
    then have "int m - 1 \<le> (now - start) div loginWindow" by (simp add: loginWindow_def)
    then have "m \<le> 1 + nat ((now - start) div loginWindow)" by simp
    then show ?thesis using blocked(2) mult_le_mono2 le_trans by blast
  next
    case (counting m)
    then have "int m \<le> (now - start) div loginWindow" by (simp add: loginWindow_def)
    then have "Suc m \<le> 1 + nat ((now - start) div loginWindow)" by simp
    then show ?thesis using counting(2) mult_le_mono2 le_trans by blast
  qed
qed

lemma on_budget_expired:
  assumes "on_budget cap start now n (Some g)" "login_expired now g"
  shows "on_budget cap start now n None"
proof -
  obtain m where m: "case lf_blocked g of
       None \<Rightarrow> start + int m * loginWindow \<le> lf_first g \<and> lf_first g \<le> now \<and> n \<le> cap * m + lf_count g \<and> lf_count g \<le> cap
     | Some t \<Rightarrow> lf_count g = 0 \<and> start + int m * loginWindow \<le> t \<and> t \<le> now + loginBlock \<and> n \<le> cap * m"
    using assms(1) by (auto simp: on_budget_def)
  show ?thesis
  proof (cases "lf_blocked g = None \<and> loginWindow < now - lf_first g")
    case True
    then have "start + int (Suc m) * loginWindow \<le> now \<and> n \<le> cap * Suc m" using m by (simp add: algebra_simps)
    then show ?thesis unfolding on_budget_def by (intro exI [of _ "Suc m"]) simp
  next
    case False
    then have "start + int m * loginWindow \<le> now \<and> n \<le> cap * m"
      using m assms(2) by (auto simp: login_expired_def locked_out_def split: option.splits)
    then show ?thesis by (auto simp: on_budget_def)
  qed
qed

section \<open>Operations on the counters\<close>

text \<open>The table has no key twice, and \<open>key\<close> is on budget.\<close>

definition meter :: "string \<Rightarrow> nat \<Rightarrow> int \<Rightarrow> int \<Rightarrow> nat \<Rightarrow> loginLimiter \<Rightarrow> bool" where
  "meter key cap start now n l \<longleftrightarrow> unique_keys (ll_fails l) \<and> on_budget cap start now n (fails_of l key)"

lemma fails_put [simp]: "fails_of (put_key k f l) j = (if j = k then Some f else fails_of l j)"
  by (simp add: fails_of_def put_key_def)

lemma fails_drop [simp]: "fails_of (drop_key k l) j = (if j = k then None else fails_of l j)"
  by (simp add: fails_of_def drop_key_def)

lemma fails_other [simp]: "fails_of (l\<lparr>ll_calls := c\<rparr>) = fails_of l" "fails_of (l\<lparr>ll_swept := t\<rparr>) = fails_of l"
  by (simp_all add: fails_of_def fun_eq_iff)

lemma fails_sweep:
  "unique_keys (ll_fails l) \<Longrightarrow> fails_of (login_sweep now l) k =
     (case fails_of l k of None \<Rightarrow> None | Some f \<Rightarrow> if login_expired now f then None else Some f)"
  by (auto simp: fails_of_def login_sweep_def not_found_in_rest found_or_dropped split: option.splits)

lemma unique_put_key [simp]: "unique_keys (ll_fails l) \<Longrightarrow> unique_keys (ll_fails (put_key k f l))"
  by (simp add: put_key_def)

lemma unique_drop_key [simp]: "unique_keys (ll_fails l) \<Longrightarrow> unique_keys (ll_fails (drop_key k l))"
  by (simp add: drop_key_def)

lemma unique_sweep [simp]: "unique_keys (ll_fails l) \<Longrightarrow> unique_keys (ll_fails (login_sweep now l))"
  by (simp add: login_sweep_def)

lemma meter_cong:
  "meter key cap start now n l \<Longrightarrow> unique_keys (ll_fails l') \<Longrightarrow> fails_of l' key = fails_of l key \<Longrightarrow> meter key cap start now n l'"
  by (simp add: meter_def)

lemma meter_other [simp]:
  "meter key cap start now n (l\<lparr>ll_calls := c\<rparr>) = meter key cap start now n l"
  "meter key cap start now n (l\<lparr>ll_swept := t\<rparr>) = meter key cap start now n l"
  by (simp_all add: meter_def)

lemma meter_sweep: "meter key cap start now n l \<Longrightarrow> meter key cap start now n (login_sweep now l)"
  by (auto simp: meter_def fails_sweep intro: on_budget_expired split: option.splits)

lemma meter_swept_if_due: "meter key cap start now n l \<Longrightarrow> meter key cap start now n (swept_if_due now l)"
  by (auto simp: swept_if_due_def intro!: meter_sweep split: option.splits)

lemma meter_drop_expired:
  "meter key cap start now n l \<Longrightarrow> fails_of l k = Some f \<Longrightarrow> login_expired now f \<Longrightarrow> meter key cap start now n (drop_key k l)"
  by (auto simp: meter_def intro: on_budget_expired)

lemma meter_put_other: "meter key cap start now n l \<Longrightarrow> k \<noteq> key \<Longrightarrow> meter key cap start now n (put_key k f l)"
  by (simp add: meter_def)

lemma meter_drop_other: "meter key cap start now n l \<Longrightarrow> k \<noteq> key \<Longrightarrow> meter key cap start now n (drop_key k l)"
  by (simp add: meter_def)

text \<open>The counter of the key itself.\<close>

lemma meter_begin:
  assumes "meter key cap start now n l" "fails_of l key = None" "1 \<le> cap"
  shows "meter key cap start now (Suc n) (put_key key \<lparr>lf_count = 1, lf_first = now, lf_blocked = None\<rparr> l)"
  using assms by (auto simp: meter_def on_budget_def)

lemma meter_count:
  assumes "meter key cap start now n l" "fails_of l key = Some f" "\<not> login_expired now f" "\<not> locked_out now f" "lf_count f < cap"
  shows "meter key cap start now (Suc n) (put_key key (f\<lparr>lf_count := Suc (lf_count f)\<rparr>) l)"
  using assms by (auto simp: meter_def on_budget_def login_expired_def locked_out_def split: option.splits)

lemma meter_block:
  assumes "meter key cap start now n l" "fails_of l key = Some f" "\<not> login_expired now f" "\<not> locked_out now f" "cap \<le> lf_count f" "1 \<le> cap"
  shows "meter key cap start now n (put_key key \<lparr>lf_count = 0, lf_first = now, lf_blocked = Some (now + loginBlock)\<rparr> l)"
proof -
  have "lf_blocked f = None" using assms by (auto simp: meter_def on_budget_def split: option.splits)
  then obtain m where "start + int m * loginWindow \<le> lf_first f" "lf_first f \<le> now" "n \<le> cap * m + lf_count f" "lf_count f \<le> cap"
    using assms(1,2) by (auto simp: meter_def on_budget_def)
  then have "start + int (Suc m) * loginWindow \<le> now + loginBlock \<and> n \<le> cap * Suc m"
    by (simp add: loginWindow_def loginBlock_def)
  then show ?thesis using assms(1) unfolding meter_def on_budget_def by (auto intro!: exI [of _ "Suc m"])
qed

lemma meter_release:
  assumes "meter key cap start now (Suc n) l" "fails_of l key = Some f"
  shows "meter key cap start now n (put_key key (f\<lparr>lf_count := lf_count f - 1\<rparr>) l)"
proof -
  obtain m where m: "case lf_blocked f of
       None \<Rightarrow> start + int m * loginWindow \<le> lf_first f \<and> lf_first f \<le> now \<and> Suc n \<le> cap * m + lf_count f \<and> lf_count f \<le> cap
     | Some t \<Rightarrow> lf_count f = 0 \<and> start + int m * loginWindow \<le> t \<and> t \<le> now + loginBlock \<and> Suc n \<le> cap * m"
    using assms by (auto simp: meter_def on_budget_def)
  then show ?thesis using assms(1) unfolding meter_def on_budget_def
    by (auto intro!: exI [of _ m] split: option.splits)
qed

lemma meter_fewer: "meter key cap start now (Suc n) l \<Longrightarrow> meter key cap start now n l"
  unfolding meter_def on_budget_def by (elim conjE exE, intro conjI exI) (auto split: option.splits)

text \<open>The sweeps and the deletion of an old counter that come before an attempt.\<close>

definition tidied :: "string \<Rightarrow> int \<Rightarrow> loginLimiter \<Rightarrow> loginLimiter" where
  "tidied key now l0 =
     (let l1 = l0\<lparr>ll_calls := Suc (ll_calls l0)\<rparr>;
          l2 = (if ll_calls l1 mod loginSweepEvery = 0 then login_sweep now l1 else l1)
      in case fails_of l2 key of Some f \<Rightarrow> if login_expired now f then drop_key key l2 else l2 | None \<Rightarrow> l2)"

lemma meter_tidied: "meter key cap start now n l \<Longrightarrow> meter key cap start now n (tidied k now l)"
proof -
  assume l: "meter key cap start now n l"
  let ?l1 = "l\<lparr>ll_calls := Suc (ll_calls l)\<rparr>"
  let ?l2 = "if ll_calls ?l1 mod loginSweepEvery = 0 then login_sweep now ?l1 else ?l1"
  have "meter key cap start now n ?l2" using l by (simp add: meter_sweep)
  then show ?thesis unfolding tidied_def Let_def by (auto intro: meter_drop_expired split: option.splits)
qed

lemma tidied_live:
  assumes "unique_keys (ll_fails l)" "fails_of (tidied key now l) key = Some f"
  shows "\<not> login_expired now f"
  using assms by (auto simp: tidied_def Let_def split: option.splits if_splits)

lemma unique_tidied: "unique_keys (ll_fails l) \<Longrightarrow> unique_keys (ll_fails (tidied k now l))"
  by (auto simp: tidied_def Let_def split: option.splits)

lemma reserve_tidied:
  "reserveMax key cap now l =
     (let l3 = tidied key now l in
      case fails_of l3 key of
        None \<Rightarrow>
          let l4 = (if loginMaxKeys \<le> length (ll_fails l3) then swept_if_due now l3 else l3)
          in if loginMaxKeys \<le> length (ll_fails l4) then (False, l4)
             else (True, put_key key \<lparr>lf_count = 1, lf_first = now, lf_blocked = None\<rparr> l4)
      | Some f \<Rightarrow>
          if locked_out now f then (False, l3)
          else if cap \<le> lf_count f
          then (False, put_key key \<lparr>lf_count = 0, lf_first = now, lf_blocked = Some (now + loginBlock)\<rparr> l3)
          else (True, put_key key (f\<lparr>lf_count := Suc (lf_count f)\<rparr>) l3))"
  by (simp add: reserveMax_def tidied_def Let_def)

lemma fails_swept_if_due:
  "unique_keys (ll_fails l) \<Longrightarrow> fails_of l k = None \<Longrightarrow> fails_of (swept_if_due now l) k = None"
  by (simp add: swept_if_due_def fails_sweep split: option.splits)

lemma meter_reserve:
  assumes "meter key cap start now n l" "1 \<le> cap" "reserveMax key cap now l = (ok, l')"
  shows "meter key cap start now (if ok then Suc n else n) l'"
proof -
  let ?l = "tidied key now l"
  let ?l4 = "if loginMaxKeys \<le> length (ll_fails ?l) then swept_if_due now ?l else ?l"
  have m: "meter key cap start now n ?l" by (rule meter_tidied [OF assms(1)])
  then have m4: "meter key cap start now n ?l4" by (simp add: meter_swept_if_due)
  have u: "unique_keys (ll_fails ?l)" using m by (simp add: meter_def)
  show ?thesis
  proof (cases "fails_of ?l key")
    case None
    then have "fails_of ?l4 key = None" using fails_swept_if_due [OF u] by simp
    then show ?thesis using meter_begin [OF m4 _ assms(2)] m4 None assms(3)
      by (auto simp: reserve_tidied Let_def split: if_splits)
  next
    case (Some f)
    have "\<not> login_expired now f"
      using assms(1) by (intro tidied_live [OF _ Some]) (simp add: meter_def)
    then show ?thesis
      using meter_count [OF m Some] meter_block [OF m Some _ _ _ assms(2)] m Some assms(3)
      by (auto simp: reserve_tidied Let_def split: if_splits)
  qed
qed

lemma meter_reserve_other:
  assumes "meter key cap start now n l" "k \<noteq> key" "reserveMax k cap' now l = (ok, l')"
  shows "meter key cap start now n l'"
proof -
  let ?l = "tidied k now l"
  let ?l4 = "if loginMaxKeys \<le> length (ll_fails ?l) then swept_if_due now ?l else ?l"
  have m: "meter key cap start now n ?l" by (rule meter_tidied [OF assms(1)])
  then have m4: "meter key cap start now n ?l4" by (simp add: meter_swept_if_due)
  show ?thesis using m m4 assms(2,3)
    by (auto simp: reserve_tidied Let_def intro: meter_put_other split: if_splits option.splits)
qed

lemma meter_release_key:
  assumes "meter key cap start now (Suc n) l"
  shows "meter key cap start now n (release_login key now l)"
proof (cases "fails_of l key")
  case None
  then show ?thesis using meter_fewer [OF assms] by (simp add: release_login_def)
next
  case (Some f)
  from meter_release [OF assms Some]
  have m: "meter key cap start now n (put_key key (f\<lparr>lf_count := lf_count f - 1\<rparr>) l)" .
  have u: "unique_keys (ll_fails l)" using assms by (simp add: meter_def)
  show ?thesis
  proof (cases "login_expired now (f\<lparr>lf_count := lf_count f - 1\<rparr>)")
    case True
    have "on_budget cap start now n (Some (f\<lparr>lf_count := lf_count f - 1\<rparr>))" using m by (simp add: meter_def)
    then show ?thesis using on_budget_expired True u Some by (simp add: release_login_def meter_def)
  next
    case False
    then show ?thesis using m Some by (simp add: release_login_def)
  qed
qed

lemma meter_release_other:
  "meter key cap start now n l \<Longrightarrow> k \<noteq> key \<Longrightarrow> meter key cap start now n (release_login k now l)"
  by (auto simp: release_login_def Let_def intro: meter_drop_other meter_put_other split: option.splits)

lemma meter_fail_other: "meter key cap start now n l \<Longrightarrow> k \<noteq> key \<Longrightarrow> meter key cap start now n (fail_login k now l)"
  by (simp add: fail_login_def Let_def meter_put_other)

lemma meter_clear_other: "meter key cap start now n l \<Longrightarrow> key \<notin> set ks \<Longrightarrow> meter key cap start now n (clear_login ks l)"
  unfolding clear_login_def
proof (induction ks arbitrary: l)
  case (Cons k ks)
  from Cons.prems have "meter key cap start now n (drop_key k l)" by (intro meter_drop_other) auto
  then show ?case using Cons by simp
qed simp

section \<open>Requests that run at the same time\<close>

fun login_time :: "login_event \<Rightarrow> int" where
  "login_time (Login_begins c q now db key) = now"
| "login_time (Login_reads c res now) = now"
| "login_time (Login_checks c now gone) = now"

text \<open>A password that is checked: the key of the address, and the answer.\<close>

definition check_of ::
  "(string \<Rightarrow> bool) \<Rightarrow> (string \<Rightarrow> string \<Rightarrow> bool) \<Rightarrow> (string \<Rightarrow> string) \<Rightarrow> login_event \<Rightarrow> login_state
     \<Rightarrow> (string \<times> login_answer) list" where
  "check_of utf8 agrees lk e s =
     (case e of
        Login_checks c now gone \<Rightarrow>
          (case (map_of (lg_calls s) c, fst (login_step utf8 agrees lk e s)) of
             (Some r, Some a) \<Rightarrow> [(call_key lk r, a)]
           | _ \<Rightarrow> [])
      | _ \<Rightarrow> [])"

fun login_run ::
  "(string \<Rightarrow> bool) \<Rightarrow> (string \<Rightarrow> string \<Rightarrow> bool) \<Rightarrow> (string \<Rightarrow> string) \<Rightarrow> login_state \<Rightarrow> login_event list \<Rightarrow> login_state" where
  "login_run utf8 agrees lk s [] = s"
| "login_run utf8 agrees lk s (e # es) = login_run utf8 agrees lk (snd (login_step utf8 agrees lk e s)) es"

fun checks_in ::
  "(string \<Rightarrow> bool) \<Rightarrow> (string \<Rightarrow> string \<Rightarrow> bool) \<Rightarrow> (string \<Rightarrow> string) \<Rightarrow> login_state \<Rightarrow> login_event list
     \<Rightarrow> (string \<times> login_answer) list" where
  "checks_in utf8 agrees lk s [] = []"
| "checks_in utf8 agrees lk s (e # es) =
     check_of utf8 agrees lk e s @ checks_in utf8 agrees lk (snd (login_step utf8 agrees lk e s)) es"

definition new_login_state :: login_state where
  "new_login_state = \<lparr>lg_limiter = new_login_limiter, lg_calls = []\<rparr>"

text \<open>Requests of the address that have their reservation and no answer yet count as used attempts.\<close>

definition pending :: "(string \<Rightarrow> string) \<Rightarrow> string \<Rightarrow> login_state \<Rightarrow> nat" where
  "pending lk key s = length (filter (\<lambda>(c, r). call_key lk r = key) (lg_calls s))"

definition login_ok :: "(string \<Rightarrow> string) \<Rightarrow> string \<Rightarrow> int \<Rightarrow> int \<Rightarrow> nat \<Rightarrow> login_state \<Rightarrow> bool" where
  "login_ok lk key start now n s \<longleftrightarrow>
     unique_keys (lg_calls s) \<and> meter key loginMaxFails start now (n + pending lk key s) (lg_limiter s)"

lemma login_ok_later: "login_ok lk key start now n s \<Longrightarrow> now \<le> now' \<Longrightarrow> login_ok lk key start now' n s"
  by (auto simp: login_ok_def meter_def intro: on_budget_later)

lemma pending_end:
  "unique_keys (lg_calls s) \<Longrightarrow> map_of (lg_calls s) c = Some r \<Longrightarrow>
     pending lk key s = pending lk key (end_call c s) + (if call_key lk r = key then 1 else 0)"
  using counted_after_delete [of "lg_calls s" c r "\<lambda>(c, r). call_key lk r = key"]
  by (simp add: pending_def end_call_def)

lemma pending_limiter [simp]: "pending lk key (s\<lparr>lg_limiter := l\<rparr>) = pending lk key s"
  by (simp add: pending_def)

lemma end_limiter: "end_call c (s\<lparr>lg_limiter := l\<rparr>) = (end_call c s)\<lparr>lg_limiter := l\<rparr>"
  by (simp add: end_call_def)

lemma lg_end [simp]: "lg_limiter (end_call c s) = lg_limiter s"
  by (simp add: end_call_def)

lemma unique_end [simp]: "unique_keys (lg_calls s) \<Longrightarrow> unique_keys (lg_calls (end_call c s))"
  by (simp add: end_call_def)

lemma begins_ok:
  assumes "login_ok lk K start now n s" "K \<noteq> ''ip:unknown''" "map_of (lg_calls s) c = None"
  shows "login_ok lk K start now n (snd (login_begins utf8 lk c q now db key s))"
proof (cases "refusal utf8 q db key")
  case (Some x)
  then show ?thesis using assms(1) by (simp add: login_begins_def)
next
  case None
  let ?k = "loginIPKey lk (q_client q)"
  let ?cap = "if snd ?k then loginMaxFails else loginUnknownMaxFails"
  obtain ok l where res: "reserveMax (fst ?k) ?cap now (lg_limiter s) = (ok, l)" by fastforce
  have m: "meter K loginMaxFails start now (n + pending lk K s) (lg_limiter s)"
    and u: "unique_keys (lg_calls s)" using assms(1) by (simp_all add: login_ok_def)
  have l: "meter K loginMaxFails start now (n + pending lk K s + (if ok \<and> fst ?k = K then 1 else 0)) l"
  proof (cases "fst ?k = K")
    case True
    then have "snd ?k" using assms(2) by (auto simp: loginIPKey_def split: if_splits)
    then have "reserveMax K loginMaxFails now (lg_limiter s) = (ok, l)" using res True by simp
    from meter_reserve [OF m _ this] show ?thesis using True by (cases ok) (simp_all add: loginMaxFails_def)
  next
    case False
    then show ?thesis using meter_reserve_other [OF m False res] by simp
  qed
  have "unique_keys ((c, r) # lg_calls s)" for r using u assms(3) by (simp add: unique_keys_def map_of_eq_None_iff)
  then show ?thesis using l None res u
    by (auto simp: login_begins_def login_ok_def pending_def call_key_def split: prod.splits)
qed

lemma reads_ok:
  assumes "login_ok lk key start now n s" "map_of (lg_calls s) c = Some r"
  shows "login_ok lk key start now n (snd (login_reads lk c r res now s))"
proof -
  have m: "meter key loginMaxFails start now (n + pending lk key s) (lg_limiter s)"
    and u: "unique_keys (lg_calls s)" using assms(1) by (simp_all add: login_ok_def)
  note p = pending_end [OF u assms(2), of lk key]
  have put: "unique_keys ((c, x) # lg_calls (end_call c s))" for x
    using u by (simp add: end_call_def)
  show ?thesis
  proof (cases res)
    case Read_failed
    have "meter key loginMaxFails start now (n + pending lk key (end_call c s)) (release_login (call_key lk r) now (lg_limiter s))"
      using m meter_release_key [of key loginMaxFails start now _ "lg_limiter s"] meter_release_other [OF m, of "call_key lk r"]
      by (cases "call_key lk r = key") (simp_all add: p)
    then show ?thesis using u by (simp add: Read_failed login_reads_def login_ok_def end_limiter)
  next
    case No_account
    then show ?thesis using m put p
      by (auto simp: login_reads_def login_ok_def pending_def call_key_def split: if_splits)
  next
    case (Account i hash name)
    then show ?thesis using m put p
      by (auto simp: login_reads_def login_ok_def pending_def call_key_def Let_def split: if_splits)
  qed
qed

lemma checks_ok:
  assumes "login_ok lk key start now n s" "map_of (lg_calls s) c = Some r" "user_key r \<noteq> key"
    and "login_checks agrees lk c r account now s = (Some a, s')"
    and "call_key lk r = key \<Longrightarrow> \<forall>i name. a \<noteq> Logged_in i name"
  shows "login_ok lk key start now (if call_key lk r = key then Suc n else n) s'"
proof -
  have m: "meter key loginMaxFails start now (n + pending lk key s) (lg_limiter s)"
    and u: "unique_keys (lg_calls s)" using assms(1) by (simp_all add: login_ok_def)
  have p: "n + pending lk key s = (if call_key lk r = key then Suc n else n) + pending lk key (end_call c s)"
    using pending_end [OF u assms(2), of lk key] by simp
  have ends: "login_ok lk key start now (if call_key lk r = key then Suc n else n) (end_call c (s\<lparr>lg_limiter := l\<rparr>))"
    if "meter key loginMaxFails start now (n + pending lk key s) l" for l
    using that u by (simp add: login_ok_def end_limiter p)
  show ?thesis
  proof (cases "checkLogin agrees account (q_pass (lc_request r))")
    case False
    let ?l = "if account \<noteq> None then fail_login (user_key r) now (lg_limiter s) else lg_limiter s"
    have "s' = end_call c (s\<lparr>lg_limiter := ?l\<rparr>)" using False assms(4) by (auto simp: login_checks_def)
    moreover have "meter key loginMaxFails start now (n + pending lk key s) ?l" using meter_fail_other [OF m assms(3)] m by simp
    ultimately show ?thesis by (simp only: ends)
  next
    case True
    obtain i hash name where acc: "account = Some (i, hash, name)" using True by (auto simp: checkLogin_def split: option.splits)
    have other: "call_key lk r \<noteq> key"
    proof
      assume k: "call_key lk r = key"
      show False using assms(4) assms(5) [OF k] True by (auto simp: login_checks_def acc)
    qed
    let ?ks = "if snd (q_client (lc_request r)) then [call_key lk r, user_key r] else [user_key r]"
    have "meter key loginMaxFails start now (n + pending lk key s) (clear_login ?ks (lg_limiter s))"
      by (rule meter_clear_other [OF m]) (use other assms(3) in auto)
    moreover have "s' = end_call c (s\<lparr>lg_limiter := clear_login ?ks (lg_limiter s)\<rparr>)"
      using assms(4) True by (auto simp: login_checks_def acc)
    ultimately show ?thesis by (simp only: ends)
  qed
qed

lemma step_ok:
  assumes "login_ok lk key start (login_time e) n s" "key \<noteq> ''ip:unknown''" "\<And>u. key \<noteq> ''user:'' @ u"
    and "\<And>i name. (key, Logged_in i name) \<notin> set (check_of utf8 agrees lk e s)"
  shows "login_ok lk key start (login_time e) (n + length (filter (\<lambda>x. fst x = key) (check_of utf8 agrees lk e s)))
    (snd (login_step utf8 agrees lk e s))"
proof (cases e)
  case (Login_begins c q now db k)
  then show ?thesis using assms(1,2) begins_ok by (simp add: check_of_def login_step_def)
next
  case (Login_reads c res now)
  then show ?thesis using assms(1) reads_ok by (simp add: check_of_def login_step_def split: option.splits)
next
  case (Login_checks c now gone)
  show ?thesis
  proof (cases "fst (login_step utf8 agrees lk e s)")
    case None
    then have "check_of utf8 agrees lk e s = [] \<and> snd (login_step utf8 agrees lk e s) = s"
      by (auto simp: Login_checks check_of_def login_step_def login_checks_def split: option.splits login_stage.splits prod.splits if_splits)
    then show ?thesis using assms(1) by simp
  next
    case (Some a)
    then obtain r account ready where here: "map_of (lg_calls s) c = Some r" "lc_stage r = Looked_up account ready"
        "login_step utf8 agrees lk e s = login_checks agrees lk c r account now s"
      by (auto simp: Login_checks login_step_def split: option.splits login_stage.splits if_splits)
    have check: "check_of utf8 agrees lk e s = [(call_key lk r, a)]"
      using Some here(1) by (simp add: check_of_def Login_checks)
    obtain s' where s': "login_checks agrees lk c r account now s = (Some a, s')"
      using Some here(3) by (metis prod.collapse)
    have "login_ok lk key start now (if call_key lk r = key then Suc n else n) s'"
    proof (rule checks_ok [OF _ here(1) _ s'])
      show "login_ok lk key start now n s" using assms(1) by (simp add: Login_checks)
      show "user_key r \<noteq> key" using assms(3) by (auto simp: user_key_def)
      show "\<forall>i name. a \<noteq> Logged_in i name" if "call_key lk r = key"
        using assms(4) that by (auto simp: check)
    qed
    moreover have "login_time e = now" by (simp add: Login_checks)
    ultimately show ?thesis by (simp add: check here(3) s' split: if_splits)
  qed
qed

lemma login_run_ok:
  assumes "login_ok lk key start now n s" "sorted (now # map login_time es)" "key \<noteq> ''ip:unknown''" "\<And>u. key \<noteq> ''user:'' @ u"
    and "\<And>i name. (key, Logged_in i name) \<notin> set (checks_in utf8 agrees lk s es)"
  shows "login_ok lk key start (last (now # map login_time es))
    (n + length (filter (\<lambda>x. fst x = key) (checks_in utf8 agrees lk s es))) (login_run utf8 agrees lk s es)"
  using assms(1,2,5)
proof (induction es arbitrary: now n s)
  case (Cons e es)
  have "login_ok lk key start (login_time e) n s"
    using login_ok_later [OF Cons.prems(1)] Cons.prems(2) by simp
  from step_ok [OF this assms(3,4)] Cons.prems(3)
  have "login_ok lk key start (login_time e) (n + length (filter (\<lambda>x. fst x = key) (check_of utf8 agrees lk e s)))
      (snd (login_step utf8 agrees lk e s))" by simp
  from Cons.IH [OF this] Cons.prems(2,3) show ?case by (simp add: add.assoc)
qed simp

section \<open>Nobody is locked out by others\<close>

text \<open>No counter, and no request under way, has the key.\<close>

definition untouched :: "(string \<Rightarrow> string) \<Rightarrow> string \<Rightarrow> login_state \<Rightarrow> bool" where
  "untouched lk key s \<longleftrightarrow>
     key \<notin> fst ` set (ll_fails (lg_limiter s)) \<and> (\<forall>(c, r) \<in> set (lg_calls s). call_key lk r \<noteq> key)"

fun request_of :: "(string \<Rightarrow> string) \<Rightarrow> string \<Rightarrow> login_event \<Rightarrow> bool" where
  "request_of lk key (Login_begins c q now db k) \<longleftrightarrow> fst (loginIPKey lk (q_client q)) = key"
| "request_of lk key e \<longleftrightarrow> False"

definition keys_within :: "loginLimiter \<Rightarrow> string set \<Rightarrow> bool" where
  "keys_within l K \<longleftrightarrow> fst ` set (ll_fails l) \<subseteq> K"

lemma within_put: "keys_within l K \<Longrightarrow> k \<in> K \<Longrightarrow> keys_within (put_key k f l) K"
  by (auto simp: keys_within_def put_key_def)

lemma within_drop: "keys_within l K \<Longrightarrow> keys_within (drop_key k l) K"
  by (auto simp: keys_within_def drop_key_def)

lemma within_sweep: "keys_within l K \<Longrightarrow> keys_within (login_sweep now l) K"
  by (auto simp: keys_within_def login_sweep_def)

lemma within_calls [simp]: "keys_within (l\<lparr>ll_calls := c\<rparr>) K = keys_within l K" "keys_within (l\<lparr>ll_swept := t\<rparr>) K = keys_within l K"
  by (simp_all add: keys_within_def)

lemma within_tidied:
  assumes "keys_within l K"
  shows "keys_within (tidied k now l) K"
proof -
  let ?l1 = "l\<lparr>ll_calls := Suc (ll_calls l)\<rparr>"
  have "keys_within ?l1 K" "keys_within (login_sweep now ?l1) K" using assms by (simp_all add: within_sweep)
  then show ?thesis by (auto simp: tidied_def Let_def intro: within_drop split: option.splits)
qed

lemma within_reserve: "keys_within l K \<Longrightarrow> k \<in> K \<Longrightarrow> keys_within (snd (reserveMax k cap now l)) K"
  using within_tidied [of l K k now]
  by (auto simp: reserve_tidied Let_def swept_if_due_def intro!: within_put within_sweep split: option.splits)

lemma within_release: "keys_within l K \<Longrightarrow> k \<in> K \<Longrightarrow> keys_within (release_login k now l) K"
  by (auto simp: release_login_def Let_def intro: within_put within_drop split: option.splits)

lemma within_fail: "keys_within l K \<Longrightarrow> k \<in> K \<Longrightarrow> keys_within (fail_login k now l) K"
  by (auto simp: fail_login_def Let_def intro: within_put)

lemma within_clear: "keys_within l K \<Longrightarrow> keys_within (clear_login ks l) K"
  unfolding clear_login_def by (induction ks arbitrary: l) (simp_all add: within_drop)

lemma untouched_within: "untouched lk key s \<longleftrightarrow>
    keys_within (lg_limiter s) (- {key}) \<and> (\<forall>(c, r) \<in> set (lg_calls s). call_key lk r \<noteq> key)"
  by (auto simp: untouched_def keys_within_def)

lemma untouched_step:
  assumes "untouched lk key s" "\<not> request_of lk key e" "\<And>u. key \<noteq> ''user:'' @ u"
  shows "untouched lk key (snd (login_step utf8 agrees lk e s))"
proof (cases e)
  case (Login_begins c q now db k)
  then have "fst (loginIPKey lk (q_client q)) \<in> - {key}" using assms(2) by simp
  from within_reserve [OF _ this, of "lg_limiter s"] show ?thesis using assms(1,2) Login_begins
    by (auto simp: untouched_within login_step_def login_begins_def call_key_def split: option.splits prod.splits)
      (metis snd_conv)+
next
  case (Login_reads c res now)
  show ?thesis
  proof (cases "map_of (lg_calls s) c")
    case None
    then show ?thesis using assms(1) by (simp add: Login_reads login_step_def)
  next
    case (Some r)
    then have "call_key lk r \<in> - {key}" using assms(1) by (auto simp: untouched_def dest: map_of_SomeD)
    then show ?thesis using assms(1) Some
      by (auto simp: Login_reads untouched_within login_step_def login_reads_def end_call_def call_key_def Let_def
          intro!: within_release split: account_read.splits if_splits)
  qed
next
  case (Login_checks c now gone)
  show ?thesis
  proof (cases "map_of (lg_calls s) c")
    case None
    then show ?thesis using assms(1) by (simp add: Login_checks login_step_def)
  next
    case (Some r)
    have "user_key r \<in> - {key}" using assms(3) by (auto simp: user_key_def)
    then show ?thesis using assms(1) Some
      by (auto simp: Login_checks untouched_within login_step_def login_checks_def end_call_def
          intro!: within_fail within_clear split: login_stage.splits prod.splits if_splits)
  qed
qed

lemma untouched_run:
  assumes "untouched lk key s" "\<And>u. key \<noteq> ''user:'' @ u" "\<forall>e \<in> set es. \<not> request_of lk key e"
  shows "untouched lk key (login_run utf8 agrees lk s es)"
  using assms(1,3) by (induction es arbitrary: s) (auto intro: untouched_step [OF _ _ assms(2)])

text \<open>
  Whatever strangers try, from whatever other addresses and for whatever accounts, a request from an
  address that has not tried yet gets as far as the check of its password while the table has room.
\<close>

theorem strangers_lock_nobody_out:
  assumes "\<forall>e \<in> set es. \<not> request_of lk (''ip:'' @ lk a) e" "q_client q = (a, True)"
    and "s = login_run utf8 agrees lk new_login_state es"
    and "refusal utf8 q True True = None" "length (ll_fails (lg_limiter s)) < loginMaxKeys" "map_of (lg_calls s) c = None"
  shows "\<exists>r. login_step utf8 agrees lk (Login_begins c q now True True) s = (None, r) \<and>
    map_of (lg_calls r) c = Some \<lparr>lc_request = q, lc_stage = Reserved\<rparr>"
proof -
  let ?k = "''ip:'' @ lk a"
  have "untouched lk ?k new_login_state" by (simp add: untouched_def new_login_state_def new_login_limiter_def)
  from untouched_run [OF this _ assms(1)] have "?k \<notin> fst ` set (ll_fails (lg_limiter s))"
    by (simp add: untouched_def assms(3))
  then have "keys_within (lg_limiter s) (- {?k})" by (auto simp: keys_within_def)
  then have "keys_within (tidied ?k now (lg_limiter s)) (- {?k})" by (rule within_tidied)
  then have "fails_of (tidied ?k now (lg_limiter s)) ?k = None" by (auto simp: fails_of_def keys_within_def map_of_eq_None_iff)
  moreover have "length (ll_fails (tidied ?k now (lg_limiter s))) \<le> length (ll_fails (lg_limiter s))"
    by (auto simp: tidied_def Let_def login_sweep_def drop_key_def intro: le_trans [OF length_filter_le] split: option.splits)
  ultimately have "fst (reserveMax ?k loginMaxFails now (lg_limiter s))"
    using assms(5) by (simp add: reserve_tidied Let_def)
  then show ?thesis using assms(2,4,6)
    by (auto simp: login_step_def login_begins_def loginIPKey_def split: prod.splits)
qed

section \<open>Guessing\<close>

text \<open>
  C31: guessing is bounded: however many requests an address sends at once, and whatever others do,
  at most five of its passwords are checked in a quarter of an hour that has begun, as long as none of them is right.\<close>

theorem guesses_are_bounded:
  assumes "sorted (start # map login_time es)" "\<forall>t \<in> set (map login_time es). t \<le> start + T" "0 \<le> T"
    and "key = ''ip:'' @ a" "a \<noteq> ''unknown''"
    and "\<forall>i name. (key, Logged_in i name) \<notin> set (checks_in utf8 agrees lk new_login_state es)"
  shows "length (filter (\<lambda>x. fst x = key) (checks_in utf8 agrees lk new_login_state es)) \<le> 5 * (1 + nat (T div loginWindow))"
proof -
  let ?now = "last (start # map login_time es)" and ?n = "length (filter (\<lambda>x. fst x = key) (checks_in utf8 agrees lk new_login_state es))"
  have "on_budget loginMaxFails start start 0 None" by (auto simp: on_budget_def intro!: exI [of _ 0])
  then have "login_ok lk key start start 0 new_login_state"
    by (simp add: login_ok_def new_login_state_def new_login_limiter_def meter_def fails_of_def pending_def)
  from login_run_ok [OF this assms(1)] have "login_ok lk key start ?now ?n (login_run utf8 agrees lk new_login_state es)"
    using assms(4-6) by simp
  then have "on_budget loginMaxFails start ?now (?n + pending lk key (login_run utf8 agrees lk new_login_state es))
      (fails_of (lg_limiter (login_run utf8 agrees lk new_login_state es)) key)"
    by (simp add: login_ok_def meter_def)
  from on_budget_total [OF this] have "?n \<le> 5 * (1 + nat ((?now - start) div loginWindow))"
    by (simp add: loginMaxFails_def)
  moreover have "?now - start \<le> T" using assms(2,3) last_in_set [of "start # map login_time es"] by (auto split: if_splits)
  then have "(?now - start) div loginWindow \<le> T div loginWindow" by (simp add: zdiv_mono1 loginWindow_def)
  then have "5 * (1 + nat ((?now - start) div loginWindow)) \<le> 5 * (1 + nat (T div loginWindow))"
    by (intro mult_le_mono2 add_left_mono nat_mono)
  ultimately show ?thesis by (rule le_trans)
qed

text \<open>Six requests at once, all with a wrong password; the sixth is refused.\<close>

definition guess :: login_request where
  "guess = \<lparr>q_user = ''admin'', q_pass = ''x'', q_client = (''192.0.2.1'', True)\<rparr>"

definition six_guesses :: "login_event list" where
  "six_guesses =
     [Login_begins 1 guess 0 True True, Login_begins 2 guess 0 True True, Login_begins 3 guess 0 True True,
      Login_begins 4 guess 0 True True, Login_begins 5 guess 0 True True, Login_begins 6 guess 0 True True,
      Login_reads 1 (Account 1 ''h'' ''n'') 1, Login_reads 2 No_account 1, Login_reads 6 No_account 1,
      Login_checks 1 2 False, Login_checks 2 2 False]"

theorem guesses_are_bounded_witness:
  "checks_in (\<lambda>_. True) (\<lambda>h p. False) (\<lambda>x. x) new_login_state six_guesses
     = [(''ip:192.0.2.1'', Login_wrong), (''ip:192.0.2.1'', Login_wrong)]
   \<and> length (filter (\<lambda>x. fst x = ''ip:192.0.2.1'') (checks_in (\<lambda>_. True) (\<lambda>h p. False) (\<lambda>x. x) new_login_state six_guesses)) \<le> 5"
proof
  show c: "checks_in (\<lambda>_. True) (\<lambda>h p. False) (\<lambda>x. x) new_login_state six_guesses
      = [(''ip:192.0.2.1'', Login_wrong), (''ip:192.0.2.1'', Login_wrong)]" by code_simp
  have t: "sorted (0 # map login_time six_guesses)" "\<forall>t \<in> set (map login_time six_guesses). t \<le> 0 + 2" by code_simp+
  have "nat ((2::int) div loginWindow) = 0" by code_simp
  then show "length (filter (\<lambda>x. fst x = ''ip:192.0.2.1'') (checks_in (\<lambda>_. True) (\<lambda>h p. False) (\<lambda>x. x) new_login_state six_guesses)) \<le> 5"
    using guesses_are_bounded [OF t, of "''ip:192.0.2.1''" "''192.0.2.1''" "\<lambda>_. True" "\<lambda>h p. False" "\<lambda>x. x"]
    unfolding c by simp
qed

end
