(* ===== verification/Net_Text.thy ===== *)
theory Net_Text imports Price begin

text \<open>
  What the server uses of Go's package \<open>net\<close>: \<open>ParseIP\<close>, \<open>IP.String\<close>, \<open>To4\<close>, \<open>IsLoopback\<close>,
  \<open>SplitHostPort\<close>, \<open>ParseCIDR\<close> and \<open>IPNet.Contains\<close>, on addresses as eight groups of 16 bits (an
  address of four bytes is the mapped one, as \<open>net.IP\<close> has it).
\<close>

section \<open>Pieces\<close>

text \<open>\<open>strings.Split\<close> by one character, and the join.\<close>

fun split_on :: "char \<Rightarrow> string \<Rightarrow> string list" where
  "split_on c [] = [[]]"
| "split_on c (x # xs) =
     (if x = c then [] # split_on c xs
      else (case split_on c xs of [] \<Rightarrow> [[x]] | p # ps \<Rightarrow> (x # p) # ps))"

fun join_with :: "char \<Rightarrow> string list \<Rightarrow> string" where
  "join_with c [] = []"
| "join_with c [p] = p"
| "join_with c (p # q # ps) = p @ c # join_with c (q # ps)"

definition is_hex :: "char \<Rightarrow> bool" where
  "is_hex c \<longleftrightarrow> hex_val c \<noteq> None"

definition hexs_val :: "string \<Rightarrow> nat" where
  "hexs_val s = foldl (\<lambda>a c. 16 * a + the (hex_val c)) 0 s"

definition hex_char :: "nat \<Rightarrow> char" where
  "hex_char d = (if d < 10 then char_of (48 + d) else char_of (87 + d))"

fun nat_to_hex :: "nat \<Rightarrow> string" where
  "nat_to_hex n = (if n < 16 then [hex_char n] else nat_to_hex (n div 16) @ [hex_char (n mod 16)])"

declare nat_to_hex.simps [simp del]

section \<open>Addresses\<close>

type_synonym ip = "nat list"

definition is_ip :: "ip \<Rightarrow> bool" where
  "is_ip g \<longleftrightarrow> length g = 8 \<and> list_all (\<lambda>x. x < 65536) g"

definition octet :: "string \<Rightarrow> nat option" where
  "octet s =
     (if s \<noteq> [] \<and> list_all is_digit s \<and> (length s = 1 \<or> hd s \<noteq> CHR ''0'') \<and> digits_val s \<le> 255
      then Some (digits_val s) else None)"

definition mapped :: "nat \<Rightarrow> nat \<Rightarrow> nat \<Rightarrow> nat \<Rightarrow> ip" where
  "mapped a b c d = [0, 0, 0, 0, 0, 65535, 256 * a + b, 256 * c + d]"

definition To4 :: "ip \<Rightarrow> (nat \<times> nat \<times> nat \<times> nat) option" where
  "To4 g =
     (if take 6 g = [0, 0, 0, 0, 0, 65535]
      then Some (g ! 6 div 256, g ! 6 mod 256, g ! 7 div 256, g ! 7 mod 256) else None)"

definition parse_v4 :: "string \<Rightarrow> (nat \<times> nat \<times> nat \<times> nat) option" where
  "parse_v4 s =
     (case map octet (split_on (CHR ''.'') s) of
        [Some a, Some b, Some c, Some d] \<Rightarrow> Some (a, b, c, d)
      | _ \<Rightarrow> None)"

text \<open>
  The groups after those of \<open>gs\<close>, with the place of \<open>::\<close> when it was there; an address in dotted
  form may stand at the end.
\<close>

function v6_groups :: "nat list \<Rightarrow> nat option \<Rightarrow> string \<Rightarrow> (nat list \<times> nat option) option" where
  "v6_groups gs ell s =
     (if 8 \<le> length gs then (if s = [] then Some (gs, ell) else None)
      else
        let h = takeWhile is_hex s; r = dropWhile is_hex s; gs' = gs @ [hexs_val h] in
        if h = [] \<or> 4 < length h then None
        else if r = [] then Some (gs', ell)
        else if hd r = CHR ''.'' then
          (if (ell = None \<and> length gs \<noteq> 6) \<or> 6 < length gs then None
           else (case parse_v4 s of None \<Rightarrow> None | Some (a, b, c, d) \<Rightarrow> Some (gs @ [256 * a + b, 256 * c + d], ell)))
        else if hd r \<noteq> CHR '':'' \<or> tl r = [] then None
        else if hd (tl r) = CHR '':'' then
          (if ell \<noteq> None then None
           else if tl (tl r) = [] then Some (gs', Some (length gs'))
           else v6_groups gs' (Some (length gs')) (tl (tl r)))
        else v6_groups gs' ell (tl r))"
  by pat_completeness auto
termination by (relation "measure (\<lambda>(gs, ell, s). 8 - length gs)") (auto simp: Let_def)

declare v6_groups.simps [simp del]

definition fill_groups :: "nat list \<times> nat option \<Rightarrow> ip option" where
  "fill_groups x =
     (case x of (gs, ell) \<Rightarrow>
        if length gs < 8 then
          (case ell of None \<Rightarrow> None | Some e \<Rightarrow> Some (take e gs @ replicate (8 - length gs) 0 @ drop e gs))
        else if ell \<noteq> None then None else Some gs)"

definition parse_v6 :: "string \<Rightarrow> ip option" where
  "parse_v6 s =
     (if CHR ''%'' \<in> set s then None
      else if take 2 s = ''::'' then
        (if drop 2 s = [] then Some (replicate 8 0) else Option.bind (v6_groups [] (Some 0) (drop 2 s)) fill_groups)
      else Option.bind (v6_groups [] None s) fill_groups)"

text \<open>\<open>net.ParseIP\<close>; the flag says that the text has the dotted form.\<close>

definition ParseAddr :: "string \<Rightarrow> (bool \<times> ip) option" where
  "ParseAddr s =
     (case List.find (\<lambda>c. c \<in> {CHR ''.'', CHR '':'', CHR ''%''}) s of
        Some c \<Rightarrow>
          if c = CHR ''.'' then map_option (\<lambda>(a, b, c, d). (True, mapped a b c d)) (parse_v4 s)
          else if c = CHR '':'' then map_option (Pair False) (parse_v6 s)
          else None
      | None \<Rightarrow> None)"

definition ParseIP :: "string \<Rightarrow> ip option" where
  "ParseIP s = map_option snd (ParseAddr s)"

definition zeros_at :: "ip \<Rightarrow> nat \<Rightarrow> nat" where
  "zeros_at g i = length (takeWhile (\<lambda>x. x = 0) (drop i g))"

text \<open>The first longest run of at least two zeros: place and length, length 0 when there is none.\<close>

definition zero_run :: "ip \<Rightarrow> nat \<times> nat" where
  "zero_run g =
     foldl (\<lambda>(s, l) i. if 2 \<le> zeros_at g i \<and> l < zeros_at g i then (i, zeros_at g i) else (s, l)) (8, 0) [0..<8]"

definition v6_text :: "ip \<Rightarrow> string" where
  "v6_text g =
     (case zero_run g of (s, l) \<Rightarrow>
        if l = 0 then join_with (CHR '':'') (map nat_to_hex g)
        else join_with (CHR '':'') (map nat_to_hex (take s g)) @ ''::'' @
             join_with (CHR '':'') (map nat_to_hex (drop (s + l) g)))"

definition IP_String :: "ip \<Rightarrow> string" where
  "IP_String g =
     (case To4 g of
        Some (a, b, c, d) \<Rightarrow> join_with (CHR ''.'') (map nat_to_str [a, b, c, d])
      | None \<Rightarrow> v6_text g)"

definition IsLoopback :: "ip \<Rightarrow> bool" where
  "IsLoopback g \<longleftrightarrow>
     (case To4 g of Some (a, b, c, d) \<Rightarrow> a = 127 | None \<Rightarrow> g = [0, 0, 0, 0, 0, 0, 0, 1])"

section \<open>Hosts and networks\<close>

definition last_index :: "char \<Rightarrow> string \<Rightarrow> nat option" where
  "last_index c s = (if c \<in> set s then Some (length s - 1 - length (takeWhile (\<lambda>x. x \<noteq> c) (rev s))) else None)"

definition first_index :: "char \<Rightarrow> string \<Rightarrow> nat option" where
  "first_index c s = (if c \<in> set s then Some (length (takeWhile (\<lambda>x. x \<noteq> c) s)) else None)"

text \<open>The host of \<open>net.SplitHostPort\<close>, None for an error.\<close>

definition SplitHost :: "string \<Rightarrow> string option" where
  "SplitHost s =
     (case last_index (CHR '':'') s of
        None \<Rightarrow> None
      | Some i \<Rightarrow>
          if hd s = CHR ''['' then
            (case first_index (CHR '']'') s of
               None \<Rightarrow> None
             | Some e \<Rightarrow>
                 if Suc e \<noteq> i \<or> CHR ''['' \<in> set (drop 1 s) \<or> CHR '']'' \<in> set (drop (Suc e) s) then None
                 else Some (drop 1 (take e s)))
          else if CHR '':'' \<in> set (take i s) \<or> CHR ''['' \<in> set s \<or> CHR '']'' \<in> set s then None
          else Some (take i s))"

text \<open>A network: of four bytes or sixteen, a number of its address, and how many bits count.\<close>

datatype ip_net = Net bool nat nat

definition ip_number :: "ip \<Rightarrow> nat" where
  "ip_number g = foldl (\<lambda>a x. 65536 * a + x) 0 g"

definition v4_number :: "nat \<times> nat \<times> nat \<times> nat \<Rightarrow> nat" where
  "v4_number x = (case x of (a, b, c, d) \<Rightarrow> 16777216 * a + 65536 * b + 256 * c + d)"

fun Contains :: "ip_net \<Rightarrow> ip \<Rightarrow> bool" where
  "Contains (Net v4 base bits) g \<longleftrightarrow>
     (case To4 g of
        Some x \<Rightarrow> v4 \<and> v4_number x div 2 ^ (32 - bits) = base div 2 ^ (32 - bits)
      | None \<Rightarrow> \<not> v4 \<and> ip_number g div 2 ^ (128 - bits) = base div 2 ^ (128 - bits))"

text \<open>A mapped address of which at least the 96 bits before the four bytes count is a network of four bytes.\<close>

definition ParseCIDR :: "string \<Rightarrow> ip_net option" where
  "ParseCIDR s =
     (case cut (CHR ''/'') s of
        None \<Rightarrow> None
      | Some (addr, bits) \<Rightarrow>
          (case ParseAddr addr of
             None \<Rightarrow> None
           | Some (dotted, g) \<Rightarrow>
               if bits = [] \<or> \<not> list_all is_digit bits \<or> (if dotted then 32 else 128) < digits_val bits then None
               else if dotted then Some (Net True (v4_number (the (To4 g))) (digits_val bits))
               else
                 (case To4 g of
                    Some x \<Rightarrow> if 96 \<le> digits_val bits then Some (Net True (v4_number x) (digits_val bits - 96))
                              else Some (Net False (ip_number g) (digits_val bits))
                  | None \<Rightarrow> Some (Net False (ip_number g) (digits_val bits)))))"

end
