(* ===== verification/Net_Props.thy ===== *)
theory Net_Props imports Net_Text begin

text \<open>The text of an address reads back as the address.\<close>

section \<open>Decimal and hexadecimal numbers\<close>

lemma digits_not_dot: "list_all is_digit s \<Longrightarrow> CHR ''.'' \<notin> set s"
  by (auto simp: list_all_iff dest: is_digit_not)

lemma code_hex: "d < 16 \<Longrightarrow> code (hex_char d) = (if d < 10 then 48 + d else 87 + d)"
  by (simp add: hex_char_def code_def)

lemma hex_val_char [simp]: "d < 16 \<Longrightarrow> hex_val (hex_char d) = Some d"
  by (simp add: hex_val_def code_hex is_digit_def)

lemma hexs_snoc [simp]: "hexs_val (s @ [c]) = 16 * hexs_val s + the (hex_val c)"
  by (simp add: hexs_val_def)

lemma hexs_nat [simp]: "hexs_val (nat_to_hex n) = n"
proof (induction n rule: nat_to_hex.induct)
  case (1 n)
  then show ?case
  proof (cases "n < 16")
    case True
    then show ?thesis by (simp add: nat_to_hex.simps [of n] hexs_val_def)
  next
    case False
    then show ?thesis using 1 by (simp add: nat_to_hex.simps [of n])
  qed
qed

lemma hex_all: "list_all is_hex (nat_to_hex n)"
proof (induction n rule: nat_to_hex.induct)
  case (1 n)
  have "is_hex (hex_char d)" if "d < 16" for d using that by (simp add: is_hex_def)
  then show ?case using 1 by (simp add: nat_to_hex.simps [of n])
qed

lemma hex_not_Nil [simp]: "nat_to_hex n \<noteq> []"
  by (subst nat_to_hex.simps) simp

lemma hex_length: "n < 16 ^ Suc k \<Longrightarrow> length (nat_to_hex n) \<le> Suc k"
proof (induction k arbitrary: n)
  case 0
  then show ?case by (simp add: nat_to_hex.simps [of n])
next
  case (Suc k)
  then have "n div 16 < 16 ^ Suc k" by (simp add: less_mult_imp_div_less)
  from Suc.IH [OF this] show ?case by (simp add: nat_to_hex.simps [of n])
qed

lemma hex_not: "is_hex c \<Longrightarrow> c \<notin> {CHR ''.'', CHR '':'', CHR ''%''}"
  by (auto simp: is_hex_def hex_val_def is_digit_def code_def split: if_splits)

lemma no_leading_zero: "0 < n \<Longrightarrow> hd (nat_to_str n) \<noteq> CHR ''0''"
proof (induction n rule: nat_to_str.induct)
  case (1 n)
  show ?case
  proof (cases "n < 10")
    case True
    then have "code (digit_char n) \<noteq> 48" using 1(2) by simp
    then show ?thesis using True by (auto simp: nat_to_str.simps [of n] code_def)
  next
    case False
    then show ?thesis using 1 nat_to_str_not_Nil [of "n div 10"] by (simp add: nat_to_str.simps [of n])
  qed
qed

lemma octet_nat: "n \<le> 255 \<Longrightarrow> octet (nat_to_str n) = Some n"
  using nat_to_str_digits [of n] nat_to_str_not_Nil [of n] no_leading_zero [of n] digits_val_nat_to_str [of n]
  by (cases "n = 0") (simp_all add: octet_def nat_to_str.simps [of 0])

section \<open>Splitting\<close>

lemma split_none: "c \<notin> set p \<Longrightarrow> split_on c p = [p]"
  by (induction p) auto

lemma split_first: "c \<notin> set p \<Longrightarrow> split_on c (p @ c # s) = p # split_on c s"
  by (induction p) auto

lemma split_join_with: "ps \<noteq> [] \<Longrightarrow> \<forall>p \<in> set ps. c \<notin> set p \<Longrightarrow> split_on c (join_with c ps) = ps"
  by (induction c ps rule: join_with.induct) (auto simp: split_none split_first)

lemma parse_v4_text:
  assumes "a \<le> 255" "b \<le> 255" "c \<le> 255" "d \<le> 255"
  shows "parse_v4 (join_with (CHR ''.'') (map nat_to_str [a, b, c, d])) = Some (a, b, c, d)"
proof -
  have "split_on (CHR ''.'') (join_with (CHR ''.'') (map nat_to_str [a, b, c, d])) = map nat_to_str [a, b, c, d]"
    by (rule split_join_with) (use nat_to_str_digits digits_not_dot in auto)
  then show ?thesis using assms by (simp only: parse_v4_def list.map octet_nat option.case list.case)
qed

section \<open>Groups\<close>

lemma takeWhile_hex [simp]: "takeWhile is_hex (nat_to_hex n) = nat_to_hex n" "dropWhile is_hex (nat_to_hex n) = []"
  using hex_all [of n] by (simp_all add: list_all_iff)

lemma takeWhile_hex_colon [simp]:
  "takeWhile is_hex (nat_to_hex n @ CHR '':'' # s) = nat_to_hex n" "dropWhile is_hex (nat_to_hex n @ CHR '':'' # s) = CHR '':'' # s"
proof -
  have "\<not> is_hex (CHR '':'')" using hex_not [of "CHR '':''"] by blast
  then show "takeWhile is_hex (nat_to_hex n @ CHR '':'' # s) = nat_to_hex n" "dropWhile is_hex (nat_to_hex n @ CHR '':'' # s) = CHR '':'' # s"
    using hex_all [of n] by (simp_all add: list_all_iff)
qed

definition colons :: "nat list \<Rightarrow> string" where
  "colons xs = join_with (CHR '':'') (map nat_to_hex xs)"

lemma colons_Nil [simp]: "colons [] = []" and colons_single [simp]: "colons [x] = nat_to_hex x"
  by (simp_all add: colons_def)

lemma colons_Cons: "xs \<noteq> [] \<Longrightarrow> colons (x # xs) = nat_to_hex x @ CHR '':'' # colons xs"
  by (cases xs) (simp_all add: colons_def)

lemma hd_hex: "hd (nat_to_hex n @ s) \<noteq> CHR '':''"
  using hex_all [of n] hex_not_Nil [of n] hex_not by (cases "nat_to_hex n") auto

lemma hd_colons: "xs \<noteq> [] \<Longrightarrow> colons xs \<noteq> [] \<and> hd (colons xs @ s) \<noteq> CHR '':''"
  using hd_hex [of _ "[]"] by (cases xs; cases "tl xs") (auto simp: hd_hex colons_Cons)

lemma short_hex: "x < 65536 \<Longrightarrow> length (nat_to_hex x) \<le> 4"
  using hex_length [of x 3] by simp

lemma groups_read:
  assumes "xs \<noteq> []" "list_all (\<lambda>x. x < 65536) xs" "length gs + length xs \<le> 8"
  shows "v6_groups gs ell (colons xs) = Some (gs @ xs, ell)"
  using assms
proof (induction xs arbitrary: gs)
  case (Cons x xs)
  have x: "\<not> 4 < length (nat_to_hex x)" "length gs < 8" using Cons.prems short_hex by (simp_all add: not_less)
  show ?case
  proof (cases "xs = []")
    case True
    then show ?thesis using x by (simp add: v6_groups.simps [of gs])
  next
    case False
    have "v6_groups (gs @ [x]) ell (colons xs) = Some ((gs @ [x]) @ xs, ell)"
      using Cons.IH [of "gs @ [x]"] Cons.prems False by simp
    then show ?thesis using x False hd_colons [OF False, of "[]"]
      by (simp add: v6_groups.simps [of gs] colons_Cons Let_def)
  qed
qed simp

text \<open>Groups, the two colons, and the groups after them.\<close>

lemma groups_read_gap:
  assumes "xs \<noteq> []" "list_all (\<lambda>x. x < 65536) xs" "list_all (\<lambda>x. x < 65536) ys" "length gs + length xs + length ys \<le> 7"
  shows "v6_groups gs None (colons xs @ ''::'' @ colons ys) = Some (gs @ xs @ ys, Some (length gs + length xs))"
  using assms
proof (induction xs arbitrary: gs)
  case (Cons x xs)
  have x: "\<not> 4 < length (nat_to_hex x)" "length gs < 8" using Cons.prems short_hex by (simp_all add: not_less)
  show ?case
  proof (cases "xs = []")
    case True
    show ?thesis
    proof (cases "ys = []")
      case ys: True
      then show ?thesis using x True by (simp add: v6_groups.simps [of gs] Let_def)
    next
      case ys: False
      have "v6_groups (gs @ [x]) (Some (Suc (length gs))) (colons ys) = Some ((gs @ [x]) @ ys, Some (Suc (length gs)))"
        using groups_read [OF ys, of "gs @ [x]"] Cons.prems True by simp
      then show ?thesis using x True hd_colons [OF ys, of "[]"] by (simp add: v6_groups.simps [of gs] Let_def)
    qed
  next
    case False
    have "v6_groups (gs @ [x]) None (colons xs @ ''::'' @ colons ys) = Some ((gs @ [x]) @ xs @ ys, Some (length (gs @ [x]) + length xs))"
      using Cons.IH [of "gs @ [x]"] Cons.prems False by simp
    moreover have "colons (x # xs) @ ''::'' @ colons ys = nat_to_hex x @ CHR '':'' # (colons xs @ ''::'' @ colons ys)"
      using False by (simp add: colons_Cons)
    moreover have "hd (colons xs) \<noteq> CHR '':''" using hd_colons [OF False, of "[]"] by simp
    ultimately show ?thesis using x hd_colons [OF False, of "''::'' @ colons ys"]
      by (simp only: v6_groups.simps [of gs]) (simp add: Let_def)
  qed
qed simp

section \<open>The longest run of zeros\<close>

lemma zero_run_facts:
  assumes "zero_run g = (s, l)" "length g = 8" "l \<noteq> 0"
  shows "s < 8 \<and> l = zeros_at g s"
proof -
  let ?f = "\<lambda>(s, l) i. if 2 \<le> zeros_at g i \<and> l < zeros_at g i then (i, zeros_at g i) else (s, l)"
  have "snd (foldl ?f (8, 0) is) \<noteq> 0 \<longrightarrow>
      fst (foldl ?f (8, 0) is) \<in> set is \<and> snd (foldl ?f (8, 0) is) = zeros_at g (fst (foldl ?f (8, 0) is))" for "is"
    by (induction "is" rule: rev_induct) (auto split: prod.splits)
  from this [of "[0..<8]"] show ?thesis using assms(1,3) by (simp add: zero_run_def del: upt_Suc)
qed

lemma zeros_replicate: "take (zeros_at g s) (drop s g) = replicate (zeros_at g s) 0"
proof -
  have "take (length (takeWhile (\<lambda>x. x = 0) xs)) xs = replicate (length (takeWhile (\<lambda>x. x = 0) xs)) (0::nat)" for xs
    by (induction xs) simp_all
  then show ?thesis by (simp only: zeros_at_def)
qed

lemma drop_zero_run:
  assumes "zero_run g = (s, l)" "length g = 8" "l \<noteq> 0"
  shows "g = take s g @ replicate l 0 @ drop (s + l) g \<and> s + l \<le> 8"
proof -
  have f: "s < 8" "l = zeros_at g s" using zero_run_facts [OF assms] by simp_all
  have "l \<le> length (drop s g)" unfolding f(2) zeros_at_def by (rule length_takeWhile_le)
  moreover have "g = take s g @ take l (drop s g) @ drop l (drop s g)" by (metis append_take_drop_id)
  then have "g = take s g @ replicate l 0 @ drop (s + l) g"
    using zeros_replicate [of g s] f(2) by (simp add: add.commute)
  ultimately show ?thesis using f(1) assms(2) by simp
qed

section \<open>Addresses read back\<close>

lemma first_separator:
  "\<forall>x \<in> set s. x = c \<or> x \<notin> S \<Longrightarrow> c \<in> set s \<Longrightarrow> c \<in> S \<Longrightarrow> List.find (\<lambda>x. x \<in> S) s = Some c"
  by (induction s) auto

lemma join_chars: "x \<in> set (join_with c ps) \<Longrightarrow> x = c \<or> (\<exists>p \<in> set ps. x \<in> set p)"
  by (induction c ps rule: join_with.induct) auto

lemma colons_chars: "x \<in> set (colons xs) \<Longrightarrow> x = CHR '':'' \<or> is_hex x"
proof -
  assume "x \<in> set (colons xs)"
  then consider "x = CHR '':''" | n where "x \<in> set (nat_to_hex n)" unfolding colons_def by (auto dest!: join_chars)
  then show ?thesis using hex_all by cases (auto simp: list_all_iff)
qed

lemma v6_text_eq:
  "v6_text g = (case zero_run g of (s, l) \<Rightarrow> if l = 0 then colons g else colons (take s g) @ ''::'' @ colons (drop (s + l) g))"
  by (cases "zero_run g") (simp add: v6_text_def colons_def)

lemma colon_in_colons: "2 \<le> length xs \<Longrightarrow> CHR '':'' \<in> set (colons xs)"
  by (cases xs; cases "tl xs") (auto simp: colons_Cons)

lemma v6_text_chars:
  assumes "length g = 8"
  shows "CHR '':'' \<in> set (v6_text g)" "x \<in> set (v6_text g) \<Longrightarrow> x = CHR '':'' \<or> is_hex x"
  using assms colon_in_colons [of g] colons_chars by (cases "zero_run g"; auto simp: v6_text_eq split: if_splits)+

lemma parse_v6_text:
  assumes "is_ip g"
  shows "parse_v6 (v6_text g) = Some g"
proof -
  have len: "length g = 8" and small: "list_all (\<lambda>x. x < 65536) g" using assms by (simp_all add: is_ip_def)
  have pct: "CHR ''%'' \<notin> set (v6_text g)" using v6_text_chars(2) [OF len] hex_not by blast
  obtain s l where run: "zero_run g = (s, l)" by fastforce
  show ?thesis
  proof (cases "l = 0")
    case True
    have t: "v6_text g = colons g" using run True by (simp add: v6_text_eq)
    have "g \<noteq> []" using len by auto
    then have "take 2 (colons g) \<noteq> ''::''" using hd_colons [of g "[]"] by (cases "colons g") auto
    moreover have "v6_groups [] None (colons g) = Some (g, None)"
      using groups_read [OF \<open>g \<noteq> []\<close> small, of "[]"] len by simp
    ultimately show ?thesis using pct len by (simp add: parse_v6_def t fill_groups_def)
  next
    case False
    let ?xs = "take s g" and ?ys = "drop (s + l) g"
    have t: "v6_text g = colons ?xs @ ''::'' @ colons ?ys" using run False by (simp add: v6_text_eq)
    have g: "g = ?xs @ replicate l 0 @ ?ys" "s + l \<le> 8" using drop_zero_run [OF run len False] by simp_all
    have xs: "list_all (\<lambda>x. x < 65536) ?xs" and ys: "list_all (\<lambda>x. x < 65536) ?ys"
      using small by (auto simp: list_all_iff dest: in_set_takeD in_set_dropD)
    have n: "8 - (length ?xs + length ?ys) = l" "length ?xs + length ?ys < 8" using g(2) len False by simp_all
    show ?thesis
    proof (cases "s = 0")
      case s: True
      show ?thesis
      proof (cases "?ys = []")
        case ys0: True
        then have "l = 8" using g(2) s len by simp
        moreover have "drop 8 g = []" using len by simp
        ultimately have "g = replicate 8 0" using g(1) s by (metis append.left_neutral append.right_neutral take0 ys0)
        moreover have "v6_text g = ''::''" using t s ys0 by simp
        ultimately show ?thesis by (simp add: parse_v6_def)
      next
        case ys0: False
        have "v6_groups [] (Some 0) (colons ?ys) = Some (?ys, Some 0)"
          using groups_read [OF ys0 ys, of "[]"] len by simp
        then have "parse_v6 (v6_text g) = Some (replicate l 0 @ ?ys)"
          using pct s hd_colons [OF ys0, of "[]"] n by (simp add: parse_v6_def t fill_groups_def)
        then show ?thesis using g(1) s by simp
      qed
    next
      case s: False
      then have xs0: "?xs \<noteq> []" using len by auto
      have "take 2 (colons ?xs @ ''::'' @ colons ?ys) \<noteq> ''::''"
        using hd_colons [OF xs0, of "[]"] by (cases "colons ?xs") auto
      moreover have "v6_groups [] None (colons ?xs @ ''::'' @ colons ?ys) = Some (?xs @ ?ys, Some (length ?xs))"
        using groups_read_gap [OF xs0 xs ys, of "[]"] n(2) by simp
      ultimately have "parse_v6 (v6_text g) = fill_groups (?xs @ ?ys, Some (length ?xs))"
        using pct by (simp add: parse_v6_def t)
      also have "\<dots> = Some (?xs @ replicate l 0 @ ?ys)"
        unfolding fill_groups_def using n g(2) len by (simp add: min_def)
      finally show ?thesis using g(1) by simp
    qed
  qed
qed

lemma To4_mapped: "a \<le> 255 \<Longrightarrow> b \<le> 255 \<Longrightarrow> c \<le> 255 \<Longrightarrow> d \<le> 255 \<Longrightarrow> To4 (mapped a b c d) = Some (a, b, c, d)"
  by (simp add: To4_def mapped_def)

lemma To4_SomeD:
  assumes "is_ip g" "To4 g = Some (a, b, c, d)"
  shows "g = mapped a b c d \<and> a \<le> 255 \<and> b \<le> 255 \<and> c \<le> 255 \<and> d \<le> 255"
proof -
  have t: "take 6 g = [0, 0, 0, 0, 0, 65535]" using assms(2) by (auto simp: To4_def split: if_splits)
  have len: "length g = 8" using assms(1) by (simp add: is_ip_def)
  have "drop 6 g = [g ! 6, g ! 7]" using len by (simp add: Cons_nth_drop_Suc [symmetric])
  then have "g = take 6 g @ [g ! 6, g ! 7]" by (metis append_take_drop_id)
  moreover have "g ! 6 < 65536" "g ! 7 < 65536" using assms(1) by (auto simp: is_ip_def list_all_length)
  ultimately show ?thesis using assms(2) t by (auto simp: To4_def mapped_def)
qed

theorem address_reads_back:
  assumes "is_ip g"
  shows "ParseAddr (IP_String g) = Some (To4 g \<noteq> None, g)"
proof (cases "To4 g")
  case None
  have len: "length g = 8" using assms by (simp add: is_ip_def)
  have "List.find (\<lambda>c. c \<in> {CHR ''.'', CHR '':'', CHR ''%''}) (v6_text g) = Some (CHR '':'')"
  proof (rule first_separator)
    show "\<forall>x \<in> set (v6_text g). x = CHR '':'' \<or> x \<notin> {CHR ''.'', CHR '':'', CHR ''%''}"
    proof
      fix x assume "x \<in> set (v6_text g)"
      from v6_text_chars(2) [OF len this] show "x = CHR '':'' \<or> x \<notin> {CHR ''.'', CHR '':'', CHR ''%''}"
        using hex_not [of x] by (elim disjE) simp_all
    qed
  qed (simp_all add: v6_text_chars(1) [OF len])
  then show ?thesis using None parse_v6_text [OF assms] by (simp add: ParseAddr_def IP_String_def)
next
  case (Some x)
  obtain a b c d where x: "x = (a, b, c, d)" by (cases x)
  have g: "g = mapped a b c d" "a \<le> 255" "b \<le> 255" "c \<le> 255" "d \<le> 255" using To4_SomeD [OF assms] Some x by auto
  let ?t = "join_with (CHR ''.'') (map nat_to_str [a, b, c, d])"
  have "\<forall>y \<in> set ?t. y = CHR ''.'' \<or> y \<notin> {CHR ''.'', CHR '':'', CHR ''%''}"
    using nat_to_str_digits by (fastforce dest!: join_chars simp: list_all_iff is_digit_def code_def)
  then have "List.find (\<lambda>c. c \<in> {CHR ''.'', CHR '':'', CHR ''%''}) ?t = Some (CHR ''.'')"
    by (rule first_separator) simp_all
  then show ?thesis using Some x parse_v4_text [OF g(2-5)] by (simp add: ParseAddr_def IP_String_def g(1))
qed

end
