(* ===== verification/Client_Addr.thy ===== *)
theory Client_Addr imports Net_Text begin

text \<open>
  Which client a request is counted for, \<open>src/internal/netx\<close>: the peer, or what a trusted proxy says
  about it in the one header it overwrites, and the key under which the limits count it. The
  configuration of the process is the parameter \<open>conf\<close>; headers are in order, with canonical names.
  The logs of entries and names that are not understood are left out; \<open>TrimSpace\<close> trims ASCII white space.
\<close>

record http_request =
  remote_addr :: string
  headers :: "(string \<times> string) list"

text \<open>\<open>DUFAKA_TRUSTED_PROXIES\<close> and \<open>DUFAKA_REAL_IP_HEADER\<close>.\<close>

record proxy_conf =
  trusted_spec :: string
  header_spec :: string

definition header_get :: "string \<Rightarrow> http_request \<Rightarrow> string" where
  "header_get name r = (case map_of (headers r) name of Some v \<Rightarrow> v | None \<Rightarrow> [])"

definition header_values :: "string \<Rightarrow> http_request \<Rightarrow> string list" where
  "header_values name r = map snd (filter (\<lambda>h. fst h = name) (headers r))"

definition trim_brackets :: "string \<Rightarrow> string" where
  "trim_brackets s =
     (let b = (\<lambda>c. c = CHR ''['' \<or> c = CHR '']'') in rev (dropWhile b (rev (dropWhile b s))))"

definition hostOnly :: "string \<Rightarrow> string" where
  "hostOnly addr0 =
     (let addr = trim addr0
      in case SplitHost addr of Some h \<Rightarrow> trim_brackets h | None \<Rightarrow> trim_brackets addr)"

definition stripZone :: "string \<Rightarrow> string" where
  "stripZone h = takeWhile (\<lambda>c. c \<noteq> CHR ''%'') h"

text \<open>The empty text stands for no address.\<close>

definition parseIP :: "string \<Rightarrow> string" where
  "parseIP v0 =
     (let v = trim v0 in
      if v = [] \<or> 64 < length v then []
      else (case ParseIP (stripZone (hostOnly v)) of Some g \<Rightarrow> IP_String g | None \<Rightarrow> []))"

definition trusted_item :: "string \<Rightarrow> ip_net option" where
  "trusted_item item0 =
     (let item = trim item0 in
      if item = [] then None
      else if CHR ''/'' \<in> set item then ParseCIDR item
      else
        (case ParseIP (stripZone item) of
           None \<Rightarrow> None
         | Some g \<Rightarrow>
             (case To4 g of
                Some x \<Rightarrow> Some (Net True (v4_number x) 32)
              | None \<Rightarrow> Some (Net False (ip_number g) 128))))"

definition parseTrusted :: "string \<Rightarrow> ip_net list" where
  "parseTrusted spec = List.map_filter trusted_item (split_on (CHR '','') spec)"

definition TrustsProxy :: "proxy_conf \<Rightarrow> http_request \<Rightarrow> bool" where
  "TrustsProxy conf r \<longleftrightarrow>
     (case ParseIP (stripZone (hostOnly (remote_addr r))) of
        None \<Rightarrow> False
      | Some g \<Rightarrow> IsLoopback g \<or> list_ex (\<lambda>n. Contains n g) (parseTrusted (trusted_spec conf)))"

definition realIPHeader :: "proxy_conf \<Rightarrow> string" where
  "realIPHeader conf =
     (if map to_lower (trim (header_spec conf)) = ''x-forwarded-for'' then ''X-Forwarded-For'' else ''X-Real-IP'')"

definition ClientAddr :: "proxy_conf \<Rightarrow> http_request \<Rightarrow> string \<times> bool" where
  "ClientAddr conf r =
     (let host = hostOnly (remote_addr r);
          peer = (if parseIP host \<noteq> [] then parseIP host else host)
      in if \<not> TrustsProxy conf r then (peer, True)
         else if realIPHeader conf = ''X-Forwarded-For'' then
           (case List.find (\<lambda>e. trim e \<noteq> []) (rev (concat (map (split_on (CHR '','')) (header_values ''X-Forwarded-For'' r)))) of
              Some e \<Rightarrow> if parseIP e \<noteq> [] then (parseIP e, True) else (peer, False)
            | None \<Rightarrow> (peer, False))
         else
           (let v = parseIP (header_get ''X-Real-Ip'' r) in if v \<noteq> [] then (v, True) else (peer, False)))"

definition ClientIP :: "proxy_conf \<Rightarrow> http_request \<Rightarrow> string" where
  "ClientIP conf r = fst (ClientAddr conf r)"

definition LimiterKey :: "string \<Rightarrow> string" where
  "LimiterKey ip =
     (case ParseIP ip of
        None \<Rightarrow> ip
      | Some g \<Rightarrow>
          (case To4 g of
             Some x \<Rightarrow> IP_String g
           | None \<Rightarrow> IP_String (take 4 g @ [0, 0, 0, 0]) @ ''/64''))"

end
