(* ===== verification/Client_Props.thy ===== *)
theory Client_Props imports Client_Addr Net_Props Login_Props "HOL-Library.Code_Target_Nat" begin

text \<open>
  Nobody chooses the address they are counted for: headers of strangers are not read, a proxy's word
  counts whatever the client has sent, and addresses share a key exactly when they are of one network.
\<close>

section \<open>The text of an address is left as it is\<close>

definition addr_char :: "char \<Rightarrow> bool" where
  "addr_char c \<longleftrightarrow> is_hex c \<or> c = CHR '':'' \<or> c = CHR ''.''"

lemma plain_not: "addr_char c \<Longrightarrow> \<not> is_space c" "addr_char c \<Longrightarrow> c \<notin> {CHR ''['', CHR '']'', CHR ''%'', CHR '','', CHR ''/''}"
  by (auto simp: addr_char_def is_hex_def hex_val_def is_digit_def code_def is_space_def split: if_splits)

lemma digit_plain: "is_digit c \<Longrightarrow> addr_char c"
  by (simp add: addr_char_def is_hex_def hex_val_def)

lemma address_plain:
  assumes "is_ip g"
  shows "list_all addr_char (IP_String g)"
proof (cases "To4 g")
  case None
  have "length g = 8" using assms by (simp add: is_ip_def)
  from v6_text_chars(2) [OF this] show ?thesis using None by (auto simp: IP_String_def list_all_iff addr_char_def)
next
  case (Some x)
  then show ?thesis using nat_to_str_digits digit_plain
    by (cases x) (fastforce simp: IP_String_def list_all_iff addr_char_def dest!: join_chars)
qed

lemma trim_plain: "list_all addr_char s \<Longrightarrow> trim s = s"
proof -
  assume s: "list_all addr_char s"
  have "dropWhile is_space t = t" if "list_all addr_char t" for t
    using that plain_not(1) by (cases t) auto
  from this [OF s] this [of "rev s"] s show ?thesis by simp
qed

lemma brackets_plain: "list_all addr_char s \<Longrightarrow> trim_brackets s = s"
proof -
  assume s: "list_all addr_char s"
  have "dropWhile (\<lambda>c. c = CHR ''['' \<or> c = CHR '']'') t = t" if "list_all addr_char t" for t
    using that plain_not(2) by (cases t) auto
  from this [OF s] this [of "rev s"] s show ?thesis by (simp add: trim_brackets_def)
qed

lemma zone_plain: "list_all addr_char s \<Longrightarrow> stripZone s = s"
  using plain_not(2) by (auto simp: stripZone_def list_all_iff takeWhile_eq_all_conv)

section \<open>The host of a peer\<close>

lemma takeWhile_upto: "c \<notin> set a \<Longrightarrow> takeWhile (\<lambda>x. x \<noteq> c) (a @ c # b) = a"
  by (induction a) auto

lemma last_index_eq: "c \<notin> set b \<Longrightarrow> last_index c (a @ c # b) = Some (length a)"
proof -
  assume b: "c \<notin> set b"
  have "takeWhile (\<lambda>x. x \<noteq> c) (rev b @ c # rev a) = rev b" using b by (simp add: takeWhile_upto)
  then show ?thesis by (simp add: last_index_def)
qed

lemma last_index_none: "c \<notin> set s \<Longrightarrow> last_index c s = None"
  by (simp add: last_index_def)

lemma first_index_eq: "c \<notin> set a \<Longrightarrow> first_index c (a @ c # b) = Some (length a)"
  by (simp add: first_index_def takeWhile_upto)

lemma plain_sets:
  "list_all addr_char s \<Longrightarrow> CHR ''['' \<notin> set s \<and> CHR '']'' \<notin> set s \<and> CHR ''%'' \<notin> set s \<and> CHR '','' \<notin> set s \<and> CHR ''/'' \<notin> set s"
  using plain_not(2) by (auto simp: list_all_iff)

lemma host_two_colons:
  assumes "list_all addr_char (p @ CHR '':'' # q)" "CHR '':'' \<in> set q"
  shows "SplitHost (p @ CHR '':'' # q) = None"
proof -
  obtain a b where q: "q = a @ CHR '':'' # b" "CHR '':'' \<notin> set b" using split_list_last [OF assms(2)] by blast
  let ?s = "(p @ CHR '':'' # a) @ CHR '':'' # b"
  have s: "p @ CHR '':'' # q = ?s" using q by simp
  have "hd ?s \<noteq> CHR ''[''" using plain_sets [OF assms(1)] s by (cases p) auto
  moreover have "last_index (CHR '':'') ?s = Some (length (p @ CHR '':'' # a))" by (rule last_index_eq [OF q(2)])
  ultimately show ?thesis unfolding s by (simp add: SplitHost_def)
qed

lemma two_colons:
  assumes "length g = 8"
  shows "\<exists>p q. v6_text g = p @ CHR '':'' # q \<and> CHR '':'' \<in> set q"
proof -
  obtain s l where run: "zero_run g = (s, l)" by fastforce
  show ?thesis
  proof (cases "l = 0")
    case True
    obtain x xs where g: "g = x # xs" "length xs = 7" using assms by (cases g) auto
    then have "xs \<noteq> []" "CHR '':'' \<in> set (colons xs)" using colon_in_colons [of xs] by auto
    then show ?thesis using run True g(1) by (auto simp: v6_text_eq colons_Cons)
  next
    case False
    then have "v6_text g = colons (take s g) @ CHR '':'' # (CHR '':'' # colons (drop (s + l) g))"
      using run by (simp add: v6_text_eq)
    then show ?thesis by (metis list.set_intros(1))
  qed
qed

lemma dotted_no_colon: "To4 g = Some x \<Longrightarrow> CHR '':'' \<notin> set (IP_String g)"
proof
  assume x: "To4 g = Some x" and c: "CHR '':'' \<in> set (IP_String g)"
  obtain n where "CHR '':'' \<in> set (nat_to_str n)" using x c by (cases x) (auto simp: IP_String_def dest!: join_chars)
  then show False using nat_to_str_digits [of n] by (auto simp: list_all_iff is_digit_def code_def)
qed

lemma address_host:
  assumes "is_ip g"
  shows "hostOnly (IP_String g) = IP_String g"
proof -
  have p: "list_all addr_char (IP_String g)" by (rule address_plain [OF assms])
  have "SplitHost (IP_String g) = None"
  proof (cases "To4 g")
    case None
    have "length g = 8" using assms by (simp add: is_ip_def)
    from two_colons [OF this] obtain a b where "v6_text g = a @ CHR '':'' # b" "CHR '':'' \<in> set b" by blast
    then show ?thesis using None p host_two_colons by (simp add: IP_String_def)
  next
    case (Some x)
    then show ?thesis using last_index_none [OF dotted_no_colon [OF Some]] by (simp add: SplitHost_def)
  qed
  then show ?thesis using p trim_plain brackets_plain by (simp add: hostOnly_def)
qed

lemma address_host_trim: "is_ip g \<Longrightarrow> trim v = IP_String g \<Longrightarrow> hostOnly v = IP_String g"
  using address_host [of g] trim_plain [OF address_plain, of g] by (simp add: hostOnly_def)

section \<open>How long an address is\<close>

lemma dec_length: "n < 10 ^ Suc k \<Longrightarrow> length (nat_to_str n) \<le> Suc k"
proof (induction k arbitrary: n)
  case 0
  then show ?case by (simp add: nat_to_str.simps [of n])
next
  case (Suc k)
  then have "n div 10 < 10 ^ Suc k" by (simp add: less_mult_imp_div_less)
  from Suc.IH [OF this] show ?case by (simp add: nat_to_str.simps [of n])
qed

lemma colons_length: "list_all (\<lambda>x. x < 65536) xs \<Longrightarrow> length (colons xs) \<le> 5 * length xs"
proof (induction xs)
  case (Cons x xs)
  have "length (nat_to_hex x) \<le> 4" using Cons.prems short_hex by simp
  then show ?case using Cons by (cases "xs = []") (simp_all add: colons_Cons)
qed simp

lemma address_length:
  assumes "is_ip g"
  shows "length (IP_String g) \<le> 42"
proof (cases "To4 g")
  case None
  have len: "length g = 8" and small: "list_all (\<lambda>x. x < 65536) g" using assms by (simp_all add: is_ip_def)
  have part: "list_all (\<lambda>x. x < 65536) (take n g)" "list_all (\<lambda>x. x < 65536) (drop n g)" for n
    using small by (auto simp: list_all_iff dest: in_set_takeD in_set_dropD)
  obtain s l where run: "zero_run g = (s, l)" by fastforce
  have "length (take s g) + length (drop (s + l) g) \<le> 8" using len by simp
  then have "length (v6_text g) \<le> 42"
    using run colons_length [OF small] colons_length [OF part(1), of s] colons_length [OF part(2), of "s + l"] len
    by (simp add: v6_text_eq)
  then show ?thesis using None by (simp add: IP_String_def)
next
  case (Some x)
  obtain a b c d where x: "x = (a, b, c, d)" by (cases x)
  have n: "length (nat_to_str n) \<le> 3" if "n \<le> 255" for n using dec_length [of n 2] that by simp
  have "a \<le> 255" "b \<le> 255" "c \<le> 255" "d \<le> 255" using To4_SomeD [OF assms] Some x by auto
  from this [THEN n] show ?thesis using Some x by (simp add: IP_String_def)
qed

lemma address_parsed:
  assumes "is_ip g" "trim v = IP_String g"
  shows "parseIP v = IP_String g"
proof -
  have "IP_String g \<noteq> []" using address_reads_back [OF assms(1)] by (auto simp: ParseAddr_def)
  moreover have "stripZone (hostOnly (IP_String g)) = IP_String g"
    using address_host zone_plain address_plain assms(1) by simp
  moreover have "ParseIP (IP_String g) = Some g" using address_reads_back [OF assms(1)] by (simp add: ParseIP_def)
  ultimately show ?thesis using address_length [OF assms(1)] assms(2) by (simp add: parseIP_def)
qed

section \<open>Peers, proxies and what they say\<close>

text \<open>The address of a peer as \<open>net/http\<close> gives it.\<close>

definition peer_text :: "ip \<Rightarrow> nat \<Rightarrow> string" where
  "peer_text g port =
     (if To4 g = None then ''['' @ IP_String g @ '']:'' @ nat_to_str port else IP_String g @ '':'' @ nat_to_str port)"

definition trusts :: "proxy_conf \<Rightarrow> ip \<Rightarrow> bool" where
  "trusts conf g \<longleftrightarrow> IsLoopback g \<or> (\<exists>n \<in> set (parseTrusted (trusted_spec conf)). Contains n g)"

text \<open>
  What a proxy makes of the headers \<open>hs\<close> of a client with address \<open>c\<close>: it overwrites the one header,
  or appends the address to the values that the client has sent.
\<close>

definition set_real_ip :: "ip \<Rightarrow> (string \<times> string) list \<Rightarrow> (string \<times> string) list" where
  "set_real_ip c hs = (''X-Real-Ip'', IP_String c) # filter (\<lambda>h. fst h \<noteq> ''X-Real-Ip'') hs"

definition append_forwarded :: "ip \<Rightarrow> (string \<times> string) list \<Rightarrow> (string \<times> string) list" where
  "append_forwarded c hs =
     (''X-Forwarded-For'', concat (map (\<lambda>h. snd h @ '', '') (filter (\<lambda>h. fst h = ''X-Forwarded-For'') hs)) @ IP_String c) #
     filter (\<lambda>h. fst h \<noteq> ''X-Forwarded-For'') hs"

definition through_proxy :: "proxy_conf \<Rightarrow> ip \<Rightarrow> nat \<Rightarrow> ip \<Rightarrow> (string \<times> string) list \<Rightarrow> http_request" where
  "through_proxy conf p port c hs =
     \<lparr>remote_addr = peer_text p port,
      headers = (if realIPHeader conf = ''X-Forwarded-For'' then append_forwarded c hs else set_real_ip c hs)\<rparr>"

lemma digits_plain: "list_all addr_char (nat_to_str n)"
  using nat_to_str_digits [of n] by (auto simp: list_all_iff intro: digit_plain)

lemma digits_no_colon: "CHR '':'' \<notin> set (nat_to_str n)"
  using nat_to_str_digits [of n] by (auto simp: list_all_iff is_digit_def code_def)

lemma peer_host:
  assumes "is_ip g"
  shows "hostOnly (peer_text g port) = IP_String g"
proof (cases "To4 g")
  case None
  let ?g = "IP_String g" and ?n = "nat_to_str port"
  let ?t = "''['' @ ?g @ '']'' @ CHR '':'' # ?n"
  note g = address_plain [OF assms] and n = digits_plain [of port]
  have s: "dropWhile is_space ?t = ?t" by (simp add: is_space_def code_def)
  have "rev ?n \<noteq> []" "list_all addr_char (rev ?n)" using nat_to_str_not_Nil n by simp_all
  then have "dropWhile is_space (rev ?n @ x) = rev ?n @ x" for x using plain_not(1) by (cases "rev ?n") auto
  then have trim: "trim ?t = ?t" using s by simp
  have "last_index (CHR '':'') ((''['' @ ?g @ '']'') @ CHR '':'' # ?n) = Some (length (''['' @ ?g @ '']''))"
    by (rule last_index_eq [OF digits_no_colon])
  moreover have "first_index (CHR '']'') ((''['' @ ?g) @ CHR '']'' # (CHR '':'' # ?n)) = Some (length (''['' @ ?g))"
    using plain_sets [OF g] by (intro first_index_eq) simp
  ultimately have "SplitHost ?t = Some ?g" using plain_sets [OF g] plain_sets [OF n] by (simp add: SplitHost_def)
  then show ?thesis using None trim brackets_plain [OF g] by (simp add: hostOnly_def peer_text_def)
next
  case (Some x)
  let ?g = "IP_String g" and ?n = "nat_to_str port"
  note g = address_plain [OF assms] and n = digits_plain [of port]
  have all: "list_all addr_char (?g @ CHR '':'' # ?n)" using g n by (simp add: addr_char_def)
  have "last_index (CHR '':'') (?g @ CHR '':'' # ?n) = Some (length ?g)" by (rule last_index_eq [OF digits_no_colon])
  moreover have "hd (?g @ CHR '':'' # ?n) \<noteq> CHR ''[''" using plain_sets [OF all] by (cases ?g) auto
  ultimately have "SplitHost (?g @ CHR '':'' # ?n) = Some ?g"
    using plain_sets [OF all] dotted_no_colon [OF Some] by (simp add: SplitHost_def)
  then show ?thesis using Some trim_plain [OF all] brackets_plain [OF g] by (simp add: hostOnly_def peer_text_def)
qed

lemma peer_trusted:
  assumes "is_ip g" "remote_addr r = peer_text g port"
  shows "TrustsProxy conf r = trusts conf g"
  using peer_host [OF assms(1)] zone_plain [OF address_plain [OF assms(1)]] address_reads_back [OF assms(1)] assms(2)
  by (simp add: TrustsProxy_def trusts_def ParseIP_def list_ex_iff)

lemma direct_address:
  assumes "is_ip g" "\<not> trusts conf g"
  shows "ClientAddr conf \<lparr>remote_addr = peer_text g port, headers = hs\<rparr> = (IP_String g, True)"
proof -
  have "trim (IP_String g) = IP_String g" by (rule trim_plain [OF address_plain [OF assms(1)]])
  from address_parsed [OF assms(1) this] peer_host [OF assms(1)] peer_trusted [OF assms(1)] assms(2)
  show ?thesis by (simp add: ClientAddr_def Let_def)
qed

lemma split_not_Nil: "split_on c x \<noteq> []"
  by (induction x) (auto split: list.splits)

lemma split_last: "c \<notin> set p \<Longrightarrow> split_on c (x @ c # p) = split_on c x @ [p]"
  by (induction x) (auto simp: split_none split_not_Nil split: list.splits)

text \<open>The last entry of the appended header is the address, whatever stands before it.\<close>

lemma appended_last:
  assumes "is_ip c"
  shows "\<exists>e. List.find (\<lambda>e. trim e \<noteq> [])
      (rev (concat (map (split_on (CHR '','')) (header_values ''X-Forwarded-For'' \<lparr>remote_addr = a, headers = append_forwarded c hs\<rparr>)))) = Some e \<and>
    trim e = IP_String c"
proof -
  let ?c = "IP_String c" and ?vs = "concat (map (\<lambda>h. snd h @ '', '') (filter (\<lambda>h. fst h = ''X-Forwarded-For'') hs))"
  have vals: "header_values ''X-Forwarded-For'' \<lparr>remote_addr = a, headers = append_forwarded c hs\<rparr> = [?vs @ ?c]"
    by (simp add: header_values_def append_forwarded_def filter_empty_conv)
  have c: "?c \<noteq> []" "trim ?c = ?c" "CHR '','' \<notin> set ?c"
    using address_reads_back [OF assms] trim_plain address_plain [OF assms] plain_sets
    by (auto simp: ParseAddr_def)
  have t: "trim (CHR '' '' # ?c) = ?c" using c(2) by (simp add: is_space_def code_def)
  have "concat (map (\<lambda>h. snd h @ '', '') fs) = [] \<or> (\<exists>x. concat (map (\<lambda>h. snd h @ '', '') fs) = x @ '', '')" for fs :: "(string \<times> string) list"
    by (cases fs rule: rev_cases) auto
  then consider "?vs = []" | x where "?vs = x @ '', ''" by blast
  then obtain xs e where e: "split_on (CHR '','') (?vs @ ?c) = xs @ [e]" "trim e = ?c"
  proof cases
    case 1
    then have "split_on (CHR '','') (?vs @ ?c) = [] @ [?c]" using split_none [OF c(3)] by (simp only: append_Nil)
    then show ?thesis using c(2) by (rule that)
  next
    case 2
    have "CHR '','' \<notin> set (CHR '' '' # ?c)" using c(3) by simp
    from split_last [OF this, of x] have "split_on (CHR '','') (?vs @ ?c) = split_on (CHR '','') x @ [CHR '' '' # ?c]"
      by (simp only: 2) simp
    then show ?thesis using t by (rule that)
  qed
  have "trim e \<noteq> []" using e(2) c(1) by (simp only: e(2)) simp
  then show ?thesis unfolding vals using e by (simp only: list.map concat.simps append_Nil2 e(1) rev_append rev.simps find.simps append_Cons append_Nil) simp
qed

text \<open>
  C35: nobody chooses the address they are counted for: who reaches the server without a trusted proxy has
  the address of the connection, and who comes through one has the address that the proxy has seen,
  whatever headers were sent.\<close>

theorem address_cannot_be_forged:
  assumes "is_ip c" "is_ip p" "\<not> trusts conf c" "trusts conf p"
  shows "ClientAddr conf \<lparr>remote_addr = peer_text c port, headers = hs\<rparr> = (IP_String c, True) \<and>
         ClientAddr conf (through_proxy conf p port c hs) = (IP_String c, True)"
proof
  show "ClientAddr conf \<lparr>remote_addr = peer_text c port, headers = hs\<rparr> = (IP_String c, True)"
    by (rule direct_address [OF assms(1,3)])
  have t: "TrustsProxy conf (through_proxy conf p port c hs)"
    using peer_trusted [OF assms(2)] assms(4) by (simp add: through_proxy_def)
  have c: "IP_String c \<noteq> []" "trim (IP_String c) = IP_String c"
    using address_reads_back [OF assms(1)] trim_plain address_plain [OF assms(1)] by (auto simp: ParseAddr_def)
  show "ClientAddr conf (through_proxy conf p port c hs) = (IP_String c, True)"
  proof (cases "realIPHeader conf = ''X-Forwarded-For''")
    case True
    obtain e where e: "trim e = IP_String c"
        "List.find (\<lambda>e. trim e \<noteq> []) (rev (concat (map (split_on (CHR '','')) (header_values ''X-Forwarded-For'' (through_proxy conf p port c hs))))) = Some e"
      using appended_last [OF assms(1)] True by (auto simp: through_proxy_def)
    then show ?thesis using t True address_parsed [OF assms(1) e(1)] c by (simp only: ClientAddr_def Let_def) simp
  next
    case False
    then show ?thesis using t address_parsed [OF assms(1) c(2)] c(1)
      by (simp add: ClientAddr_def Let_def header_get_def through_proxy_def set_real_ip_def)
  qed
qed

theorem address_cannot_be_forged_witness:
  "ClientAddr \<lparr>trusted_spec = ''10.0.0.0/8, fd00::1'', header_spec = ''X-Forwarded-For''\<rparr>
     (through_proxy \<lparr>trusted_spec = ''10.0.0.0/8, fd00::1'', header_spec = ''X-Forwarded-For''\<rparr>
       (mapped 10 1 2 3) 443 (mapped 192 0 2 1) [(''X-Forwarded-For'', ''203.0.113.9, 198.51.100.7''), (''X-Real-Ip'', ''127.0.0.1'')])
     = (''192.0.2.1'', True)"
proof -
  let ?conf = "\<lparr>trusted_spec = ''10.0.0.0/8, fd00::1'', header_spec = ''X-Forwarded-For''\<rparr>"
  have "is_ip (mapped 192 0 2 1)" "is_ip (mapped 10 1 2 3)" by code_simp+
  moreover have "\<not> trusts ?conf (mapped 192 0 2 1)" "trusts ?conf (mapped 10 1 2 3)" by code_simp+
  moreover have "IP_String (mapped 192 0 2 1) = ''192.0.2.1''" by code_simp
  ultimately show ?thesis
    using address_cannot_be_forged [of "mapped 192 0 2 1" "mapped 10 1 2 3" ?conf] by simp
qed

section \<open>The key of an address\<close>

text \<open>Addresses of four bytes are networks of their own; of the others the first 64 bits count.\<close>

definition same_network :: "ip \<Rightarrow> ip \<Rightarrow> bool" where
  "same_network g h \<longleftrightarrow> (if To4 g = None \<and> To4 h = None then take 4 g = take 4 h else g = h)"

lemma address_inj: "is_ip g \<Longrightarrow> is_ip h \<Longrightarrow> IP_String g = IP_String h \<longleftrightarrow> g = h"
  by (metis address_reads_back option.inject prod.inject)

lemma network_is_ip: "is_ip g \<Longrightarrow> is_ip (take 4 g @ [0, 0, 0, 0])"
  by (auto simp: is_ip_def list_all_iff dest: in_set_takeD)

lemma key_of_address:
  assumes "is_ip g"
  shows "LimiterKey (IP_String g) = (if To4 g = None then IP_String (take 4 g @ [0, 0, 0, 0]) @ ''/64'' else IP_String g)"
  using address_reads_back [OF assms] by (auto simp: LimiterKey_def ParseIP_def)

lemma address_no_slash: "is_ip g \<Longrightarrow> IP_String g \<noteq> t @ ''/64''"
  using plain_sets [OF address_plain, of g] by auto

text \<open>
  C36: two clients share their limits exactly when they have the same address of four bytes, or addresses
  of sixteen bytes in one network of 64 bits: nobody gets new attempts from another address of their
  network, and nobody has to share them with a stranger.\<close>

theorem one_network_one_key:
  assumes "is_ip g" "is_ip h"
  shows "LimiterKey (IP_String g) = LimiterKey (IP_String h) \<longleftrightarrow> same_network g h"
proof -
  have "IP_String (take 4 g @ [0, 0, 0, 0]) = IP_String (take 4 h @ [0, 0, 0, 0]) \<longleftrightarrow> take 4 g = take 4 h"
    using address_inj [OF network_is_ip network_is_ip, OF assms] by simp
  moreover have "IP_String g = IP_String h \<longleftrightarrow> g = h" by (rule address_inj [OF assms])
  ultimately show ?thesis
    using address_no_slash [OF assms(1)] address_no_slash [OF assms(2)]
    by (auto simp: key_of_address assms same_network_def dest: sym)
qed

theorem one_network_one_key_witness:
  "LimiterKey (IP_String [8193, 3512, 1, 2, 3, 4, 5, 6]) = LimiterKey (IP_String [8193, 3512, 1, 2, 0, 0, 0, 1])
   \<and> LimiterKey (IP_String [8193, 3512, 1, 2, 3, 4, 5, 6]) = ''2001:db8:1:2::/64''
   \<and> LimiterKey (IP_String (mapped 192 0 2 1)) \<noteq> LimiterKey (IP_String (mapped 192 0 2 2))"
proof (intro conjI)
  show "LimiterKey (IP_String [8193, 3512, 1, 2, 3, 4, 5, 6]) = LimiterKey (IP_String [8193, 3512, 1, 2, 0, 0, 0, 1])"
    by (subst one_network_one_key) code_simp+
  show "LimiterKey (IP_String [8193, 3512, 1, 2, 3, 4, 5, 6]) = ''2001:db8:1:2::/64''" by code_simp
  show "LimiterKey (IP_String (mapped 192 0 2 1)) \<noteq> LimiterKey (IP_String (mapped 192 0 2 2))"
    by (subst one_network_one_key) code_simp+
qed

end
