(* ===== verification/Usdt_Invoice.thy ===== *)
theory Usdt_Invoice imports Cashier_Sync begin

text \<open>
  Payments in USDT: the invoices of the service and the tests they must pass,
  \<open>src/internal/pay/usdt.go\<close>; how the first payment page of an order gets one and every later page
  the same, \<open>LockUSDTInvoice\<close> and \<open>USDTInvoice\<close> of \<open>src/internal/store/usdt.go\<close>; and the page itself,
  \<open>usdtPay\<close> of \<open>src/internal/httpx/usdt.go\<close>. What the service answers is a parameter, None for an
  answer that \<open>call\<close> refuses; so is the random part of a reference. Times are nanoseconds.
\<close>

section \<open>Invoices\<close>

text \<open>\<open>iv_cny\<close> is empty or a number of JSON, as the decoder of a \<open>json.Number\<close> leaves it.\<close>

record usdt_invoice =
  iv_id :: string
  iv_order_no :: string
  iv_status :: string
  iv_network :: string
  iv_token :: string
  iv_chain :: string
  iv_address :: string
  iv_cny :: string
  iv_amount :: string
  iv_expires :: int
  iv_paid_at :: "int option"
  iv_tx :: string

text \<open>The zero time, the first of January of the year 1.\<close>

definition zero_time :: int where "zero_time = - 62135596800 * 10 ^ 9"
definition of_seconds :: "int \<Rightarrow> int" where "of_seconds n = n * 10 ^ 9"
definition of_minutes :: "int \<Rightarrow> int" where "of_minutes n = of_seconds (60 * n)"

definition low_hex :: "char \<Rightarrow> bool" where
  "low_hex c \<longleftrightarrow> is_digit c \<or> c \<in> set ''abcdef''"

definition usdtID :: "string \<Rightarrow> bool" where
  "usdtID s \<longleftrightarrow> take 5 s = ''usdt_'' \<and> length s = 29 \<and> list_all low_hex (drop 5 s)"

definition tronAddress :: "string \<Rightarrow> bool" where
  "tronAddress s \<longleftrightarrow> take 1 s = ''T'' \<and> length s = 34 \<and>
     list_all (\<lambda>c. (is_digit c \<or> is_upper c \<or> is_lower c) \<and> c \<notin> set ''0IOl'') (drop 1 s)"

definition usdtAmount :: "string \<Rightarrow> bool" where
  "usdtAmount s \<longleftrightarrow>
     (case cut (CHR ''.'') s of
        None \<Rightarrow> False
      | Some (a, b) \<Rightarrow> 1 \<le> length a \<and> length a \<le> 12 \<and> list_all is_digit a \<and> length b = 6 \<and> list_all is_digit b)"

definition tronTx :: "string \<Rightarrow> bool" where
  "tronTx s \<longleftrightarrow> length s = 64 \<and> list_all (\<lambda>c. low_hex c \<or> c \<in> set ''ABCDEF'') s"

text \<open>
  \<open>big.Rat.SetString\<close> on a number of JSON: mantissa and exponent of ten. An exponent that does not
  fit in 64 bits or moves the point by more than a million places is refused.
\<close>

definition rat_exponent :: "string \<Rightarrow> int option" where
  "rat_exponent s =
     (if s = [] then Some 0
      else if hd s \<noteq> CHR ''e'' \<and> hd s \<noteq> CHR ''E'' then None
      else
        let neg = (tl s \<noteq> [] \<and> hd (tl s) = CHR ''-'');
            ds = (if tl s \<noteq> [] \<and> (hd (tl s) = CHR ''-'' \<or> hd (tl s) = CHR ''+'') then tl (tl s) else tl s);
            n = (if neg then - int (digits_val ds) else int (digits_val ds))
        in if ds = [] \<or> \<not> list_all is_digit ds \<or> n < - (2 ^ 63) \<or> 2 ^ 63 \<le> n then None else Some n)"

definition rat_of :: "string \<Rightarrow> (int \<times> int) option" where
  "rat_of s0 =
     (let neg = (s0 \<noteq> [] \<and> hd s0 = CHR ''-'');
          s = (if neg then tl s0 else s0);
          whole = takeWhile is_digit s;
          r = dropWhile is_digit s;
          frac = (if r \<noteq> [] \<and> hd r = CHR ''.'' then takeWhile is_digit (tl r) else []);
          rest = (if r \<noteq> [] \<and> hd r = CHR ''.'' then dropWhile is_digit (tl r) else r);
          m = int (digits_val (whole @ frac))
      in if whole = [] then None
         else
           (case rat_exponent rest of
              None \<Rightarrow> None
            | Some e \<Rightarrow>
                let x = e - int (length frac) in
                if m = 0 then Some (0, 0)
                else if 10 ^ 6 < \<bar>x\<bar> then None
                else Some (if neg then - m else m, x)))"

text \<open>Is the number that many hundredths?\<close>

definition is_cents :: "int \<times> int \<Rightarrow> int \<Rightarrow> bool" where
  "is_cents q n \<longleftrightarrow>
     (if 0 \<le> snd q + 2 then fst q * 10 ^ nat (snd q + 2) = n else fst q = n * 10 ^ nat (- (snd q + 2)))"

text \<open>\<open>USDTInvoice.Validate\<close>; an amount of this form is above zero just when one of its digits is.\<close>

definition valid_invoice :: "usdt_invoice \<Rightarrow> string \<Rightarrow> int \<Rightarrow> string \<Rightarrow> bool" where
  "valid_invoice p ref n address \<longleftrightarrow>
     usdtID (iv_id p) \<and> iv_order_no p = ref \<and> iv_address p = address \<and> tronAddress address \<and>
     iv_network p = ''TRON'' \<and> iv_chain p = ''TRC20'' \<and> iv_token p = ''USDT'' \<and> usdtAmount (iv_amount p) \<and>
     list_ex (\<lambda>c. c \<noteq> CHR ''0'' \<and> c \<noteq> CHR ''.'') (iv_amount p) \<and>
     (case rat_of (iv_cny p) of None \<Rightarrow> False | Some q \<Rightarrow> is_cents q n) \<and> iv_expires p \<noteq> zero_time"

section \<open>The service\<close>

text \<open>
  \<open>uc_base\<close> says that the address of the service parses, has a host, no user, query or fragment, and is
  \<open>https\<close>, or \<open>http\<close> on this machine.
\<close>

record usdt_conf =
  uc_base :: bool
  uc_secret :: string
  uc_address :: string

definition usdtEnabled :: "usdt_conf \<Rightarrow> bool" where
  "usdtEnabled u \<longleftrightarrow> uc_base u \<and> trim (uc_secret u) \<noteq> [] \<and> tronAddress (uc_address u)"

text \<open>The rest of \<open>Create\<close> after the answer came; the two clock reads are \<open>now\<close> and \<open>later\<close>.\<close>

definition invoice_ref :: "string \<Rightarrow> string \<Rightarrow> string" where
  "invoice_ref sn nonce = ''shop-'' @ sn @ ''-'' @ nonce"

definition created_invoice ::
  "usdt_conf \<Rightarrow> string \<Rightarrow> int \<Rightarrow> usdt_invoice option \<Rightarrow> int \<Rightarrow> int \<Rightarrow> usdt_invoice option" where
  "created_invoice u ref n answer now later =
     (case answer of
        None \<Rightarrow> None
      | Some p \<Rightarrow>
          if \<not> usdtEnabled u \<or> \<not> valid_invoice p ref n (uc_address u) then None
          else if iv_status p \<noteq> ''pending'' \<or> \<not> now < iv_expires p \<or> later + of_minutes (24 * 60) < iv_expires p then None
          else Some p)"

text \<open>\<open>Check\<close>, None for an error.\<close>

definition CheckUSDT ::
  "usdt_conf \<Rightarrow> usdt_invoice \<Rightarrow> int \<Rightarrow> int \<Rightarrow> usdt_invoice option \<Rightarrow> receipt option" where
  "CheckUSDT u want n created answer =
     (if \<not> valid_invoice want (iv_order_no want) n (uc_address u) \<or> \<not> usdtEnabled u then None
      else
        (case answer of
           None \<Rightarrow> None
         | Some p \<Rightarrow>
             if \<not> valid_invoice p (iv_order_no want) n (iv_address want) then None
             else if iv_id p \<noteq> iv_id want \<or> iv_amount p \<noteq> iv_amount want \<or> iv_expires p \<noteq> iv_expires want then None
             else if iv_status p = ''pending'' \<or> iv_status p = ''expired'' then
               Some \<lparr>r_paid = False, r_amount = 0, r_refunded = 0, r_from = []\<rparr>
             else
               (case iv_paid_at p of
                  None \<Rightarrow> None
                | Some t \<Rightarrow>
                    if iv_status p \<noteq> ''paid'' \<or> \<not> tronTx (iv_tx p) \<or> t < created - of_minutes 2 \<or>
                       iv_expires want + of_minutes 30 < t then None
                    else Some \<lparr>r_paid = True, r_amount = n, r_refunded = 0, r_from = map to_lower (iv_tx p)\<rparr>)))"

section \<open>Pages\<close>

text \<open>
  \<open>LockUSDTInvoice\<close> holds the lock of the row of its order while the service is asked; pages that
  come meanwhile wait. A commit may fail, or be done although it is reported as failed. The column is
  \<open>jsonb\<close>, in which a number keeps its value; the model keeps its text as well. Deleted orders have no row.
\<close>

record pay_request =
  pr_sn :: string
  pr_cents :: int
  pr_deadline :: int

record invoice_row =
  ir_status :: int
  ir_invoice :: "usdt_invoice option"
  ir_lock :: "nat option"

record invoice_state =
  is_rows :: "string \<Rightarrow> invoice_row option"
  is_calls :: "nat \<Rightarrow> (pay_request \<times> string) option"

datatype commit = Commits | Fails | Lost

datatype usdt_page = Usdt_off | Usdt_failed | Usdt_foreign | Usdt_over | Usdt_shown usdt_invoice int

text \<open>The part of \<open>usdtPay\<close> after the invoice is there.\<close>

definition usdt_shown :: "usdt_conf \<Rightarrow> pay_request \<Rightarrow> usdt_invoice \<Rightarrow> int \<Rightarrow> usdt_page" where
  "usdt_shown u v p now =
     (if \<not> valid_invoice p (iv_order_no p) (pr_cents v) (uc_address u) then Usdt_failed
      else if \<not> has_prefix (iv_order_no p) (''shop-'' @ pr_sn v @ ''-'') then Usdt_foreign
      else
        let deadline = (if iv_expires p < pr_deadline v then iv_expires p else pr_deadline v) in
        if now < deadline then Usdt_shown p deadline else Usdt_over)"

definition USDTInvoice :: "string \<Rightarrow> invoice_state \<Rightarrow> usdt_invoice option" where
  "USDTInvoice sn s = (case is_rows s sn of None \<Rightarrow> None | Some r \<Rightarrow> ir_invoice r)"

definition set_row :: "string \<Rightarrow> invoice_row \<Rightarrow> invoice_state \<Rightarrow> invoice_state" where
  "set_row sn r s = s\<lparr>is_rows := (is_rows s)(sn := Some r)\<rparr>"

definition set_call :: "nat \<Rightarrow> (pay_request \<times> string) option \<Rightarrow> invoice_state \<Rightarrow> invoice_state" where
  "set_call c x s = s\<lparr>is_calls := (is_calls s)(c := x)\<rparr>"

text \<open>
  \<open>Pay_opens\<close>: a page gets the lock at \<open>now\<close>; \<open>nonce\<close> is for the reference and \<open>shown\<close> the time of the
  page when there is an invoice. \<open>Pay_answered\<close>: the service answers and the transaction ends.
  \<open>Pay_ends\<close>: the time of the page is over or its client gone. \<open>Order_new\<close> and \<open>Order_moves\<close>: what else
  happens to the row.
\<close>

datatype invoice_event =
    Pay_opens nat pay_request string int commit int
  | Pay_answered nat "usdt_invoice option" int int commit int
  | Pay_ends nat
  | Order_new string
  | Order_moves string int

definition pay_opens ::
  "usdt_conf \<Rightarrow> nat \<Rightarrow> pay_request \<Rightarrow> string \<Rightarrow> int \<Rightarrow> commit \<Rightarrow> int \<Rightarrow> invoice_state
     \<Rightarrow> (pay_request \<times> usdt_page) list \<times> invoice_state" where
  "pay_opens u c v nonce now fate shown s =
     (if \<not> usdtEnabled u then ([(v, Usdt_off)], s)
      else
        (case is_rows s (pr_sn v) of
           None \<Rightarrow> ([(v, Usdt_failed)], s)
         | Some r \<Rightarrow>
             if ir_lock r \<noteq> None \<or> is_calls s c \<noteq> None then ([], s)
             else if ir_status r \<noteq> 1 \<or> \<not> now < pr_deadline v then ([(v, Usdt_failed)], s)
             else
               (case ir_invoice r of
                  Some p \<Rightarrow> ([(v, if fate = Commits then usdt_shown u v p shown else Usdt_failed)], s)
                | None \<Rightarrow> ([], set_call c (Some (v, invoice_ref (pr_sn v) nonce)) (set_row (pr_sn v) (r\<lparr>ir_lock := Some c\<rparr>) s)))))"

definition pay_answered ::
  "usdt_conf \<Rightarrow> nat \<Rightarrow> usdt_invoice option \<Rightarrow> int \<Rightarrow> int \<Rightarrow> commit \<Rightarrow> int \<Rightarrow> invoice_state
     \<Rightarrow> (pay_request \<times> usdt_page) list \<times> invoice_state" where
  "pay_answered u c answer now later fate shown s =
     (case is_calls s c of
        None \<Rightarrow> ([], s)
      | Some (v, ref) \<Rightarrow>
          (case is_rows s (pr_sn v) of
             None \<Rightarrow> ([], s)
           | Some r \<Rightarrow>
               (case created_invoice u ref (pr_cents v) answer now later of
                  None \<Rightarrow> ([(v, Usdt_failed)], set_call c None (set_row (pr_sn v) (r\<lparr>ir_lock := None\<rparr>) s))
                | Some p \<Rightarrow>
                    ([(v, if fate = Commits then usdt_shown u v p shown else Usdt_failed)],
                     set_call c None (set_row (pr_sn v)
                       (if fate = Fails then r\<lparr>ir_lock := None\<rparr> else r\<lparr>ir_lock := None, ir_invoice := Some p\<rparr>) s)))))"

definition pay_ends :: "nat \<Rightarrow> invoice_state \<Rightarrow> (pay_request \<times> usdt_page) list \<times> invoice_state" where
  "pay_ends c s =
     (case is_calls s c of
        None \<Rightarrow> ([], s)
      | Some (v, ref) \<Rightarrow>
          (case is_rows s (pr_sn v) of
             None \<Rightarrow> ([], s)
           | Some r \<Rightarrow> ([(v, Usdt_failed)], set_call c None (set_row (pr_sn v) (r\<lparr>ir_lock := None\<rparr>) s))))"

definition invoice_step ::
  "usdt_conf \<Rightarrow> invoice_event \<Rightarrow> invoice_state \<Rightarrow> (pay_request \<times> usdt_page) list \<times> invoice_state" where
  "invoice_step u e s =
     (case e of
        Pay_opens c v nonce now fate shown \<Rightarrow> pay_opens u c v nonce now fate shown s
      | Pay_answered c answer now later fate shown \<Rightarrow> pay_answered u c answer now later fate shown s
      | Pay_ends c \<Rightarrow> pay_ends c s
      | Order_new sn \<Rightarrow>
          ([], if is_rows s sn = None then set_row sn \<lparr>ir_status = 1, ir_invoice = None, ir_lock = None\<rparr> s else s)
      | Order_moves sn st \<Rightarrow>
          ([], case is_rows s sn of
                 None \<Rightarrow> s
               | Some r \<Rightarrow> if ir_lock r = None then set_row sn (r\<lparr>ir_status := st\<rparr>) s else s))"

definition no_invoices :: invoice_state where
  "no_invoices = \<lparr>is_rows = \<lambda>_. None, is_calls = \<lambda>_. None\<rparr>"

fun invoice_run :: "usdt_conf \<Rightarrow> invoice_state \<Rightarrow> invoice_event list \<Rightarrow> invoice_state" where
  "invoice_run u s [] = s"
| "invoice_run u s (e # es) = invoice_run u (snd (invoice_step u e s)) es"

fun pages_in :: "usdt_conf \<Rightarrow> invoice_state \<Rightarrow> invoice_event list \<Rightarrow> (pay_request \<times> usdt_page) list" where
  "pages_in u s [] = []"
| "pages_in u s (e # es) = fst (invoice_step u e s) @ pages_in u (snd (invoice_step u e s)) es"

text \<open>What \<open>syncUSDTOrder\<close> finds out about the order \<open>v\<close>: the stored invoice, and the receipt for it.\<close>

definition usdt_asked :: "usdt_conf \<Rightarrow> invoice_state \<Rightarrow> order_info \<Rightarrow> usdt_invoice option \<Rightarrow> services \<Rightarrow> services" where
  "usdt_asked u s v answer sv = sv
     \<lparr>usdt_enabled := usdtEnabled u,
      usdt_no := map_option iv_order_no (USDTInvoice (SN v) s),
      usdt_receipt :=
        (case USDTInvoice (SN v) s of
           None \<Rightarrow> None
         | Some want \<Rightarrow> CheckUSDT u want (Actual v) (1000 * Created v) answer)\<rparr>"

end
