(* ===== verification/Usdt_Props.thy ===== *)
theory Usdt_Props imports Usdt_Invoice Sync_Props "HOL-Library.Code_Target_Nat" begin

text \<open>
  An order has one invoice, whatever pages were opened at once and whatever failed; and its
  payment, as the service reports it, opens the page of the order.
\<close>

section \<open>One invoice\<close>

text \<open>A request that waits for the service has the lock of its order, which has no invoice yet.\<close>

definition invoices_ok :: "invoice_state \<Rightarrow> bool" where
  "invoices_ok s \<longleftrightarrow>
     (\<forall>c v ref. is_calls s c = Some (v, ref) \<longrightarrow>
        (\<exists>r. is_rows s (pr_sn v) = Some r \<and> ir_lock r = Some c \<and> ir_invoice r = None))"

lemma set_row_facts [simp]:
  "is_rows (set_row sn r s) = (is_rows s)(sn := Some r)" "is_calls (set_row sn r s) = is_calls s"
  "is_rows (set_call c x s) = is_rows s" "is_calls (set_call c x s) = (is_calls s)(c := x)"
  by (simp_all add: set_row_def set_call_def)

lemma waiting_row:
  assumes "invoices_ok s" "is_calls s c = Some (v, ref)"
  obtains r where "is_rows s (pr_sn v) = Some r" "ir_lock r = Some c" "ir_invoice r = None"
  using assms unfolding invoices_ok_def by blast

lemma invoices_ok_free:
  assumes "invoices_ok s" "is_rows s sn = Some r" "ir_lock r = None"
  shows "invoices_ok (set_row sn r' s)"
  using assms unfolding invoices_ok_def by fastforce

lemma invoices_ok_unlock:
  assumes "invoices_ok s" "is_calls s c = Some (v, ref)"
  shows "invoices_ok (set_call c None (set_row (pr_sn v) r' s))"
  unfolding invoices_ok_def
proof (intro allI impI)
  fix c' v' ref'
  assume "is_calls (set_call c None (set_row (pr_sn v) r' s)) c' = Some (v', ref')"
  then have c': "is_calls s c' = Some (v', ref')" "c' \<noteq> c" by (auto split: if_splits)
  obtain r where r: "is_rows s (pr_sn v) = Some r" "ir_lock r = Some c" using waiting_row [OF assms] .
  obtain q where q: "is_rows s (pr_sn v') = Some q" "ir_lock q = Some c'" "ir_invoice q = None"
    using waiting_row [OF assms(1) c'(1)] .
  then have "pr_sn v' \<noteq> pr_sn v" using r c'(2) by auto
  then show "\<exists>r. is_rows (set_call c None (set_row (pr_sn v) r' s)) (pr_sn v') = Some r \<and> ir_lock r = Some c' \<and> ir_invoice r = None"
    using q by simp
qed

lemma invoices_ok_lock:
  assumes "invoices_ok s" "is_rows s (pr_sn v) = Some r" "ir_lock r = None" "ir_invoice r = None"
  shows "invoices_ok (set_call c (Some (v, ref)) (set_row (pr_sn v) (r\<lparr>ir_lock := Some c\<rparr>) s))"
  unfolding invoices_ok_def
proof (intro allI impI)
  fix c' v' ref'
  let ?s = "set_call c (Some (v, ref)) (set_row (pr_sn v) (r\<lparr>ir_lock := Some c\<rparr>) s)"
  assume c': "is_calls ?s c' = Some (v', ref')"
  show "\<exists>r. is_rows ?s (pr_sn v') = Some r \<and> ir_lock r = Some c' \<and> ir_invoice r = None"
  proof (cases "c' = c")
    case True
    then show ?thesis using c' assms(4) by simp
  next
    case False
    then have "is_calls s c' = Some (v', ref')" using c' by simp
    from waiting_row [OF assms(1) this] obtain q
      where q: "is_rows s (pr_sn v') = Some q" "ir_lock q = Some c'" "ir_invoice q = None" .
    then have "pr_sn v' \<noteq> pr_sn v" using assms(2,3) by auto
    then show ?thesis using q by simp
  qed
qed

lemma invoices_ok_step:
  assumes "invoices_ok s"
  shows "invoices_ok (snd (invoice_step u e s))"
proof (cases e)
  case (Pay_opens c v nonce now fate shown)
  then show ?thesis using assms
    by (auto simp: invoice_step_def pay_opens_def intro: invoices_ok_lock split: option.splits)
next
  case (Pay_answered c answer now later fate shown)
  then show ?thesis using assms invoices_ok_unlock [OF assms]
    by (auto simp: invoice_step_def pay_answered_def split: option.splits)
next
  case (Pay_ends c)
  then show ?thesis using assms invoices_ok_unlock [OF assms]
    by (auto simp: invoice_step_def pay_ends_def split: option.splits)
next
  case (Order_new sn)
  have "invoices_ok (set_row sn r s)" if "is_rows s sn = None" for r
    using assms that unfolding invoices_ok_def by fastforce
  then show ?thesis using Order_new assms by (simp add: invoice_step_def)
next
  case (Order_moves sn st)
  then show ?thesis using assms invoices_ok_free [OF assms] by (auto simp: invoice_step_def split: option.splits)
qed

text \<open>A stored invoice stays, and what a page shows is stored.\<close>

lemma stored_stays:
  assumes "invoices_ok s" "USDTInvoice sn s = Some p"
  shows "USDTInvoice sn (snd (invoice_step u e s)) = Some p"
proof (cases e)
  case (Pay_opens c v nonce now fate shown)
  then show ?thesis using assms(2)
    by (auto simp: invoice_step_def pay_opens_def USDTInvoice_def split: option.splits)
next
  case (Pay_answered c answer now later fate shown)
  then show ?thesis using assms(2) waiting_row [OF assms(1)]
    by (fastforce simp: invoice_step_def pay_answered_def USDTInvoice_def split: option.splits if_splits)
next
  case (Pay_ends c)
  then show ?thesis using assms(2)
    by (auto simp: invoice_step_def pay_ends_def USDTInvoice_def split: option.splits)
qed (use assms(2) in \<open>auto simp: invoice_step_def USDTInvoice_def split: option.splits\<close>)

definition fit_for :: "usdt_conf \<Rightarrow> pay_request \<Rightarrow> usdt_invoice \<Rightarrow> bool" where
  "fit_for u v p \<longleftrightarrow> usdtEnabled u \<and> valid_invoice p (iv_order_no p) (pr_cents v) (uc_address u) \<and>
     has_prefix (iv_order_no p) (''shop-'' @ pr_sn v @ ''-'')"

lemma shown_fits: "Usdt_shown p d = usdt_shown u v p' now \<Longrightarrow> usdtEnabled u \<Longrightarrow> p = p' \<and> fit_for u v p \<and> now < d \<and> d \<le> pr_deadline v"
  by (auto simp: usdt_shown_def fit_for_def Let_def split: if_splits)

lemma shown_stored:
  assumes "(v, Usdt_shown p d) \<in> set (fst (invoice_step u e s))"
  shows "USDTInvoice (pr_sn v) (snd (invoice_step u e s)) = Some p \<and> fit_for u v p"
proof (cases e)
  case (Pay_opens c w nonce now fate shown)
  then show ?thesis using assms
    by (auto simp: invoice_step_def pay_opens_def USDTInvoice_def dest: shown_fits split: option.splits if_splits)
next
  case (Pay_answered c answer now later fate shown)
  then show ?thesis using assms
    by (auto simp: invoice_step_def pay_answered_def USDTInvoice_def created_invoice_def dest: shown_fits
        split: option.splits if_splits)
next
  case (Pay_ends c)
  then show ?thesis using assms by (auto simp: invoice_step_def pay_ends_def split: option.splits)
qed (use assms in \<open>auto simp: invoice_step_def\<close>)

lemma stored_stays_run: "invoices_ok s \<Longrightarrow> USDTInvoice sn s = Some p \<Longrightarrow> USDTInvoice sn (invoice_run u s es) = Some p"
  by (induction es arbitrary: s) (simp_all add: stored_stays invoices_ok_step)

lemma shown_stored_run:
  "invoices_ok s \<Longrightarrow> (v, Usdt_shown p d) \<in> set (pages_in u s es) \<Longrightarrow>
     USDTInvoice (pr_sn v) (invoice_run u s es) = Some p \<and> fit_for u v p"
  by (induction es arbitrary: s) (auto dest: shown_stored stored_stays_run [OF invoices_ok_step] invoices_ok_step)

lemma no_invoices_ok: "invoices_ok no_invoices"
  by (simp add: invoices_ok_def no_invoices_def)

theorem one_invoice_per_order:
  assumes "(v, Usdt_shown p d) \<in> set (pages_in u no_invoices es)" "(w, Usdt_shown q d') \<in> set (pages_in u no_invoices es)"
    and "pr_sn v = pr_sn w"
  shows "p = q"
  using shown_stored_run [OF no_invoices_ok assms(1)] shown_stored_run [OF no_invoices_ok assms(2)] assms(3) by simp

section \<open>From the service to the page\<close>

text \<open>The invoice \<open>p\<close> as the service reports it when it is paid at \<open>t\<close> by the transaction \<open>tx\<close>.\<close>

definition paid_invoice :: "usdt_invoice \<Rightarrow> string \<Rightarrow> int \<Rightarrow> usdt_invoice" where
  "paid_invoice p tx t = p\<lparr>iv_status := ''paid'', iv_tx := tx, iv_paid_at := Some t\<rparr>"

lemma check_paid:
  assumes "valid_invoice p (iv_order_no p) n (uc_address u)" "usdtEnabled u" "tronTx tx"
    "created - of_minutes 2 \<le> t" "t \<le> iv_expires p + of_minutes 30"
  shows "CheckUSDT u p n created (Some (paid_invoice p tx t)) =
    Some \<lparr>r_paid = True, r_amount = n, r_refunded = 0, r_from = map to_lower tx\<rparr>"
  using assms by (auto simp: CheckUSDT_def paid_invoice_def valid_invoice_def)

lemma synced_usdt:
  assumes "sound db" "r \<in> set (orders db)" "\<not> o_deleted r" "o_status r = 1" "validSN (o_sn r)" "enc (o_sn r)"
    "\<forall>c\<in>set (cards db). mine r c \<longrightarrow> c_id c \<notin> held" "room_for_sale db r"
    "channel (o_pay r) db = Some ''usdt''" "usdt_enabled sv" "usdt_no sv = Some no"
    "has_prefix no (''shop-'' @ o_sn r @ ''-'')" "usdt_receipt sv = Some item" "r_paid item"
    "r_amount item = cents (o_actual r)" "length (r_from item) \<le> 150"
  obtains d where "poll_order enc held sv (o_sn r) db = (200, d)"
    "in_time_row held (''usdt:'' @ r_from item) db r \<in> set (orders d)"
proof -
  let ?tr = "''usdt:'' @ r_from item"
  let ?r = "in_time_row held ?tr db r"
  have pl: "plausibleSN enc (o_sn r)" "plausibleOrderSN enc (o_sn r)"
    using validSN_plausible assms(5,6) by blast+
  have tr: "rune_count ?tr \<le> 200" using rune_count_le [of ?tr] assms(16) by simp
  obtain d where d: "settle held (o_sn r) (cents (o_actual r)) ?tr False db = (Inr (True, False), d)" "?r \<in> set (orders d)"
    using settle_in_time [OF assms(1,2,4,7,8) tr] by blast
  have sd: "sound d" by (rule settle_sound [OF d(1) assms(1)])
  have keep: "o_sn ?r = o_sn r" "o_deleted ?r = o_deleted r" "o_status ?r = 4 \<or> o_status ?r = 2"
    by (auto simp: in_time_row_def delivered_row_def paid_row_def)
  have again: "OrderBySNChecked enc d (o_sn r) = Inr (order_of ?r)"
    using look_up [OF sd d(2)] keep assms(3) pl by simp
  have v: "Status (order_of r) = 1" "PayID (order_of r) = o_pay r" "SN (order_of r) = o_sn r"
    "Actual (order_of r) = cents (o_actual r)" "Status (order_of ?r) = o_status ?r"
    using assms(4) by (simp_all add: order_of_def)
  have "syncCldxOrder enc held sv (order_of r) db = (order_of r, db)"
    using assms(9) v by (simp add: syncCldxOrder_def)
  moreover have "syncUSDTOrder enc held sv (order_of r) db = (order_of ?r, d)"
    using assms(9-15) d(1) again v by (simp add: syncUSDTOrder_def open_order_def Complete_def)
  ultimately have "synced_order enc held sv (order_of r) db = (order_of ?r, d)"
    using v(1) by (simp add: synced_order_def open_order_def)
  then have "poll_order enc held sv (o_sn r) db = (200, d)"
    using look_up [OF assms(1-3) pl] keep(3) v(5) by (auto simp: poll_order_def code_of_def)
  then show ?thesis using that d(2) by blast
qed

text \<open>
  C6: the invoice a customer has seen is the one that counts: however many payment pages of an order were
  opened at once, and whatever answers or commits failed, when the service reports an invoice that one of
  them has shown as paid in time, the next question of a page that still asks is answered that the
  order is paid, the order has its cards and the transaction, and the page opens it and asks no more.\<close>

theorem shown_invoice_settles:
  assumes "sound db" "r \<in> set (orders (store_run es db))" "\<not> o_deleted r" "o_status r = 1"
    "validSN (o_sn r)" "enc (o_sn r)" "channel (o_pay r) (store_run es db) = Some ''usdt''"
    "\<forall>c\<in>set (cards (store_run es db)). mine r c \<longrightarrow> c_id c \<notin> held" "room_for_sale (store_run es db) r"
    "polling w" "state w \<noteq> None"
    and "(v, Usdt_shown p deadline) \<in> set (pages_in u no_invoices ps)" "pr_sn v = o_sn r" "pr_cents v = cents (o_actual r)"
    and "tronTx tx" "1000 * o_created r - of_minutes 2 \<le> t" "t \<le> iv_expires p + of_minutes 30"
    and "sv' = usdt_asked u (invoice_run u no_invoices ps) (order_of r) (Some (paid_invoice p tx t)) sv"
  shows "\<exists>n d w'. poll_order enc held sv' (o_sn r) (store_run es db) = (n, d) \<and>
    in_time_row held (''usdt:'' @ map to_lower tx) (store_run es db) r \<in> set (orders d) \<and>
    cashier_run k (o_sn r) [Tick, Answered (code_reply n)] w = Some w' \<and>
    location w' = Some (detail_url (o_sn r)) \<and> \<not> polling w'"
proof -
  have st: "USDTInvoice (o_sn r) (invoice_run u no_invoices ps) = Some p" and fit: "fit_for u v p"
    using shown_stored_run [OF no_invoices_ok assms(12)] assms(13) by simp_all
  have o: "SN (order_of r) = o_sn r" "Actual (order_of r) = cents (o_actual r)" "Created (order_of r) = o_created r"
    by (simp_all add: order_of_def)
  let ?item = "\<lparr>r_paid = True, r_amount = cents (o_actual r), r_refunded = 0, r_from = map to_lower tx\<rparr>"
  have "CheckUSDT u p (cents (o_actual r)) (1000 * o_created r) (Some (paid_invoice p tx t)) = Some ?item"
    using check_paid assms(14-17) fit by (simp add: fit_for_def)
  then have sv: "usdt_enabled sv'" "usdt_no sv' = Some (iv_order_no p)" "usdt_receipt sv' = Some ?item"
    using st fit o by (simp_all add: assms(18) usdt_asked_def fit_for_def)
  have pre: "has_prefix (iv_order_no p) (''shop-'' @ o_sn r @ ''-'')" using fit assms(13) by (simp add: fit_for_def)
  have "length (r_from ?item) \<le> 150" using assms(15) by (simp add: tronTx_def)
  then obtain d where d: "poll_order enc held sv' (o_sn r) (store_run es db) = (200, d)"
    "in_time_row held (''usdt:'' @ r_from ?item) (store_run es db) r \<in> set (orders d)"
    using synced_usdt [of "store_run es db" r enc held sv' "iv_order_no p" ?item]
      run_sound [OF assms(1)] assms(2-9) sv pre by (metis receipt.select_convs(1,2))
  obtain w' where w': "cashier_run k (o_sn r) [Tick, Answered (code_reply 200)] w = Some w'"
    using assms(10) by (simp split: option.splits)
  have "says k (code_reply 200) 200" "200 \<in> finals k" by (simp_all add: says_def code_reply_def finals_def)
  then have "location w' = Some (detail_url (o_sn r))" "\<not> polling w'"
    using run_settles [OF w' assms(11)] by (auto simp: settles_def)
  then show ?thesis using d w' by auto
qed

text \<open>
  Two pages of the sample order at once: the commit of the first is done but reported as failed, the second
  shows the stored invoice.
\<close>

definition sample_usdt :: usdt_conf where
  "sample_usdt = \<lparr>uc_base = True, uc_secret = ''secret'', uc_address = ''TJRabPrwbZy45sbavfcjinPJC18kjpRTv8''\<rparr>"

definition sample_invoice :: usdt_invoice where
  "sample_invoice =
     \<lparr>iv_id = ''usdt_0123456789abcdef01234567'', iv_order_no = invoice_ref sample_number ''0011223344556677'',
      iv_status = ''pending'', iv_network = ''TRON'', iv_token = ''USDT'', iv_chain = ''TRC20'',
      iv_address = uc_address sample_usdt, iv_cny = ''18.0'', iv_amount = ''2.470013'', iv_expires = of_minutes 20,
      iv_paid_at = None, iv_tx = []\<rparr>"

definition sample_request :: pay_request where
  "sample_request = \<lparr>pr_sn = sample_number, pr_cents = 1800, pr_deadline = of_minutes 15\<rparr>"

definition sample_pages :: "invoice_event list" where
  "sample_pages =
     [Order_new sample_number, Pay_opens 1 sample_request ''0011223344556677'' (of_seconds 5) Commits (of_seconds 5),
      Pay_opens 2 sample_request ''8899aabbccddeeff'' (of_seconds 6) Commits (of_seconds 6),
      Pay_answered 1 (Some sample_invoice) (of_seconds 7) (of_seconds 7) Lost (of_seconds 7),
      Pay_opens 2 sample_request ''8899aabbccddeeff'' (of_seconds 8) Commits (of_seconds 8)]"

definition sample_paying :: database where
  "sample_paying = sample_later'\<lparr>pays := [\<lparr>p_id = 4, p_check = ''usdt'', p_open = 1, p_deleted = False\<rparr>]\<rparr>"

lemma sample_later_row:
  "case orders sample_later' of [] \<Rightarrow> False
   | r # rs \<Rightarrow> \<not> o_deleted r \<and> o_status r = 1 \<and> validSN (o_sn r) \<and> o_sn r = sample_number \<and> o_pay r = 4 \<and>
       cents (o_actual r) = 1800 \<and> o_created r = 1000"
  by code_simp

lemma sample_paying_row:
  "orders sample_paying \<noteq> []" "o_deleted (hd (orders sample_paying)) = False" "o_status (hd (orders sample_paying)) = 1"
  "validSN (o_sn (hd (orders sample_paying)))" "o_sn (hd (orders sample_paying)) = sample_number"
  "channel (o_pay (hd (orders sample_paying))) sample_paying = Some ''usdt''"
  "cents (o_actual (hd (orders sample_paying))) = 1800" "o_created (hd (orders sample_paying)) = 1000"
  using sample_later_row by (auto simp: sample_paying_def channel_def split: list.splits)

lemma sample_paying_room: "room_for_sale sample_paying (hd (orders sample_paying))"
  by code_simp

theorem shown_invoice_settles_witness:
  "pages_in sample_usdt no_invoices sample_pages
     = [(sample_request, Usdt_failed), (sample_request, Usdt_shown sample_invoice (of_minutes 15))] \<and>
   (\<exists>n d w. poll_order (\<lambda>s. True) {} (usdt_asked sample_usdt (invoice_run sample_usdt no_invoices sample_pages)
       (order_of (hd (orders sample_paying))) (Some (paid_invoice sample_invoice (replicate 64 CHR ''A'') (of_minutes 16))) sample_services)
       sample_number sample_paying = (n, d) \<and>
     cashier_run Usdt sample_number [Tick, Answered (code_reply n)] (cashier_ready (Some NothingYet) (Some True)) = Some w \<and>
     location w = Some (detail_url sample_number))"
proof
  show pages: "pages_in sample_usdt no_invoices sample_pages
     = [(sample_request, Usdt_failed), (sample_request, Usdt_shown sample_invoice (of_minutes 15))]" by code_simp
  let ?r = "hd (orders sample_paying)"
  let ?sv = "usdt_asked sample_usdt (invoice_run sample_usdt no_invoices sample_pages) (order_of ?r)
      (Some (paid_invoice sample_invoice (replicate 64 CHR ''A'') (of_minutes 16))) sample_services"
  note r = sample_paying_row sample_paying_room
  have q: "pr_sn sample_request = sample_number" "pr_cents sample_request = 1800" "tronTx (replicate 64 CHR ''A'')"
    "1000 * 1000 - of_minutes 2 \<le> of_minutes 16" "of_minutes 16 \<le> iv_expires sample_invoice + of_minutes 30" by code_simp+
  have "sound sample_later'" unfolding sample_later'_def by (rule run_sound [OF sample_sound])
  then have "sound sample_paying" by (simp add: sound_def sample_paying_def)
  moreover have "?r \<in> set (orders (store_run [] sample_paying))" using sample_paying_row(1) by simp
  moreover have "polling (cashier_ready (Some NothingYet) (Some True))"
    "state (cashier_ready (Some NothingYet) (Some True)) \<noteq> None" by (simp_all add: cashier_ready_def)
  moreover have "(sample_request, Usdt_shown sample_invoice (of_minutes 15)) \<in> set (pages_in sample_usdt no_invoices sample_pages)"
    by (simp add: pages)
  moreover have "\<not> o_deleted ?r" "sample_number = o_sn ?r" "1800 = cents (o_actual ?r)"
    "1000 * o_created ?r - of_minutes 2 \<le> of_minutes 16" using r q by simp_all
  ultimately have "\<exists>n d w'. poll_order (\<lambda>s. True) {} ?sv (o_sn ?r) (store_run [] sample_paying) = (n, d) \<and>
      in_time_row {} (''usdt:'' @ map to_lower (replicate 64 CHR ''A'')) (store_run [] sample_paying) ?r \<in> set (orders d) \<and>
      cashier_run Usdt (o_sn ?r) [Tick, Answered (code_reply n)] (cashier_ready (Some NothingYet) (Some True)) = Some w' \<and>
      location w' = Some (detail_url (o_sn ?r)) \<and> \<not> polling w'"
    using r q by (intro shown_invoice_settles [where ps = sample_pages and v = sample_request and p = sample_invoice
          and u = sample_usdt and tx = "replicate 64 CHR ''A''" and t = "of_minutes 16" and deadline = "of_minutes 15" and sv = sample_services])
        (simp_all only: foldl_Nil simp_thms empty_iff HOL.refl ball_triv)
  then show "\<exists>n d w. poll_order (\<lambda>s. True) {} ?sv sample_number sample_paying = (n, d) \<and>
     cashier_run Usdt sample_number [Tick, Answered (code_reply n)] (cashier_ready (Some NothingYet) (Some True)) = Some w \<and>
     location w = Some (detail_url sample_number)"
    unfolding sample_paying_row(5) foldl_Nil by blast
qed

end
