(* ===== verification/Usdt_Rota.thy ===== *)
theory Usdt_Rota imports Rota "HOL-Library.Product_Lexorder" "HOL-Library.Option_ord" begin

text \<open>
  The rota of the orders whose USDT invoice the background pass asks about: \<open>USDTWaiting\<close> and
  \<open>MarkUSDTPolled\<close> of \<open>src/internal/store/usdt.go\<close>, and the pass \<open>SyncUSDT\<close> of
  \<open>src/internal/httpx/usdt.go\<close>; and that no order starves in it. The tables are reduced to the
  columns these statements read and write; times are seconds.
\<close>

section \<open>The rota\<close>

record usdt_row =
  ur_id :: int
  ur_sn :: string
  ur_pay :: int
  ur_status :: int
  ur_invoice :: bool
  ur_polled :: "int option"
  ur_created :: int
  ur_deleted :: bool

text \<open>\<open>ch i\<close> is the \<open>pay_check\<close> of the channel \<open>i\<close>.\<close>

definition usdt_open :: "(int \<Rightarrow> string option) \<Rightarrow> int \<Rightarrow> usdt_row \<Rightarrow> bool" where
  "usdt_open ch now r \<longleftrightarrow> ch (ur_pay r) = Some ''usdt'' \<and> (ur_status r = 1 \<or> ur_status r = -1) \<and> \<not> ur_deleted r \<and>
     ur_invoice r \<and> now - 48 * 3600 < ur_created r"

definition usdt_key :: "usdt_row \<Rightarrow> int option \<times> int" where
  "usdt_key r = (ur_polled r, ur_id r)"

definition USDTWaiting :: "(int \<Rightarrow> string option) \<Rightarrow> int \<Rightarrow> usdt_row list \<Rightarrow> string list" where
  "USDTWaiting ch now rows = map ur_sn (take 100 (sort_key usdt_key (filter (usdt_open ch now) rows)))"

definition MarkUSDTPolled :: "string \<Rightarrow> int \<Rightarrow> usdt_row list \<Rightarrow> usdt_row list" where
  "MarkUSDTPolled sn t rows = map (\<lambda>r. if ur_sn r = sn then r\<lparr>ur_polled := Some t\<rparr> else r) rows"

text \<open>
  A new order, the invoice of its payment page, the expiry of an order, the end of one, a question by a page,
  and a pass, which begins at \<open>now\<close> and starts on the first \<open>k\<close> before its time is over; \<open>ok sn\<close> says that
  the service was asked, and \<open>mark sn\<close> when the mark is written.
\<close>

datatype usdt_event =
    Usdt_fresh usdt_row | Usdt_invoiced int | Usdt_expired int | Usdt_left int int
  | Usdt_page_asks string int | SyncUSDT int nat "string \<Rightarrow> bool" "string \<Rightarrow> int"

definition usdt_asks :: "(int \<Rightarrow> string option) \<Rightarrow> usdt_event \<Rightarrow> usdt_row list \<Rightarrow> string list" where
  "usdt_asks ch e rows =
     (case e of
        SyncUSDT now k ok mark \<Rightarrow> filter ok (take k (USDTWaiting ch now rows))
      | Usdt_page_asks sn t \<Rightarrow> [sn]
      | _ \<Rightarrow> [])"

fun usdt_rota_step :: "(int \<Rightarrow> string option) \<Rightarrow> usdt_event \<Rightarrow> usdt_row list \<Rightarrow> usdt_row list" where
  "usdt_rota_step ch (Usdt_fresh r) rows =
     (if ur_id r \<in> ur_id ` set rows \<or> ur_sn r \<in> ur_sn ` set rows \<or> ur_invoice r then rows else rows @ [r])"
| "usdt_rota_step ch (Usdt_invoiced i) rows =
     map (\<lambda>r. if ur_id r = i \<and> ur_status r = 1 then r\<lparr>ur_invoice := True\<rparr> else r) rows"
| "usdt_rota_step ch (Usdt_expired i) rows =
     map (\<lambda>r. if ur_id r = i \<and> ur_status r = 1 then r\<lparr>ur_status := -1\<rparr> else r) rows"
| "usdt_rota_step ch (Usdt_left i st) rows =
     map (\<lambda>r. if ur_id r = i \<and> st \<noteq> 1 \<and> st \<noteq> -1 then r\<lparr>ur_status := st\<rparr> else r) rows"
| "usdt_rota_step ch (Usdt_page_asks sn t) rows = MarkUSDTPolled sn t rows"
| "usdt_rota_step ch (SyncUSDT now k ok mark) rows =
     foldl (\<lambda>rows sn. MarkUSDTPolled sn (mark sn) rows) rows (filter ok (take k (USDTWaiting ch now rows)))"

fun usdt_asked_in :: "(int \<Rightarrow> string option) \<Rightarrow> usdt_row list \<Rightarrow> usdt_event list \<Rightarrow> string list" where
  "usdt_asked_in ch rows [] = []"
| "usdt_asked_in ch rows (e # es) = usdt_asks ch e rows @ usdt_asked_in ch (usdt_rota_step ch e rows) es"

section \<open>Nobody starves\<close>

definition usdt_keyed :: "usdt_row list \<Rightarrow> bool" where
  "usdt_keyed rows \<longleftrightarrow> distinct (map ur_id rows) \<and> distinct (map ur_sn rows)"

lemma usdt_keyed_map: "(\<And>r. ur_id (f r) = ur_id r \<and> ur_sn (f r) = ur_sn r) \<Longrightarrow> usdt_keyed (map f rows) = usdt_keyed rows"
  by (simp add: usdt_keyed_def o_def)

lemma usdt_mark_all:
  "foldl (\<lambda>rows sn. MarkUSDTPolled sn (mark sn) rows) rows sns =
     map (\<lambda>r. if ur_sn r \<in> set sns then r\<lparr>ur_polled := Some (mark (ur_sn r))\<rparr> else r) rows"
proof (induction sns arbitrary: rows)
  case (Cons sn sns)
  then show ?case by (auto simp: MarkUSDTPolled_def)
qed simp

lemma usdt_keyed_step: "usdt_keyed rows \<Longrightarrow> usdt_keyed (usdt_rota_step ch e rows)"
proof (cases e)
  case (Usdt_fresh r)
  then show "usdt_keyed rows \<Longrightarrow> usdt_keyed (usdt_rota_step ch e rows)" by (auto simp: usdt_keyed_def)
next
  case (SyncUSDT now k ok mark)
  then show "usdt_keyed rows \<Longrightarrow> usdt_keyed (usdt_rota_step ch e rows)" by (simp only: usdt_rota_step.simps usdt_mark_all) (simp add: usdt_keyed_map)
qed (simp_all add: usdt_mark_all usdt_keyed_map MarkUSDTPolled_def)

definition before :: "(int \<Rightarrow> string option) \<Rightarrow> int \<Rightarrow> usdt_row \<Rightarrow> usdt_row \<Rightarrow> bool" where
  "before ch start x r \<longleftrightarrow> usdt_open ch start r \<and> usdt_key r < usdt_key x"

definition all_before :: "(int \<Rightarrow> string option) \<Rightarrow> int \<Rightarrow> usdt_row \<Rightarrow> usdt_row list \<Rightarrow> nat" where
  "all_before ch start x rows = length (filter (before ch start x) rows)"

text \<open>What may happen while \<open>x\<close> waits: passes manage \<open>p\<close> orders, marks are later than that of \<open>x\<close>, which stays.\<close>

fun usdt_attends :: "nat \<Rightarrow> int \<Rightarrow> usdt_row \<Rightarrow> usdt_event \<Rightarrow> bool" where
  "usdt_attends p start x (SyncUSDT now k ok mark) \<longleftrightarrow>
     p \<le> k \<and> (\<forall>sn. ok sn \<and> ur_polled x < Some (mark sn)) \<and> start \<le> now \<and> now - 48 * 3600 < ur_created x"
| "usdt_attends p start x (Usdt_page_asks sn t) \<longleftrightarrow> ur_polled x < Some t"
| "usdt_attends p start x (Usdt_left i st) \<longleftrightarrow> i \<noteq> ur_id x"
| "usdt_attends p start x e \<longleftrightarrow> True"

fun is_sync :: "usdt_event \<Rightarrow> bool" where
  "is_sync (SyncUSDT now k ok mark) \<longleftrightarrow> True"
| "is_sync e \<longleftrightarrow> False"

fun is_invoiced :: "usdt_event \<Rightarrow> bool" where
  "is_invoiced (Usdt_invoiced i) \<longleftrightarrow> True"
| "is_invoiced e \<longleftrightarrow> False"

text \<open>\<open>x\<close> is still there, expired or not.\<close>

definition there :: "usdt_row \<Rightarrow> usdt_row list \<Rightarrow> bool" where
  "there x rows \<longleftrightarrow> x \<in> set rows \<or> x\<lparr>ur_status := -1\<rparr> \<in> set rows"

lemma there_row:
  assumes "there x rows" "ur_status x = 1 \<or> ur_status x = -1"
  obtains y where "y \<in> set rows" "usdt_key y = usdt_key x" "ur_sn y = ur_sn x" "ur_id y = ur_id x" "ur_polled y = ur_polled x"
    "ur_created y = ur_created x" "\<And>now. usdt_open ch now y = usdt_open ch now x"
  using assms that [of x] that [of "x\<lparr>ur_status := -1\<rparr>"] unfolding there_def by (auto simp: usdt_key_def usdt_open_def)

lemma there_map:
  assumes "there x rows" "f x = x \<or> f x = x\<lparr>ur_status := -1\<rparr>" "f (x\<lparr>ur_status := -1\<rparr>) = x\<lparr>ur_status := -1\<rparr>"
  shows "there x (map f rows)"
  using assms unfolding there_def by (auto simp: image_iff) metis+

lemma there_step:
  assumes "there x rows" "ur_status x = 1 \<or> ur_status x = -1" "ur_invoice x" "usdt_attends p start x e"
    "ur_sn x \<notin> set (usdt_asks ch e rows)"
  shows "there x (usdt_rota_step ch e rows)"
proof (cases e)
  case (Usdt_fresh r)
  then show ?thesis using assms(1) by (auto simp: there_def)
next
  case (Usdt_invoiced i)
  have "x\<lparr>ur_invoice := True\<rparr> = x" using assms(3) by (cases x) simp
  then show ?thesis using Usdt_invoiced assms(1) by (auto intro: there_map)
next
  case (SyncUSDT now k ok mark)
  then show ?thesis unfolding SyncUSDT usdt_rota_step.simps usdt_mark_all
    using assms(5) by (intro there_map [OF assms(1)]) (auto simp: SyncUSDT usdt_asks_def)
qed (use assms in \<open>auto simp: MarkUSDTPolled_def usdt_asks_def intro!: there_map [OF assms(1)]\<close>)

lemma before_marked:
  assumes "\<And>sn. sn \<in> S \<Longrightarrow> ur_polled x < Some (mark sn)"
  shows "all_before ch start x (map (\<lambda>r. if ur_sn r \<in> S then r\<lparr>ur_polled := Some (mark (ur_sn r))\<rparr> else r) rows)
    = length (filter (\<lambda>r. before ch start x r \<and> ur_sn r \<notin> S) rows)"
proof -
  have "before ch start x (if ur_sn r \<in> S then r\<lparr>ur_polled := Some (mark (ur_sn r))\<rparr> else r)
      \<longleftrightarrow> before ch start x r \<and> ur_sn r \<notin> S" for r
    using assms [of "ur_sn r"] by (auto simp: before_def usdt_key_def usdt_open_def)
  then show ?thesis by (simp add: all_before_def filter_map o_def)
qed

lemma sync_takes:
  assumes "usdt_keyed rows" "there x rows" "usdt_open ch start x" "p \<le> 100" "usdt_attends p start x e" "is_sync e"
    "ur_sn x \<notin> set (usdt_asks ch e rows)"
  shows "all_before ch start x (usdt_rota_step ch e rows) + p \<le> all_before ch start x rows"
proof -
  obtain now k ok mark where e: "e = SyncUSDT now k ok mark" using assms(6) by (cases e) auto
  have now: "start \<le> now" "now - 48 * 3600 < ur_created x" and pk: "p \<le> k" and ok: "\<And>sn. ok sn"
    and later: "\<And>sn. ur_polled x < Some (mark sn)"
    using assms(5) by (simp_all add: e)
  let ?T = "set (usdt_asks ch e rows)" and ?s = "sort_key usdt_key (filter (usdt_open ch now) rows)"
  have T: "?T = set (map ur_sn (take k (take 100 ?s)))" using ok by (simp add: e usdt_asks_def USDTWaiting_def take_map)
  obtain y where y: "y \<in> set rows" "usdt_key y = usdt_key x" "ur_sn y = ur_sn x" "usdt_open ch now y = usdt_open ch now x"
    using there_row [OF assms(2)] assms(3) by (metis usdt_open_def)
  have "p \<le> length (filter (\<lambda>r. usdt_open ch now r \<and> usdt_key r < usdt_key y \<and> r \<in> {r. ur_sn r \<in> ?T}) rows)"
  proof (rule front_of_sorted)
    show "distinct rows" using assms(1) by (simp add: usdt_keyed_def distinct_map)
    show "usdt_open ch now y" using y(4) assms(3) now(2) by (simp add: usdt_open_def)
    show "y \<notin> {r. ur_sn r \<in> ?T}" using y(3) assms(7) by simp
    show "r = y" if "r \<in> set rows" "usdt_key r = usdt_key y" for r
      using that y(1) assms(1) by (auto simp: usdt_key_def usdt_keyed_def distinct_map inj_on_def)
    show "r \<in> {r. ur_sn r \<in> ?T}" if "r \<in> set (take p ?s)" for r
    proof -
      have "take p ?s = take p (take k (take 100 ?s))" using pk assms(4) by (simp add: min_def)
      then show ?thesis using that T in_set_takeD by fastforce
    qed
  qed (rule y(1))
  also have "\<dots> \<le> length (filter (\<lambda>r. before ch start x r \<and> ur_sn r \<in> ?T) rows)"
    using now(1) y(2) by (intro filter_shorter) (auto simp: before_def usdt_open_def)
  finally have p: "p \<le> length (filter (\<lambda>r. before ch start x r \<and> ur_sn r \<in> ?T) rows)" .
  have "usdt_rota_step ch e rows = map (\<lambda>r. if ur_sn r \<in> ?T then r\<lparr>ur_polled := Some (mark (ur_sn r))\<rparr> else r) rows"
    unfolding e usdt_rota_step.simps usdt_mark_all by (simp add: usdt_asks_def)
  then have "all_before ch start x (usdt_rota_step ch e rows) = length (filter (\<lambda>r. before ch start x r \<and> ur_sn r \<notin> ?T) rows)"
    using before_marked [of ?T x mark ch start rows] later by simp
  then show ?thesis using p sum_length_filter_compl [of "\<lambda>r. ur_sn r \<in> ?T" "filter (before ch start x) rows"]
    by (simp add: all_before_def conj_commute)
qed

lemma before_map:
  assumes "\<And>r. r \<in> set rows \<Longrightarrow> before ch start x (f r) \<Longrightarrow> before ch start x r"
  shows "all_before ch start x (map f rows) \<le> all_before ch start x rows"
  unfolding all_before_def length_filter_map using assms by (intro filter_shorter) auto

lemma before_invoiced:
  assumes "usdt_keyed rows"
  shows "all_before ch start x (map (\<lambda>r. if ur_id r = i \<and> ur_status r = 1 then r\<lparr>ur_invoice := True\<rparr> else r) rows)
    \<le> Suc (all_before ch start x rows)"
  using assms
proof (induction rows)
  case (Cons a rows)
  show ?case
  proof (cases "ur_id a = i")
    case True
    then have "ur_id r \<noteq> i" if "r \<in> set rows" for r using Cons.prems that True by (simp add: usdt_keyed_def) (metis image_eqI)
    then have "map (\<lambda>r. if ur_id r = i \<and> ur_status r = 1 then r\<lparr>ur_invoice := True\<rparr> else r) rows = rows" by (intro map_idI) simp
    then show ?thesis by (simp add: all_before_def)
  next
    case False
    then show ?thesis using Cons by (simp add: all_before_def usdt_keyed_def)
  qed
qed (simp add: all_before_def)

lemma others_bring:
  assumes "usdt_keyed rows" "usdt_attends p start x e" "\<not> is_sync e"
  shows "all_before ch start x (usdt_rota_step ch e rows) \<le> all_before ch start x rows + (if is_invoiced e then 1 else 0)"
proof (cases e)
  case (Usdt_fresh r)
  then show ?thesis by (simp add: all_before_def before_def usdt_open_def)
next
  case (Usdt_invoiced i)
  then show ?thesis using before_invoiced [OF assms(1)] by simp
next
  case (Usdt_page_asks sn t)
  have "all_before ch start x (map (\<lambda>r. if ur_sn r \<in> {sn} then r\<lparr>ur_polled := Some ((\<lambda>_. t) (ur_sn r))\<rparr> else r) rows)
      \<le> all_before ch start x rows"
    using assms(2) before_marked [of "{sn}" x "\<lambda>_. t" ch start rows]
    by (simp add: Usdt_page_asks) (simp add: all_before_def, rule filter_shorter, simp)
  then show ?thesis by (simp add: Usdt_page_asks MarkUSDTPolled_def)
next
  case (SyncUSDT now k ok mark)
  then show ?thesis using assms(3) by simp
qed (auto intro!: before_map simp: before_def usdt_open_def usdt_key_def split: if_splits)

interpretation usdt_rota: fair_rota "usdt_rota_step ch" "\<lambda>e rows. ur_sn x \<in> set (usdt_asks ch e rows)" "all_before ch start x"
  "\<lambda>rows. usdt_keyed rows \<and> there x rows \<and> usdt_open ch start x \<and> p \<le> 100" "usdt_attends p start x" is_sync is_invoiced p
  for ch x start p
proof
  fix rows e
  assume fine: "usdt_keyed rows \<and> there x rows \<and> usdt_open ch start x \<and> p \<le> 100"
    and may: "usdt_attends p start x e" "ur_sn x \<notin> set (usdt_asks ch e rows)"
  have "there x (usdt_rota_step ch e rows)"
    using fine may by (intro there_step) (auto simp: usdt_open_def)
  then show "usdt_keyed (usdt_rota_step ch e rows) \<and> there x (usdt_rota_step ch e rows) \<and> usdt_open ch start x \<and> p \<le> 100"
    using fine usdt_keyed_step by blast
  show "all_before ch start x (usdt_rota_step ch e rows) + p \<le> all_before ch start x rows" if "is_sync e"
    using sync_takes fine may that by blast
  show "all_before ch start x (usdt_rota_step ch e rows) \<le> all_before ch start x rows + (if is_invoiced e then 1 else 0)"
    if "\<not> is_sync e"
    using others_bring fine may(1) that by blast
qed

lemma usdt_asked_along:
  "asked_along (usdt_rota_step ch) (\<lambda>e rows. sn \<in> set (usdt_asks ch e rows)) rows es \<longleftrightarrow> sn \<in> set (usdt_asked_in ch rows es)"
  by (induction es arbitrary: rows) simp_all

text \<open>
  An order with an invoice is asked about as soon as the passes that manage \<open>p\<close> orders each have gone
  through the orders ahead of it and those that got an invoice meanwhile.
\<close>

theorem usdt_payments_are_asked_about:
  assumes "usdt_keyed rows" "x \<in> set rows" "usdt_open ch start x" "p \<le> 100" "list_all (usdt_attends p start x) es"
    and "all_before ch start x rows + length (filter is_invoiced es) < p * length (filter is_sync es)"
  shows "ur_sn x \<in> set (usdt_asked_in ch rows es)"
proof -
  have "length (filter (\<lambda>e. is_invoiced e \<and> \<not> is_sync e) es) \<le> length (filter is_invoiced es)"
    by (rule filter_shorter) simp
  then have "asked_along (usdt_rota_step ch) (\<lambda>e rows. ur_sn x \<in> set (usdt_asks ch e rows)) rows es"
    using assms by (intro usdt_rota.asked_in_the_end [where start = start and p = p]) (auto simp: there_def)
  then show ?thesis by (simp add: usdt_asked_along)
qed

end
